(* ===== verification/Prelude.thy ===== *)
theory Prelude
  imports "HOL-Library.Word" "HOL-Library.Monad_Syntax"
begin

unbundle bit_operations_syntax

text \<open>
  Shared vocabulary of the development: the integer types and constants of
  \<^verbatim>\<open>include/types.h\<close>, the parts of the C library that the sources rely on
  (\<^verbatim>\<open>memcmp\<close>, \<^verbatim>\<open>strncpy\<close>, \<^verbatim>\<open>strncmp\<close>, \<^verbatim>\<open>strncasecmp\<close>,
  \<^verbatim>\<open>atoi\<close>, decimal formatting), and the generic list lemmas the components share.

  Conventions used everywhere:
  \<^item> a machine integer is a word of its C width; the platform is the i386 ABI the program was
    written for (little endian, 32-bit \<^verbatim>\<open>int\<close>, \<^verbatim>\<open>long\<close> and
    \<^verbatim>\<open>time_t\<close>);
  \<^item> a fixed-size character array is a \<^typ>\<open>string\<close> of that length, padding and
    stale bytes included; \<open>cstr\<close> reads the C string it holds;
  \<^item> \<open>None\<close> as the result of an operation of type \<open>'a option\<close> stands for undefined
    behaviour: a dereferenced null or freed pointer, or an access out of range.
\<close>

named_theorems cmodel_simps \<open>equations of the C library model\<close>
named_theorems first_simps \<open>lemmas on the first list element with a property\<close>

section \<open>Types and constants of types.h\<close>

type_synonym IP_addr = "32 word"
type_synonym IP_mask = "8 word"
type_synonym IP_ports = "32 word"
type_synonym IP_port = "16 word"
type_synonym IP_proto = "8 word"
type_synonym IP_size = "32 word"
type_synonym IP_bigsize = "64 word"
type_synonym IP_flag = "8 word"
type_synonym IP_id = "32 word"
type_synonym gboolean = int
type_synonym time_t = int
type_synonym byte = "8 word"
type_synonym addr = nat

definition PROTO_ALL :: IP_proto where "PROTO_ALL = 255"
definition CONST_NEXT :: IP_flag where "CONST_NEXT = 1"
definition CONST_SUM :: IP_flag where "CONST_SUM = 2"
definition SERVICE_TRAFFIC :: IP_id where "SERVICE_TRAFFIC = 1"
definition SERVICE_SQUID :: IP_id where "SERVICE_SQUID = 2"
definition TRAFFIC_IN :: IP_flag where "TRAFFIC_IN = 1"
definition TRAFFIC_OUT :: IP_flag where "TRAFFIC_OUT = 2"
definition TRAFFIC_ALL :: IP_flag where "TRAFFIC_ALL = 3"

lemmas types_h_defs =
  PROTO_ALL_def CONST_NEXT_def CONST_SUM_def SERVICE_TRAFFIC_def SERVICE_SQUID_def
  TRAFFIC_IN_def TRAFFIC_OUT_def TRAFFIC_ALL_def

lemma service_distinct [simp]: "SERVICE_TRAFFIC \<noteq> SERVICE_SQUID" "SERVICE_SQUID \<noteq> SERVICE_TRAFFIC"
  by (simp_all add: types_h_defs)

section \<open>Memory: byte representations and memcmp\<close>

text \<open>The bytes of an \<open>n\<close>-byte integer in memory, lowest address first.\<close>

definition le_bytes :: "nat \<Rightarrow> 'a::len word \<Rightarrow> byte list" where
  "le_bytes n w = map (\<lambda>i. ucast (drop_bit (8 * i) w)) [0..<n]"

lemma length_le_bytes [simp]: "length (le_bytes n w) = n"
  by (simp add: le_bytes_def)

lemma nth_le_bytes: "i < n \<Longrightarrow> le_bytes n w ! i = ucast (drop_bit (8 * i) w)"
  by (simp add: le_bytes_def)

lemma bit_le_bytes:
  "i < n \<Longrightarrow> j < 8 \<Longrightarrow> bit (le_bytes n w ! i) j = bit w (8 * i + j)"
  by (simp add: nth_le_bytes bit_unsigned_iff bit_drop_bit_eq)

lemma le_bytes_inject:
  fixes v w :: "'a::len word"
  assumes "LENGTH('a) \<le> 8 * n" and eq: "le_bytes n v = le_bytes n w"
  shows "v = w"
proof (rule bit_word_eqI)
  fix k assume k: "k < LENGTH('a)"
  then have "k div 8 < n" using assms(1) by arith
  moreover have "k mod 8 < 8" by simp
  ultimately have "bit v (8 * (k div 8) + k mod 8) = bit w (8 * (k div 8) + k mod 8)"
    using eq bit_le_bytes [of "k div 8" n "k mod 8" v] bit_le_bytes [of "k div 8" n "k mod 8" w]
    by simp
  then show "bit v k = bit w k" by simp
qed

text \<open>\<^verbatim>\<open>memcmp\<close> on two regions of the same length; only the sign is used by its callers.\<close>

fun memcmp :: "byte list \<Rightarrow> byte list \<Rightarrow> int" where
  "memcmp (x # xs) (y # ys) = (if x = y then memcmp xs ys else if x < y then -1 else 1)"
| "memcmp _ _ = 0"

lemma memcmp_refl [simp]: "memcmp xs xs = 0"
  by (induction xs) auto

lemma memcmp_eq_0: "length xs = length ys \<Longrightarrow> memcmp xs ys = 0 \<longleftrightarrow> xs = ys"
  by (induction xs ys rule: list_induct2) auto

lemma memcmp_antisym: "length xs = length ys \<Longrightarrow> memcmp xs ys < 0 \<longleftrightarrow> 0 < memcmp ys xs"
  by (induction xs ys rule: list_induct2) auto

lemma memcmp_trans:
  "length xs = length ys \<Longrightarrow> length ys = length zs \<Longrightarrow>
   memcmp xs ys < 0 \<Longrightarrow> memcmp ys zs < 0 \<Longrightarrow> memcmp xs zs < 0"
  by (induction xs ys zs rule: list_induct3) (auto split: if_splits)

section \<open>Comparison functions\<close>

text \<open>
  What the ordered containers ask of an \<^verbatim>\<open>ICompareFunc\<close>: it is the sign of a total
  order in which only equal keys compare as 0.
\<close>

locale comparator =
  fixes cmp :: "'k \<Rightarrow> 'k \<Rightarrow> int"
  assumes cmp_eq: "cmp a b = 0 \<longleftrightarrow> a = b"
    and cmp_less_sym: "cmp a b < 0 \<longleftrightarrow> 0 < cmp b a"
    and cmp_less_trans: "cmp a b < 0 \<Longrightarrow> cmp b c < 0 \<Longrightarrow> cmp a c < 0"
begin

lemma cmp_refl: "cmp a a = 0"
  by (simp add: cmp_eq)

lemma cmp_not_less: "\<not> cmp a b < 0 \<Longrightarrow> cmp a b \<noteq> 0 \<Longrightarrow> cmp b a < 0"
  using cmp_less_sym [of b a] by linarith

lemma cmp_less_irrefl: "\<not> cmp a a < 0"
  by (simp add: cmp_refl)

lemma cmp_less_asym: "cmp a b < 0 \<Longrightarrow> \<not> cmp b a < 0"
  using cmp_less_sym [of a b] by linarith

end

text \<open>Comparing keys through \<^verbatim>\<open>memcmp\<close> on an injective fixed-length encoding.\<close>

lemma comparator_memcmp:
  assumes len: "\<And>a. length (enc a) = n" and inj: "\<And>a b. enc a = enc b \<Longrightarrow> a = b"
  shows "comparator (\<lambda>a b. memcmp (enc a) (enc b))"
proof
  fix a b c
  show "memcmp (enc a) (enc b) = 0 \<longleftrightarrow> a = b"
    using memcmp_eq_0 [of "enc a" "enc b"] len inj by auto
  show "memcmp (enc a) (enc b) < 0 \<longleftrightarrow> 0 < memcmp (enc b) (enc a)"
    by (rule memcmp_antisym) (simp add: len)
  show "memcmp (enc a) (enc b) < 0 \<Longrightarrow> memcmp (enc b) (enc c) < 0 \<Longrightarrow> memcmp (enc a) (enc c) < 0"
    by (rule memcmp_trans) (simp_all add: len)
qed

section \<open>Characters, strings and fixed-size buffers\<close>

definition NUL :: char where "NUL = CHR 0x00"

definition char_code :: "char \<Rightarrow> nat" where "char_code c = of_char c"

text \<open>The C string held by a buffer: everything before the first null byte.\<close>

definition cstr :: "string \<Rightarrow> string" where
  "cstr b = takeWhile (\<lambda>c. c \<noteq> NUL) b"

text \<open>
  \<^verbatim>\<open>strncpy(dst, src, n)\<close>: exactly \<open>n\<close> bytes of \<open>dst\<close> are written, padded with
  null bytes when \<open>src\<close> is shorter, and no terminator when it is not.
\<close>

definition strncpy :: "string \<Rightarrow> string \<Rightarrow> nat \<Rightarrow> string" where
  "strncpy dst src n = take n (cstr src @ replicate n NUL) @ drop n dst"

lemma length_strncpy [simp]: "n \<le> length dst \<Longrightarrow> length (strncpy dst src n) = length dst"
  by (simp add: strncpy_def)

lemma cstr_no_NUL [simp]: "NUL \<notin> set (cstr b)"
  by (auto simp: cstr_def dest: set_takeWhileD)

lemma cstr_ident: "NUL \<notin> set s \<Longrightarrow> cstr s = s"
  by (auto simp: cstr_def takeWhile_eq_all_conv)

lemma cstr_append: "NUL \<notin> set s \<Longrightarrow> cstr (s @ NUL # t) = s"
  by (auto simp: cstr_def takeWhile_append)

lemma cstr_append_replicate:
  assumes "NUL \<notin> set s" and "0 < k"
  shows "cstr (s @ replicate k NUL @ t) = s"
  using assms by (cases k) (simp_all add: cstr_append)

lemma cstr_strncpy:
  assumes "length (cstr src) < n"
  shows "cstr (strncpy dst src n) = cstr src"
proof -
  have "take n (cstr src @ replicate n NUL) = cstr src @ replicate (n - length (cstr src)) NUL"
    using assms by simp
  then show ?thesis
    using assms by (simp add: strncpy_def cstr_append_replicate)
qed

text \<open>
  The first byte of a C string: the terminator, when the string is exhausted. All comparison
  functions of the library read their arguments through it.
\<close>

fun chd :: "string \<Rightarrow> char" where
  "chd [] = NUL"
| "chd (c # cs) = c"

fun strncmp :: "string \<Rightarrow> string \<Rightarrow> nat \<Rightarrow> int" where
  "strncmp s t 0 = 0"
| "strncmp s t (Suc n) =
     (if chd s \<noteq> chd t then (if char_code (chd s) < char_code (chd t) then -1 else 1)
      else if chd s = NUL then 0
      else strncmp (tl s) (tl t) n)"

definition tolower :: "char \<Rightarrow> char" where
  "tolower c = (if 65 \<le> char_code c \<and> char_code c \<le> 90 then char_of (char_code c + 32) else c)"

fun strncasecmp :: "string \<Rightarrow> string \<Rightarrow> nat \<Rightarrow> int" where
  "strncasecmp s t 0 = 0"
| "strncasecmp s t (Suc n) =
     (if tolower (chd s) \<noteq> tolower (chd t)
      then (if char_code (tolower (chd s)) < char_code (tolower (chd t)) then -1 else 1)
      else if chd s = NUL then 0
      else strncasecmp (tl s) (tl t) n)"

lemma strncmp_refl [simp]: "strncmp s s n = 0"
  by (induction n arbitrary: s) auto

lemma strncasecmp_refl [simp]: "strncasecmp s s n = 0"
  by (induction n arbitrary: s) auto

lemma cstr_simps [simp]:
  "cstr [] = []" "cstr (c # cs) = (if c = NUL then [] else c # cstr cs)"
  by (simp_all add: cstr_def)

lemma cstr_take: "cstr (take n s) = take n (cstr s)"
  by (induction s arbitrary: n) (auto simp: take_Cons split: nat.splits)

lemma strncmp_eq_0: "strncmp s t n = 0 \<longleftrightarrow> take n (cstr s) = take n (cstr t)"
proof (induction n arbitrary: s t)
  case 0
  show ?case by simp
next
  case (Suc n)
  then show ?case by (cases s; cases t) auto
qed

lemma tolower_NUL_iff: "tolower c = NUL \<longleftrightarrow> c = NUL"
proof
  assume *: "tolower c = NUL"
  show "c = NUL"
  proof (cases "65 \<le> char_code c \<and> char_code c \<le> 90")
    case True
    then have "char_code (tolower c) = char_code c + 32"
      by (simp add: tolower_def char_code_def of_char_of)
    with True * show ?thesis by (simp add: NUL_def char_code_def)
  next
    case False
    with * show ?thesis by (auto simp: tolower_def split: if_splits)
  qed
qed (simp add: tolower_def NUL_def char_code_def)

lemma strncasecmp_eq_0:
  "strncasecmp s t n = 0 \<longleftrightarrow> map tolower (take n (cstr s)) = map tolower (take n (cstr t))"
proof (induction n arbitrary: s t)
  case 0
  show ?case by simp
next
  case (Suc n)
  have [simp]: "tolower NUL = NUL" by (simp add: tolower_NUL_iff)
  have [simp]: "NUL = tolower c \<longleftrightarrow> c = NUL" "tolower c = NUL \<longleftrightarrow> c = NUL" for c
    using tolower_NUL_iff [of c] by auto
  show ?case using Suc by (cases s; cases t) auto
qed

section \<open>Decimal numbers\<close>

definition isdigit :: "char \<Rightarrow> bool" where
  "isdigit c \<longleftrightarrow> 48 \<le> char_code c \<and> char_code c \<le> 57"

definition isspace :: "char \<Rightarrow> bool" where
  "isspace c \<longleftrightarrow> char_code c = 32 \<or> (9 \<le> char_code c \<and> char_code c \<le> 13)"

definition digit_char :: "nat \<Rightarrow> char" where
  "digit_char d = char_of (48 + d)"

fun show_nat :: "nat \<Rightarrow> string" where
  "show_nat n = (if n < 10 then [digit_char n] else show_nat (n div 10) @ [digit_char (n mod 10)])"

declare show_nat.simps [simp del]

text \<open>\<^verbatim>\<open>%u\<close> and \<^verbatim>\<open>%d\<close> of an integer argument.\<close>

definition fmt_u :: "'a::len word \<Rightarrow> string" where
  "fmt_u w = show_nat (unat w)"

definition fmt_int :: "int \<Rightarrow> string" where
  "fmt_int i = (if i < 0 then CHR ''-'' # show_nat (nat (- i)) else show_nat (nat i))"

definition fmt_d :: "'a::len word \<Rightarrow> string" where
  "fmt_d w = fmt_int (sint w)"

fun digits_val :: "int \<Rightarrow> string \<Rightarrow> int" where
  "digits_val acc [] = acc"
| "digits_val acc (c # cs) =
     (if isdigit c then digits_val (10 * acc + (int (char_code c) - 48)) cs else acc)"

text \<open>
  \<^verbatim>\<open>strtol\<close> to base 10: leading white space, an optional sign, digits; out of range it
  saturates at the bounds of its type. \<^verbatim>\<open>atoi\<close> and \<^verbatim>\<open>atol\<close> are the
  32-bit instance, \<^verbatim>\<open>atoll\<close> the 64-bit one.
\<close>

definition signed_val :: "string \<Rightarrow> int" where
  "signed_val s =
     (let t = dropWhile isspace s
      in if chd t = CHR ''-'' then - digits_val 0 (tl t)
         else if chd t = CHR ''+'' then digits_val 0 (tl t)
         else digits_val 0 t)"

definition saturate :: "nat \<Rightarrow> int \<Rightarrow> int" where
  "saturate w i = max (- (2 ^ (w - 1))) (min (2 ^ (w - 1) - 1) i)"

definition atoi :: "string \<Rightarrow> int" where
  "atoi s = saturate 32 (signed_val s)"

definition atoll :: "string \<Rightarrow> int" where
  "atoll s = saturate 64 (signed_val s)"

lemma char_code_digit: "d < 10 \<Longrightarrow> char_code (digit_char d) = 48 + d"
  by (simp add: char_code_def digit_char_def of_char_of)

lemma isdigit_digit_char [simp]: "d < 10 \<Longrightarrow> isdigit (digit_char d)"
  by (simp add: isdigit_def char_code_digit)

lemma show_nat_digits: "c \<in> set (show_nat n) \<Longrightarrow> isdigit c"
proof (induction n rule: show_nat.induct)
  case (1 n)
  then show ?case
    by (cases "n < 10") (auto simp: show_nat.simps [of n])
qed

lemma show_nat_not_Nil [simp]: "show_nat n \<noteq> []"
  by (simp add: show_nat.simps)

lemma length_show_nat: "n < 10 ^ k \<Longrightarrow> 0 < k \<Longrightarrow> length (show_nat n) \<le> k"
proof (induction k arbitrary: n)
  case (Suc k)
  show ?case
  proof (cases "n < 10")
    case False
    then have "k \<noteq> 0" using Suc.prems by (intro notI) simp
    moreover have "n div 10 < 10 ^ k" using Suc.prems by (simp add: less_mult_imp_div_less mult.commute)
    ultimately have "length (show_nat (n div 10)) \<le> k" using Suc.IH by simp
    then show ?thesis using False by (simp add: show_nat.simps [of n])
  qed (simp add: show_nat.simps)
qed simp

lemma length_fmt_u: "length (fmt_u (w :: 32 word)) \<le> 10" "length (fmt_u (w16 :: 16 word)) \<le> 5" "length (fmt_u (w8 :: 8 word)) \<le> 3"
  using length_show_nat [of "unat w" 10] length_show_nat [of "unat w16" 5] length_show_nat [of "unat w8" 3]
    unsigned_less [of w, where 'a = nat] unsigned_less [of w16, where 'a = nat] unsigned_less [of w8, where 'a = nat]
  by (simp_all add: fmt_u_def)

lemma length_fmt_d: "length (fmt_d (w :: 32 word)) \<le> 11"
proof -
  have "- (2 ^ 31) \<le> sint w" "sint w < 2 ^ 31" using sint_greater_eq [of w] sint_less [of w] by simp_all
  then have "nat (- sint w) < 10 ^ 10" "nat (sint w) < 10 ^ 10" by auto
  then show ?thesis
    using length_show_nat [of "nat (- sint w)" 10] length_show_nat [of "nat (sint w)" 10]
    by (simp add: fmt_d_def fmt_int_def)
qed

lemma digits_val_append:
  "(\<And>c. c \<in> set s \<Longrightarrow> isdigit c) \<Longrightarrow> digits_val acc (s @ t) = digits_val (digits_val acc s) t"
  by (induction s arbitrary: acc) auto

lemma digits_val_show_nat: "digits_val 0 (show_nat n) = int n"
proof (induction n rule: show_nat.induct)
  case (1 n)
  show ?case
  proof (cases "n < 10")
    case True
    then show ?thesis by (simp add: show_nat.simps [of n] char_code_digit)
  next
    case False
    with 1 have IH: "digits_val 0 (show_nat (n div 10)) = int (n div 10)" by simp
    have "digits_val 0 (show_nat n) =
        digits_val (digits_val 0 (show_nat (n div 10))) [digit_char (n mod 10)]"
      using False by (simp add: show_nat.simps [of n] digits_val_append show_nat_digits)
    also have "\<dots> = int (10 * (n div 10) + n mod 10)"
      unfolding of_nat_add by (simp add: IH char_code_digit)
    also have "\<dots> = int n" by simp
    finally show ?thesis .
  qed
qed

lemma digit_not_space: "isdigit c \<Longrightarrow> \<not> isspace c"
  by (auto simp: isdigit_def isspace_def)

lemma digit_not_sign: "isdigit c \<Longrightarrow> c \<noteq> CHR ''-'' \<and> c \<noteq> CHR ''+''"
  by (auto simp: isdigit_def char_code_def)

lemma digit_not_NUL: "isdigit c \<Longrightarrow> c \<noteq> NUL"
  by (auto simp: isdigit_def char_code_def NUL_def)

lemma signed_val_digits:
  assumes "s \<noteq> []" and "\<And>c. c \<in> set s \<Longrightarrow> isdigit c"
  shows "signed_val (s @ t) = digits_val 0 (s @ t)"
proof (cases s)
  case (Cons c cs)
  with assms(2) have "isdigit c" by simp
  then show ?thesis
    using digit_not_sign [of c] digit_not_space [of c] Cons by (simp add: signed_val_def Let_def)
qed (use assms(1) in simp)

lemma atoi_show_nat: "n < 2 ^ 31 \<Longrightarrow> atoi (show_nat n) = int n"
  using signed_val_digits [of "show_nat n" "[]"]
  by (simp add: atoi_def show_nat_digits digits_val_show_nat saturate_def)

lemma atoi_range: "- (2 ^ 31) \<le> atoi s \<and> atoi s < 2 ^ 31"
  by (simp add: atoi_def saturate_def)

section \<open>The first element with a property\<close>

text \<open>
  The components keep their nodes in a \<^verbatim>\<open>GList\<close> and work on the first node that matches a
  key: find it (\<^const>\<open>List.find\<close>), update it in place, or unlink it.
\<close>

primrec update_first :: "('a \<Rightarrow> bool) \<Rightarrow> ('a \<Rightarrow> 'a) \<Rightarrow> 'a list \<Rightarrow> 'a list" where
  "update_first P f [] = []"
| "update_first P f (x # xs) = (if P x then f x # xs else x # update_first P f xs)"

primrec remove_first :: "('a \<Rightarrow> bool) \<Rightarrow> 'a list \<Rightarrow> 'a list" where
  "remove_first P [] = []"
| "remove_first P (x # xs) = (if P x then xs else x # remove_first P xs)"

lemma length_update_first [simp]: "length (update_first P f xs) = length xs"
  by (induction xs) auto

lemma map_update_first [first_simps]:
  "(\<And>x. g (f x) = g x) \<Longrightarrow> map g (update_first P f xs) = map g xs"
  by (induction xs) auto

lemma find_update_first [first_simps]:
  "(\<And>x. P x \<Longrightarrow> P (f x)) \<Longrightarrow> find P (update_first P f xs) = map_option f (find P xs)"
  by (induction xs) auto

lemma find_update_first_other [first_simps]:
  "(\<And>x. P x \<Longrightarrow> \<not> Q x \<and> \<not> Q (f x)) \<Longrightarrow> find Q (update_first P f xs) = find Q xs"
  by (induction xs) auto

lemma find_key_distinct:
  "distinct (map g xs) \<Longrightarrow> x \<in> set xs \<Longrightarrow> find (\<lambda>y. g y = g x) xs = Some x"
  by (induction xs) auto

lemma update_first_absent [first_simps]: "find P xs = None \<Longrightarrow> update_first P f xs = xs"
  by (induction xs) (auto split: if_splits)

lemma remove_first_absent [first_simps]: "find P xs = None \<Longrightarrow> remove_first P xs = xs"
  by (induction xs) (auto split: if_splits)

lemma set_remove_first: "set (remove_first P xs) \<subseteq> set xs"
  by (induction xs) auto

lemma length_remove_first [first_simps]:
  "find P xs = Some x \<Longrightarrow> Suc (length (remove_first P xs)) = length xs"
  by (induction xs) (auto split: if_splits)

lemma remove_first_distinct:
  "distinct (map g xs) \<Longrightarrow> remove_first (\<lambda>x. g x = k) xs = filter (\<lambda>x. g x \<noteq> k) xs"
proof (induction xs)
  case (Cons a xs)
  then have "g a = k \<Longrightarrow> filter (\<lambda>x. g x \<noteq> k) xs = xs"
    by (auto simp: filter_id_conv image_iff)
  with Cons show ?case by auto
qed simp

lemma find_append [first_simps]:
  "find P (xs @ ys) = (case find P xs of None \<Rightarrow> find P ys | Some x \<Rightarrow> Some x)"
  by (induction xs) auto

lemma find_SomeD: "find P xs = Some x \<Longrightarrow> x \<in> set xs \<and> P x"
  by (induction xs) (auto split: if_splits)

text \<open>A node found in a list and then updated through the pointer is addressed by its position.\<close>

primrec find_index :: "('a \<Rightarrow> bool) \<Rightarrow> 'a list \<Rightarrow> nat option" where
  "find_index P [] = None"
| "find_index P (x # xs) = (if P x then Some 0 else map_option Suc (find_index P xs))"

lemma find_index_None_iff [simp]: "find_index P xs = None \<longleftrightarrow> (\<forall>x \<in> set xs. \<not> P x)"
  by (induction xs) auto

lemma find_index_SomeD:
  "find_index P xs = Some i \<Longrightarrow> i < length xs \<and> P (xs ! i) \<and> (\<forall>j < i. \<not> P (xs ! j))"
proof (induction xs arbitrary: i)
  case (Cons x xs)
  then show ?case by (cases i) (auto split: if_splits simp: nth_Cons' less_Suc_eq_0_disj)
qed simp

lemma find_index_append:
  "find_index P (xs @ ys) = (case find_index P xs of Some i \<Rightarrow> Some i | None \<Rightarrow> map_option ((+) (length xs)) (find_index P ys))"
  by (induction xs) (cases "find_index P ys"; auto simp del: find_index_None_iff split: option.splits)+

lemma find_index_find: "find P xs = map_option (nth xs) (find_index P xs)"
  by (induction xs) (auto simp: option.map_comp comp_def split: option.splits)

lemma find_index_update:
  "find_index P xs = Some i \<Longrightarrow> P x \<Longrightarrow> find_index P (xs[i := x]) = Some i"
proof (induction xs arbitrary: i)
  case (Cons y xs)
  then show ?case by (cases i) (auto split: if_splits)
qed simp

lemma sum_list_update_nat:
  fixes f :: "'a \<Rightarrow> 'b::ab_group_add"
  shows "i < length xs \<Longrightarrow> sum_list (map f (xs[i := x])) = sum_list (map f xs) - f (xs ! i) + f x"
proof (induction xs arbitrary: i)
  case (Cons y xs)
  then show ?case by (cases i) auto
qed simp

end
