(* ===== verification/Glist.thy ===== *)
theory Glist
  imports Prelude "HOL-Library.Multiset"
begin

text \<open>
  The singly linked list of \<^verbatim>\<open>src/glist.c\<close>, on an explicit heap. A cell holds a data pointer and the address of the
  next cell; \<open>0\<close> is \<^verbatim>\<open>NULL\<close>. Every operation follows the pointers the way the C code
  does and returns \<open>None\<close> exactly when it would read or write a cell that is null, never
  allocated or already freed (or would not return at all). The result of a call of
  \<^verbatim>\<open>malloc\<close> is an argument of the operation: \<open>0\<close> when the allocation failed.

  The second half proves that on a heap that holds a proper list each operation returns, and that
  it refines the corresponding operation on the list of data pointers. The last section packages
  these facts as an interface for the components that keep their nodes in such lists.
\<close>

section \<open>Cells and the heap\<close>

type_synonym gpointer = nat

record GList =
  gl_data :: gpointer
  gl_next :: addr

type_synonym heap = "addr \<rightharpoonup> GList"

definition load :: "heap \<Rightarrow> addr \<Rightarrow> GList option" where
  "load h p = (if p = 0 then None else h p)"

definition set_next :: "heap \<Rightarrow> addr \<Rightarrow> addr \<Rightarrow> heap option" where
  "set_next h p q = do { c \<leftarrow> load h p; Some (h(p \<mapsto> c\<lparr>gl_next := q\<rparr>)) }"

definition free_cell :: "heap \<Rightarrow> addr \<Rightarrow> heap option" where
  "free_cell h p = do { _ \<leftarrow> load h p; Some (h(p := None)) }"

section \<open>The operations of glist.c\<close>

partial_function (option) free_loop :: "heap \<Rightarrow> addr \<Rightarrow> heap option" where
  "free_loop h p = do {
     c \<leftarrow> load h p;
     if gl_next c = 0 then Some h
     else do {
       h' \<leftarrow> free_cell h (gl_next c);
       free_loop h' (gl_next c)
     }
   }"

definition g_list_free :: "heap \<Rightarrow> addr \<Rightarrow> heap option" where
  "g_list_free h p = (if p = 0 then Some h else free_loop h p)"

partial_function (option) last_loop :: "heap \<Rightarrow> addr \<Rightarrow> addr option" where
  "last_loop h p = do {
     c \<leftarrow> load h p;
     if gl_next c = 0 then Some p else last_loop h (gl_next c)
   }"

definition g_list_last :: "heap \<Rightarrow> addr \<Rightarrow> addr option" where
  "g_list_last h p = (if p = 0 then Some 0 else last_loop h p)"

definition g_list_append :: "heap \<Rightarrow> addr \<Rightarrow> gpointer \<Rightarrow> addr \<Rightarrow> (heap \<times> addr) option" where
  "g_list_append h p d a =
     (if a = 0 then Some (h, 0)
      else let h1 = h(a \<mapsto> \<lparr>gl_data = d, gl_next = 0\<rparr>)
           in if p \<noteq> 0 then do {
                l \<leftarrow> g_list_last h1 p;
                h2 \<leftarrow> set_next h1 l a;
                Some (h2, p)
              }
              else Some (h1, a))"

definition g_list_prepend :: "heap \<Rightarrow> addr \<Rightarrow> gpointer \<Rightarrow> addr \<Rightarrow> heap \<times> addr" where
  "g_list_prepend h p d a =
     (if a = 0 then (h, 0) else (h(a \<mapsto> \<lparr>gl_data = d, gl_next = p\<rparr>), a))"

text \<open>The loop of \<^verbatim>\<open>g_list_insert\<close>: the cell after which the new one is linked.\<close>

fun insert_walk :: "heap \<Rightarrow> nat \<Rightarrow> addr \<Rightarrow> addr \<Rightarrow> addr option" where
  "insert_walk h 0 prev tmp = Some prev"
| "insert_walk h (Suc k) prev tmp =
     (if tmp = 0 then Some prev
      else do { c \<leftarrow> load h tmp; insert_walk h k tmp (gl_next c) })"

definition g_list_insert ::
  "heap \<Rightarrow> addr \<Rightarrow> gpointer \<Rightarrow> int \<Rightarrow> addr \<Rightarrow> (heap \<times> addr) option" where
  "g_list_insert h p d position a =
     (if position < 0 then g_list_append h p d a
      else if position = 0 then Some (g_list_prepend h p d a)
      else if a = 0 then Some (h, 0)
      else if p = 0 then Some (h(a \<mapsto> \<lparr>gl_data = d, gl_next = 0\<rparr>), a)
      else do {
        prev \<leftarrow> insert_walk h (nat position) 0 p;
        if prev \<noteq> 0 then do {
          c \<leftarrow> load h prev;
          h' \<leftarrow> set_next (h(a \<mapsto> \<lparr>gl_data = d, gl_next = gl_next c\<rparr>)) prev a;
          Some (h', p)
        }
        else Some (h(a \<mapsto> \<lparr>gl_data = d, gl_next = p\<rparr>), a)
      })"

definition g_list_concat :: "heap \<Rightarrow> addr \<Rightarrow> addr \<Rightarrow> (heap \<times> addr) option" where
  "g_list_concat h p q =
     (if q \<noteq> 0 then
        if p \<noteq> 0 then do {
          l \<leftarrow> g_list_last h p;
          h' \<leftarrow> set_next h l q;
          Some (h', p)
        }
        else Some (h, q)
      else Some (h, p))"

partial_function (option) remove_loop ::
  "heap \<Rightarrow> addr \<Rightarrow> gpointer \<Rightarrow> addr \<Rightarrow> addr \<Rightarrow> (heap \<times> addr) option" where
  "remove_loop h p d prev tmp =
     (if tmp = 0 then Some (h, p)
      else do {
        c \<leftarrow> load h tmp;
        if gl_data c = d then
          if prev \<noteq> 0 then do {
            h1 \<leftarrow> set_next h prev (gl_next c);
            h2 \<leftarrow> free_cell h1 tmp;
            Some (h2, p)
          }
          else do {
            h1 \<leftarrow> free_cell h tmp;
            Some (h1, gl_next c)
          }
        else remove_loop h p d tmp (gl_next c)
      })"

definition g_list_remove :: "heap \<Rightarrow> addr \<Rightarrow> gpointer \<Rightarrow> (heap \<times> addr) option" where
  "g_list_remove h p d = remove_loop h p d 0 p"

partial_function (option) reverse_loop :: "heap \<Rightarrow> addr \<Rightarrow> addr \<Rightarrow> (heap \<times> addr) option" where
  "reverse_loop h prev p =
     (if p = 0 then Some (h, prev)
      else do {
        c \<leftarrow> load h p;
        h' \<leftarrow> set_next h p prev;
        reverse_loop h' p (gl_next c)
      })"

definition g_list_reverse :: "heap \<Rightarrow> addr \<Rightarrow> (heap \<times> addr) option" where
  "g_list_reverse h p = reverse_loop h 0 p"

text \<open>
  \<^verbatim>\<open>g_list_copy\<close> allocates one cell per element; the list of addresses holds the results of
  the successive \<^verbatim>\<open>malloc\<close> calls. A failed allocation returns \<^verbatim>\<open>NULL\<close> and
  leaves the partial copy behind.
\<close>

fun copy_loop :: "heap \<Rightarrow> addr \<Rightarrow> addr \<Rightarrow> addr \<Rightarrow> addr list \<Rightarrow> (heap \<times> addr) option" where
  "copy_loop h r l p [] =
     (if p = 0 then do { h' \<leftarrow> set_next h l 0; Some (h', r) }
      else do { h' \<leftarrow> set_next h l 0; Some (h', 0) })"
| "copy_loop h r l p (a # as) =
     (if p = 0 then do { h' \<leftarrow> set_next h l 0; Some (h', r) }
      else if a = 0 then do { h' \<leftarrow> set_next h l 0; Some (h', 0) }
      else do {
        h1 \<leftarrow> set_next h l a;
        c \<leftarrow> load h1 p;
        copy_loop (h1(a \<mapsto> \<lparr>gl_data = gl_data c, gl_next = 0\<rparr>)) r a (gl_next c) as
      })"

definition g_list_copy :: "heap \<Rightarrow> addr \<Rightarrow> addr list \<Rightarrow> (heap \<times> addr) option" where
  "g_list_copy h p as =
     (if p = 0 then Some (h, 0)
      else case as of
        [] \<Rightarrow> Some (h, 0)
      | a # as' \<Rightarrow>
          if a = 0 then Some (h, 0)
          else do {
            c \<leftarrow> load h p;
            copy_loop (h(a \<mapsto> \<lparr>gl_data = gl_data c, gl_next = 0\<rparr>)) a a (gl_next c) as'
          })"

text \<open>
  The deep copy: \<open>objs\<close> holds the objects behind the data pointers, and each element takes a cell and an object from the list of
  allocations. The flag tells whether the head is returned. When the very first object cannot be allocated, the head is returned with an
  uninitialised link, here \<open>junk\<close>.
\<close>

fun copy2_loop :: "heap \<Rightarrow> (gpointer \<rightharpoonup> 'o) \<Rightarrow> addr \<Rightarrow> addr \<Rightarrow> (addr \<times> gpointer) list \<Rightarrow> (heap \<times> (gpointer \<rightharpoonup> 'o) \<times> bool) option" where
  "copy2_loop h objs l p [] = do { h' \<leftarrow> set_next h l 0; Some (h', objs, p = 0) }"
| "copy2_loop h objs l p ((a, d) # as) =
     (if p = 0 then do { h' \<leftarrow> set_next h l 0; Some (h', objs, True) }
      else do {
        h1 \<leftarrow> set_next h l a;
        if a = 0 then Some (h1, objs, False)
        else if d = 0 then Some (h1(a \<mapsto> \<lparr>gl_data = 0, gl_next = 0\<rparr>), objs, False)
        else do {
          c \<leftarrow> load h1 p;
          obj \<leftarrow> (if gl_data c = 0 then None else objs (gl_data c));
          copy2_loop (h1(a \<mapsto> \<lparr>gl_data = d, gl_next = 0\<rparr>)) (objs(d \<mapsto> obj)) a (gl_next c) as
        }
      })"

definition g_list_copy2 :: "heap \<Rightarrow> (gpointer \<rightharpoonup> 'o) \<Rightarrow> addr \<Rightarrow> addr \<Rightarrow> (addr \<times> gpointer) list \<Rightarrow> (heap \<times> (gpointer \<rightharpoonup> 'o) \<times> addr) option" where
  "g_list_copy2 h objs junk p as =
     (if p = 0 then Some (h, objs, 0)
      else case as of
        [] \<Rightarrow> Some (h, objs, 0)
      | (a, d) # as' \<Rightarrow>
          if a = 0 then Some (h, objs, 0)
          else if d = 0 then Some (h(a \<mapsto> \<lparr>gl_data = 0, gl_next = junk\<rparr>), objs, a)
          else do {
            c \<leftarrow> load h p;
            obj \<leftarrow> (if gl_data c = 0 then None else objs (gl_data c));
            (h', objs', whole) \<leftarrow> copy2_loop (h(a \<mapsto> \<lparr>gl_data = d, gl_next = 0\<rparr>)) (objs(d \<mapsto> obj)) a (gl_next c) as';
            Some (h', objs', if whole then a else 0)
          })"

partial_function (option) g_list_find :: "heap \<Rightarrow> addr \<Rightarrow> gpointer \<Rightarrow> addr option" where
  "g_list_find h p d =
     (if p = 0 then Some 0
      else do { c \<leftarrow> load h p; if gl_data c = d then Some p else g_list_find h (gl_next c) d })"

partial_function (option) find_custom_loop ::
  "heap \<Rightarrow> addr \<Rightarrow> (gpointer \<Rightarrow> int) \<Rightarrow> addr option" where
  "find_custom_loop h p f =
     (if p = 0 then Some 0
      else do { c \<leftarrow> load h p; if f (gl_data c) = 0 then Some p else find_custom_loop h (gl_next c) f })"

text \<open>The comparison function may be \<^verbatim>\<open>NULL\<close>; it gets the cell's data first.\<close>

definition g_list_find_custom ::
  "heap \<Rightarrow> addr \<Rightarrow> gpointer \<Rightarrow> (gpointer \<Rightarrow> gpointer \<Rightarrow> int) option \<Rightarrow> addr option" where
  "g_list_find_custom h p d func =
     (case func of None \<Rightarrow> Some p | Some f \<Rightarrow> find_custom_loop h p (\<lambda>x. f x d))"

partial_function (option) position_loop :: "heap \<Rightarrow> addr \<Rightarrow> addr \<Rightarrow> int \<Rightarrow> int option" where
  "position_loop h p link i =
     (if p = 0 then Some (-1)
      else if p = link then Some i
      else do { c \<leftarrow> load h p; position_loop h (gl_next c) link (i + 1) })"

definition g_list_position :: "heap \<Rightarrow> addr \<Rightarrow> addr \<Rightarrow> int option" where
  "g_list_position h p link = position_loop h p link 0"

partial_function (option) index_loop :: "heap \<Rightarrow> addr \<Rightarrow> gpointer \<Rightarrow> int \<Rightarrow> int option" where
  "index_loop h p d i =
     (if p = 0 then Some (-1)
      else do { c \<leftarrow> load h p; if gl_data c = d then Some i else index_loop h (gl_next c) d (i + 1) })"

definition g_list_index :: "heap \<Rightarrow> addr \<Rightarrow> gpointer \<Rightarrow> int option" where
  "g_list_index h p d = index_loop h p d 0"

partial_function (option) length_loop :: "heap \<Rightarrow> addr \<Rightarrow> 32 word \<Rightarrow> 32 word option" where
  "length_loop h p n =
     (if p = 0 then Some n else do { c \<leftarrow> load h p; length_loop h (gl_next c) (n + 1) })"

definition g_list_length :: "heap \<Rightarrow> addr \<Rightarrow> 32 word option" where
  "g_list_length h p = length_loop h p 0"

text \<open>The callback of \<^verbatim>\<open>g_list_foreach\<close> acts on a state of its own, not on the cells.\<close>

partial_function (option) g_list_foreach ::
  "heap \<Rightarrow> addr \<Rightarrow> (gpointer \<Rightarrow> 's \<Rightarrow> 's) \<Rightarrow> 's \<Rightarrow> 's option" where
  "g_list_foreach h p f s =
     (if p = 0 then Some s else do { c \<leftarrow> load h p; g_list_foreach h (gl_next c) f (f (gl_data c) s) })"

text \<open>
  \<^verbatim>\<open>g_list_sort_merge\<close> collects the result behind a cell on the stack: \<open>l = 0\<close> stands for
  the address of that cell and \<open>r\<close> for its \<^verbatim>\<open>next\<close> field.
\<close>

definition link_next :: "heap \<Rightarrow> addr \<Rightarrow> addr \<Rightarrow> addr \<Rightarrow> (heap \<times> addr) option" where
  "link_next h r l q =
     (if l = 0 then Some (h, q) else do { h' \<leftarrow> set_next h l q; Some (h', r) })"

partial_function (option) merge_loop ::
  "(gpointer \<Rightarrow> gpointer \<Rightarrow> int) \<Rightarrow> heap \<Rightarrow> addr \<Rightarrow> addr \<Rightarrow> addr \<Rightarrow> addr \<Rightarrow> (heap \<times> addr) option" where
  "merge_loop cmp h r l l1 l2 =
     (if l1 \<noteq> 0 \<and> l2 \<noteq> 0 then do {
        c1 \<leftarrow> load h l1;
        c2 \<leftarrow> load h l2;
        if cmp (gl_data c1) (gl_data c2) \<le> 0 then do {
          (h', r') \<leftarrow> link_next h r l l1;
          c \<leftarrow> load h' l1;
          merge_loop cmp h' r' l1 (gl_next c) l2
        }
        else do {
          (h', r') \<leftarrow> link_next h r l l2;
          c \<leftarrow> load h' l2;
          merge_loop cmp h' r' l2 l1 (gl_next c)
        }
      }
      else link_next h r l (if l1 \<noteq> 0 then l1 else l2))"

definition g_list_sort_merge ::
  "(gpointer \<Rightarrow> gpointer \<Rightarrow> int) \<Rightarrow> heap \<Rightarrow> addr \<Rightarrow> addr \<Rightarrow> (heap \<times> addr) option" where
  "g_list_sort_merge cmp h l1 l2 = merge_loop cmp h 0 0 l1 l2"

text \<open>The two-speed walk that finds the last cell of the first half.\<close>

partial_function (option) split_walk :: "heap \<Rightarrow> addr \<Rightarrow> addr \<Rightarrow> addr option" where
  "split_walk h l1 l2 = do {
     c2 \<leftarrow> load h l2;
     if gl_next c2 = 0 then Some l1
     else do {
       c3 \<leftarrow> load h (gl_next c2);
       if gl_next c3 = 0 then Some l1
       else do {
         c1 \<leftarrow> load h l1;
         split_walk h (gl_next c1) (gl_next c3)
       }
     }
   }"

partial_function (option) g_list_sort_real ::
  "(gpointer \<Rightarrow> gpointer \<Rightarrow> int) \<Rightarrow> heap \<Rightarrow> addr \<Rightarrow> (heap \<times> addr) option" where
  "g_list_sort_real cmp h p =
     (if p = 0 then Some (h, 0)
      else do {
        c \<leftarrow> load h p;
        if gl_next c = 0 then Some (h, p)
        else do {
          l1 \<leftarrow> split_walk h p (gl_next c);
          c1 \<leftarrow> load h l1;
          h0 \<leftarrow> set_next h l1 0;
          (h1, p1) \<leftarrow> g_list_sort_real cmp h0 p;
          (h2, p2) \<leftarrow> g_list_sort_real cmp h1 (gl_next c1);
          g_list_sort_merge cmp h2 p1 p2
        }
      })"

definition g_list_sort ::
  "(gpointer \<Rightarrow> gpointer \<Rightarrow> int) \<Rightarrow> heap \<Rightarrow> addr \<Rightarrow> (heap \<times> addr) option" where
  "g_list_sort cmp h p = g_list_sort_real cmp h p"

section \<open>Lists in the heap\<close>

text \<open>\<open>gseg h p as q\<close>: the cells \<open>as\<close>, in this order, lead from \<open>p\<close> to \<open>q\<close>.\<close>

fun gseg :: "heap \<Rightarrow> addr \<Rightarrow> addr list \<Rightarrow> addr \<Rightarrow> bool" where
  "gseg h p [] q \<longleftrightarrow> p = q"
| "gseg h p (a # as) q \<longleftrightarrow>
     p = a \<and> a \<noteq> 0 \<and> (case h a of None \<Rightarrow> False | Some c \<Rightarrow> gseg h (gl_next c) as q)"

abbreviation gl :: "heap \<Rightarrow> addr \<Rightarrow> addr list \<Rightarrow> bool" where
  "gl h p as \<equiv> gseg h p as 0"

definition gdata :: "heap \<Rightarrow> addr list \<Rightarrow> gpointer list" where
  "gdata h as = map (\<lambda>a. gl_data (the (h a))) as"

text \<open>The abstraction: the pointer \<open>p\<close> represents the list \<open>xs\<close> of data pointers.\<close>

definition glist_rep :: "heap \<Rightarrow> addr \<Rightarrow> gpointer list \<Rightarrow> bool" where
  "glist_rep h p xs \<longleftrightarrow> (\<exists>as. gl h p as \<and> gdata h as = xs)"

lemma load_Some_iff: "load h p = Some c \<longleftrightarrow> p \<noteq> 0 \<and> h p = Some c"
  by (simp add: load_def)

lemma gseg_append: "gseg h p (as @ bs) q \<longleftrightarrow> (\<exists>r. gseg h p as r \<and> gseg h r bs q)"
  by (induction as arbitrary: p) (auto split: option.splits)

lemma gseg_upd [simp]: "a \<notin> set as \<Longrightarrow> gseg (h(a := x)) p as q \<longleftrightarrow> gseg h p as q"
  by (induction as arbitrary: p) (auto split: option.splits)

lemma gseg_cong:
  assumes "\<And>a. a \<in> set as \<Longrightarrow> h' a = h a"
  shows "gseg h' p as q \<longleftrightarrow> gseg h p as q"
  using assms by (induction as arbitrary: p) (auto split: option.splits)

lemma gseg_frame:
  "gseg h p as q \<Longrightarrow> \<forall>x. x \<notin> S \<longrightarrow> h' x = h x \<Longrightarrow> S \<inter> set as = {} \<Longrightarrow> gseg h' p as q"
  by (subst gseg_cong [of _ h' h]) auto

lemma gseg_alloc: "gseg h p as q \<Longrightarrow> a \<in> set as \<Longrightarrow> a \<noteq> 0 \<and> (\<exists>c. h a = Some c)"
  by (induction as arbitrary: p) (auto split: option.splits)

lemma gseg_fresh: "gseg h p as q \<Longrightarrow> h a = None \<Longrightarrow> a \<notin> set as"
  using gseg_alloc by fastforce

lemma gl_0 [simp]: "gl h 0 as \<longleftrightarrow> as = []"
  by (cases as) auto

lemma gl_ne: "gl h p as \<Longrightarrow> as \<noteq> [] \<Longrightarrow> p \<noteq> 0"
  by (cases as) auto

lemma gl_unique: "gl h p as \<Longrightarrow> gl h p bs \<Longrightarrow> as = bs"
proof (induction as arbitrary: p bs)
  case (Cons a as)
  then show ?case by (cases bs) (auto split: option.splits)
qed simp

lemma gl_distinct: "gl h p as \<Longrightarrow> distinct as"
proof (induction as arbitrary: p)
  case (Cons a as)
  then obtain c where c: "h a = Some c" "gl h (gl_next c) as" "p = a"
    by (auto split: option.splits)
  have "a \<notin> set as"
  proof
    assume "a \<in> set as"
    then obtain us vs where uv: "as = us @ a # vs" by (auto simp: in_set_conv_decomp)
    with c(2) have "gl h a (a # vs)" by (auto simp: gseg_append)
    with Cons.prems c(3) gl_unique [of h a "a # as" "a # vs"] uv show False by simp
  qed
  with Cons.IH [OF c(2)] show ?case by simp
qed simp

lemma gdata_simps [simp]:
  "gdata h [] = []" "gdata h (a # as) = gl_data (the (h a)) # gdata h as"
  "gdata h (as @ bs) = gdata h as @ gdata h bs" "length (gdata h as) = length as"
  by (simp_all add: gdata_def)

lemma gdata_cong: "(\<And>a. a \<in> set as \<Longrightarrow> map_option gl_data (h' a) = map_option gl_data (h a)) \<Longrightarrow>
    (\<And>a. a \<in> set as \<Longrightarrow> h a \<noteq> None) \<Longrightarrow> gdata h' as = gdata h as"
  by (fastforce simp: gdata_def)

lemma gdata_upd [simp]: "a \<notin> set as \<Longrightarrow> gdata (h(a := x)) as = gdata h as"
  by (auto simp: gdata_def)

lemma glist_rep_Nil [simp]: "glist_rep h 0 xs \<longleftrightarrow> xs = []"
  by (auto simp: glist_rep_def)

lemma glist_rep_unique: "glist_rep h p xs \<Longrightarrow> glist_rep h p ys \<Longrightarrow> xs = ys"
  by (auto simp: glist_rep_def dest: gl_unique)

lemma glist_rep_cell:
  "glist_rep h p xs \<Longrightarrow> p \<noteq> 0 \<Longrightarrow>
   \<exists>c ys. h p = Some c \<and> xs = gl_data c # ys \<and> glist_rep h (gl_next c) ys"
proof -
  assume "glist_rep h p xs" and p: "p \<noteq> 0"
  then obtain as where as: "gl h p as" "gdata h as = xs" by (auto simp: glist_rep_def)
  with p obtain a as' where [simp]: "as = a # as'" by (cases as) auto
  from as show ?thesis by (auto simp: glist_rep_def split: option.splits)
qed

text \<open>The copy of a list with enough memory: new cells with new objects of the same contents, and nothing else changed.\<close>

definition fresh_for :: "heap \<Rightarrow> (gpointer \<rightharpoonup> 'o) \<Rightarrow> (addr \<times> gpointer) list \<Rightarrow> bool" where
  "fresh_for h objs as \<longleftrightarrow> distinct (map fst as) \<and> distinct (map snd as) \<and>
     (\<forall>a \<in> set (map fst as). a \<noteq> 0 \<and> h a = None) \<and> (\<forall>d \<in> set (map snd as). d \<noteq> 0 \<and> objs d = None)"

lemma fresh_for_Cons:
  "fresh_for h objs ((a, d) # as) \<longleftrightarrow> a \<noteq> 0 \<and> h a = None \<and> d \<noteq> 0 \<and> objs d = None \<and> a \<notin> set (map fst as) \<and> d \<notin> set (map snd as) \<and>
     fresh_for h objs as"
  by (simp add: fresh_for_def) blast

lemma fresh_for_heap: "a \<notin> set (map fst as) \<Longrightarrow> fresh_for (h(a := x)) objs as \<longleftrightarrow> fresh_for h objs as"
  unfolding fresh_for_def by (metis fun_upd_other)

lemma fresh_for_objs: "d \<notin> set (map snd as) \<Longrightarrow> fresh_for h (objs(d := y)) as \<longleftrightarrow> fresh_for h objs as"
  unfolding fresh_for_def by (metis fun_upd_other)

lemma copy2_loop_gl:
  assumes "gl h p xs" and "fresh_for h objs as" and "length as = length xs"
    and "h l = Some c" and "l \<noteq> 0" and "l \<notin> set xs" and "\<forall>d \<in> set (gdata h xs). d \<noteq> 0 \<and> objs d \<noteq> None"
  shows "\<exists>h' objs'. copy2_loop h objs l p as = Some (h', objs', True) \<and> gl h' l (l # map fst as) \<and>
     gdata h' (l # map fst as) = gl_data c # map snd as \<and> map objs' (map snd as) = map objs (gdata h xs) \<and>
     (\<forall>x. x \<noteq> l \<and> x \<notin> set (map fst as) \<longrightarrow> h' x = h x) \<and> (\<forall>d. d \<notin> set (map snd as) \<longrightarrow> objs' d = objs d)"
  using assms
proof (induction xs arbitrary: h objs l p as c)
  case Nil
  then show ?case by (auto simp: set_next_def load_def gdata_def)
next
  case (Cons x xs)
  obtain a d as' where as: "as = (a, d) # as'" using Cons.prems(3) by (cases as) auto
  obtain cx where x: "p = x" "x \<noteq> 0" "h x = Some cx" "gl h (gl_next cx) xs" using Cons.prems(1) by (auto split: option.splits)
  have a: "a \<noteq> 0" "d \<noteq> 0" "h a = None" "objs d = None" "a \<notin> set (map fst as')" "d \<notin> set (map snd as')"
    using Cons.prems(2) by (simp_all add: as fresh_for_Cons)
  have ax: "a \<notin> set xs" "a \<noteq> x" "a \<noteq> l" using gseg_fresh [OF x(4) a(3)] a(3) x(3) Cons.prems(4) by auto
  obtain obj where obj: "gl_data cx \<noteq> 0" "objs (gl_data cx) = Some obj" using Cons.prems(7) x(3) by (auto simp: gdata_def)
  let ?h1 = "h(l \<mapsto> c\<lparr>gl_next := a\<rparr>)" let ?h2 = "?h1(a \<mapsto> \<lparr>gl_data = d, gl_next = 0\<rparr>)" and ?o2 = "objs(d \<mapsto> obj)"
  have step: "copy2_loop h objs l p as = copy2_loop ?h2 ?o2 a (gl_next cx) as'"
    using x a obj Cons.prems(4-6) by (simp add: as set_next_def load_def)
  have gd: "gdata ?h2 xs = gdata h xs" "d \<notin> set (gdata h (x # xs))"
    using ax Cons.prems(6,7) a(4) by (auto simp: gdata_def)
  have l: "l \<notin> set (map fst as')" using Cons.prems(2,4) by (fastforce simp: as fresh_for_def)
  have 1: "gl ?h2 (gl_next cx) xs" using x(4) ax(1) Cons.prems(6) by simp
  have 2: "fresh_for ?h2 ?o2 as'"
    using Cons.prems(2) by (simp add: fresh_for_heap [OF a(5)] fresh_for_heap [OF l] fresh_for_objs [OF a(6)] as fresh_for_Cons)
  have 3: "\<forall>e \<in> set (gdata ?h2 xs). e \<noteq> 0 \<and> ?o2 e \<noteq> None" unfolding gd(1) using Cons.prems(7) by (simp add: gdata_def)
  have 4: "length as' = length xs" "?h2 a = Some \<lparr>gl_data = d, gl_next = 0\<rparr>" using Cons.prems(3) by (simp_all add: as)
  obtain h' objs' where r: "copy2_loop ?h2 ?o2 a (gl_next cx) as' = Some (h', objs', True)" "gl h' a (a # map fst as')"
      "gdata h' (a # map fst as') = d # map snd as'" "map objs' (map snd as') = map ?o2 (gdata h xs)"
      "\<forall>x. x \<noteq> a \<and> x \<notin> set (map fst as') \<longrightarrow> h' x = ?h2 x" "\<forall>e. e \<notin> set (map snd as') \<longrightarrow> objs' e = ?o2 e"
    using Cons.IH [OF 1 2 4 a(1) ax(1) 3] unfolding gd(1) GList.select_convs by blast
  have hl: "h' l = Some (c\<lparr>gl_next := a\<rparr>)" using r(5) l ax(3) by simp
  have "map ?o2 (gdata h xs) = map objs (gdata h xs)" using gd(2) by (auto simp: gdata_def)
  moreover have "objs' d = Some obj" using r(6) a(6) by simp
  ultimately have "map objs' (map snd as) = map objs (gdata h (x # xs))" using r(4) obj(2) x(3) by (simp add: as gdata_def)
  moreover have "gl h' l (l # map fst as)" using hl r(2) Cons.prems(5) by (simp add: as)
  moreover have "gdata h' (l # map fst as) = gl_data c # map snd as" using hl r(3) by (simp add: as gdata_def)
  moreover have "\<forall>x. x \<noteq> l \<and> x \<notin> set (map fst as) \<longrightarrow> h' x = h x" "\<forall>e. e \<notin> set (map snd as) \<longrightarrow> objs' e = objs e"
    using r(5,6) by (auto simp: as)
  ultimately show ?case using step r(1) by auto
qed

theorem g_list_copy2_correct:
  assumes "gl h p xs" and "fresh_for h objs as" and "length as = length xs" and "\<forall>d \<in> set (gdata h xs). d \<noteq> 0 \<and> objs d \<noteq> None"
  shows "\<exists>h' objs' r. g_list_copy2 h objs junk p as = Some (h', objs', r) \<and> gl h' r (map fst as) \<and>
     map objs' (gdata h' (map fst as)) = map objs (gdata h xs) \<and> gl h' p xs \<and> gdata h' xs = gdata h xs"
proof (cases xs)
  case Nil
  then show ?thesis using assms by (simp add: g_list_copy2_def gdata_def)
next
  case (Cons x xs')
  obtain a d as' where as: "as = (a, d) # as'" using assms(3) Cons by (cases as) auto
  obtain cx where x: "p = x" "x \<noteq> 0" "h x = Some cx" "gl h (gl_next cx) xs'" using assms(1) Cons by (auto split: option.splits)
  have a: "a \<noteq> 0" "d \<noteq> 0" "h a = None" "objs d = None" "a \<notin> set (map fst as')" "d \<notin> set (map snd as')"
    using assms(2) by (simp_all add: as fresh_for_Cons)
  have ax: "a \<notin> set xs" using gseg_fresh [OF assms(1) a(3)] .
  obtain obj where obj: "gl_data cx \<noteq> 0" "objs (gl_data cx) = Some obj" using assms(4) x(3) by (auto simp: gdata_def Cons)
  let ?h2 = "h(a \<mapsto> \<lparr>gl_data = d, gl_next = 0\<rparr>)" and ?o2 = "objs(d \<mapsto> obj)"
  have d: "d \<notin> set (gdata h xs)" using assms(4) a(4) by auto
  have 2: "fresh_for ?h2 ?o2 as'"
    using assms(2) by (simp add: fresh_for_heap [OF a(5)] fresh_for_objs [OF a(6)] as fresh_for_Cons)
  have gd: "gdata ?h2 xs' = gdata h xs'" using ax by (simp add: Cons)
  have 3: "\<forall>e \<in> set (gdata ?h2 xs'). e \<noteq> 0 \<and> ?o2 e \<noteq> None" unfolding gd using assms(4) by (simp add: Cons gdata_def)
  have 4: "length as' = length xs'" "?h2 a = Some \<lparr>gl_data = d, gl_next = 0\<rparr>" using assms(3) by (simp_all add: as Cons)
  have 1: "gl ?h2 (gl_next cx) xs'" "a \<notin> set xs'" using x(4) ax by (simp_all add: Cons)
  obtain h' objs' where r: "copy2_loop ?h2 ?o2 a (gl_next cx) as' = Some (h', objs', True)" "gl h' a (a # map fst as')"
      "gdata h' (a # map fst as') = d # map snd as'" "map objs' (map snd as') = map ?o2 (gdata h xs')"
      "\<forall>x. x \<noteq> a \<and> x \<notin> set (map fst as') \<longrightarrow> h' x = ?h2 x" "\<forall>e. e \<notin> set (map snd as') \<longrightarrow> objs' e = ?o2 e"
    using copy2_loop_gl [OF 1(1) 2 4 a(1) 1(2) 3] unfolding gd GList.select_convs by blast
  have same: "h' y = h y" if "y \<in> set xs" for y
  proof -
    have "h y \<noteq> None" using gseg_alloc [OF assms(1) that] by auto
    then have "y \<notin> set (map fst as')" using assms(2) unfolding as fresh_for_def by auto
    then show ?thesis using that r(5) ax by auto
  qed
  have "map ?o2 (gdata h xs') = map objs (gdata h xs')" using d by (auto simp: Cons gdata_def)
  moreover have "gdata h' (map fst as) = map snd as" "gdata h xs = gl_data cx # gdata h xs'" using r(3) x(3) by (simp add: as) (simp add: Cons gdata_def x(3))
  moreover have "objs' d = Some obj" using r(6) a(6) by simp
  ultimately have "map objs' (gdata h' (map fst as)) = map objs (gdata h xs)" using r(4) obj(2) by (simp add: as)
  moreover have "gl h' p xs" using assms(1) gseg_cong [of xs h' h p 0] same by blast
  moreover have "gdata h' xs = gdata h xs" using same by (simp add: gdata_def)
  ultimately show ?thesis using r(1,2) x(1-3) a(1,2) obj by (simp add: g_list_copy2_def as load_def)
qed

section \<open>Correctness of the traversals\<close>

lemma last_loop_gl: "gseg h p as q \<Longrightarrow> as \<noteq> [] \<Longrightarrow> q = 0 \<Longrightarrow> last_loop h p = Some (last as)"
proof (induction as arbitrary: p)
  case (Cons a as)
  then obtain c where c: "h a = Some c" "a \<noteq> 0" "p = a" "gl h (gl_next c) as"
    by (auto split: option.splits)
  show ?case
  proof (cases as)
    case Nil
    with c show ?thesis by (subst last_loop.simps) (simp add: load_def)
  next
    case (Cons b bs)
    with c Cons.IH [of "gl_next c"] Cons.prems show ?thesis
      by (subst last_loop.simps) (auto simp: load_def split: option.splits)
  qed
qed simp

lemma g_list_last_gl: "gl h p as \<Longrightarrow> g_list_last h p = Some (if as = [] then 0 else last as)"
  using last_loop_gl [of h p as 0] by (cases "as = []") (auto simp: g_list_last_def)

lemma g_list_find_gl:
  "gl h p as \<Longrightarrow> g_list_find h p d = Some (case find (\<lambda>a. gl_data (the (h a)) = d) as of None \<Rightarrow> 0 | Some a \<Rightarrow> a)"
proof (induction as arbitrary: p)
  case Nil
  then show ?case by (subst g_list_find.simps) simp
next
  case (Cons a as)
  then show ?case
    by (subst g_list_find.simps) (auto simp: load_def split: option.splits)
qed

lemma find_custom_loop_gl:
  "gl h p as \<Longrightarrow> find_custom_loop h p f = Some (case find (\<lambda>a. f (gl_data (the (h a))) = 0) as of None \<Rightarrow> 0 | Some a \<Rightarrow> a)"
proof (induction as arbitrary: p)
  case Nil
  then show ?case by (subst find_custom_loop.simps) simp
next
  case (Cons a as)
  then show ?case
    by (subst find_custom_loop.simps) (auto simp: load_def split: option.splits)
qed

lemma length_loop_gl: "gl h p as \<Longrightarrow> length_loop h p n = Some (n + of_nat (length as))"
proof (induction as arbitrary: p n)
  case Nil
  then show ?case by (subst length_loop.simps) simp
next
  case (Cons a as)
  then show ?case
    by (subst length_loop.simps) (auto simp: load_def algebra_simps split: option.splits)
qed

lemma foreach_gl: "gl h p as \<Longrightarrow> g_list_foreach h p f s = Some (fold f (gdata h as) s)"
proof (induction as arbitrary: p s)
  case Nil
  then show ?case by (subst g_list_foreach.simps) simp
next
  case (Cons a as)
  then show ?case
    by (subst g_list_foreach.simps) (auto simp: load_def split: option.splits)
qed

lemma index_loop_gl:
  "gl h p as \<Longrightarrow> index_loop h p d i =
     Some (if d \<in> set (gdata h as) then i + int (length (takeWhile (\<lambda>x. x \<noteq> d) (gdata h as))) else -1)"
proof (induction as arbitrary: p i)
  case Nil
  then show ?case by (subst index_loop.simps) simp
next
  case (Cons a as)
  then show ?case
    by (subst index_loop.simps) (auto simp: load_def split: option.splits)
qed

lemma position_loop_gl:
  "gl h p as \<Longrightarrow> position_loop h p a i =
     Some (if a \<in> set as then i + int (length (takeWhile (\<lambda>b. b \<noteq> a) as)) else -1)"
proof (induction as arbitrary: p i)
  case Nil
  then show ?case by (subst position_loop.simps) simp
next
  case (Cons b as)
  then show ?case
    by (subst position_loop.simps) (auto simp: load_def split: option.splits)
qed

section \<open>Correctness of the updates\<close>

lemma set_next_Some: "p \<noteq> 0 \<Longrightarrow> h p = Some c \<Longrightarrow> set_next h p q = Some (h(p \<mapsto> c\<lparr>gl_next := q\<rparr>))"
  by (simp add: set_next_def load_def)

lemma gl_snoc_link:
  assumes "gl h p (as @ [b])" and "b \<noteq> a" and "gl h a bs" and "b \<notin> set bs"
  shows "\<exists>h'. set_next h b a = Some h' \<and> gl h' p (as @ b # bs) \<and>
           (\<forall>x. map_option gl_data (h' x) = map_option gl_data (h x)) \<and> (\<forall>x. x \<noteq> b \<longrightarrow> h' x = h x)"
proof -
  from assms(1) obtain c where c: "gseg h p as b" "h b = Some c" "b \<noteq> 0" "gl_next c = 0"
    by (auto simp: gseg_append split: option.splits)
  have "b \<notin> set as" using gl_distinct [OF assms(1)] by simp
  with c assms have "gl (h(b \<mapsto> c\<lparr>gl_next := a\<rparr>)) p (as @ b # bs)"
    by (auto simp: gseg_append)
  with c show ?thesis by (auto simp: set_next_Some)
qed

lemma data_frame_gdata:
  "(\<forall>x. map_option gl_data (h' x) = map_option gl_data (h x)) \<Longrightarrow> gl h p as \<Longrightarrow> gdata h' as = gdata h as"
  by (rule gdata_cong) (auto dest: gseg_alloc)

lemma g_list_append_gl:
  assumes "gl h p as" and "a \<noteq> 0" and "h a = None"
  shows "\<exists>h' p'. g_list_append h p d a = Some (h', p') \<and> gl h' p' (as @ [a]) \<and>
           gdata h' (as @ [a]) = gdata h as @ [d] \<and> (\<forall>x. x \<notin> set (as @ [a]) \<longrightarrow> h' x = h x)"
proof (cases "as = []")
  case True
  with assms show ?thesis by (simp add: g_list_append_def)
next
  case False
  let ?h1 = "h(a \<mapsto> \<lparr>gl_data = d, gl_next = 0\<rparr>)"
  let ?b = "last as"
  have fr: "a \<notin> set as" using assms gseg_fresh by blast
  have as: "as = butlast as @ [?b]" using False by simp
  have 1: "gl ?h1 p (butlast as @ [?b])" using assms(1) fr as by simp
  have 2: "?b \<noteq> a" "gl ?h1 a [a]" "?b \<notin> set [a]"
    using False fr assms(2) by (auto dest: last_in_set)
  from gl_snoc_link [OF 1 2] obtain h' where h': "set_next ?h1 ?b a = Some h'"
      "gl h' p (butlast as @ ?b # [a])" "\<forall>x. map_option gl_data (h' x) = map_option gl_data (?h1 x)"
      "\<forall>x. x \<noteq> ?b \<longrightarrow> h' x = ?h1 x" by blast
  have "p \<noteq> 0" using assms(1) False by (cases as) auto
  moreover have "g_list_last ?h1 p = Some ?b"
    using g_list_last_gl [of ?h1 p as] 1 as False by simp
  moreover have "gl h' p (as @ [a])" using h'(2) as by (metis append.assoc append_Cons append_Nil)
  moreover have "gdata h' as = gdata ?h1 as" using data_frame_gdata [OF h'(3)] 1 as by metis
  moreover have "x \<notin> set as \<Longrightarrow> x \<noteq> ?b" for x using False by auto
  ultimately show ?thesis
    using h' assms(2) fr 2(1) False by (auto simp: g_list_append_def Let_def)
qed

lemma reverse_loop_gl:
  "gl h p as \<Longrightarrow> gl h prev bs \<Longrightarrow> set as \<inter> set bs = {} \<Longrightarrow>
   \<exists>h'. reverse_loop h prev p = Some (h', if as = [] then prev else last as) \<and>
     gl h' (if as = [] then prev else last as) (rev as @ bs) \<and>
     (\<forall>x. map_option gl_data (h' x) = map_option gl_data (h x)) \<and> (\<forall>x. x \<notin> set as \<longrightarrow> h' x = h x)"
proof (induction as arbitrary: h p prev bs)
  case Nil
  then show ?case by (subst reverse_loop.simps) simp
next
  case (Cons a as)
  then obtain c where c: "h a = Some c" "a \<noteq> 0" "p = a" "gl h (gl_next c) as"
    by (auto split: option.splits)
  let ?h = "h(a \<mapsto> c\<lparr>gl_next := prev\<rparr>)"
  have nin: "a \<notin> set as" "a \<notin> set bs" using gl_distinct [OF Cons.prems(1)] Cons.prems(3) by auto
  have "gl ?h (gl_next c) as" "gl ?h a (a # bs)" "set as \<inter> set (a # bs) = {}"
    using c nin Cons.prems by auto
  from Cons.IH [OF this] obtain h' where
    "reverse_loop ?h a (gl_next c) = Some (h', if as = [] then a else last as)"
    "gl h' (if as = [] then a else last as) (rev as @ a # bs)"
    "\<forall>x. map_option gl_data (h' x) = map_option gl_data (?h x)" "\<forall>x. x \<notin> set as \<longrightarrow> h' x = ?h x"
    by blast
  with c show ?case
    by (subst reverse_loop.simps) (auto simp: load_def set_next_Some)
qed

lemma insert_walk_gl:
  "gl h p as \<Longrightarrow> insert_walk h k prev p =
     Some (if k = 0 \<or> as = [] then prev else as ! (min k (length as) - 1))"
proof (induction k arbitrary: p prev as)
  case (Suc k)
  show ?case
  proof (cases as)
    case (Cons a as')
    with Suc.prems obtain c where c: "h a = Some c" "a \<noteq> 0" "p = a" "gl h (gl_next c) as'"
      by (auto split: option.splits)
    from Suc.IH [OF c(4)] c Cons show ?thesis
      by (cases k; cases as') (auto simp: load_def)
  qed (use Suc.prems in simp)
qed simp

lemma g_list_insert_mid_gl:
  assumes "gl h p (as @ b # bs)" and "a \<noteq> 0" and "h a = None"
    and k: "0 < position" "as @ [b] = take (nat position) (as @ b # bs)"
  shows "\<exists>h'. g_list_insert h p d position a = Some (h', p) \<and> gl h' p (as @ b # a # bs) \<and>
           gdata h' (as @ b # a # bs) = gdata h (as @ [b]) @ d # gdata h bs \<and>
           (\<forall>x. x \<notin> set (as @ b # a # bs) \<longrightarrow> h' x = h x)"
proof -
  let ?cs = "as @ b # bs"
  have fr: "a \<notin> set ?cs" using assms gseg_fresh by blast
  from assms(1) obtain c where c: "gseg h p as b" "h b = Some c" "b \<noteq> 0" "gl h (gl_next c) bs"
    by (auto simp: gseg_append split: option.splits)
  have dist: "distinct ?cs" using gl_distinct [OF assms(1)] .
  have "Suc (length as) = min (nat position) (length ?cs)"
    using arg_cong [OF k(2), of length] by (auto simp: min_def split: if_splits)
  then have "min (nat position) (length ?cs) - 1 = length as" by linarith
  then have w: "insert_walk h (nat position) 0 p = Some b"
    using insert_walk_gl [OF assms(1), of "nat position" 0] k(1) by simp
  have p: "p \<noteq> 0" using assms(1) by (cases as) auto
  let ?c1 = "\<lparr>gl_data = d, gl_next = gl_next c\<rparr>"
  let ?h = "h(a \<mapsto> ?c1, b \<mapsto> c\<lparr>gl_next := a\<rparr>)"
  have "gl ?h p (as @ b # a # bs)"
    using c dist fr assms(2) by (auto simp: gseg_append)
  moreover have "g_list_insert h p d position a = Some (?h, p)"
    using k(1) assms(2) p w c fr by (auto simp: g_list_insert_def load_def set_next_def)
  moreover have "gdata ?h (as @ b # a # bs) = gdata h (as @ [b]) @ d # gdata h bs"
    using c dist fr by auto
  ultimately show ?thesis by auto
qed

lemma remove_loop_gl:
  "gl h p (us @ as) \<Longrightarrow> gl h q as \<Longrightarrow> prev = (if us = [] then 0 else last us) \<Longrightarrow>
   \<exists>h' p'. remove_loop h p d prev q = Some (h', p') \<and>
     gl h' p' (us @ remove_first (\<lambda>a. gl_data (the (h a)) = d) as) \<and>
     (\<forall>x. x \<in> set (us @ remove_first (\<lambda>a. gl_data (the (h a)) = d) as) \<longrightarrow>
        map_option gl_data (h' x) = map_option gl_data (h x)) \<and>
     (\<forall>x. x \<notin> set (us @ as) \<longrightarrow> h' x = h x)"
proof (induction as arbitrary: us q prev)
  case Nil
  then show ?case by (subst remove_loop.simps) simp
next
  case (Cons a as)
  then obtain c where c: "h a = Some c" "a \<noteq> 0" "q = a" "gl h (gl_next c) as"
    by (auto split: option.splits)
  have dist: "distinct (us @ a # as)" using gl_distinct [OF Cons.prems(1)] .
  show ?case
  proof (cases "gl_data c = d")
    case False
    have "gl h p ((us @ [a]) @ as)" using Cons.prems(1) by simp
    from Cons.IH [OF this c(4), of a] c False show ?thesis
      by (subst remove_loop.simps) (simp add: load_def)
  next
    case True
    show ?thesis
    proof (cases "us = []")
      case nil: True
      with Cons.prems c have "p = a" by simp
      with nil Cons.prems c dist True show ?thesis
        by (subst remove_loop.simps) (auto simp: load_def free_cell_def)
    next
      case False
      then obtain vs b where us: "us = vs @ [b]" by (cases us rule: rev_cases) auto
      with Cons.prems(1) obtain e where e: "gseg h p vs b" "h b = Some e" "b \<noteq> 0" "gl_next e = a"
        by (auto simp: gseg_append split: option.splits)
      let ?h = "(h(b \<mapsto> e\<lparr>gl_next := gl_next c\<rparr>))(a := None)"
      have "gl ?h p (us @ as)"
        using e c us dist by (auto simp: gseg_append)
      moreover have "remove_loop h p d prev q = Some (?h, p)"
        using c e True us dist Cons.prems(3)
        by (subst remove_loop.simps) (auto simp: load_def free_cell_def set_next_def)
      ultimately show ?thesis using c e True us dist by auto
    qed
  qed
qed

section \<open>The in-place merge sort\<close>

text \<open>The reference: merging and sorting a list by a three-way comparison.\<close>

fun merge_by :: "('a \<Rightarrow> 'a \<Rightarrow> int) \<Rightarrow> 'a list \<Rightarrow> 'a list \<Rightarrow> 'a list" where
  "merge_by cmp (x # xs) (y # ys) =
     (if cmp x y \<le> 0 then x # merge_by cmp xs (y # ys) else y # merge_by cmp (x # xs) ys)"
| "merge_by cmp [] ys = ys"
| "merge_by cmp xs [] = xs"

function msort_by :: "('a \<Rightarrow> 'a \<Rightarrow> int) \<Rightarrow> 'a list \<Rightarrow> 'a list" where
  "msort_by cmp xs =
     (if length xs \<le> 1 then xs
      else merge_by cmp (msort_by cmp (take (length xs div 2) xs)) (msort_by cmp (drop (length xs div 2) xs)))"
  by pat_completeness auto
termination
  by (relation "measure (length \<circ> snd)") auto

declare msort_by.simps [simp del]

lemma mset_merge_by [simp]: "mset (merge_by cmp xs ys) = mset xs + mset ys"
  by (induction cmp xs ys rule: merge_by.induct) auto

lemma set_merge_by [simp]: "set (merge_by cmp xs ys) = set xs \<union> set ys"
  by (induction cmp xs ys rule: merge_by.induct) auto

lemma map_merge_by: "map d (merge_by (\<lambda>a b. cmp (d a) (d b)) as bs) = merge_by cmp (map d as) (map d bs)"
  by (induction "\<lambda>a b. cmp (d a) (d b)" as bs rule: merge_by.induct) auto

lemma mset_msort_by [simp]: "mset (msort_by cmp xs) = mset xs"
proof (induction cmp xs rule: msort_by.induct)
  case (1 cmp xs)
  then show ?case
    by (cases "length xs \<le> 1")
      (simp_all add: msort_by.simps [of cmp xs] union_code [symmetric] del: append_take_drop_id,
       metis append_take_drop_id mset_append)
qed

lemma set_msort_by [simp]: "set (msort_by cmp xs) = set xs"
  by (metis mset_msort_by set_mset_mset)

lemma map_msort_by: "map d (msort_by (\<lambda>a b. cmp (d a) (d b)) as) = msort_by cmp (map d as)"
proof (induction "\<lambda>a b. cmp (d a) (d b)" as rule: msort_by.induct)
  case (1 as)
  then show ?case
    by (cases "length as \<le> 1")
      (simp_all add: msort_by.simps [of _ as] msort_by.simps [of _ "map d as"] map_merge_by take_map drop_map)
qed

text \<open>What a comparison function must satisfy for the sort to produce a sorted list.\<close>

locale preorder_cmp =
  fixes cmp :: "'a \<Rightarrow> 'a \<Rightarrow> int"
  assumes cmp_total: "cmp a b \<le> 0 \<or> cmp b a \<le> 0"
    and cmp_trans: "cmp a b \<le> 0 \<Longrightarrow> cmp b c \<le> 0 \<Longrightarrow> cmp a c \<le> 0"
begin

lemma sorted_merge_by:
  "sorted_wrt (\<lambda>a b. cmp a b \<le> 0) xs \<Longrightarrow> sorted_wrt (\<lambda>a b. cmp a b \<le> 0) ys \<Longrightarrow>
   sorted_wrt (\<lambda>a b. cmp a b \<le> 0) (merge_by cmp xs ys)"
proof (induction c \<equiv> cmp xs ys rule: merge_by.induct)
  case (1 x xs y ys)
  then show ?case using cmp_total [of x y] by (auto intro: cmp_trans)
qed auto

lemma stable_merge_by:
  assumes "\<forall>x \<in> set xs \<union> set ys. P x \<longrightarrow> cmp x k \<le> 0 \<and> cmp k x \<le> 0"
    and "sorted_wrt (\<lambda>a b. cmp a b \<le> 0) xs"
  shows "filter P (merge_by cmp xs ys) = filter P xs @ filter P ys"
  using assms
proof (induction c \<equiv> cmp xs ys rule: merge_by.induct)
  case (1 x xs y ys)
  show ?case
  proof (cases "cmp x y \<le> 0")
    case False
    have "P y \<Longrightarrow> filter P (x # xs) = []"
      using "1.prems" False cmp_trans [of x _ y] cmp_trans [of _ k y] by (auto simp: filter_empty_conv)
    with False 1 show ?thesis by auto
  qed (use 1 in auto)
qed auto

lemma sorted_msort_by: "sorted_wrt (\<lambda>a b. cmp a b \<le> 0) (msort_by cmp xs)"
proof (induction c \<equiv> cmp xs rule: msort_by.induct)
  case (1 xs)
  show ?case
  proof (cases "length xs \<le> 1")
    case True
    then show ?thesis by (cases xs) (auto simp: msort_by.simps)
  next
    case False
    with 1 show ?thesis by (subst msort_by.simps) (simp add: sorted_merge_by)
  qed
qed

lemma stable_msort_by:
  "filter (\<lambda>x. cmp x k \<le> 0 \<and> cmp k x \<le> 0) (msort_by cmp xs) = filter (\<lambda>x. cmp x k \<le> 0 \<and> cmp k x \<le> 0) xs"
proof (induction c \<equiv> cmp xs rule: msort_by.induct)
  case (1 xs)
  let ?P = "\<lambda>x. cmp x k \<le> 0 \<and> cmp k x \<le> 0" and ?n = "length xs div 2"
  show ?case
  proof (cases "length xs \<le> 1")
    case False
    have "filter ?P (msort_by cmp xs) =
        filter ?P (msort_by cmp (take ?n xs)) @ filter ?P (msort_by cmp (drop ?n xs))"
      using False by (subst msort_by.simps) (simp add: stable_merge_by [where k = k] sorted_msort_by)
    also have "\<dots> = filter ?P (take ?n xs @ drop ?n xs)"
      using 1 False by (simp del: append_take_drop_id)
    finally show ?thesis by simp
  qed (simp add: msort_by.simps)
qed

end

text \<open>An order on keys is in particular such a comparison.\<close>

sublocale comparator \<subseteq> preorder_cmp cmp
proof
  fix a b c
  show "cmp a b \<le> 0 \<or> cmp b a \<le> 0" using cmp_less_sym [of a b] cmp_less_sym [of b a] by linarith
  show "cmp a b \<le> 0 \<Longrightarrow> cmp b c \<le> 0 \<Longrightarrow> cmp a c \<le> 0"
    using cmp_less_trans [of a b c] cmp_eq [of a b] cmp_eq [of b c] by fastforce
qed

text \<open>
  The part of the result that is already linked: the cells \<open>us\<close>, of which the last one, \<open>l\<close>,
  still points to an old successor.
\<close>

definition tail_of :: "heap \<Rightarrow> addr \<Rightarrow> addr \<Rightarrow> addr list \<Rightarrow> bool" where
  "tail_of h r l us \<longleftrightarrow>
     us = [] \<and> l = 0 \<or> (\<exists>vs c. us = vs @ [l] \<and> gseg h r vs l \<and> l \<noteq> 0 \<and> h l = Some c \<and> l \<notin> set vs)"

definition same_data :: "heap \<Rightarrow> heap \<Rightarrow> bool" where
  "same_data h h' \<longleftrightarrow> (\<forall>x. map_option gl_data (h' x) = map_option gl_data (h x))"

lemma same_data_trans: "same_data h h' \<Longrightarrow> same_data h' h'' \<Longrightarrow> same_data h h''"
  by (simp add: same_data_def)

lemma same_data_refl [simp]: "same_data h h"
  by (simp add: same_data_def)

lemma link_next_seg:
  assumes "tail_of h r l us"
  shows "\<exists>h' r'. link_next h r l q = Some (h', r') \<and> gseg h' r' us q \<and> same_data h h' \<and>
           (\<forall>x. x \<notin> set us \<longrightarrow> h' x = h x)"
proof (cases "us = []")
  case True
  with assms show ?thesis by (auto simp: tail_of_def link_next_def)
next
  case False
  with assms obtain vs c where "us = vs @ [l]" "gseg h r vs l" "l \<noteq> 0" "h l = Some c" "l \<notin> set vs"
    by (auto simp: tail_of_def)
  then show ?thesis
    by (auto simp: link_next_def set_next_Some gseg_append same_data_def)
qed

lemma tail_of_snoc:
  "gseg h r us q \<Longrightarrow> h q = Some c \<Longrightarrow> q \<noteq> 0 \<Longrightarrow> q \<notin> set us \<Longrightarrow> tail_of h r q (us @ [q])"
  by (auto simp: tail_of_def)

lemma merge_loop_gl:
  assumes "gl h l1 as" and "gl h l2 bs" and "tail_of h r l us" and "distinct (us @ as @ bs)"
    and "\<forall>x \<in> set (as @ bs). map_option gl_data (h x) = Some (d x)"
  shows "\<exists>h' r'. merge_loop cmp h r l l1 l2 = Some (h', r') \<and>
           gl h' r' (us @ merge_by (\<lambda>a b. cmp (d a) (d b)) as bs) \<and> same_data h h' \<and>
           (\<forall>x. x \<notin> set (us @ as @ bs) \<longrightarrow> h' x = h x)"
  using assms
proof (induction "\<lambda>a b. cmp (d a) (d b)" as bs arbitrary: h r l us l1 l2 rule: merge_by.induct)
  case (1 a as b bs)
  then obtain ca cb where a: "h a = Some ca" "a \<noteq> 0" "l1 = a" "gl h (gl_next ca) as"
    and b: "h b = Some cb" "b \<noteq> 0" "l2 = b" "gl h (gl_next cb) bs"
    by (auto split: option.splits)
  have d: "d a = gl_data ca" "d b = gl_data cb" using "1.prems"(5) a b by auto
  show ?case
  proof (cases "cmp (d a) (d b) \<le> 0")
    case True
    from link_next_seg [OF "1.prems"(3), of a] obtain h' r' where l:
      "link_next h r l a = Some (h', r')" "gseg h' r' us a" "same_data h h'" "\<forall>x. x \<notin> set us \<longrightarrow> h' x = h x"
      by blast
    have "gl h' (gl_next ca) as" "gl h' b (b # bs)" "h' a = Some ca"
      using a b l(4) "1.prems"(4) by (auto intro: gseg_frame [OF _ l(4)])
    moreover from this have "tail_of h' r' a (us @ [a])"
      using tail_of_snoc [OF l(2)] a "1.prems"(4) by auto
    moreover have "\<forall>x \<in> set (as @ b # bs). map_option gl_data (h' x) = Some (d x)"
      using "1.prems"(5) l(3) by (auto simp: same_data_def)
    ultimately show ?thesis
      using "1.hyps"(1) [OF True, of h' "gl_next ca" b r' a "us @ [a]"] "1.prems"(4) True l a b d
      by (subst merge_loop.simps) (auto simp: load_def dest: same_data_trans)
  next
    case False
    from link_next_seg [OF "1.prems"(3), of b] obtain h' r' where l:
      "link_next h r l b = Some (h', r')" "gseg h' r' us b" "same_data h h'" "\<forall>x. x \<notin> set us \<longrightarrow> h' x = h x"
      by blast
    have "gl h' (gl_next cb) bs" "gl h' a (a # as)" "h' b = Some cb"
      using a b l(4) "1.prems"(4) by (auto intro: gseg_frame [OF _ l(4)])
    moreover from this have "tail_of h' r' b (us @ [b])"
      using tail_of_snoc [OF l(2)] b "1.prems"(4) by auto
    moreover have "\<forall>x \<in> set ((a # as) @ bs). map_option gl_data (h' x) = Some (d x)"
      using "1.prems"(5) l(3) by (auto simp: same_data_def)
    ultimately show ?thesis
      using "1.hyps"(2) [OF False, of h' a "gl_next cb" r' b "us @ [b]"] "1.prems"(4) False l a b d
      by (subst merge_loop.simps) (auto simp: load_def dest: same_data_trans)
  qed
next
  case (2 bs)
  from link_next_seg [OF "2.prems"(3), of l2] obtain h' r' where l:
    "link_next h r l l2 = Some (h', r')" "gseg h' r' us l2" "same_data h h'" "\<forall>x. x \<notin> set us \<longrightarrow> h' x = h x"
    by blast
  have "gl h' l2 bs" using "2.prems" by (auto intro: gseg_frame [OF _ l(4)])
  with l "2.prems" show ?case by (subst merge_loop.simps) (auto simp: gseg_append)
next
  case (3 a as)
  from link_next_seg [OF "3.prems"(3), of l1] obtain h' r' where l:
    "link_next h r l l1 = Some (h', r')" "gseg h' r' us l1" "same_data h h'" "\<forall>x. x \<notin> set us \<longrightarrow> h' x = h x"
    by blast
  have "gl h' l1 (a # as)" by (rule gseg_frame [OF "3.prems"(1) l(4)]) (use "3.prems"(4) in auto)
  with l "3.prems" show ?case by (subst merge_loop.simps) (auto simp: gseg_append)
qed

lemma split_walk_gl:
  "gl h l1 xs \<Longrightarrow> gl h l2 ys \<Longrightarrow> ys \<noteq> [] \<Longrightarrow> (length ys - 1) div 2 < length xs \<Longrightarrow>
   split_walk h l1 l2 = Some (xs ! ((length ys - 1) div 2))"
proof (induction ys arbitrary: l1 l2 xs rule: induct_list012)
  case (2 y)
  then show ?case by (subst split_walk.simps) (cases xs; auto simp: load_def split: option.splits)
next
  case (3 y z ys)
  then obtain cy cz where y: "h y = Some cy" "y \<noteq> 0" "l2 = y" "gl_next cy = z"
    and z: "h z = Some cz" "z \<noteq> 0" "gl h (gl_next cz) ys"
    by (auto split: option.splits)
  from "3.prems" obtain x xs' cx where x: "xs = x # xs'" "l1 = x" "h x = Some cx" "x \<noteq> 0" "gl h (gl_next cx) xs'"
    by (cases xs) (auto split: option.splits)
  show ?case
  proof (cases "ys = []")
    case True
    with x y z show ?thesis by (subst split_walk.simps) (simp add: load_def)
  next
    case False
    moreover have "gl_next cz \<noteq> 0" by (rule gl_ne [OF z(3) False])
    moreover have "(length ys - 1) div 2 < length xs'" using "3.prems"(4) x(1) False by (cases ys) auto
    ultimately show ?thesis
      using "3.IH"(1) [OF x(5) z(3)] x y z by (subst split_walk.simps) (cases ys; simp add: load_def)
  qed
qed simp

lemma gl_cut:
  assumes "gl h p (vs @ b # ys)"
  shows "\<exists>c h0. load h b = Some c \<and> set_next h b 0 = Some h0 \<and> gl h0 p (vs @ [b]) \<and>
           gl h0 (gl_next c) ys \<and> same_data h h0 \<and> (\<forall>x. x \<noteq> b \<longrightarrow> h0 x = h x)"
proof -
  from assms obtain c where "gseg h p vs b" "h b = Some c" "b \<noteq> 0" "gl h (gl_next c) ys"
    by (auto simp: gseg_append split: option.splits)
  with gl_distinct [OF assms] show ?thesis
    by (auto simp: load_def set_next_Some gseg_append same_data_def)
qed

lemma sort_cut:
  assumes "gl h p as" and "\<not> length as \<le> 1" and "xs = take (length as div 2) as" and "ys = drop (length as div 2) as"
  shows "\<exists>c l1 c1 h0. load h p = Some c \<and> gl_next c \<noteq> 0 \<and> split_walk h p (gl_next c) = Some l1 \<and>
           load h l1 = Some c1 \<and> set_next h l1 0 = Some h0 \<and> gl h0 p xs \<and> gl h0 (gl_next c1) ys \<and>
           same_data h h0 \<and> (\<forall>x. x \<notin> set as \<longrightarrow> h0 x = h x)"
proof -
  have as: "as = xs @ ys" and ne: "xs \<noteq> []" using assms by auto
  from assms(2) obtain a as' where a: "as = a # as'" "as' \<noteq> []" by (cases as) auto
  with assms(1) obtain c where c: "load h p = Some c" "gl h (gl_next c) as'"
    by (auto simp: load_def split: option.splits)
  have cn: "gl_next c \<noteq> 0" by (rule gl_ne [OF c(2) a(2)])
  obtain vs b where vs: "xs = vs @ [b]" using ne by (cases xs rule: rev_cases) auto
  have "length xs = length as div 2" by (simp add: assms(3))
  then have ix: "(length as' - 1) div 2 = length vs" using vs a by simp
  have "as ! length vs = b" using as vs by (simp add: nth_append)
  then have w: "split_walk h p (gl_next c) = Some b"
    using split_walk_gl [OF assms(1) c(2) a(2)] ix as vs by simp
  have "gl h p (vs @ b # ys)" using assms(1) as vs by simp
  from gl_cut [OF this] c cn w vs as show ?thesis by fastforce
qed

lemma same_data_all:
  "same_data h h' \<Longrightarrow> \<forall>x \<in> A. map_option gl_data (h x) = Some (d x) \<Longrightarrow>
   \<forall>x \<in> A. map_option gl_data (h' x) = Some (d x)"
  by (simp add: same_data_def)

lemma g_list_sort_real_gl:
  assumes "gl h p as" and "\<forall>x \<in> set as. map_option gl_data (h x) = Some (d x)"
  shows "\<exists>h' p'. g_list_sort_real cmp h p = Some (h', p') \<and>
           gl h' p' (msort_by (\<lambda>a b. cmp (d a) (d b)) as) \<and> same_data h h' \<and>
           (\<forall>x. x \<notin> set as \<longrightarrow> h' x = h x)"
  using assms
proof (induction "\<lambda>a b. cmp (d a) (d b)" as arbitrary: h p rule: msort_by.induct)
  case (1 as)
  let ?cmp = "\<lambda>a b. cmp (d a) (d b)" and ?n = "length as div 2"
  show ?case
  proof (cases "length as \<le> 1")
    case True
    then consider "as = []" | a where "as = [a]" by (cases as) auto
    then show ?thesis
      using "1.prems" by cases (subst g_list_sort_real.simps; auto simp: msort_by.simps load_def split: option.splits)+
  next
    case False
    define xs ys where "xs = take ?n as" and "ys = drop ?n as"
    then have as: "as = xs @ ys" by simp
    have disj: "set xs \<inter> set ys = {}" using gl_distinct [OF "1.prems"(1)] as by simp
    from sort_cut [OF "1.prems"(1) False xs_def ys_def] obtain c b e h0 where h0: "load h p = Some c"
      "gl_next c \<noteq> 0" "split_walk h p (gl_next c) = Some b" "load h b = Some e" "set_next h b 0 = Some h0"
      "gl h0 p xs" "gl h0 (gl_next e) ys" "same_data h h0" "\<forall>x. x \<notin> set as \<longrightarrow> h0 x = h x"
      by blast
    have d0: "\<forall>x \<in> set xs \<union> set ys. map_option gl_data (h0 x) = Some (d x)"
      using same_data_all [OF h0(8)] "1.prems"(2) as by simp
    from "1.hyps"(1) [OF False, of h0 p] h0(6) d0 obtain h1 p1 where h1:
      "g_list_sort_real cmp h0 p = Some (h1, p1)" "gl h1 p1 (msort_by ?cmp xs)" "same_data h0 h1"
      "\<forall>x. x \<notin> set xs \<longrightarrow> h1 x = h0 x" unfolding xs_def by blast
    have d1: "\<forall>x \<in> set xs \<union> set ys. map_option gl_data (h1 x) = Some (d x)"
      by (rule same_data_all [OF h1(3) d0])
    have "gl h1 (gl_next e) ys" by (rule gseg_frame [OF h0(7) h1(4) disj])
    with "1.hyps"(2) [OF False, of h1 "gl_next e"] d1 obtain h2 p2 where h2:
      "g_list_sort_real cmp h1 (gl_next e) = Some (h2, p2)" "gl h2 p2 (msort_by ?cmp ys)" "same_data h1 h2"
      "\<forall>x. x \<notin> set ys \<longrightarrow> h2 x = h1 x" unfolding ys_def by blast
    have g2: "gl h2 p1 (msort_by ?cmp xs)"
      by (rule gseg_frame [OF h1(2) h2(4)]) (use disj in auto)
    have d2: "\<forall>x \<in> set (msort_by ?cmp xs @ msort_by ?cmp ys). map_option gl_data (h2 x) = Some (d x)"
      using same_data_all [OF h2(3) d1] by simp
    have dd: "distinct ([] @ msort_by ?cmp xs @ msort_by ?cmp ys)"
      using gl_distinct [OF g2] gl_distinct [OF h2(2)] disj by simp
    have "tail_of h2 0 0 []" by (simp add: tail_of_def)
    from merge_loop_gl [OF g2 h2(2) this dd d2, of cmp] obtain h' r' where m:
      "merge_loop cmp h2 0 0 p1 p2 = Some (h', r')" "same_data h2 h'"
      "gl h' r' (merge_by ?cmp (msort_by ?cmp xs) (msort_by ?cmp ys))"
      "\<forall>x. x \<notin> set xs \<union> set ys \<longrightarrow> h' x = h2 x" by auto
    have "msort_by ?cmp as = merge_by ?cmp (msort_by ?cmp xs) (msort_by ?cmp ys)"
      using False by (subst msort_by.simps) (simp add: xs_def ys_def)
    moreover have "g_list_sort_real cmp h p = Some (h', r')"
    proof -
      have "p \<noteq> 0" using h0(1) by (simp add: load_Some_iff)
      then show ?thesis
        by (subst g_list_sort_real.simps) (simp add: h0(1-5) h1(1) h2(1) m(1) g_list_sort_merge_def)
    qed
    moreover have "same_data h h'" using h0(8) h1(3) h2(3) m(2) by (auto dest: same_data_trans)
    moreover have "\<forall>x. x \<notin> set as \<longrightarrow> h' x = h x" using m(4) h2(4) h1(4) h0(9) as by auto
    ultimately show ?thesis using m(3) by simp
  qed
qed


section \<open>Operations on represented lists\<close>

definition glist_fresh :: "heap \<Rightarrow> addr \<Rightarrow> bool" where
  "glist_fresh h a \<longleftrightarrow> a \<noteq> 0 \<and> h a = None"

lemma g_list_append_rep:
  assumes "glist_rep h p xs" and "glist_fresh h a"
  shows "\<exists>h' p'. g_list_append h p d a = Some (h', p') \<and> glist_rep h' p' (xs @ [d])"
proof -
  from assms obtain as where "gl h p as" "gdata h as = xs" "a \<noteq> 0" "h a = None"
    by (auto simp: glist_rep_def glist_fresh_def)
  with g_list_append_gl [of h p as a d] show ?thesis unfolding glist_rep_def by metis
qed

lemma g_list_prepend_rep:
  assumes "glist_rep h p xs" and "glist_fresh h a"
  shows "glist_rep (fst (g_list_prepend h p d a)) (snd (g_list_prepend h p d a)) (d # xs)"
proof -
  from assms obtain as where "gl h p as" "gdata h as = xs" "a \<noteq> 0" "h a = None" "a \<notin> set as"
    by (auto simp: glist_rep_def glist_fresh_def dest: gseg_fresh)
  then show ?thesis
    unfolding glist_rep_def by (intro exI [of _ "a # as"]) (auto simp: g_list_prepend_def)
qed

lemma g_list_remove_rep:
  assumes "glist_rep h p xs"
  shows "\<exists>h' p'. g_list_remove h p d = Some (h', p') \<and> glist_rep h' p' (remove_first (\<lambda>x. x = d) xs)"
proof -
  from assms obtain as where as: "gl h p as" "gdata h as = xs" by (auto simp: glist_rep_def)
  let ?bs = "remove_first (\<lambda>a. gl_data (the (h a)) = d) as"
  from remove_loop_gl [of h p "[]" as p 0 d] as obtain h' p' where h': "g_list_remove h p d = Some (h', p')"
    "gl h' p' ?bs" "\<forall>x. x \<in> set ?bs \<longrightarrow> map_option gl_data (h' x) = map_option gl_data (h x)"
    by (auto simp: g_list_remove_def)
  have "set ?bs \<subseteq> set as" by (rule set_remove_first)
  then have "gdata h' ?bs = gdata h ?bs"
    using gseg_alloc [OF as(1)] h'(3) by (intro gdata_cong) auto
  also have "\<dots> = remove_first (\<lambda>x. x = d) (gdata h as)"
    unfolding gdata_def by (induction as) auto
  finally show ?thesis using h' as unfolding glist_rep_def by auto
qed

lemma g_list_find_custom_rep:
  assumes "glist_rep h p xs"
  shows "\<exists>q. g_list_find_custom h p k (Some f) = Some q \<and>
           (case find (\<lambda>x. f x k = 0) xs of None \<Rightarrow> q = 0 | Some d \<Rightarrow> map_option gl_data (load h q) = Some d)"
proof -
  from assms obtain as where as: "gl h p as" "gdata h as = xs" by (auto simp: glist_rep_def)
  show ?thesis
    using find_custom_loop_gl [OF as(1), of "\<lambda>x. f x k"] gseg_alloc [OF as(1)]
    unfolding as(2) [symmetric]
  proof (induction as)
    case Nil
    then show ?case by (simp add: g_list_find_custom_def)
  qed (fastforce simp: g_list_find_custom_def load_def split: if_splits option.splits)
qed

lemma g_list_reverse_rep:
  assumes "glist_rep h p xs"
  shows "\<exists>h' p'. g_list_reverse h p = Some (h', p') \<and> glist_rep h' p' (rev xs)"
proof -
  from assms obtain as where as: "gl h p as" "gdata h as = xs" by (auto simp: glist_rep_def)
  from reverse_loop_gl [OF as(1), of 0 "[]"] obtain h' p' where
    r: "reverse_loop h 0 p = Some (h', p')" "gl h' p' (rev as)"
      "\<forall>x. map_option gl_data (h' x) = map_option gl_data (h x)" by auto
  have "gdata h' (rev as) = gdata h (rev as)"
    using gseg_alloc [OF as(1)] r(3) by (intro gdata_cong) auto
  with r as show ?thesis by (auto simp: glist_rep_def g_list_reverse_def gdata_def rev_map)
qed

lemma g_list_insert_rep:
  assumes "glist_rep h p xs" and "glist_fresh h a"
  shows "\<exists>h' p'. g_list_insert h p d position a = Some (h', p') \<and>
           glist_rep h' p' (if position < 0 then xs @ [d]
                            else take (nat position) xs @ d # drop (nat position) xs)"
proof -
  from assms obtain as where as: "gl h p as" "gdata h as = xs" "a \<noteq> 0" "h a = None"
    by (auto simp: glist_rep_def glist_fresh_def)
  consider "position < 0" | "position = 0" | "0 < position" "as = []" | "0 < position" "as \<noteq> []"
    by linarith
  then show ?thesis
  proof cases
    case 1
    with g_list_append_rep [OF assms] show ?thesis by (simp add: g_list_insert_def)
  next
    case 2
    with g_list_prepend_rep [OF assms, of d] show ?thesis
      by (cases "g_list_prepend h p d a") (simp add: g_list_insert_def)
  next
    case 3
    with as have "p = 0" "xs = []" by auto
    with 3 as show ?thesis
      unfolding glist_rep_def by (auto simp: g_list_insert_def intro: exI [of _ "[a]"])
  next
    case 4
    let ?us = "take (nat position) as" and ?vs = "drop (nat position) as"
    have "?us \<noteq> []" using 4 by simp
    then obtain us b where us: "?us = us @ [b]" by (cases ?us rule: rev_cases) auto
    then have eq: "as = us @ b # ?vs"
      by (metis append.assoc append_Cons append_Nil append_take_drop_id)
    have "us @ [b] = take (nat position) (us @ b # ?vs)" using us eq by simp
    with g_list_insert_mid_gl [of h p us b ?vs a position d] as eq 4 obtain h' where
      "g_list_insert h p d position a = Some (h', p)" "gl h' p (us @ b # a # ?vs)"
      "gdata h' (us @ b # a # ?vs) = gdata h (us @ [b]) @ d # gdata h ?vs" by auto
    moreover have "gdata h (us @ [b]) = take (nat position) xs" "gdata h ?vs = drop (nat position) xs"
      using us as(2) by (auto simp: gdata_def take_map drop_map simp flip: us)
    ultimately show ?thesis using 4 unfolding glist_rep_def by auto
  qed
qed


lemma g_list_concat_gl:
  assumes "gl h p as" and "gl h q bs" and "set as \<inter> set bs = {}"
  shows "\<exists>h' r. g_list_concat h p q = Some (h', r) \<and> gl h' r (as @ bs) \<and> gdata h' (as @ bs) = gdata h (as @ bs)"
proof -
  consider "bs = []" | "as = []" "bs \<noteq> []" | "as \<noteq> []" "bs \<noteq> []" by auto
  then show ?thesis
  proof cases
    case 3
    let ?b = "last as"
    have as: "as = butlast as @ [?b]" using 3 by simp
    have pq: "p \<noteq> 0" "q \<noteq> 0" using assms 3 by (auto dest: gl_ne)
    have 1: "gl h p (butlast as @ [?b])" using assms(1) 3 by simp
    have "?b \<in> set as" using 3 by simp
    then have "?b \<notin> set bs" using assms(3) by auto
    moreover have "q \<in> set bs" using assms(2) 3 by (cases bs) auto
    ultimately have "?b \<noteq> q" "?b \<notin> set bs" by auto
    with gl_snoc_link [OF 1] assms(2) obtain h' where h': "set_next h ?b q = Some h'"
      "gl h' p (butlast as @ ?b # bs)" "\<forall>x. map_option gl_data (h' x) = map_option gl_data (h x)" by blast
    have eq: "butlast as @ ?b # bs = as @ bs" using 3 by (metis append.assoc append_Cons append_Nil append_butlast_last_id)
    have "gdata h' (as @ bs) = gdata h (as @ bs)"
      using h'(3) gseg_alloc [OF assms(1)] gseg_alloc [OF assms(2)] by (intro gdata_cong) auto
    then show ?thesis
      using pq h'(1) h'(2) [unfolded eq] g_list_last_gl [OF assms(1)] 3 by (simp add: g_list_concat_def)
  qed (use assms in \<open>auto simp: g_list_concat_def dest: gl_ne\<close>)
qed

text \<open>
  \<^verbatim>\<open>g_list_free\<close> advances into the cell it is about to free: every list of two or more
  cells makes it read a freed cell, and a one-cell list is not freed at all.
\<close>

lemma free_loop_gl: "gl h p (a # b # as) \<Longrightarrow> free_loop h p = None"
proof -
  assume "gl h p (a # b # as)"
  then obtain c e where "h a = Some c" "p = a" "a \<noteq> 0" "gl_next c = b" "b \<noteq> 0" "h b = Some e"
    by (auto split: option.splits)
  moreover have "free_loop (h(b := None)) b = None"
    by (subst free_loop.simps) (simp add: load_def)
  ultimately show ?thesis
    by (subst free_loop.simps) (simp add: load_def free_cell_def)
qed

section \<open>The interface of the pointer lists\<close>

text \<open>
  What the node registries of the program use of the lists: add a node at the end, find the first
  one a callback accepts, unlink a node by its address. The client lemma is the pattern of every
  unregister operation: look the node up by key, then remove the pointer that was found.
\<close>

locale pointer_list =
  fixes rep :: "'h \<Rightarrow> 'p \<Rightarrow> 'd list \<Rightarrow> bool"
    and fresh :: "'h \<Rightarrow> 'p \<Rightarrow> bool"
    and null :: 'p
    and data :: "'h \<Rightarrow> 'p \<Rightarrow> 'd option"
    and append :: "'h \<Rightarrow> 'p \<Rightarrow> 'd \<Rightarrow> 'p \<Rightarrow> ('h \<times> 'p) option"
    and remove :: "'h \<Rightarrow> 'p \<Rightarrow> 'd \<Rightarrow> ('h \<times> 'p) option"
    and find_custom :: "'h \<Rightarrow> 'p \<Rightarrow> 'd \<Rightarrow> ('d \<Rightarrow> 'd \<Rightarrow> int) option \<Rightarrow> 'p option"
  assumes data_null: "data h null = None"
    and append_rep: "rep h p xs \<Longrightarrow> fresh h a \<Longrightarrow> \<exists>h' p'. append h p d a = Some (h', p') \<and> rep h' p' (xs @ [d])"
    and remove_rep: "rep h p xs \<Longrightarrow> \<exists>h' p'. remove h p d = Some (h', p') \<and> rep h' p' (remove_first (\<lambda>x. x = d) xs)"
    and find_custom_rep: "rep h p xs \<Longrightarrow> \<exists>q. find_custom h p k (Some f) = Some q \<and>
      (case find (\<lambda>x. f x k = 0) xs of None \<Rightarrow> q = null | Some d \<Rightarrow> data h q = Some d)"
begin

lemma remove_first_found:
  "find P xs = Some d \<Longrightarrow> remove_first (\<lambda>x. x = d) xs = remove_first P xs"
  by (induction xs) (auto split: if_splits dest: find_SomeD)

lemma find_then_remove:
  assumes "rep h p xs"
  shows "\<exists>q. find_custom h p k (Some f) = Some q \<and>
    (q = null \<longrightarrow> find (\<lambda>x. f x k = 0) xs = None) \<and>
    (q \<noteq> null \<longrightarrow> (\<exists>d h' p'. data h q = Some d \<and> f d k = 0 \<and> remove h p d = Some (h', p') \<and>
       rep h' p' (remove_first (\<lambda>x. f x k = 0) xs)))"
proof -
  from find_custom_rep [OF assms, of k f] obtain q where q: "find_custom h p k (Some f) = Some q"
    "case find (\<lambda>x. f x k = 0) xs of None \<Rightarrow> q = null | Some d \<Rightarrow> data h q = Some d" by blast
  show ?thesis
  proof (cases "find (\<lambda>x. f x k = 0) xs")
    case (Some d)
    with q(2) data_null [of h] have "data h q = Some d" "q \<noteq> null" by auto
    moreover from remove_rep [OF assms, of d] obtain h' p' where
      "remove h p d = Some (h', p')" "rep h' p' (remove_first (\<lambda>x. f x k = 0) xs)"
      using remove_first_found [OF Some] by auto
    ultimately show ?thesis using q(1) find_SomeD [OF Some] by auto
  qed (use q in auto)
qed

lemma append_then_find:
  assumes "rep h p xs" and "fresh h a" and "find (\<lambda>x. f x k = 0) xs = None" and "f d k = 0"
  shows "\<exists>h' p' q. append h p d a = Some (h', p') \<and> find_custom h' p' k (Some f) = Some q \<and> data h' q = Some d"
proof -
  from append_rep [OF assms(1,2), of d] obtain h' p' where
    1: "append h p d a = Some (h', p')" "rep h' p' (xs @ [d])" by blast
  moreover have "find (\<lambda>x. f x k = 0) (xs @ [d]) = Some d" using assms(3,4) by (simp add: find_append)
  ultimately show ?thesis using find_custom_rep [OF 1(2), of k f] by auto
qed

end

interpretation glist: pointer_list glist_rep glist_fresh 0 "\<lambda>h q. map_option gl_data (load h q)"
  g_list_append g_list_remove g_list_find_custom
  by unfold_locales
    (auto simp: load_def intro: g_list_append_rep g_list_remove_rep g_list_find_custom_rep)


section \<open>Properties\<close>

text \<open>Two concrete heaps: the list \<open>[30, 10, 20]\<close> at address 1 and a list of one cell at address 7.\<close>

definition heap3 :: heap where
  "heap3 = [1 \<mapsto> \<lparr>gl_data = 30, gl_next = 2\<rparr>, 2 \<mapsto> \<lparr>gl_data = 10, gl_next = 3\<rparr>,
            3 \<mapsto> \<lparr>gl_data = 20, gl_next = 0\<rparr>, 7 \<mapsto> \<lparr>gl_data = 5, gl_next = 0\<rparr>]"

lemma heap3_gl: "gl heap3 1 [1, 2, 3]"
  by (simp add: heap3_def)

lemma heap3_rep: "glist_rep heap3 1 [30, 10, 20]"
  unfolding glist_rep_def by (rule exI [of _ "[1, 2, 3]"]) (simp add: heap3_def)

definition icmp :: "nat \<Rightarrow> nat \<Rightarrow> int" where
  "icmp a b = int a - int b"

interpretation icmp: comparator icmp
  by unfold_locales (auto simp: icmp_def)

text \<open>
  C20 (sort). \<^verbatim>\<open>g_list_sort\<close> on a proper list returns a proper list: a permutation of the
  data, in the order of the comparison function, and stable for data that compare equal.
\<close>

theorem g_list_sort_correct:
  assumes "preorder_cmp cmp" and "glist_rep h p xs"
  shows "\<exists>h' p' ys. g_list_sort cmp h p = Some (h', p') \<and> glist_rep h' p' ys \<and> mset ys = mset xs \<and>
           sorted_wrt (\<lambda>a b. cmp a b \<le> 0) ys \<and>
           (\<forall>k. filter (\<lambda>x. cmp x k \<le> 0 \<and> cmp k x \<le> 0) ys = filter (\<lambda>x. cmp x k \<le> 0 \<and> cmp k x \<le> 0) xs)"
proof -
  from assms(2) obtain as where as: "gl h p as" "gdata h as = xs" by (auto simp: glist_rep_def)
  define d where "d a = gl_data (the (h a))" for a
  have d: "\<forall>x \<in> set as. map_option gl_data (h x) = Some (d x)"
    using gseg_alloc [OF as(1)] by (fastforce simp: d_def)
  let ?bs = "msort_by (\<lambda>a b. cmp (d a) (d b)) as"
  from g_list_sort_real_gl [OF as(1) d] obtain h' p' where
    r: "g_list_sort_real cmp h p = Some (h', p')" "gl h' p' ?bs" "same_data h h'" by blast
  have "gdata h' ?bs = gdata h ?bs"
    using r(3) gseg_alloc [OF as(1)] by (intro gdata_cong) (auto simp: same_data_def)
  also have "\<dots> = msort_by cmp xs"
    using as(2) map_msort_by [of d cmp as] by (simp add: gdata_def d_def [abs_def])
  finally have "glist_rep h' p' (msort_by cmp xs)" using r(2) by (auto simp: glist_rep_def)
  then show ?thesis
    using r(1) preorder_cmp.sorted_msort_by [OF assms(1)] preorder_cmp.stable_msort_by [OF assms(1)]
    by (auto simp: g_list_sort_def intro!: exI [of _ "msort_by cmp xs"])
qed

theorem g_list_sort_correct_witness:
  "\<exists>h' p' ys. g_list_sort icmp heap3 1 = Some (h', p') \<and> glist_rep h' p' ys \<and> mset ys = {#10, 20, 30#} \<and>
     sorted_wrt (\<lambda>a b. icmp a b \<le> 0) ys"
proof -
  obtain h' p' ys where "g_list_sort icmp heap3 1 = Some (h', p')" "glist_rep h' p' ys"
    "mset ys = mset [30, 10, 20]" "sorted_wrt (\<lambda>a b. icmp a b \<le> 0) ys"
    using g_list_sort_correct [OF icmp.preorder_cmp_axioms heap3_rep] by blast
  moreover have "mset [30, 10, 20::nat] = {#10, 20, 30#}" by simp
  ultimately show ?thesis by auto
qed

text \<open>
  Unlink. Looking a node up with \<^verbatim>\<open>g_list_find_custom\<close> and passing what it found to
  \<^verbatim>\<open>g_list_remove\<close>, as the unregister operations do, returns NULL exactly when no
  node matches and otherwise leaves a proper list without the first matching node and with all the others.
\<close>

theorem g_list_find_remove:
  assumes "glist_rep h p xs"
  shows "\<exists>q. g_list_find_custom h p k (Some f) = Some q \<and>
    (q = 0 \<longrightarrow> find (\<lambda>x. f x k = 0) xs = None) \<and>
    (q \<noteq> 0 \<longrightarrow> (\<exists>d h' p'. map_option gl_data (load h q) = Some d \<and> f d k = 0 \<and>
       g_list_remove h p d = Some (h', p') \<and> glist_rep h' p' (remove_first (\<lambda>x. f x k = 0) xs)))"
  by (rule glist.find_then_remove [OF assms])

theorem g_list_find_remove_witness:
  "\<exists>q d h' p'. g_list_find_custom heap3 1 10 (Some icmp) = Some q \<and> q \<noteq> 0 \<and>
     map_option gl_data (load heap3 q) = Some d \<and>
     g_list_remove heap3 1 d = Some (h', p') \<and> glist_rep h' p' [30, 20]"
proof -
  have f: "find (\<lambda>x. icmp x 10 = 0) [30, 10, 20] = Some 10"
    and r: "remove_first (\<lambda>x. icmp x 10 = 0) [30, 10, 20] = [30, 20]" by (simp_all add: icmp_def)
  from g_list_find_remove [OF heap3_rep, of 10 icmp] show ?thesis
    unfolding f r by auto
qed

text \<open>
  Insert. \<^verbatim>\<open>g_list_insert\<close> puts the new data before the element of the given index,
  at the end when the index is negative or too large, and leaves every other element in place.
\<close>

theorem g_list_insert_correct:
  assumes "glist_rep h p xs" and "glist_fresh h a"
  shows "\<exists>h' p'. g_list_insert h p d position a = Some (h', p') \<and>
           glist_rep h' p' (if position < 0 then xs @ [d]
                            else take (nat position) xs @ d # drop (nat position) xs)"
  by (rule g_list_insert_rep [OF assms])

theorem g_list_insert_correct_witness:
  "\<exists>h' p'. g_list_insert heap3 1 99 1 4 = Some (h', p') \<and> glist_rep h' p' [30, 99, 10, 20]"
  using g_list_insert_correct [OF heap3_rep, of 4 99 1] by (simp add: glist_fresh_def heap3_def)

text \<open>
  Free. \<^verbatim>\<open>g_list_free\<close> reads a cell it has just freed on every list of two or more
  cells, and frees nothing on a list of one cell.
\<close>

theorem g_list_free_faults:
  assumes "glist_rep h p xs"
  shows "g_list_free h p = (if length xs \<le> 1 then Some h else None)"
proof -
  from assms obtain as where as: "gl h p as" "length as = length xs" by (auto simp: glist_rep_def)
  show ?thesis
  proof (cases as rule: remdups_adj.cases)
    case (3 a b bs)
    with as free_loop_gl [of h p a b bs] show ?thesis by (auto simp: g_list_free_def dest: gl_ne)
  next
    case (2 a)
    with as show ?thesis
      by (auto simp: g_list_free_def free_loop.simps load_def split: option.splits)
  qed (use as in \<open>auto simp: g_list_free_def\<close>)
qed

theorem g_list_free_faults_witness: "g_list_free heap3 1 = None"
  using g_list_free_faults [OF heap3_rep] by simp

end
