(* ===== verification/Inet.thy ===== *)
theory Inet
  imports Prelude
begin

unbundle bit_operations_syntax

text \<open>
  Addresses, ports and packets: \<^verbatim>\<open>src/inet.c\<close>. An \<^verbatim>\<open>IP_addr\<close> is in network
  order, that is the first octet of the dotted notation is the byte at the lowest address; on the
  little-endian platform this is byte 0 of \<open>le_bytes 4\<close>. A packet is the list of its bytes, and
  a read behind its end is \<open>None\<close>.
\<close>

section \<open>Ports\<close>

definition portsbyrec :: "IP_port \<Rightarrow> IP_port \<Rightarrow> IP_ports" where
  "portsbyrec lo_port hi_port = push_bit 16 (ucast hi_port) + ucast lo_port"

definition recbyports :: "IP_ports \<Rightarrow> IP_port \<times> IP_port" where
  "recbyports rec = (ucast (rec AND 65535), ucast (drop_bit 16 (rec AND push_bit 16 (-1))))"

definition compare_ports :: "IP_port \<Rightarrow> IP_port \<Rightarrow> bool" where
  "compare_ports port rec_ports =
     (let (loword, hiword) = recbyports (ucast rec_ports)
      in if hiword = 0 \<and> loword = 0 then True
         else if hiword = 0 \<and> loword \<noteq> 0 then port = loword
         else if hiword \<noteq> 0 \<and> loword \<noteq> 0 then port > loword \<and> port < hiword
         else port < hiword)"

definition agregate_port :: "IP_port \<Rightarrow> IP_port" where
  "agregate_port port =
     (if port \<le> 1024 then port
      else if port > 1024 \<and> port \<le> 9999 then 1025
      else if port \<ge> 10000 \<and> port \<le> 19999 then 10000
      else if port \<ge> 20000 \<and> port \<le> 29999 then 20000
      else if port \<ge> 30000 \<and> port \<le> 39999 then 30000
      else if port \<ge> 40000 \<and> port \<le> 49999 then 40000
      else if port \<ge> 50000 \<and> port \<le> 59999 then 50000
      else if port \<ge> 60000 then 60000
      else 0)"

definition get_ports :: "IP_ports \<Rightarrow> string \<Rightarrow> string" where
  "get_ports ports str =
     (let (loword, hiword) = recbyports ports
      in if ports = 0 then ''all''
         else if hiword = 0 \<and> loword \<noteq> 0 then fmt_u loword
         else if hiword \<noteq> 0 \<and> loword \<noteq> 0 then fmt_u loword @ '' - '' @ fmt_u hiword
         else if hiword \<noteq> 0 \<and> loword = 0 then ''0 - '' @ fmt_u hiword
         else str)"

definition IPPROTO_IP :: IP_proto where "IPPROTO_IP = 0"
definition IPPROTO_ICMP :: IP_proto where "IPPROTO_ICMP = 1"
definition IPPROTO_IGMP :: IP_proto where "IPPROTO_IGMP = 2"
definition IPPROTO_IPIP :: IP_proto where "IPPROTO_IPIP = 4"
definition IPPROTO_TCP :: IP_proto where "IPPROTO_TCP = 6"
definition IPPROTO_UDP :: IP_proto where "IPPROTO_UDP = 17"

lemmas ipproto_defs =
  IPPROTO_IP_def IPPROTO_ICMP_def IPPROTO_IGMP_def IPPROTO_IPIP_def IPPROTO_TCP_def IPPROTO_UDP_def

definition get_proto :: "IP_proto \<Rightarrow> string" where
  "get_proto prot =
     (if prot = 255 then ''ALL''
      else if prot = IPPROTO_IP then ''IP''
      else if prot = IPPROTO_ICMP then ''ICMP''
      else if prot = IPPROTO_IGMP then ''IGMP''
      else if prot = IPPROTO_IPIP then ''IPIP''
      else if prot = IPPROTO_TCP then ''TCP''
      else if prot = IPPROTO_UDP then ''UDP''
      else ''?'')"

section \<open>Addresses and masks\<close>

text \<open>
  The comparison reads \<^verbatim>\<open>mask / 8\<close> whole bytes and, if the mask has a remainder, one more:
  beyond the four bytes of the address the read is out of range.
\<close>

definition compare_with_mask :: "IP_addr \<Rightarrow> IP_addr \<Rightarrow> IP_mask \<Rightarrow> bool option" where
  "compare_with_mask ip net msk =
     (let n = unat msk div 8;
          m = push_bit (8 - unat msk mod 8) (-1 :: byte)
      in if 4 < n then None
         else if memcmp (take n (le_bytes 4 ip)) (take n (le_bytes 4 net)) = 0
         then if unat msk mod 8 = 0 then Some True
              else if n < 4 then Some ((le_bytes 4 ip ! n) AND m = (le_bytes 4 net ! n) AND m)
              else None
         else Some False)"

text \<open>
  \<^verbatim>\<open>inet_aton\<close>: one to four numbers separated by dots, in decimal, octal (leading
  \<^verbatim>\<open>0\<close>) or hexadecimal (leading \<^verbatim>\<open>0x\<close>); the last one fills the remaining bytes.
  It is followed by the end of the string or by white space.
\<close>

definition hex_val :: "char \<Rightarrow> nat option" where
  "hex_val c =
     (if isdigit c then Some (char_code c - 48)
      else if 97 \<le> char_code c \<and> char_code c \<le> 102 then Some (char_code c - 87)
      else if 65 \<le> char_code c \<and> char_code c \<le> 70 then Some (char_code c - 55)
      else None)"

fun base_val :: "nat \<Rightarrow> nat \<Rightarrow> string \<Rightarrow> nat \<times> string" where
  "base_val base acc [] = (acc, [])"
| "base_val base acc (c # cs) =
     (case hex_val c of
        Some d \<Rightarrow> if d < base then base_val base (base * acc + d) cs else (acc, c # cs)
      | None \<Rightarrow> (acc, c # cs))"

definition strtoul0 :: "string \<Rightarrow> nat \<times> string" where
  "strtoul0 s =
     (if chd s = CHR ''0'' then
        if tolower (chd (tl s)) = CHR ''x'' \<and> hex_val (chd (tl (tl s))) \<noteq> None
        then base_val 16 0 (tl (tl s))
        else base_val 8 0 s
      else base_val 10 0 s)"

definition be_octets :: "nat \<Rightarrow> nat \<Rightarrow> byte list" where
  "be_octets k v = map (\<lambda>i. of_nat (v div 256 ^ (k - 1 - i))) [0..<k]"

definition word_of_bytes :: "byte list \<Rightarrow> 'a::len word" where
  "word_of_bytes bs = horner_sum ucast 256 bs"

fun aton_loop :: "nat \<Rightarrow> byte list \<Rightarrow> string \<Rightarrow> byte list option" where
  "aton_loop k parts s =
     (if \<not> isdigit (chd s) then None
      else let (v, rest) = strtoul0 s
           in if v \<ge> 2 ^ 32 then None
              else if chd rest = CHR ''.'' then
                (case k of 0 \<Rightarrow> None
                 | Suc k' \<Rightarrow> if v > 255 then None else aton_loop k' (parts @ [of_nat v]) (tl rest))
              else if chd rest \<noteq> NUL \<and> \<not> isspace (chd rest) then None
              else if v \<ge> 256 ^ Suc k then None
              else Some (parts @ be_octets (Suc k) v))"

declare aton_loop.simps [simp del]

definition inet_aton :: "string \<Rightarrow> IP_addr option" where
  "inet_aton s = map_option word_of_bytes (aton_loop 3 [] s)"

definition inet_ntoa :: "IP_addr \<Rightarrow> string" where
  "inet_ntoa ip =
     (let b = le_bytes 4 ip
      in fmt_u (b ! 0) @ ''.'' @ fmt_u (b ! 1) @ ''.'' @ fmt_u (b ! 2) @ ''.'' @ fmt_u (b ! 3))"

text \<open>
  The results of the two parsers: the return value and what is stored behind the pointers. \<open>ok\<close>
  tells whether \<^verbatim>\<open>strndup\<close> succeeds; if not, nothing is stored.
\<close>

definition hostbyip :: "bool \<Rightarrow> string \<Rightarrow> IP_addr \<Rightarrow> bool \<times> IP_addr" where
  "hostbyip ok host ip =
     (if \<not> ok then (False, ip)
      else let t_host = take 15 (cstr host)
           in case inet_aton (takeWhile (\<lambda>c. c \<noteq> CHR ''/'') t_host) of
                Some a \<Rightarrow> (True, a)
              | None \<Rightarrow> (False, 0))"

definition hostbyip_with_mask :: "bool \<Rightarrow> string \<Rightarrow> IP_addr \<Rightarrow> IP_mask \<Rightarrow> bool \<times> IP_addr \<times> IP_mask" where
  "hostbyip_with_mask ok host ip msk =
     (if \<not> ok then (False, ip, msk)
      else let t_host = take 18 (cstr host);
               maxbitlen = 32;
               bitlen = (if CHR ''/'' \<in> set t_host
                         then let n = word_of_int (atoi (tl (dropWhile (\<lambda>c. c \<noteq> CHR ''/'') t_host)))
                              in if n > maxbitlen then maxbitlen else n
                         else maxbitlen)
           in case inet_aton (takeWhile (\<lambda>c. c \<noteq> CHR ''/'') t_host) of
                Some a \<Rightarrow> (True, a, bitlen)
              | None \<Rightarrow> (False, 0, 0))"

text \<open>The host buffer may be \<^verbatim>\<open>NULL\<close>.\<close>

definition ipbyhost :: "IP_addr \<Rightarrow> string option \<Rightarrow> bool \<times> string option" where
  "ipbyhost ip host = (case host of None \<Rightarrow> (False, None) | Some _ \<Rightarrow> (True, Some (inet_ntoa ip)))"

section \<open>Packets\<close>

record ipq_packet_msg =
  ipq_hw_addr :: "byte list"
  ipq_data_len :: IP_size
  ipq_payload :: "byte list"

record PACKET_INFO =
  pi_mac :: string
  pi_proto :: IP_proto
  pi_src :: IP_addr
  pi_dest :: IP_addr
  pi_src_port :: IP_port
  pi_dest_port :: IP_port

definition hex_digit :: "nat \<Rightarrow> char" where
  "hex_digit d = (if d < 10 then char_of (48 + d) else char_of (87 + d))"

definition fmt_02x :: "byte \<Rightarrow> string" where
  "fmt_02x b = [hex_digit (unat b div 16), hex_digit (unat b mod 16)]"

definition fmt_mac :: "byte list \<Rightarrow> string" where
  "fmt_mac b = fmt_02x (b ! 0) @ '':'' @ fmt_02x (b ! 1) @ '':'' @ fmt_02x (b ! 2) @ '':'' @
     fmt_02x (b ! 3) @ '':'' @ fmt_02x (b ! 4) @ '':'' @ fmt_02x (b ! 5)"

definition get_u8 :: "byte list \<Rightarrow> nat \<Rightarrow> byte option" where
  "get_u8 p i = (if i < length p then Some (p ! i) else None)"

text \<open>A 16-bit field in network order, converted with \<^verbatim>\<open>ntohs\<close>, and an address left in network order.\<close>

definition get_be16 :: "byte list \<Rightarrow> nat \<Rightarrow> 16 word option" where
  "get_be16 p i = (if i + 2 \<le> length p then Some (push_bit 8 (ucast (p ! i)) OR ucast (p ! (i + 1))) else None)"

definition get_addr :: "byte list \<Rightarrow> nat \<Rightarrow> IP_addr option" where
  "get_addr p i = (if i + 4 \<le> length p then Some (word_of_bytes (take 4 (drop i p))) else None)"

definition IP_MF :: "16 word" where "IP_MF = 0x2000"
definition IP_OFFMASK :: "16 word" where "IP_OFFMASK = 0x1FFF"

text \<open>Every field of the \<^verbatim>\<open>PACKET_INFO\<close> is overwritten, so the model returns it.\<close>

definition ipq_grep_packet ::
  "ipq_packet_msg \<Rightarrow> (IP_size \<times> PACKET_INFO) option" where
  "ipq_grep_packet hp = do {
     let ip = ipq_payload hp;
     ip_off \<leftarrow> get_be16 ip 6;
     ip_p \<leftarrow> get_u8 ip 9;
     hl \<leftarrow> get_u8 ip 0;
     let l4 = unat (hl AND 0x0F) * 4;
     (src_port, dest_port) \<leftarrow>
       (if ip_off AND (IP_MF OR IP_OFFMASK) \<noteq> 0 then Some (0, 0)
        else if ip_p = IPPROTO_TCP then do {
          th_sport \<leftarrow> get_be16 ip l4;
          th_dport \<leftarrow> get_be16 ip (l4 + 2);
          Some (th_sport, th_dport)
        }
        else if ip_p = IPPROTO_UDP then do {
          uh_sport \<leftarrow> get_be16 ip l4;
          uh_dport \<leftarrow> get_be16 ip (l4 + 2);
          Some (uh_sport, uh_dport)
        }
        else Some (0, 0));
     src \<leftarrow> get_addr ip 12;
     dst \<leftarrow> get_addr ip 16;
     Some (ipq_data_len hp,
           \<lparr>pi_mac = fmt_mac (ipq_hw_addr hp) @ [NUL],
            pi_proto = ip_p, pi_src = src, pi_dest = dst,
            pi_src_port = src_port, pi_dest_port = dest_port\<rparr>)
   }"

section \<open>Port records\<close>

lemma portsbyrec_or: "portsbyrec lo hi = push_bit 16 (ucast hi) OR ucast lo"
  unfolding portsbyrec_def
  by (rule disjunctive_add) (auto simp: bit_push_bit_iff bit_unsigned_iff dest: bit_imp_le_length)

lemma recbyports_portsbyrec: "recbyports (portsbyrec lo hi) = (lo, hi)"
proof -
  have m: "(65535 :: 32 word) = mask 16" by (simp add: mask_eq_exp_minus_1)
  have "\<not> bit lo (16 + n)" for n by (auto dest: bit_imp_le_length)
  then show ?thesis
    unfolding recbyports_def portsbyrec_or prod.inject m
    by (auto intro!: bit_word_eqI simp: bit_simps)
qed

lemma portsbyrec_recbyports: "portsbyrec (fst (recbyports r)) (snd (recbyports r)) = r"
proof -
  have m: "(65535 :: 32 word) = mask 16" by (simp add: mask_eq_exp_minus_1)
  show ?thesis
    unfolding recbyports_def portsbyrec_or fst_conv snd_conv m
    by (rule bit_word_eqI) (auto simp: bit_simps)
qed

lemma recbyports_16: "recbyports (ucast (w :: IP_port)) = (w, 0)"
  using recbyports_portsbyrec [of w 0] by (simp add: portsbyrec_def)

lemma ucast_portsbyrec: "ucast (portsbyrec lo hi) = (lo :: IP_port)"
  unfolding portsbyrec_or by (rule bit_word_eqI) (auto simp: bit_simps)

lemma compare_ports_16: "compare_ports port rec \<longleftrightarrow> rec = 0 \<or> port = rec"
  by (auto simp: compare_ports_def recbyports_16)

section \<open>Prefixes\<close>

text \<open>Bit \<open>i\<close> of an address in the order of the wire: bit 0 is the highest bit of the first octet.\<close>

definition net_bit :: "IP_addr \<Rightarrow> nat \<Rightarrow> bool" where
  "net_bit ip i = bit (le_bytes 4 ip ! (i div 8)) (7 - i mod 8)"

lemma byte_eq_net_bits:
  "n < 4 \<Longrightarrow> le_bytes 4 v ! n = le_bytes 4 w ! n \<longleftrightarrow> (\<forall>j < 8. net_bit v (8 * n + j) = net_bit w (8 * n + j))"
proof
  assume n: "n < 4" and r: "\<forall>j < 8. net_bit v (8 * n + j) = net_bit w (8 * n + j)"
  show "le_bytes 4 v ! n = le_bytes 4 w ! n"
  proof (rule bit_word_eqI)
    fix k assume "k < LENGTH(8)"
    with r [rule_format, of "7 - k"] show "bit (le_bytes 4 v ! n) k = bit (le_bytes 4 w ! n) k"
      by (simp add: net_bit_def)
  qed
qed (simp add: net_bit_def)

lemma bytes_eq_net_bits:
  "n \<le> 4 \<Longrightarrow> take n (le_bytes 4 v) = take n (le_bytes 4 w) \<longleftrightarrow> (\<forall>i < 8 * n. net_bit v i = net_bit w i)"
proof (induction n)
  case (Suc n)
  have *: "i < 8 * Suc n \<longleftrightarrow> i < 8 * n \<or> (\<exists>j < 8. i = 8 * n + j)" for i
    by (auto simp: less_mult_imp_div_less dest: leI intro: exI [of _ "i - 8 * n"])
  show ?case
    using Suc byte_eq_net_bits [of n v w] unfolding * by (auto simp: take_Suc_conv_app_nth)
qed simp

lemma high_bits_eq:
  "n < 4 \<Longrightarrow> k \<le> 8 \<Longrightarrow>
   (le_bytes 4 v ! n) AND push_bit (8 - k) (-1) = (le_bytes 4 w ! n) AND push_bit (8 - k) (-1) \<longleftrightarrow>
   (\<forall>j < k. net_bit v (8 * n + j) = net_bit w (8 * n + j))"
proof
  assume n: "n < 4" "k \<le> 8"
    and eq: "(le_bytes 4 v ! n) AND push_bit (8 - k) (-1) = (le_bytes 4 w ! n) AND push_bit (8 - k) (-1)"
  show "\<forall>j < k. net_bit v (8 * n + j) = net_bit w (8 * n + j)"
  proof (intro allI impI)
    fix j assume "j < k"
    with n arg_cong [OF eq, of "\<lambda>x. bit x (7 - j)"] show "net_bit v (8 * n + j) = net_bit w (8 * n + j)"
      by (auto simp: net_bit_def bit_simps)
  qed
next
  assume n: "n < 4" "k \<le> 8" and r: "\<forall>j < k. net_bit v (8 * n + j) = net_bit w (8 * n + j)"
  show "(le_bytes 4 v ! n) AND push_bit (8 - k) (-1) = (le_bytes 4 w ! n) AND push_bit (8 - k) (-1)"
  proof (rule bit_word_eqI)
    fix i assume "i < LENGTH(8)"
    with r [rule_format, of "7 - i"] n
    show "bit ((le_bytes 4 v ! n) AND push_bit (8 - k) (-1)) i = bit ((le_bytes 4 w ! n) AND push_bit (8 - k) (-1)) i"
      by (auto simp: net_bit_def bit_simps)
  qed
qed

lemma split_prefix:
  "(\<forall>i < (m::nat). P i) \<longleftrightarrow> (\<forall>i < 8 * (m div 8). P i) \<and> (\<forall>j < m mod 8. P (8 * (m div 8) + j))"
proof -
  have "i < m \<longleftrightarrow> i < 8 * (m div 8) \<or> (\<exists>j < m mod 8. i = 8 * (m div 8) + j)" for i
  proof (cases "i < 8 * (m div 8)")
    case False
    then have "i < m \<longleftrightarrow> i - 8 * (m div 8) < m mod 8" by presburger
    with False show ?thesis by (auto intro: exI [of _ "i - 8 * (m div 8)"])
  qed (use mult_div_mod_eq [of 8 m] in linarith)
  then show ?thesis by blast
qed

lemma compare_with_mask_net_bits:
  assumes "msk \<le> 32"
  shows "compare_with_mask ip net msk = Some (\<forall>i < unat msk. net_bit ip i = net_bit net i)"
proof -
  have m: "unat msk \<le> 32" using assms by (simp add: word_le_nat_alt)
  let ?n = "unat msk div 8" and ?k = "unat msk mod 8"
  have n: "?n \<le> 4" "?k \<noteq> 0 \<Longrightarrow> ?n < 4" using m by presburger+
  have "memcmp (take ?n (le_bytes 4 ip)) (take ?n (le_bytes 4 net)) = 0 \<longleftrightarrow> (\<forall>i < 8 * ?n. net_bit ip i = net_bit net i)"
    using bytes_eq_net_bits [OF n(1)] by (simp add: memcmp_eq_0)
  moreover have "?k \<noteq> 0 \<Longrightarrow> (le_bytes 4 ip ! ?n) AND push_bit (8 - ?k) (-1) = (le_bytes 4 net ! ?n) AND push_bit (8 - ?k) (-1) \<longleftrightarrow>
      (\<forall>j < ?k. net_bit ip (8 * ?n + j) = net_bit net (8 * ?n + j))"
    using high_bits_eq [of ?n ?k ip net] n(2) by simp
  ultimately show ?thesis
    using n split_prefix [of "unat msk" "\<lambda>i. net_bit ip i = net_bit net i"]
    by (auto simp: compare_with_mask_def Let_def)
qed

section \<open>Dotted notation\<close>

lemma hex_val_digit_char: "d < 10 \<Longrightarrow> hex_val (digit_char d) = Some d"
  by (simp add: hex_val_def char_code_digit)

lemma base_val_stop: "hex_val c = None \<Longrightarrow> base_val base acc (c # s) = (acc, c # s)"
  by simp

lemma base_val_show_nat:
  "hex_val (chd t) = None \<Longrightarrow> base_val 10 0 (show_nat n @ t) = (n, t)"
proof -
  assume t: "hex_val (chd t) = None"
  have "base_val 10 a (show_nat n @ s) = base_val 10 (10 ^ length (show_nat n) * a + n) s" for a s
  proof (induction n arbitrary: a s rule: show_nat.induct)
    case (1 n)
    show ?case
    proof (cases "n < 10")
      case True
      then show ?thesis by (simp add: show_nat.simps [of n] hex_val_digit_char)
    next
      case False
      then have "show_nat n = show_nat (n div 10) @ [digit_char (n mod 10)]" by (simp add: show_nat.simps [of n])
      then show ?thesis using 1 [OF False] by (simp add: hex_val_digit_char algebra_simps)
    qed
  qed
  from this [of 0 t] t show ?thesis by (cases t) auto
qed

lemma digit_zero: "digit_char 0 = CHR ''0''"
  by code_simp

lemma chd_show_nat: "chd (show_nat n @ t) = CHR ''0'' \<longleftrightarrow> n = 0"
proof (induction n arbitrary: t rule: show_nat.induct)
  case (1 n)
  have z: "digit_char d = CHR ''0'' \<longleftrightarrow> d = 0" if "d < 10" for d
  proof
    assume "digit_char d = CHR ''0''"
    then show "d = 0" using char_code_digit [OF that] by (simp add: char_code_def)
  qed (simp add: digit_zero)
  show ?case
  proof (cases "n < 10")
    case False
    then have "n div 10 \<noteq> 0" by simp
    with 1 [OF False, of "digit_char (n mod 10) # t"] False show ?thesis by (simp add: show_nat.simps [of n])
  qed (simp add: show_nat.simps [of n] z)
qed

lemma isdigit_chd_show_nat: "isdigit (chd (show_nat n @ t))"
  using show_nat_digits [of "chd (show_nat n)" n] by (cases "show_nat n") auto

lemma strtoul0_show_nat:
  assumes "hex_val (chd t) = None" and "tolower (chd t) \<noteq> CHR ''x''"
  shows "strtoul0 (show_nat n @ t) = (n, t)"
proof (cases "n = 0")
  case True
  have "hex_val (CHR ''0'') = Some 0" using hex_val_digit_char [of 0] by (simp add: digit_zero)
  with True assms show ?thesis
    by (cases t) (auto simp: strtoul0_def show_nat.simps [of 0] digit_zero)
next
  case False
  then show ?thesis using assms chd_show_nat [of n t] by (simp add: strtoul0_def base_val_show_nat)
qed


lemma dot_facts: "hex_val (CHR ''.'') = None" "tolower (CHR ''.'') \<noteq> CHR ''x''" "isdigit (CHR ''.'') = False"
  "hex_val NUL = None" "tolower NUL \<noteq> CHR ''x''" "NUL \<noteq> CHR ''.''"
  by code_simp+

lemma aton_loop_dot:
  assumes "v < 256"
  shows "aton_loop (Suc k) parts (show_nat v @ CHR ''.'' # s) = aton_loop k (parts @ [of_nat v]) s"
  using assms isdigit_chd_show_nat [of v "CHR ''.'' # s"]
  by (subst aton_loop.simps) (simp add: strtoul0_show_nat dot_facts)

lemma aton_loop_end:
  assumes "v < 256"
  shows "aton_loop 0 parts (show_nat v) = Some (parts @ [of_nat v])"
proof -
  have "strtoul0 (show_nat v) = (v, [])" using strtoul0_show_nat [of "[]" v] dot_facts by simp
  then show ?thesis
    using assms isdigit_chd_show_nat [of v "[]"] dot_facts by (subst aton_loop.simps) (simp add: be_octets_def)
qed

lemma word_of_bytes_Cons:
  "word_of_bytes (b # bs) = (ucast b OR push_bit 8 (word_of_bytes bs) :: IP_addr)"
proof -
  have "word_of_bytes (b # bs) = (ucast b + push_bit 8 (word_of_bytes bs) :: IP_addr)"
    by (simp add: word_of_bytes_def push_bit_eq_mult mult.commute)
  also have "\<dots> = ucast b OR push_bit 8 (word_of_bytes bs)"
    by (rule disjunctive_add) (auto simp: bit_simps dest: bit_imp_le_length)
  finally show ?thesis .
qed

lemma le_bytes_4: "le_bytes 4 (ip :: IP_addr) =
    [ucast ip, ucast (drop_bit 8 ip), ucast (drop_bit 16 ip), ucast (drop_bit 24 ip)]"
  by (simp add: le_bytes_def upt_conv_Cons)

lemma word_of_bytes_le_bytes: "word_of_bytes (le_bytes 4 ip) = (ip :: IP_addr)"
proof (rule bit_word_eqI)
  fix i assume "i < LENGTH(32)"
  then consider "i < 8" | "8 \<le> i" "i < 16" | "16 \<le> i" "i < 24" | "24 \<le> i" "i < 32" by fastforce
  then show "bit (word_of_bytes (le_bytes 4 ip) :: IP_addr) i = bit ip i"
    unfolding le_bytes_4 word_of_bytes_Cons
    by cases (auto simp: bit_simps word_of_bytes_def)
qed

lemma aton_ntoa: "inet_aton (inet_ntoa ip) = Some ip"
proof -
  have lt: "unat (b :: byte) < 256" for b using unsigned_less [of b, where ?'a = nat] by simp
  have "aton_loop 3 [] (inet_ntoa ip) = Some (le_bytes 4 ip)"
    unfolding inet_ntoa_def Let_def fmt_u_def append_Cons append_Nil append.assoc numeral_3_eq_3
    by (simp only: aton_loop_dot [OF lt] aton_loop_end [OF lt] append_Cons append_Nil)
      (simp add: le_bytes_4)
  then show ?thesis by (simp add: inet_aton_def word_of_bytes_le_bytes)
qed

lemma length_show_nat_byte: "v < 1000 \<Longrightarrow> length (show_nat v) \<le> 3"
  by (auto simp: show_nat.simps [of v] show_nat.simps [of "v div 10"] show_nat.simps [of "v div 10 div 10"])

lemma inet_ntoa_chars: "c \<in> set (inet_ntoa ip) \<Longrightarrow> isdigit c \<or> c = CHR ''.''"
  by (auto simp: inet_ntoa_def Let_def fmt_u_def dest: show_nat_digits)

lemma length_inet_ntoa: "length (inet_ntoa ip) \<le> 15"
proof -
  have "length (fmt_u (b :: byte)) \<le> 3" for b
    using unsigned_less [of b, where ?'a = nat] by (simp add: fmt_u_def length_show_nat_byte)
  from this [of "le_bytes 4 ip ! 0"] this [of "le_bytes 4 ip ! 1"] this [of "le_bytes 4 ip ! 2"] this [of "le_bytes 4 ip ! 3"]
  show ?thesis by (simp add: inet_ntoa_def Let_def)
qed

lemma not_in_ntoa: "\<not> isdigit c \<Longrightarrow> c \<noteq> CHR ''.'' \<Longrightarrow> c \<notin> set (inet_ntoa ip)"
  using inet_ntoa_chars by blast

text \<open>The equations that evaluate the parsers on a literal text.\<close>

lemmas parse_simps =
  hostbyip_with_mask_def hostbyip_def inet_aton_def aton_loop.simps strtoul0_def hex_val_def isdigit_def isspace_def
  tolower_def char_code_def NUL_def be_octets_def word_of_bytes_def atoi_def signed_val_def saturate_def cstr_def
  numeral_3_eq_3 Let_def

section \<open>Properties\<close>

text \<open>
  C21 (mask). For a mask of at most 32 bits the comparison reads only the four bytes of the addresses and says
  whether the two agree on their first \<open>msk\<close> bits, counted from the top of the first octet.
\<close>

theorem compare_with_mask_prefix:
  assumes "msk \<le> 32"
  shows "compare_with_mask ip net msk = Some (\<forall>i < unat msk. net_bit ip i = net_bit net i)"
  by (rule compare_with_mask_net_bits [OF assms])

theorem compare_with_mask_prefix_witness:
  "compare_with_mask 0x0101A8C0 0x0001A8C0 24 = Some (\<forall>i < 24. net_bit 0x0101A8C0 i = net_bit 0x0001A8C0 i)"
  using compare_with_mask_prefix [of 24 "0x0101A8C0" "0x0001A8C0"] by simp

text \<open>
  C22 (addresses). Printing an address and parsing the text gives the address back, for both parsers; the text
  without a mask means a mask of 32 bits, and the text fits the sixteen bytes the callers reserve.
\<close>

theorem hostbyip_ipbyhost:
  "\<exists>s. ipbyhost ip (Some buf) = (True, Some s) \<and> length s < 16 \<and>
     hostbyip True s old = (True, ip) \<and> hostbyip_with_mask True s old msk = (True, ip, 32)"
proof -
  let ?s = "inet_ntoa ip"
  have "NUL \<notin> set ?s" by (rule not_in_ntoa) (simp_all add: isdigit_def char_code_def NUL_def)
  then have c: "cstr ?s = ?s" by (rule cstr_ident)
  have sl: "CHR ''/'' \<notin> set ?s" by (rule not_in_ntoa) (simp_all add: isdigit_def char_code_def)
  then have tw: "takeWhile (\<lambda>c. c \<noteq> CHR ''/'') ?s = ?s" by (subst takeWhile_eq_all_conv) auto
  have t: "take 15 ?s = ?s" "take 18 ?s = ?s" using length_inet_ntoa [of ip] by simp_all
  have "hostbyip True ?s old = (True, ip)"
    by (simp add: hostbyip_def Let_def c t tw aton_ntoa)
  moreover have "hostbyip_with_mask True ?s old msk = (True, ip, 32)"
    by (simp add: hostbyip_with_mask_def Let_def c t tw aton_ntoa sl)
  moreover have "length ?s < 16" using length_inet_ntoa [of ip] by simp
  ultimately show ?thesis by (simp add: ipbyhost_def)
qed

text \<open>
  Mask range. Whatever the text, a successful parse never stores a mask above 32, so comparing with the parsed
  network never reads outside the address.
\<close>

theorem hostbyip_with_mask_safe:
  assumes "hostbyip_with_mask True host ip0 m0 = (True, net, msk)"
  shows "msk \<le> 32 \<and> (\<exists>r. compare_with_mask ip net msk = Some r)"
proof -
  have "msk \<le> 32" using assms by (auto simp: hostbyip_with_mask_def Let_def split: option.splits if_splits)
  then have "unat msk \<le> 32" by (simp add: word_le_nat_alt)
  then have "unat msk div 8 \<le> 4" "unat msk mod 8 \<noteq> 0 \<Longrightarrow> unat msk div 8 < 4" by presburger+
  then have "\<exists>r. compare_with_mask ip net msk = Some r" by (auto simp: compare_with_mask_def Let_def)
  with \<open>msk \<le> 32\<close> show ?thesis ..
qed

theorem hostbyip_with_mask_safe_witness:
  "\<exists>r. compare_with_mask 5 10 8 = Some r"
proof -
  have "hostbyip_with_mask True ''10.0.0.0/8'' 0 0 = (True, 10, 8)"
    by (simp add: parse_simps)
  from hostbyip_with_mask_safe [OF this, of 5] show ?thesis by blast
qed

text \<open>
  Port records. A pair of ports and the 32-bit record that stores it determine each other.
\<close>

theorem portsbyrec_roundtrip:
  "recbyports (portsbyrec lo hi) = (lo, hi) \<and> portsbyrec (fst (recbyports r)) (snd (recbyports r)) = r"
  by (simp add: recbyports_portsbyrec portsbyrec_recbyports)

text \<open>
  Port ranges. \<^verbatim>\<open>compare_ports\<close> takes the record as a 16-bit value, so the upper port of a
  range never reaches it: a range \<open>lo - hi\<close> is treated as the single port \<open>lo\<close>, and a
  range that starts at 0 accepts every port.
\<close>

theorem compare_ports_truncates:
  "compare_ports port (ucast (portsbyrec lo hi)) \<longleftrightarrow> lo = 0 \<or> port = lo"
  by (auto simp: compare_ports_def ucast_portsbyrec recbyports_16)

text \<open>
  Port classes. Aggregating a port yields a representative that is its own class; it is never larger than the port, and
  aggregation is monotone, so the classes are intervals.
\<close>

theorem agregate_port_classes:
  "agregate_port (agregate_port p) = agregate_port p \<and> agregate_port p \<le> p \<and>
   (p \<le> q \<longrightarrow> agregate_port p \<le> agregate_port q)"
  unfolding agregate_port_def word_le_nat_alt word_less_nat_alt by auto

theorem agregate_port_classes_witness: "agregate_port 1100 \<le> agregate_port 8080"
  using agregate_port_classes [of 1100 8080] by simp

text \<open>
  Packets. From a packet that holds its IP header and four bytes of the transport header nothing is read out
  of range; the ports are those of the transport header for the unfragmented TCP and UDP packets and 0 for all others.
\<close>

theorem ipq_grep_packet_correct:
  assumes "ipq_payload hp = hdr0 # b1 # b2 # b3 # b4 # b5 # o1 # o2 # b8 # proto # b10 # b11 #
             s0 # s1 # s2 # s3 # d0 # d1 # d2 # d3 # rest"
    and "unat (hdr0 AND 0x0F) * 4 + 4 \<le> length (ipq_payload hp)"
    and "l4 = drop (unat (hdr0 AND 0x0F) * 4) (ipq_payload hp)"
    and "frag \<longleftrightarrow> (push_bit 8 (ucast o1) OR ucast o2 :: 16 word) AND 0x3FFF \<noteq> 0"
  shows "\<exists>pk. ipq_grep_packet hp = Some (ipq_data_len hp, pk) \<and> pi_proto pk = proto \<and>
     le_bytes 4 (pi_src pk) = [s0, s1, s2, s3] \<and> le_bytes 4 (pi_dest pk) = [d0, d1, d2, d3] \<and>
     (if \<not> frag \<and> (proto = IPPROTO_TCP \<or> proto = IPPROTO_UDP)
      then pi_src_port pk = push_bit 8 (ucast (l4 ! 0)) OR ucast (l4 ! 1) \<and>
           pi_dest_port pk = push_bit 8 (ucast (l4 ! 2)) OR ucast (l4 ! 3)
      else pi_src_port pk = 0 \<and> pi_dest_port pk = 0)"
proof -
  have high: "\<not> bit (w :: byte) (8 + n)" "\<not> bit w (16 + n)" "\<not> bit w (24 + n)" for w n
    by (auto dest: bit_imp_le_length)
  have le4: "le_bytes 4 (word_of_bytes [a, b, c, d] :: IP_addr) = [a, b, c, d]" for a b c d
    unfolding le_bytes_4 word_of_bytes_Cons
    by (auto intro!: bit_word_eqI simp: bit_simps high)
  have "(IP_MF OR IP_OFFMASK) = 0x3FFF" by (simp add: IP_MF_def IP_OFFMASK_def)
  moreover have "get_be16 (ipq_payload hp) (unat (hdr0 AND 0x0F) * 4) = Some (push_bit 8 (ucast (l4 ! 0)) OR ucast (l4 ! 1))"
    "get_be16 (ipq_payload hp) (unat (hdr0 AND 0x0F) * 4 + 2) = Some (push_bit 8 (ucast (l4 ! 2)) OR ucast (l4 ! 3))"
    using assms(2) by (simp_all add: get_be16_def assms(3) add.commute numeral_eq_Suc)
  moreover have "get_be16 (ipq_payload hp) 6 = Some (push_bit 8 (ucast o1) OR ucast o2)"
    "get_u8 (ipq_payload hp) 9 = Some proto" "get_u8 (ipq_payload hp) 0 = Some hdr0"
    "get_addr (ipq_payload hp) 12 = Some (word_of_bytes [s0, s1, s2, s3])"
    "get_addr (ipq_payload hp) 16 = Some (word_of_bytes [d0, d1, d2, d3])"
    by (simp_all add: assms(1) get_be16_def get_u8_def get_addr_def)
  ultimately show ?thesis
    using assms(4) by (cases frag; cases "proto = IPPROTO_TCP"; cases "proto = IPPROTO_UDP")
      (simp_all add: ipq_grep_packet_def le4 Let_def)
qed

theorem ipq_grep_packet_correct_witness:
  "\<exists>pk. ipq_grep_packet \<lparr>ipq_hw_addr = [0, 1, 2, 3, 4, 5, 0, 0], ipq_data_len = 60,
      ipq_payload = [0x45, 0, 0, 60, 0, 0, 0x40, 0, 64, 6, 0, 0, 10, 0, 0, 1, 10, 0, 0, 2, 0x1F, 0x90, 0, 80]\<rparr> =
      Some (60, pk) \<and> pi_proto pk = 6 \<and> pi_src_port pk = 8080 \<and> pi_dest_port pk = 80"
proof -
  have h: "unat ((0x45 :: byte) AND 0x0F) = 5" by simp
  show ?thesis
    using ipq_grep_packet_correct [where hp = "\<lparr>ipq_hw_addr = [0, 1, 2, 3, 4, 5, 0, 0], ipq_data_len = 60,
        ipq_payload = [0x45, 0, 0, 60, 0, 0, 0x40, 0, 64, 6, 0, 0, 10, 0, 0, 1, 10, 0, 0, 2, 0x1F, 0x90, 0, 80]\<rparr>",
        OF _ _ refl refl]
    by (simp add: h IPPROTO_TCP_def) blast
qed

end
