(* ===== verification/Store.thy ===== *)
theory Store
  imports Complex_Main Prelude
begin

text \<open>
  The database behind \<^verbatim>\<open>STORE_API\<close> (\<^verbatim>\<open>include/store.h\<close>,
  \<^verbatim>\<open>src/store.c\<close>, \<^verbatim>\<open>ipstat_mysql/main.c\<close>). The client library and the server are
  not part of the sources, so the API is a record of functions over a world type \<open>'w\<close> that the
  definitions take as an argument. The statements are the texts the C code builds. A query delivers all its
  rows at once; a row has as many columns as the statement selects, none of them
  \<^verbatim>\<open>NULL\<close>, and \<open>fetch_row\<close> walks down that list.

  \<open>transactional\<close> states what the code relies on: statements inside a transaction take effect with
  the commit and not at all with a rollback. The amount a statement adds to the booked traffic is read off
  its text.
\<close>

type_synonym SQL_SESSION = nat
type_synonym SQL_ROW = "string list"

record 'w STORE_API =
  sql_open :: "'w \<Rightarrow> SQL_SESSION option \<times> 'w"
  sql_close :: "SQL_SESSION \<Rightarrow> 'w \<Rightarrow> 'w"
  sql_exec :: "SQL_SESSION \<Rightarrow> string \<Rightarrow> 'w \<Rightarrow> bool \<times> 'w"
  sql_query :: "SQL_SESSION \<Rightarrow> string \<Rightarrow> 'w \<Rightarrow> SQL_ROW list option \<times> 'w"
  sql_list_tables :: "SQL_SESSION \<Rightarrow> string \<Rightarrow> 'w \<Rightarrow> SQL_ROW list option \<times> 'w"

definition col :: "SQL_ROW \<Rightarrow> nat \<Rightarrow> string" where
  "col row i = (if i < length row then row ! i else [])"

text \<open>The character that quotes a text in a statement.\<close>

definition squote :: string where "squote = [CHR 0x27]"

text \<open>A C assignment of an \<^verbatim>\<open>int\<close> to an unsigned field of smaller or equal width.\<close>

definition conv :: "int \<Rightarrow> 'a::len word" where
  "conv i = word_of_int i"

text \<open>
  Single precision arithmetic: \<open>fl_atof\<close> is \<^verbatim>\<open>(float) atof\<close>, \<open>fl_fmt\<close> the
  conversion \<^verbatim>\<open>%f\<close>. The values are rational numbers.
\<close>

record floats =
  fl_atof :: "string \<Rightarrow> rat"
  fl_fmt :: "rat \<Rightarrow> string"

section \<open>Transactions\<close>

definition update_rules_prefix :: string where
  "update_rules_prefix = ''update Rules SET Traffic = Traffic + ''"

text \<open>The traffic a statement adds to the table \<^verbatim>\<open>Rules\<close>.\<close>

definition rules_effect :: "string \<Rightarrow> nat" where
  "rules_effect s =
     (if take (length update_rules_prefix) s = update_rules_prefix
      then nat (digits_val 0 (drop (length update_rules_prefix) s)) else 0)"

definition tx_word :: "string \<Rightarrow> bool" where
  "tx_word s \<longleftrightarrow> s \<in> {''start transaction'', ''commit'', ''rollback''}"

definition transactional ::
  "'w STORE_API \<Rightarrow> (SQL_SESSION \<Rightarrow> 'w \<Rightarrow> nat option) \<Rightarrow> ('w \<Rightarrow> nat) \<Rightarrow> bool" where
  "transactional api tx booked \<longleftrightarrow>
     (\<forall>w. booked (snd (sql_open api w)) = booked w) \<and>
     (\<forall>sid w. booked (sql_close api sid w) = booked w) \<and>
     (\<forall>sid s w. booked (snd (sql_query api sid s w)) = booked w \<and> tx sid (snd (sql_query api sid s w)) = tx sid w) \<and>
     (\<forall>sid w. booked (snd (sql_exec api sid ''start transaction'' w)) = booked w \<and>
        (fst (sql_exec api sid ''start transaction'' w) \<longrightarrow> tx sid (snd (sql_exec api sid ''start transaction'' w)) = Some 0)) \<and>
     (\<forall>sid w. booked (snd (sql_exec api sid ''commit'' w)) =
        (if fst (sql_exec api sid ''commit'' w) then booked w + (case tx sid w of None \<Rightarrow> 0 | Some p \<Rightarrow> p) else booked w)) \<and>
     (\<forall>sid w. booked (snd (sql_exec api sid ''rollback'' w)) = booked w) \<and>
     (\<forall>sid s w p. \<not> tx_word s \<longrightarrow> tx sid w = Some p \<longrightarrow>
        booked (snd (sql_exec api sid s w)) = booked w \<and>
        tx sid (snd (sql_exec api sid s w)) = Some (if fst (sql_exec api sid s w) then p + rules_effect s else p)) \<and>
     (\<forall>sid w. booked (snd (sql_exec api sid ''set autocommit=0'' w)) = booked w)"

lemma tx_open:
  assumes tr: "transactional api tx booked"
  shows "sql_open api w = (r, w1) \<Longrightarrow> booked w1 = booked w"
  using tr [unfolded transactional_def, THEN conjunct1, rule_format, of w] by simp

lemma tx_close:
  assumes tr: "transactional api tx booked"
  shows "booked (sql_close api sid w) = booked w"
  using tr [unfolded transactional_def, THEN conjunct2, THEN conjunct1, rule_format, of sid w] by simp

lemma tx_query:
  assumes tr: "transactional api tx booked"
  shows "sql_query api sid s w = (rows, w1) \<Longrightarrow> booked w1 = booked w \<and> tx sid w1 = tx sid w"
  using tr [unfolded transactional_def, THEN conjunct2, THEN conjunct2, THEN conjunct1, rule_format, of sid s w] by simp

lemma tx_start:
  assumes tr: "transactional api tx booked"
  shows "sql_exec api sid ''start transaction'' w = (ok, w1) \<Longrightarrow> booked w1 = booked w \<and> (ok \<longrightarrow> tx sid w1 = Some 0)"
  using tr [unfolded transactional_def, THEN conjunct2, THEN conjunct2, THEN conjunct2, THEN conjunct1, rule_format, of sid w] by simp

lemma tx_commit:
  assumes tr: "transactional api tx booked"
  shows "sql_exec api sid ''commit'' w = (ok, w1) \<Longrightarrow> booked w1 = (if ok then booked w + (case tx sid w of None \<Rightarrow> 0 | Some p \<Rightarrow> p) else booked w)"
  using tr [unfolded transactional_def, THEN conjunct2, THEN conjunct2, THEN conjunct2, THEN conjunct2, THEN conjunct1, rule_format, of sid w] by simp

lemma tx_rollback:
  assumes tr: "transactional api tx booked"
  shows "sql_exec api sid ''rollback'' w = (ok, w1) \<Longrightarrow> booked w1 = booked w"
  using tr [unfolded transactional_def, THEN conjunct2, THEN conjunct2, THEN conjunct2, THEN conjunct2, THEN conjunct2, THEN conjunct1, rule_format, of sid w] by simp

lemma tx_exec:
  assumes tr: "transactional api tx booked"
  shows "\<not> tx_word s \<Longrightarrow> tx sid w = Some p \<Longrightarrow> sql_exec api sid s w = (ok, w1) \<Longrightarrow> booked w1 = booked w \<and> tx sid w1 = Some (if ok then p + rules_effect s else p)"
  using tr [unfolded transactional_def, THEN conjunct2, THEN conjunct2, THEN conjunct2, THEN conjunct2, THEN conjunct2, THEN conjunct2, THEN conjunct1, rule_format, of s sid w p] by simp

lemma tx_autocommit:
  assumes tr: "transactional api tx booked"
  shows "sql_exec api sid ''set autocommit=0'' w = (ok, w1) \<Longrightarrow> booked w1 = booked w"
  using tr [unfolded transactional_def, THEN conjunct2, THEN conjunct2, THEN conjunct2, THEN conjunct2, THEN conjunct2, THEN conjunct2, THEN conjunct2, rule_format, of sid w] by simp

lemma rules_effect_update:
  assumes "\<not> isdigit (chd t)"
  shows "rules_effect (update_rules_prefix @ fmt_u n @ t) = unat n"
proof -
  have "digits_val 0 (show_nat (unat n) @ t) = digits_val (digits_val 0 (show_nat (unat n))) t"
    by (rule digits_val_append) (rule show_nat_digits)
  also have "\<dots> = digits_val (int (unat n)) t" by (simp add: digits_val_show_nat)
  also have "\<dots> = int (unat n)" using assms by (cases t) auto
  finally show ?thesis by (simp add: rules_effect_def fmt_u_def)
qed

text \<open>A small database of one session that meets the contract: an open transaction and the booked total.\<close>

record ledger_db =
  ld_tx :: "nat option"
  ld_booked :: nat
  ld_log :: "string list"

definition ledger_exec :: "SQL_SESSION \<Rightarrow> string \<Rightarrow> ledger_db \<Rightarrow> bool \<times> ledger_db" where
  "ledger_exec sid s w0 =
     (let w = w0\<lparr>ld_log := ld_log w0 @ [s]\<rparr>
      in if s = ''start transaction'' then (True, w\<lparr>ld_tx := Some 0\<rparr>)
         else if s = ''commit'' then
           (True, w\<lparr>ld_booked := ld_booked w + (case ld_tx w of None \<Rightarrow> 0 | Some p \<Rightarrow> p), ld_tx := None\<rparr>)
         else if s = ''rollback'' then (True, w\<lparr>ld_tx := None\<rparr>)
         else (True, w\<lparr>ld_tx := map_option (\<lambda>p. p + rules_effect s) (ld_tx w)\<rparr>))"

definition ledger_api :: "SQL_ROW list \<Rightarrow> ledger_db STORE_API" where
  "ledger_api rows =
     \<lparr>sql_open = (\<lambda>w. (Some 1, w)), sql_close = (\<lambda>sid w. w), sql_exec = ledger_exec,
      sql_query = (\<lambda>sid s w. (Some rows, w)), sql_list_tables = (\<lambda>sid s w. (Some [], w))\<rparr>"

lemma transactional_ledger: "transactional (ledger_api rows) (\<lambda>sid. ld_tx) ld_booked"
  by (auto simp: transactional_def ledger_api_def ledger_exec_def tx_word_def Let_def)

end
