(* ===== verification/Misc.thy ===== *)
theory Misc
  imports Store
begin

text \<open>
  The helpers of \<^verbatim>\<open>src/misc.c\<close> that carry logic: the tokenizer
  \<^verbatim>\<open>ip_strtok_r\<close> and the argument splitter \<^verbatim>\<open>ip_parse_arg\<close> built on it, and the time stamp
  the periodic jobs leave in the database. The creation of missing tables is in \<open>Tables\<close>, the catch-up
  checks for the daily, weekly and monthly jobs are in \<open>Tasks\<close>. A position in a C string is the suffix that starts there.
\<close>

section \<open>Time stamps\<close>

definition save_timestamp :: "time_t \<Rightarrow> 'w STORE_API \<Rightarrow> SQL_SESSION \<Rightarrow> string \<Rightarrow> 'w \<Rightarrow> gboolean \<times> 'w" where
  "save_timestamp now api sid name w =
     (let (ok, w1) = sql_exec api sid
            (''replace into System_Table (Name, Value) values ('' @ squote @ name @ squote @ '', '' @ squote @
             fmt_u (conv now :: 32 word) @ squote @ '')'') w
      in (if ok then 1 else 0, w1))"

text \<open>Statements executed one after the other until one is refused.\<close>

fun exec_all :: "'w STORE_API \<Rightarrow> SQL_SESSION \<Rightarrow> string list \<Rightarrow> 'w \<Rightarrow> bool \<times> 'w" where
  "exec_all api sid [] w = (True, w)"
| "exec_all api sid (s # ss) w = (let (ok, w1) = sql_exec api sid s w in if ok then exec_all api sid ss w1 else (False, w1))"

text \<open>Statements executed whatever the result of the previous ones.\<close>

definition exec_each :: "'w STORE_API \<Rightarrow> SQL_SESSION \<Rightarrow> string list \<Rightarrow> 'w \<Rightarrow> 'w" where
  "exec_each api sid stmts w = fold (\<lambda>s w. snd (sql_exec api sid s w)) stmts w"

section \<open>Tokens\<close>

definition ip_strtok_r :: "string option \<Rightarrow> string \<Rightarrow> string \<Rightarrow> string option \<times> string" where
  "ip_strtok_r s delim save_ptr =
     (let s0 = (case s of None \<Rightarrow> save_ptr | Some t \<Rightarrow> t);
          s1 = dropWhile (\<lambda>c. c \<in> set delim) s0
      in if s1 = [] then (None, s1)
         else let token = takeWhile (\<lambda>c. c \<notin> set delim) s1;
                  rest = dropWhile (\<lambda>c. c \<notin> set delim) s1
              in (Some token, tl rest))"

lemma strtok_shrinks:
  "ip_strtok_r None delim save = (Some tok, save') \<Longrightarrow> length save' < length save"
proof -
  assume a: "ip_strtok_r None delim save = (Some tok, save')"
  let ?s = "dropWhile (\<lambda>c. c \<in> set delim) save"
  from a have ne: "?s \<noteq> []" and s: "save' = tl (dropWhile (\<lambda>c. c \<notin> set delim) ?s)"
    by (auto simp: ip_strtok_r_def Let_def split: if_splits)
  have "length save' \<le> length ?s - 1"
    unfolding s using length_dropWhile_le [of "\<lambda>c. c \<notin> set delim" ?s] by simp
  also have "\<dots> < length save"
    using ne length_dropWhile_le [of "\<lambda>c. c \<in> set delim" save] by (cases ?s) auto
  finally show ?thesis .
qed

text \<open>The loop over the remaining tokens: \<open>argv\<close> holds the \<open>i\<close> copies made so far.\<close>

function parse_arg_loop :: "string list \<Rightarrow> int \<Rightarrow> string \<Rightarrow> string \<Rightarrow> string list" where
  "parse_arg_loop argv max_tok delim save =
     (case ip_strtok_r None delim save of
        (None, _) \<Rightarrow> argv
      | (Some ptr, save') \<Rightarrow>
          if int (length argv) > max_tok then argv
          else parse_arg_loop (argv @ [ptr]) max_tok delim save')"
  by pat_completeness auto
termination
  by (relation "measure (\<lambda>(argv, m, d, s). length s)") (auto dest: strtok_shrinks [OF sym])

declare parse_arg_loop.simps [simp del]

definition ip_parse_arg :: "string \<Rightarrow> int \<Rightarrow> string \<Rightarrow> int \<times> string list" where
  "ip_parse_arg buffer max_tok delim =
     (if buffer = [] then (0, [])
      else case ip_strtok_r (Some buffer) delim [] of
        (None, _) \<Rightarrow> (0, [])
      | (Some ptr, save) \<Rightarrow>
          let argv = parse_arg_loop [ptr] max_tok delim save in (int (length argv), argv))"

text \<open>The reference: all maximal runs of characters that are not delimiters.\<close>

fun add_tok :: "string \<Rightarrow> string list \<Rightarrow> string list" where
  "add_tok t ts = (if t = [] then ts else t # ts)"

fun tokens_from :: "string \<Rightarrow> string \<Rightarrow> string \<Rightarrow> string list" where
  "tokens_from delim acc [] = add_tok acc []"
| "tokens_from delim acc (c # cs) =
     (if c \<in> set delim then add_tok acc (tokens_from delim [] cs) else tokens_from delim (acc @ [c]) cs)"

definition tokens :: "string \<Rightarrow> string \<Rightarrow> string list" where
  "tokens delim s = tokens_from delim [] s"

lemma tokens_skip: "tokens delim s = tokens delim (dropWhile (\<lambda>c. c \<in> set delim) s)"
  unfolding tokens_def by (induction s) auto

lemma tokens_from_run:
  "acc \<noteq> [] \<Longrightarrow> tokens_from delim acc s =
     (acc @ takeWhile (\<lambda>c. c \<notin> set delim) s) # tokens_from delim [] (tl (dropWhile (\<lambda>c. c \<notin> set delim) s))"
  by (induction s arbitrary: acc) auto

lemma tokens_first:
  assumes "s \<noteq> []" and "hd s \<notin> set delim"
  shows "tokens delim s = takeWhile (\<lambda>c. c \<notin> set delim) s # tokens delim (tl (dropWhile (\<lambda>c. c \<notin> set delim) s))"
  using assms by (cases s) (auto simp: tokens_def tokens_from_run)

lemma strtok_tokens:
  "ip_strtok_r (Some s) delim p = (case tokens delim s of [] \<Rightarrow> (None, []) | t # _ \<Rightarrow>
     (Some t, snd (ip_strtok_r (Some s) delim p))) \<and>
   (tokens delim s \<noteq> [] \<longrightarrow> tokens delim (snd (ip_strtok_r (Some s) delim p)) = tl (tokens delim s))"
proof (cases "dropWhile (\<lambda>c. c \<in> set delim) s = []")
  case True
  then have "tokens delim s = []" by (subst tokens_skip) (simp add: tokens_def del: dropWhile_eq_Nil_conv)
  with True show ?thesis by (simp add: ip_strtok_r_def Let_def del: dropWhile_eq_Nil_conv)
next
  case False
  then have "hd (dropWhile (\<lambda>c. c \<in> set delim) s) \<notin> set delim" by (rule hd_dropWhile)
  from trans [OF tokens_skip tokens_first [OF False this]] False show ?thesis
    by (simp add: ip_strtok_r_def Let_def del: dropWhile_eq_Nil_conv)
qed

lemma strtok_None: "ip_strtok_r None delim s = ip_strtok_r (Some s) delim p"
  by (simp add: ip_strtok_r_def)

lemma parse_arg_loop_tokens:
  "0 \<le> m \<Longrightarrow> length argv \<le> nat m + 1 \<Longrightarrow>
   parse_arg_loop argv m delim s = take (nat m + 1) (argv @ tokens delim s)"
proof (induction argv m delim s rule: parse_arg_loop.induct)
  case (1 argv m delim s)
  show ?case
  proof (cases "tokens delim s")
    case Nil
    with strtok_tokens [of s delim "[]"] 1 show ?thesis
      by (subst parse_arg_loop.simps) (simp add: strtok_None [where p = "[]"])
  next
    case (Cons t ts)
    with strtok_tokens [of s delim "[]"] obtain s' where
      s': "ip_strtok_r None delim s = (Some t, s')" "tokens delim s' = ts"
      by (simp add: strtok_None [where p = "[]"]) (metis prod.collapse)
    show ?thesis
    proof (cases "int (length argv) > m")
      case True
      with 1(2,3) have "length argv = nat m + 1" by linarith
      with s' True show ?thesis by (subst parse_arg_loop.simps) simp
    next
      case False
      with 1(1) [OF s'(1) [symmetric] refl False] 1(2) s' Cons show ?thesis
        by (subst parse_arg_loop.simps) simp
    qed
  qed
qed

lemma ip_parse_arg_take:
  assumes "0 \<le> max_tok"
  shows "ip_parse_arg buffer max_tok delim =
           (int (min (nat max_tok + 1) (length (tokens delim buffer))), take (nat max_tok + 1) (tokens delim buffer))"
proof (cases "tokens delim buffer")
  case Nil
  with strtok_tokens [of buffer delim "[]"] show ?thesis by (simp add: ip_parse_arg_def)
next
  case (Cons t ts)
  then have "buffer \<noteq> []" by (auto simp: tokens_def)
  moreover from Cons strtok_tokens [of buffer delim "[]"] obtain s' where
    "ip_strtok_r (Some buffer) delim [] = (Some t, s')" "tokens delim s' = ts"
    by simp (metis prod.collapse)
  ultimately show ?thesis
    using parse_arg_loop_tokens [OF assms, of "[t]" delim s'] assms Cons
    by (simp add: ip_parse_arg_def min_def)
qed

lemma parse_arg_20: "snd (ip_parse_arg buffer 19 delim) = take 20 (tokens delim buffer)"
  by (simp add: ip_parse_arg_take)

text \<open>
  Arguments. For a non-negative limit the splitter returns the first \<open>max_tok + 1\<close> tokens of the
  line, in order and without the delimiters, and their number: one more than the limit says.
\<close>

theorem ip_parse_arg_tokens:
  assumes "0 \<le> max_tok"
  shows "ip_parse_arg buffer max_tok delim =
           (int (min (nat max_tok + 1) (length (tokens delim buffer))), take (nat max_tok + 1) (tokens delim buffer))"
  by (rule ip_parse_arg_take [OF assms])

theorem ip_parse_arg_tokens_witness:
  "ip_parse_arg '' show  user 12 now'' 2 '' '' = (3, [''show'', ''user'', ''12''])"
  using ip_parse_arg_tokens [of 2 "'' show  user 12 now''" "'' ''"] by (simp add: tokens_def)

end
