(* ===== verification/Core_Users.thy ===== *)
theory Core_Users
  imports Inet Misc
begin

unbundle bit_operations_syntax

text \<open>
  The user table of the core (\<^verbatim>\<open>src/core_users.c\<close>): authentication, authorization and accounting of
  traffic and proxy requests, the hooks other modules register, and the synchronisation with the database.

  A user or rule is the value of its C struct; the list of users holds its nodes in order and a pointer to a
  node is its position. The callbacks are identified by numbers and called through the argument
  \<open>call\<close>. \<open>now\<close> is the value of \<^verbatim>\<open>time(NULL)\<close>, \<open>ok\<close> tells
  whether allocations succeed. Locking, logging and the release of memory are not modelled.
\<close>

section \<open>Data\<close>

record PACKET_DATA_INFO =
  pd_service :: IP_id
  pd_direct :: IP_flag
  pd_id_user :: IP_id
  pd_id_group_user :: IP_id
  pd_id_traffic_group :: IP_id
  pd_id_traffic_type :: IP_id
  pd_not_sum :: IP_flag
  pd_len :: IP_size

record SQUID_INFO =
  si_mac :: string
  si_ip :: IP_addr

record SQUID_DATA_INFO =
  sd_service :: IP_id
  sd_id_user :: IP_id
  sd_id_group_user :: IP_id
  sd_id_traffic_group :: IP_id
  sd_id_traffic_type :: IP_id
  sd_not_sum :: IP_flag
  sd_len :: IP_size

text \<open>What the untyped pointers \<^verbatim>\<open>data\<close> and \<^verbatim>\<open>ret\<close> point to.\<close>

datatype auth_info = APacket PACKET_INFO | ASquid SQUID_INFO
datatype ret_info = RNull | RPacket PACKET_DATA_INFO | RSquid SQUID_DATA_INFO

record NODE_RULE =
  nr_id :: IP_id
  nr_id_type :: IP_id
  nr_id_group :: IP_id
  nr_service :: IP_id
  nr_direct :: IP_flag
  nr_proto :: IP_proto
  nr_net :: IP_addr
  nr_mask :: IP_mask
  nr_ports :: IP_ports
  nr_action :: IP_flag
  nr_status :: IP_flag
  nr_price :: rat
  nr_traffic :: IP_size
  nr_md5 :: string
  nr_time_live :: time_t

record NODE_USER =
  nu_id :: IP_id
  nu_id_group :: IP_id
  nu_addr :: IP_addr
  nu_mac :: string
  nu_traffic :: IP_size
  nu_id_rules :: "NODE_RULE list"
  nu_md5 :: string
  nu_status :: IP_flag
  nu_time_live :: time_t

record core_users =
  st_users :: "NODE_USER list option"
  clean_list :: "NODE_USER list"
  cur_users :: int
  extern_auth :: "nat list"
  extern_autz :: "nat list"
  extern_acct :: "nat list"

type_synonym 'w hook_call = "nat \<Rightarrow> IP_id \<Rightarrow> auth_info \<Rightarrow> ret_info \<Rightarrow> 'w \<Rightarrow> gboolean \<times> ret_info \<times> 'w"

definition zero_user :: NODE_USER where
  "zero_user = \<lparr>nu_id = 0, nu_id_group = 0, nu_addr = 0, nu_mac = replicate 18 NUL, nu_traffic = 0,
     nu_id_rules = [], nu_md5 = replicate 33 NUL, nu_status = 0, nu_time_live = 0\<rparr>"

definition zero_rule :: NODE_RULE where
  "zero_rule = \<lparr>nr_id = 0, nr_id_type = 0, nr_id_group = 0, nr_service = 0, nr_direct = 0, nr_proto = 0,
     nr_net = 0, nr_mask = 0, nr_ports = 0, nr_action = 0, nr_status = 0, nr_price = 0, nr_traffic = 0,
     nr_md5 = replicate 33 NUL, nr_time_live = 0\<rparr>"

section \<open>The user table\<close>

definition users_init :: "bool \<Rightarrow> core_users \<Rightarrow> gboolean \<times> core_users" where
  "users_init ok cu = (if ok then (1, cu\<lparr>st_users := Some []\<rparr>) else (0, cu\<lparr>st_users := None\<rparr>))"

definition users_compare_users_id :: "NODE_USER \<Rightarrow> NODE_USER \<Rightarrow> int" where
  "users_compare_users_id a b = memcmp (le_bytes 4 (nu_id a)) (le_bytes 4 (nu_id b))"

definition users_compare_users_addr :: "NODE_USER \<Rightarrow> NODE_USER \<Rightarrow> int" where
  "users_compare_users_addr a b = memcmp (le_bytes 4 (nu_addr a)) (le_bytes 4 (nu_addr b))"

definition users_compare_rules_id :: "NODE_RULE \<Rightarrow> NODE_RULE \<Rightarrow> int" where
  "users_compare_rules_id a b = memcmp (le_bytes 4 (nr_id a)) (le_bytes 4 (nr_id b))"

definition users_find :: "core_users \<Rightarrow> IP_id \<Rightarrow> nat option" where
  "users_find cu key =
     (case st_users cu of None \<Rightarrow> None
      | Some us \<Rightarrow> find_index (\<lambda>u. users_compare_users_id u (zero_user\<lparr>nu_id := key\<rparr>) = 0) us)"

definition addr_find :: "core_users \<Rightarrow> IP_addr \<Rightarrow> nat option" where
  "addr_find cu a =
     (case st_users cu of None \<Rightarrow> None
      | Some us \<Rightarrow> if a = 0 then None
                   else find_index (\<lambda>u. users_compare_users_addr u (zero_user\<lparr>nu_addr := a\<rparr>) = 0) us)"

text \<open>The node behind a pointer, and an update through it.\<close>

definition user_at :: "core_users \<Rightarrow> nat \<Rightarrow> NODE_USER" where
  "user_at cu i = the (st_users cu) ! i"

definition set_user :: "core_users \<Rightarrow> nat \<Rightarrow> NODE_USER \<Rightarrow> core_users" where
  "set_user cu i u = cu\<lparr>st_users := map_option (\<lambda>us. us[i := u]) (st_users cu)\<rparr>"

definition users_insert :: "bool \<Rightarrow> NODE_USER \<Rightarrow> core_users \<Rightarrow> nat option \<times> core_users" where
  "users_insert ok node cu =
     (case st_users cu of None \<Rightarrow> (None, cu)
      | Some us \<Rightarrow>
          if \<not> ok then (None, cu)
          else (Some (length us), cu\<lparr>st_users := Some (us @ [node]), cur_users := cur_users cu + 1\<rparr>))"

definition users_delete :: "time_t \<Rightarrow> IP_id \<Rightarrow> core_users \<Rightarrow> gboolean \<times> core_users" where
  "users_delete now key cu =
     (case st_users cu of None \<Rightarrow> (0, cu)
      | Some us \<Rightarrow>
          case users_find cu key of None \<Rightarrow> (0, cu)
          | Some i \<Rightarrow>
              (1, cu\<lparr>clean_list := clean_list cu @ [(us ! i)\<lparr>nu_time_live := now\<rparr>],
                     st_users := Some (take i us @ drop (Suc i) us),
                     cur_users := cur_users cu - 1\<rparr>))"

text \<open>The pointer to the next node is read before the current one is unlinked, so the loop visits the nodes the list had at its start.\<close>

fun mysql_delete_loop :: "time_t \<Rightarrow> NODE_USER list \<Rightarrow> core_users \<Rightarrow> core_users" where
  "mysql_delete_loop now [] cu = cu"
| "mysql_delete_loop now (u # us) cu =
     mysql_delete_loop now us
       (if now - nu_time_live u > 90 then snd (users_delete now (nu_id u) cu) else cu)"

definition users_mysql_delete :: "time_t \<Rightarrow> core_users \<Rightarrow> gboolean \<times> core_users" where
  "users_mysql_delete now cu =
     (case st_users cu of None \<Rightarrow> (0, cu) | Some us \<Rightarrow> (1, mysql_delete_loop now us cu))"

section \<open>Hooks\<close>

definition register_auth :: "nat \<Rightarrow> core_users \<Rightarrow> gboolean \<times> core_users" where
  "register_auth f cu = (1, cu\<lparr>extern_auth := extern_auth cu @ [f]\<rparr>)"
definition register_autz :: "nat \<Rightarrow> core_users \<Rightarrow> gboolean \<times> core_users" where
  "register_autz f cu = (1, cu\<lparr>extern_autz := extern_autz cu @ [f]\<rparr>)"
definition register_acct :: "nat \<Rightarrow> core_users \<Rightarrow> gboolean \<times> core_users" where
  "register_acct f cu = (1, cu\<lparr>extern_acct := extern_acct cu @ [f]\<rparr>)"
definition unregister_auth :: "nat \<Rightarrow> core_users \<Rightarrow> gboolean \<times> core_users" where
  "unregister_auth f cu = (1, cu\<lparr>extern_auth := remove_first (\<lambda>x. x = f) (extern_auth cu)\<rparr>)"
definition unregister_autz :: "nat \<Rightarrow> core_users \<Rightarrow> gboolean \<times> core_users" where
  "unregister_autz f cu = (1, cu\<lparr>extern_autz := remove_first (\<lambda>x. x = f) (extern_autz cu)\<rparr>)"
definition unregister_acct :: "nat \<Rightarrow> core_users \<Rightarrow> gboolean \<times> core_users" where
  "unregister_acct f cu = (1, cu\<lparr>extern_acct := remove_first (\<lambda>x. x = f) (extern_acct cu)\<rparr>)"

text \<open>The authentication hooks run until one returns \<^verbatim>\<open>TRUE\<close>, the others until one returns \<^verbatim>\<open>FALSE\<close>.\<close>

fun run_auth_hooks ::
  "'w hook_call \<Rightarrow> IP_id \<Rightarrow> auth_info \<Rightarrow> gboolean \<Rightarrow> ret_info \<Rightarrow> 'w \<Rightarrow> nat list \<Rightarrow> gboolean \<times> ret_info \<times> 'w" where
  "run_auth_hooks call service data flag ret w [] = (flag, ret, w)"
| "run_auth_hooks call service data flag ret w (f # fs) =
     (let (flag', ret', w') = call f service data ret w
      in if flag' = 1 then (flag', ret', w') else run_auth_hooks call service data flag' ret' w' fs)"

fun run_and_hooks ::
  "'w hook_call \<Rightarrow> IP_id \<Rightarrow> auth_info \<Rightarrow> gboolean \<Rightarrow> ret_info \<Rightarrow> 'w \<Rightarrow> nat list \<Rightarrow> gboolean \<times> ret_info \<times> 'w" where
  "run_and_hooks call service data flag ret w [] = (flag, ret, w)"
| "run_and_hooks call service data flag ret w (f # fs) =
     (let (flag', ret', w') = call f service data ret w
      in if flag' = 0 then (flag', ret', w') else run_and_hooks call service data flag' ret' w' fs)"

section \<open>Authentication\<close>

definition users_auth ::
  "'w hook_call \<Rightarrow> IP_id \<Rightarrow> auth_info \<Rightarrow> gboolean \<Rightarrow> ret_info \<Rightarrow> core_users \<Rightarrow> 'w \<Rightarrow>
   (gboolean \<times> ret_info \<times> 'w) option" where
  "users_auth call service data flag_extern_auth ret0 cu w0 =
     (if st_users cu = None then Some (0, ret0, w0)
      else
        let (flag, ret, w) =
          (if extern_auth cu \<noteq> [] \<and> flag_extern_auth \<noteq> 0
           then run_auth_hooks call service data 0 ret0 w0 (extern_auth cu) else (0, ret0, w0))
        in if flag \<noteq> 0 then Some (1, ret, w)
           else if service = SERVICE_TRAFFIC then
             (case data of ASquid _ \<Rightarrow> None
              | APacket p \<Rightarrow>
                  let t_src = addr_find cu (pi_src p); t_dest = addr_find cu (pi_dest p)
                  in case ret of RSquid _ \<Rightarrow> None
                     | RNull \<Rightarrow> if t_src \<noteq> None \<or> t_dest \<noteq> None then Some (1, RNull, w) else None
                     | RPacket pd0 \<Rightarrow>
                         let pd = pd0\<lparr>pd_service := service, pd_id_traffic_group := 0, pd_id_traffic_type := 0\<rparr>
                         in case (t_src, t_dest) of
                              (Some s, None) \<Rightarrow>
                                Some (1, RPacket (pd\<lparr>pd_direct := TRAFFIC_OUT, pd_id_user := nu_id (user_at cu s),
                                                     pd_id_group_user := nu_id_group (user_at cu s)\<rparr>), w)
                            | (None, Some d) \<Rightarrow>
                                Some (1, RPacket (pd\<lparr>pd_direct := TRAFFIC_IN, pd_id_user := nu_id (user_at cu d),
                                                     pd_id_group_user := nu_id_group (user_at cu d)\<rparr>), w)
                            | _ \<Rightarrow> Some (flag, RPacket pd, w))
           else if service = SERVICE_SQUID then
             (case data of APacket _ \<Rightarrow> None
              | ASquid s \<Rightarrow>
                  let t_ip = addr_find cu (si_ip s)
                  in case ret of RPacket _ \<Rightarrow> None
                     | RNull \<Rightarrow> if t_ip \<noteq> None then Some (1, RNull, w) else None
                     | RSquid sd0 \<Rightarrow>
                         let sd = sd0\<lparr>sd_service := service, sd_id_traffic_group := 0, sd_id_traffic_type := 0\<rparr>
                         in case t_ip of
                              Some i \<Rightarrow> Some (1, RSquid (sd\<lparr>sd_id_user := nu_id (user_at cu i),
                                                         sd_id_group_user := nu_id_group (user_at cu i)\<rparr>), w)
                            | None \<Rightarrow> Some (flag, RSquid sd, w))
           else Some (flag, ret, w))"

section \<open>Authorization\<close>

definition has_flag :: "IP_flag \<Rightarrow> IP_flag \<Rightarrow> bool" where
  "has_flag a f \<longleftrightarrow> a AND f = f"

text \<open>The nested conditions on a rule, the same in authorization and accounting.\<close>

definition rule_matches :: "NODE_RULE \<Rightarrow> IP_addr \<Rightarrow> IP_port \<Rightarrow> IP_proto \<Rightarrow> IP_flag \<Rightarrow> bool option" where
  "rule_matches r a port proto direct =
     (if nr_service r = SERVICE_TRAFFIC then do {
        m \<leftarrow> compare_with_mask a (nr_net r) (nr_mask r);
        Some (m \<and> (nr_proto r = PROTO_ALL \<or> nr_proto r = proto) \<and> compare_ports port (ucast (nr_ports r)) \<and>
              (nr_direct r = TRAFFIC_ALL \<or> direct = nr_direct r))
      }
      else Some False)"

text \<open>The end of the packet that is not the user's.\<close>

definition peer :: "PACKET_INFO \<Rightarrow> IP_flag \<Rightarrow> IP_addr \<times> IP_port" where
  "peer p direct = (if direct = TRAFFIC_IN then (pi_src p, pi_src_port p) else (pi_dest p, pi_dest_port p))"

fun autz_traffic_rules ::
  "IP_addr \<Rightarrow> IP_port \<Rightarrow> IP_proto \<Rightarrow> gboolean \<Rightarrow> PACKET_DATA_INFO \<Rightarrow> NODE_RULE list \<Rightarrow>
   (gboolean \<times> PACKET_DATA_INFO) option" where
  "autz_traffic_rules a port proto flag pd [] = Some (flag, pd)"
| "autz_traffic_rules a port proto flag pd (r # rs) = do {
     m \<leftarrow> rule_matches r a port proto (pd_direct pd);
     if m then
       let flag' = (if nr_status r = 1 then 1 else flag);
           pd' = pd\<lparr>pd_id_traffic_group := nr_id_group r, pd_id_traffic_type := nr_id_type r,
                    pd_not_sum := (if \<not> has_flag (nr_action r) CONST_SUM then 0 else 1)\<rparr>
       in if \<not> has_flag (nr_action r) CONST_NEXT then Some (flag', pd')
          else autz_traffic_rules a port proto flag' pd' rs
     else autz_traffic_rules a port proto flag pd rs
   }"

fun autz_squid_rules :: "gboolean \<Rightarrow> SQUID_DATA_INFO \<Rightarrow> NODE_RULE list \<Rightarrow> gboolean \<times> SQUID_DATA_INFO" where
  "autz_squid_rules flag sd [] = (flag, sd)"
| "autz_squid_rules flag sd (r # rs) =
     (if nr_service r = SERVICE_SQUID \<and> nr_status r = 1 then
        (1, sd\<lparr>sd_id_traffic_group := nr_id_group r, sd_id_traffic_type := nr_id_type r,
               sd_not_sum := (if \<not> has_flag (nr_action r) CONST_SUM then 0 else 1)\<rparr>)
      else autz_squid_rules flag sd rs)"

text \<open>The result of the built-in checks, before the hooks run; \<open>None\<close> is a fault.\<close>

definition autz_builtin ::
  "IP_id \<Rightarrow> auth_info \<Rightarrow> ret_info \<Rightarrow> core_users \<Rightarrow> (gboolean \<times> ret_info) option" where
  "autz_builtin service data ret cu =
     (if service = SERVICE_TRAFFIC then
        (case (data, ret) of
           (APacket p, RPacket pd) \<Rightarrow>
             (case users_find cu (pd_id_user pd) of None \<Rightarrow> Some (0, ret)
              | Some i \<Rightarrow>
                  let u = user_at cu i
                  in if nu_status u = 0 then Some (0, ret)
                     else if pd_direct pd = TRAFFIC_OUT \<and> chd (nu_mac u) \<noteq> NUL \<and>
                             strncasecmp (nu_mac u) (pi_mac p) 17 \<noteq> 0 then Some (0, ret)
                     else let (a, port) = peer p (pd_direct pd)
                          in map_option (\<lambda>(flag, pd'). (flag, RPacket pd'))
                               (autz_traffic_rules a port (pi_proto p) 0 pd (nu_id_rules u)))
         | _ \<Rightarrow> None)
      else if service = SERVICE_SQUID then
        (case ret of
           RSquid sd \<Rightarrow>
             (case users_find cu (sd_id_user sd) of None \<Rightarrow> Some (0, ret)
              | Some i \<Rightarrow>
                  let u = user_at cu i
                  in if nu_status u = 0 then Some (0, ret)
                     else let (flag, sd') = autz_squid_rules 0 sd (nu_id_rules u) in Some (flag, RSquid sd'))
         | _ \<Rightarrow> None)
      else Some (0, ret))"

definition users_autz ::
  "'w hook_call \<Rightarrow> IP_id \<Rightarrow> auth_info \<Rightarrow> gboolean \<Rightarrow> ret_info \<Rightarrow> core_users \<Rightarrow> 'w \<Rightarrow>
   (gboolean \<times> ret_info \<times> 'w) option" where
  "users_autz call service data flag_extern_autz ret0 cu w =
     (if st_users cu = None then Some (0, ret0, w)
      else do {
        (flag, ret) \<leftarrow> autz_builtin service data ret0 cu;
        if flag = 0 then Some (0, ret, w)
        else if extern_autz cu \<noteq> [] \<and> flag_extern_autz \<noteq> 0
        then Some (run_and_hooks call service data flag ret w (extern_autz cu))
        else Some (flag, ret, w)
      })"

section \<open>Accounting\<close>

text \<open>The counters of the rules and of the user after one packet of \<open>len\<close> bytes.\<close>

fun acct_traffic_rules ::
  "IP_addr \<Rightarrow> IP_port \<Rightarrow> IP_proto \<Rightarrow> IP_flag \<Rightarrow> IP_size \<Rightarrow> IP_size \<Rightarrow> NODE_RULE list \<Rightarrow>
   (IP_size \<times> NODE_RULE list) option" where
  "acct_traffic_rules a port proto direct len tot [] = Some (tot, [])"
| "acct_traffic_rules a port proto direct len tot (r # rs) = do {
     m \<leftarrow> rule_matches r a port proto direct;
     if m then
       let r' = r\<lparr>nr_traffic := nr_traffic r + len\<rparr>;
           tot' = (if \<not> has_flag (nr_action r) CONST_SUM then tot + len else tot)
       in if \<not> has_flag (nr_action r) CONST_NEXT then Some (tot', r' # rs)
          else do {
            (tot'', rs') \<leftarrow> acct_traffic_rules a port proto direct len tot' rs;
            Some (tot'', r' # rs')
          }
     else do {
       (tot', rs') \<leftarrow> acct_traffic_rules a port proto direct len tot rs;
       Some (tot', r # rs')
     }
   }"

fun acct_squid_rules :: "IP_size \<Rightarrow> IP_size \<Rightarrow> NODE_RULE list \<Rightarrow> IP_size \<times> NODE_RULE list" where
  "acct_squid_rules len tot [] = (tot, [])"
| "acct_squid_rules len tot (r # rs) =
     (if nr_service r = SERVICE_SQUID then
        (if \<not> has_flag (nr_action r) CONST_SUM then tot + len else tot,
         r\<lparr>nr_traffic := nr_traffic r + len\<rparr> # rs)
      else let (tot', rs') = acct_squid_rules len tot rs in (tot', r # rs'))"

text \<open>The built-in accounting: \<open>Inl\<close> is an early return with this value.\<close>

definition acct_builtin ::
  "IP_id \<Rightarrow> auth_info \<Rightarrow> ret_info \<Rightarrow> core_users \<Rightarrow> (gboolean + core_users) option" where
  "acct_builtin service data ret cu =
     (if service = SERVICE_TRAFFIC then
        (case (data, ret) of
           (APacket p, RPacket pd) \<Rightarrow>
             (case users_find cu (pd_id_user pd) of None \<Rightarrow> Some (Inl 0)
              | Some i \<Rightarrow> do {
                  let u = user_at cu i;
                  let (a, port) = peer p (pd_direct pd);
                  (tot, rs) \<leftarrow> acct_traffic_rules a port (pi_proto p) (pd_direct pd) (pd_len pd) (nu_traffic u) (nu_id_rules u);
                  Some (Inr (set_user cu i (u\<lparr>nu_traffic := tot, nu_id_rules := rs\<rparr>)))
                })
         | _ \<Rightarrow> None)
      else if service = SERVICE_SQUID then
        (case ret of
           RSquid sd \<Rightarrow>
             (case users_find cu (sd_id_user sd) of None \<Rightarrow> Some (Inl 0)
              | Some i \<Rightarrow>
                  let u = user_at cu i;
                      (tot, rs) = acct_squid_rules (sd_len sd) (nu_traffic u) (nu_id_rules u)
                  in Some (Inr (set_user cu i (u\<lparr>nu_traffic := tot, nu_id_rules := rs\<rparr>))))
         | _ \<Rightarrow> None)
      else Some (Inr cu))"

definition users_acct ::
  "'w hook_call \<Rightarrow> IP_id \<Rightarrow> auth_info \<Rightarrow> gboolean \<Rightarrow> ret_info \<Rightarrow> core_users \<Rightarrow> 'w \<Rightarrow>
   (gboolean \<times> ret_info \<times> core_users \<times> 'w) option" where
  "users_acct call service data flag_extern_acct ret cu w =
     (if st_users cu = None then Some (0, ret, cu, w)
      else do {
        r \<leftarrow> acct_builtin service data ret cu;
        case r of Inl rc \<Rightarrow> Some (rc, ret, cu, w)
        | Inr cu' \<Rightarrow>
            if extern_autz cu' \<noteq> [] \<and> flag_extern_acct \<noteq> 0
            then let (flag, ret', w') = run_and_hooks call service data 1 ret w (extern_acct cu')
                 in Some (flag, ret', cu', w')
            else Some (1, ret, cu', w)
      })"

section \<open>The table as a map\<close>

lemma compare_users_id_iff [simp]: "users_compare_users_id a b = 0 \<longleftrightarrow> nu_id a = nu_id b"
  using le_bytes_inject [of 4 "nu_id a" "nu_id b"] by (auto simp: users_compare_users_id_def memcmp_eq_0)

lemma compare_users_addr_iff [simp]: "users_compare_users_addr a b = 0 \<longleftrightarrow> nu_addr a = nu_addr b"
  using le_bytes_inject [of 4 "nu_addr a" "nu_addr b"] by (auto simp: users_compare_users_addr_def memcmp_eq_0)

lemma compare_rules_id_iff [simp]: "users_compare_rules_id a b = 0 \<longleftrightarrow> nr_id a = nr_id b"
  using le_bytes_inject [of 4 "nr_id a" "nr_id b"] by (auto simp: users_compare_rules_id_def memcmp_eq_0)

lemma users_find_Some:
  "st_users cu = Some us \<Longrightarrow> users_find cu key = find_index (\<lambda>u. nu_id u = key) us"
  by (simp add: users_find_def)

lemma addr_find_Some:
  "st_users cu = Some us \<Longrightarrow> a \<noteq> 0 \<Longrightarrow> addr_find cu a = find_index (\<lambda>u. nu_addr u = a) us"
  by (simp add: addr_find_def)

lemma addr_find_0 [simp]: "addr_find cu 0 = None"
  by (simp add: addr_find_def split: option.splits)

lemma users_find_SomeD:
  assumes "users_find cu key = Some i"
  shows "\<exists>us. st_users cu = Some us \<and> i < length us \<and> nu_id (us ! i) = key \<and> user_at cu i = us ! i"
  using assms by (auto simp: users_find_def user_at_def dest: find_index_SomeD split: option.splits)

section \<open>Which rules apply\<close>

text \<open>The declarative reading of the nested conditions.\<close>

definition rule_covers :: "IP_addr \<Rightarrow> IP_port \<Rightarrow> IP_proto \<Rightarrow> IP_flag \<Rightarrow> NODE_RULE \<Rightarrow> bool" where
  "rule_covers a port proto direct r \<longleftrightarrow> nr_service r = SERVICE_TRAFFIC \<and>
     (\<forall>i < unat (nr_mask r). net_bit a i = net_bit (nr_net r) i) \<and>
     (nr_proto r = PROTO_ALL \<or> nr_proto r = proto) \<and>
     (fst (recbyports (nr_ports r)) = 0 \<or> port = fst (recbyports (nr_ports r))) \<and>
     (nr_direct r = TRAFFIC_ALL \<or> direct = nr_direct r)"

text \<open>
  The rules are looked at in order up to the first one that covers the packet and does not carry
  \<^verbatim>\<open>CONST_NEXT\<close>; those of them that cover it apply.
\<close>

definition reach :: "(NODE_RULE \<Rightarrow> bool) \<Rightarrow> NODE_RULE list \<Rightarrow> nat" where
  "reach P rs = (case find_index (\<lambda>r. P r \<and> \<not> has_flag (nr_action r) CONST_NEXT) rs of
     None \<Rightarrow> length rs | Some i \<Rightarrow> Suc i)"

definition applied :: "(NODE_RULE \<Rightarrow> bool) \<Rightarrow> NODE_RULE list \<Rightarrow> NODE_RULE list" where
  "applied P rs = filter P (take (reach P rs) rs)"

definition masks_ok :: "NODE_RULE list \<Rightarrow> bool" where
  "masks_ok rs \<longleftrightarrow> list_all (\<lambda>r. nr_mask r \<le> 32) rs"

lemma recbyports_ucast: "fst (recbyports r) = ucast r"
  using ucast_portsbyrec [of "fst (recbyports r)" "snd (recbyports r)"] by (simp add: portsbyrec_recbyports)

lemma rule_matches_covers:
  "nr_mask r \<le> 32 \<Longrightarrow> rule_matches r a port proto direct = Some (rule_covers a port proto direct r)"
  by (auto simp: rule_matches_def rule_covers_def compare_with_mask_net_bits compare_ports_16 recbyports_ucast)

lemma reach_simps [simp]:
  "reach P [] = 0"
  "reach P (r # rs) = (if P r \<and> \<not> has_flag (nr_action r) CONST_NEXT then 1 else Suc (reach P rs))"
  by (auto simp: reach_def simp del: find_index_None_iff split: option.splits)

lemma applied_simps [simp]:
  "applied P [] = []"
  "applied P (r # rs) = (if P r then r # (if has_flag (nr_action r) CONST_NEXT then applied P rs else []) else applied P rs)"
  by (auto simp: applied_def)

lemma masks_ok_simps [simp]:
  "masks_ok [] \<longleftrightarrow> True" "masks_ok (r # rs) \<longleftrightarrow> nr_mask r \<le> 32 \<and> masks_ok rs"
  by (simp_all add: masks_ok_def)

lemma autz_rules_applied:
  assumes "masks_ok rs"
  shows "\<exists>pd'. autz_traffic_rules a port proto flag pd rs =
     Some (if \<exists>r \<in> set (applied (rule_covers a port proto (pd_direct pd)) rs). nr_status r = 1 then 1 else flag, pd') \<and>
     pd_direct pd' = pd_direct pd \<and> pd_id_user pd' = pd_id_user pd \<and> pd_len pd' = pd_len pd \<and>
     (pd_id_traffic_group pd', pd_id_traffic_type pd') =
       (case rev (applied (rule_covers a port proto (pd_direct pd)) rs) of
          [] \<Rightarrow> (pd_id_traffic_group pd, pd_id_traffic_type pd) | r # _ \<Rightarrow> (nr_id_group r, nr_id_type r))"
  using assms
proof (induction rs arbitrary: flag pd)
  case (Cons r rs)
  let ?pd = "pd\<lparr>pd_id_traffic_group := nr_id_group r, pd_id_traffic_type := nr_id_type r,
                    pd_not_sum := (if \<not> has_flag (nr_action r) CONST_SUM then 0 else 1)\<rparr>"
  from Cons show ?case
    using Cons.IH [of "if nr_status r = 1 then 1 else flag" ?pd] Cons.IH [of flag pd]
    by (auto simp: rule_matches_covers Let_def split: list.splits)
qed simp

lemma acct_rules_applied:
  "masks_ok rs \<Longrightarrow> acct_traffic_rules a port proto direct len tot rs =
     Some (tot + len * of_nat (length (filter (\<lambda>r. \<not> has_flag (nr_action r) CONST_SUM) (applied (rule_covers a port proto direct) rs))),
           map (\<lambda>r. if rule_covers a port proto direct r then r\<lparr>nr_traffic := nr_traffic r + len\<rparr> else r)
             (take (reach (rule_covers a port proto direct) rs) rs) @ drop (reach (rule_covers a port proto direct) rs) rs)"
  by (induction rs arbitrary: tot) (auto simp: rule_matches_covers Let_def algebra_simps)

section \<open>Properties\<close>

lemma acct_builtin_frame:
  "acct_builtin service data ret cu = Some (Inr cu') \<Longrightarrow>
   extern_autz cu' = extern_autz cu \<and> extern_acct cu' = extern_acct cu \<and> clean_list cu' = clean_list cu \<and> cur_users cu' = cur_users cu"
  by (auto simp: acct_builtin_def set_user_def Let_def bind_eq_Some_conv
      split: if_splits auth_info.splits ret_info.splits option.splits prod.splits)

text \<open>A table of two users for the examples: user 7 at 10.0.0.7 may reach 192.168.0.0/16, user 8 is inactive.\<close>

definition ex_rule :: NODE_RULE where
  "ex_rule = zero_rule\<lparr>nr_id := 70, nr_id_group := 3, nr_id_type := 4, nr_service := SERVICE_TRAFFIC, nr_direct := TRAFFIC_ALL,
     nr_proto := PROTO_ALL, nr_net := 0x0000A8C0, nr_mask := 16, nr_status := 1\<rparr>"

definition ex_users :: "NODE_USER list" where
  "ex_users = [zero_user\<lparr>nu_id := 7, nu_addr := 0x0700000A, nu_status := 1, nu_id_rules := [ex_rule]\<rparr>,
               zero_user\<lparr>nu_id := 8, nu_addr := 0x0800000A, nu_id_rules := [ex_rule]\<rparr>]"

definition ex_core :: core_users where
  "ex_core = \<lparr>st_users = Some ex_users, clean_list = [], cur_users = 2, extern_auth = [], extern_autz = [], extern_acct = [5]\<rparr>"

definition ex_packet :: PACKET_INFO where
  "ex_packet = \<lparr>pi_mac = replicate 18 NUL, pi_proto = 6, pi_src = 0x0700000A, pi_dest = 0x0100A8C0,
     pi_src_port = 40000, pi_dest_port = 80\<rparr>"

definition ex_pd :: PACKET_DATA_INFO where
  "ex_pd = \<lparr>pd_service = SERVICE_TRAFFIC, pd_direct = TRAFFIC_OUT, pd_id_user = 7, pd_id_group_user = 0,
     pd_id_traffic_group = 0, pd_id_traffic_type = 0, pd_not_sum = 0, pd_len = 1500\<rparr>"

lemmas ex_defs = ex_core_def ex_users_def ex_rule_def ex_packet_def ex_pd_def zero_user_def zero_rule_def types_h_defs

lemma ex_masks: "u \<in> set ex_users \<Longrightarrow> masks_ok (nu_id_rules u)"
  by (auto simp: ex_users_def ex_rule_def)

text \<open>When a packet is permitted, in terms of the table.\<close>

definition mac_agrees :: "NODE_USER \<Rightarrow> PACKET_INFO \<Rightarrow> bool" where
  "mac_agrees u p \<longleftrightarrow> cstr (nu_mac u) = [] \<or>
     map tolower (take 17 (cstr (nu_mac u))) = map tolower (take 17 (cstr (pi_mac p)))"

definition covers_packet :: "PACKET_INFO \<Rightarrow> IP_flag \<Rightarrow> NODE_RULE \<Rightarrow> bool" where
  "covers_packet p direct = (case peer p direct of (a, port) \<Rightarrow> rule_covers a port (pi_proto p) direct)"

definition autz_allowed :: "NODE_USER list \<Rightarrow> PACKET_INFO \<Rightarrow> PACKET_DATA_INFO \<Rightarrow> bool" where
  "autz_allowed us p pd \<longleftrightarrow>
     (case find (\<lambda>u. nu_id u = pd_id_user pd) us of None \<Rightarrow> False
      | Some u \<Rightarrow> nu_status u \<noteq> 0 \<and> (pd_direct pd = TRAFFIC_OUT \<longrightarrow> mac_agrees u p) \<and>
          (\<exists>r \<in> set (applied (covers_packet p (pd_direct pd)) (nu_id_rules u)). nr_status r = 1))"

lemma mac_check: "\<not> mac_agrees u p \<longleftrightarrow> chd (nu_mac u) \<noteq> NUL \<and> strncasecmp (nu_mac u) (pi_mac p) 17 \<noteq> 0"
  by (cases "nu_mac u") (auto simp: mac_agrees_def strncasecmp_eq_0)

lemma autz_builtin_traffic:
  assumes us: "st_users cu = Some us" and masks: "\<And>u. u \<in> set us \<Longrightarrow> masks_ok (nu_id_rules u)"
  shows "\<exists>pd'. autz_builtin SERVICE_TRAFFIC (APacket p) (RPacket pd) cu =
           Some (if autz_allowed us p pd then 1 else 0, RPacket pd') \<and>
           pd_direct pd' = pd_direct pd \<and> pd_id_user pd' = pd_id_user pd \<and> pd_len pd' = pd_len pd"
proof (cases "find_index (\<lambda>u. nu_id u = pd_id_user pd) us")
  case None
  then show ?thesis
    using us by (simp add: autz_builtin_def users_find_Some autz_allowed_def find_index_find del: find_index_None_iff)
next
  case (Some i)
  let ?u = "us ! i"
  obtain a port where ap: "peer p (pd_direct pd) = (a, port)" by force
  have ok: "masks_ok (nu_id_rules ?u)" using Some masks by (auto dest!: find_index_SomeD)
  have at: "user_at cu i = ?u" using us by (simp add: user_at_def)
  from autz_rules_applied [OF ok, of a port "pi_proto p" 0 pd] obtain pd' where
    "autz_traffic_rules a port (pi_proto p) 0 pd (nu_id_rules ?u) =
       Some (if \<exists>r \<in> set (applied (covers_packet p (pd_direct pd)) (nu_id_rules ?u)). nr_status r = 1 then 1 else 0, pd')"
    "pd_direct pd' = pd_direct pd" "pd_id_user pd' = pd_id_user pd" "pd_len pd' = pd_len pd"
    by (auto simp: covers_packet_def ap)
  then show ?thesis
    using us Some mac_check [of ?u p]
    by (auto simp: autz_builtin_def users_find_Some autz_allowed_def find_index_find at ap Let_def)
qed

lemma run_and_hooks_flag: "fs \<noteq> [] \<Longrightarrow> run_and_hooks call service data f ret w fs = run_and_hooks call service data g ret w fs"
  by (cases fs) auto

text \<open>A hook answers and may change its own module, but not the structures of the packet; so do all hooks of the program.\<close>

definition hooks_keep :: "'w hook_call \<Rightarrow> bool" where
  "hooks_keep call \<longleftrightarrow> (\<forall>f s d r w. fst (snd (call f s d r w)) = r)"

lemma hooks_keepD: "hooks_keep call \<Longrightarrow> call f s d r w = (x, r', w') \<Longrightarrow> r' = r"
  unfolding hooks_keep_def by (metis fst_conv snd_conv)

lemma run_and_hooks_keep: "hooks_keep call \<Longrightarrow> fst (snd (run_and_hooks call s d flag r w fs)) = r"
  by (induction fs arbitrary: flag r w) (auto dest: hooks_keepD split: prod.splits)

text \<open>The table after accounting \<open>len\<close> bytes to the rules a predicate selects.\<close>

definition charge_user :: "(NODE_RULE \<Rightarrow> bool) \<Rightarrow> IP_size \<Rightarrow> NODE_USER \<Rightarrow> NODE_USER" where
  "charge_user P len u = u\<lparr>
     nu_traffic := nu_traffic u + len * of_nat (length (filter (\<lambda>r. \<not> has_flag (nr_action r) CONST_SUM) (applied P (nu_id_rules u)))),
     nu_id_rules := map (\<lambda>r. if P r then r\<lparr>nr_traffic := nr_traffic r + len\<rparr> else r) (take (reach P (nu_id_rules u)) (nu_id_rules u)) @
                    drop (reach P (nu_id_rules u)) (nu_id_rules u)\<rparr>"

lemma acct_builtin_charges:
  assumes "st_users cu = Some us" and "find_index (\<lambda>u. nu_id u = pd_id_user pd) us = Some i" and "masks_ok (nu_id_rules (us ! i))"
  shows "acct_builtin SERVICE_TRAFFIC (APacket p) (RPacket pd) cu =
     Some (Inr (cu\<lparr>st_users := Some (us[i := charge_user (covers_packet p (pd_direct pd)) (pd_len pd) (us ! i)])\<rparr>))"
proof -
  obtain a port where ap: "peer p (pd_direct pd) = (a, port)" by force
  have at: "user_at cu i = us ! i" using assms(1) by (simp add: user_at_def)
  have f: "users_find cu (pd_id_user pd) = Some i" using assms(1,2) by (simp add: users_find_Some)
  show ?thesis
    using f at ap assms(1)
    by (simp add: acct_builtin_def set_user_def Let_def charge_user_def covers_packet_def acct_rules_applied [OF assms(3)])
qed

lemma ex_covers: "covers_packet ex_packet (pd_direct ex_pd) ex_rule"
proof -
  have "take 2 (le_bytes 4 (0x0100A8C0 :: IP_addr)) = take 2 (le_bytes 4 (0x0000A8C0 :: IP_addr))"
    by (simp add: le_bytes_def upt_conv_Cons)
  then have "\<forall>i < 16. net_bit 0x0100A8C0 i = net_bit 0x0000A8C0 i"
    using bytes_eq_net_bits [of 2 "0x0100A8C0" "0x0000A8C0"] by simp
  then show ?thesis
    by (simp add: covers_packet_def peer_def rule_covers_def ex_defs recbyports_def)
qed

lemma ex_flags: "\<not> has_flag (nr_action ex_rule) CONST_SUM" "\<not> has_flag (nr_action ex_rule) CONST_NEXT"
  by (simp_all add: has_flag_def ex_defs)

lemma ex_find: "find_index (\<lambda>u. nu_id u = pd_id_user ex_pd) ex_users = Some 0"
  by (simp add: ex_defs)

lemma ex_allowed: "autz_allowed ex_users ex_packet ex_pd"
proof -
  have "find (\<lambda>u. nu_id u = pd_id_user ex_pd) ex_users = Some (ex_users ! 0)" using ex_find by (simp add: find_index_find)
  moreover have "nu_id_rules (ex_users ! 0) = [ex_rule]" "nu_status (ex_users ! 0) = 1" "cstr (nu_mac (ex_users ! 0)) = []" "nr_status ex_rule = 1"
    by (simp_all add: ex_users_def zero_user_def ex_rule_def numeral_eq_Suc)
  ultimately show ?thesis using ex_covers ex_flags by (simp add: autz_allowed_def mac_agrees_def)
qed



text \<open>
  C2 (accounting). Accounting a packet of a known user adds its length to the counter of exactly the rules that apply to it,
  the rules authorization consulted, and to the counter of the user once for every such rule without
  \<^verbatim>\<open>CONST_SUM\<close>, modulo \<open>2^32\<close>. No other rule, user or field changes.
\<close>

theorem users_acct_charges:
  assumes "st_users cu = Some us" and "find_index (\<lambda>u. nu_id u = pd_id_user pd) us = Some i" and "masks_ok (nu_id_rules (us ! i))"
  shows "\<exists>rc ret' w'. users_acct call SERVICE_TRAFFIC (APacket p) ext (RPacket pd) cu w =
     Some (rc, ret', cu\<lparr>st_users := Some (us[i := charge_user (covers_packet p (pd_direct pd)) (pd_len pd) (us ! i)])\<rparr>, w')"
  using acct_builtin_charges [OF assms] assms(1)
  by (cases "run_and_hooks call SERVICE_TRAFFIC (APacket p) 1 (RPacket pd) w (extern_acct cu)") (auto simp: users_acct_def)

theorem users_acct_charges_witness:
  "\<exists>rc ret' cu' w'. users_acct (\<lambda>f s d r w. (1, r, w)) SERVICE_TRAFFIC (APacket ex_packet) 1 (RPacket ex_pd) ex_core () =
     Some (rc, ret', cu', w') \<and> map nu_traffic (the (st_users cu')) = [1500, 0]"
proof -
  have us: "st_users ex_core = Some ex_users" by (simp add: ex_core_def)
  have r: "nu_id_rules (ex_users ! 0) = [ex_rule]" "nu_traffic (ex_users ! 0) = 0" "nu_traffic (ex_users ! 1) = 0" "pd_len ex_pd = 1500"
    by (simp_all add: ex_users_def zero_user_def ex_pd_def)
  then have m: "masks_ok (nu_id_rules (ex_users ! 0))" by (simp add: ex_rule_def)
  have "map nu_traffic (ex_users[0 := charge_user (covers_packet ex_packet (pd_direct ex_pd)) (pd_len ex_pd) (ex_users ! 0)]) = [1500, 0]"
    using ex_covers ex_flags r by (simp add: map_update charge_user_def) (simp add: ex_users_def zero_user_def)
  with users_acct_charges [OF us ex_find m, of "\<lambda>f s d r w. (1, r, w)" ex_packet 1 "()"] show ?thesis by auto
qed

lemma find_owner:
  assumes "st_users cu = Some us"
  shows "find (\<lambda>u. nu_addr u = a \<and> nu_addr u \<noteq> 0) us = map_option (user_at cu) (addr_find cu a)"
proof (cases "a = 0")
  case True
  have "find (\<lambda>u. nu_addr u = 0 \<and> nu_addr u \<noteq> 0) us = None" by (induction us) auto
  with True show ?thesis by simp
next
  case False
  then have eq: "(\<lambda>u. nu_addr u = a \<and> nu_addr u \<noteq> 0) = (\<lambda>u. nu_addr u = a)" by auto
  have "user_at cu = (!) us" using assms by (simp add: user_at_def fun_eq_iff)
  then show ?thesis unfolding eq using False assms by (simp add: addr_find_Some find_index_find)
qed

text \<open>
  Authentication. Without hooks a packet is attributed if and only if exactly one of its two addresses belongs to a user: to the owner
  of the source address as outgoing, to the owner of the destination address as incoming traffic. Packets between two users
  and packets without a user are refused.
\<close>

theorem users_auth_direction:
  assumes "st_users cu = Some us" and "extern_auth cu = [] \<or> ext = 0"
  shows "\<exists>flag pd'. users_auth call SERVICE_TRAFFIC (APacket p) ext (RPacket pd) cu w = Some (flag, RPacket pd', w) \<and>
     (case (find (\<lambda>u. nu_addr u = pi_src p \<and> nu_addr u \<noteq> 0) us, find (\<lambda>u. nu_addr u = pi_dest p \<and> nu_addr u \<noteq> 0) us) of
        (Some u, None) \<Rightarrow> flag = 1 \<and> pd_direct pd' = TRAFFIC_OUT \<and> pd_id_user pd' = nu_id u \<and> pd_id_group_user pd' = nu_id_group u
      | (None, Some u) \<Rightarrow> flag = 1 \<and> pd_direct pd' = TRAFFIC_IN \<and> pd_id_user pd' = nu_id u \<and> pd_id_group_user pd' = nu_id_group u
      | _ \<Rightarrow> flag = 0 \<and> pd_id_user pd' = pd_id_user pd)"
  using assms unfolding find_owner [OF assms(1)]
  by (cases "addr_find cu (pi_src p)"; cases "addr_find cu (pi_dest p)") (auto simp: users_auth_def Let_def)

theorem users_auth_direction_witness:
  "\<exists>pd'. users_auth (\<lambda>f s d r w. (1, r, w)) SERVICE_TRAFFIC (APacket ex_packet) 1 (RPacket ex_pd) ex_core () =
     Some (1, RPacket pd', ()) \<and> pd_direct pd' = TRAFFIC_OUT \<and> pd_id_user pd' = 7"
proof -
  have us: "st_users ex_core = Some ex_users" "extern_auth ex_core = [] \<or> (1::gboolean) = 0" by (simp_all add: ex_core_def)
  from users_auth_direction [OF us, of "\<lambda>f s d r w. (1, r, w)" ex_packet ex_pd "()"] show ?thesis
    by (auto simp: ex_users_def ex_packet_def zero_user_def)
qed

text \<open>
  Null result. A caller that asks only whether a packet belongs to a user passes a null result pointer. For a packet without a
  user the code does not answer: it writes through the null pointer.
\<close>

theorem users_auth_null_fault:
  assumes "st_users cu = Some us" and "extern_auth cu = [] \<or> ext = 0"
    and "\<And>u. u \<in> set us \<Longrightarrow> nu_addr u \<noteq> pi_src p \<and> nu_addr u \<noteq> pi_dest p"
  shows "users_auth call SERVICE_TRAFFIC (APacket p) ext RNull cu w = None"
proof -
  have "addr_find cu (pi_src p) = None" "addr_find cu (pi_dest p) = None"
    using assms(1,3) by (auto simp: addr_find_def)
  with assms(1,2) show ?thesis by (auto simp: users_auth_def Let_def)
qed

theorem users_auth_null_fault_witness:
  "users_auth (\<lambda>f s d r w. (1, r, w)) SERVICE_TRAFFIC (APacket (ex_packet\<lparr>pi_src := 1\<rparr>)) 1 RNull ex_core () = None"
  by (rule users_auth_null_fault [where us = ex_users]) (auto simp: ex_defs)

text \<open>
  Accounting hooks. The accounting hooks are guarded by the list of the authorization hooks: as long as no authorization hook is
  registered, none of the registered accounting hooks is called.
\<close>

theorem users_acct_hooks_gated:
  assumes "extern_autz cu = []" and "users_acct call service data ext ret cu w = Some (rc, ret', cu', w')"
  shows "ret' = ret \<and> w' = w"
proof (cases "st_users cu")
  case (Some us)
  with assms(2) obtain r where r: "acct_builtin service data ret cu = Some r"
    "(case r of Inl rc \<Rightarrow> Some (rc, ret, cu, w)
      | Inr cu' \<Rightarrow> if extern_autz cu' \<noteq> [] \<and> ext \<noteq> 0
          then let (flag, ret', w') = run_and_hooks call service data 1 ret w (extern_acct cu') in Some (flag, ret', cu', w')
          else Some (1, ret, cu', w)) = Some (rc, ret', cu', w')"
    by (auto simp: users_acct_def bind_eq_Some_conv)
  then show ?thesis
    using assms(1) acct_builtin_frame [of service data ret cu] by (cases r) auto
qed (use assms in \<open>simp add: users_acct_def\<close>)

theorem users_acct_hooks_gated_witness:
  "\<exists>rc cu'. users_acct (\<lambda>f s d r w. (1, r, Suc w)) SERVICE_TRAFFIC (APacket ex_packet) 1 (RPacket ex_pd) ex_core 0 =
     Some (rc, RPacket ex_pd, cu', 0) \<and> extern_acct ex_core = [5]"
proof -
  have us: "st_users ex_core = Some ex_users" "extern_autz ex_core = []" "extern_acct ex_core = [5]" by (simp_all add: ex_core_def)
  have "masks_ok (nu_id_rules (ex_users ! 0))" by (simp add: ex_users_def ex_rule_def)
  from acct_builtin_charges [OF us(1) ex_find this, of ex_packet] us obtain rc ret' cu'' w' where
    r: "users_acct (\<lambda>f s d r w. (1, r, Suc w)) SERVICE_TRAFFIC (APacket ex_packet) 1 (RPacket ex_pd) ex_core 0 = Some (rc, ret', cu'', w')"
    by (auto simp: users_acct_def)
  from users_acct_hooks_gated [OF us(2) r] r us(3) show ?thesis by auto
qed

section \<open>Removing stale users\<close>

definition stale :: "time_t \<Rightarrow> NODE_USER \<Rightarrow> bool" where
  "stale now u \<longleftrightarrow> now - nu_time_live u > 90"

lemma users_delete_found:
  assumes "st_users cu = Some (xs @ u # ys)" and "nu_id u \<notin> nu_id ` set xs"
  shows "users_delete now (nu_id u) cu =
     (1, cu\<lparr>clean_list := clean_list cu @ [u\<lparr>nu_time_live := now\<rparr>], st_users := Some (xs @ ys), cur_users := cur_users cu - 1\<rparr>)"
proof -
  have "find_index (\<lambda>v. nu_id v = nu_id u) xs = None" using assms(2) by (auto simp: image_iff)
  then have "find_index (\<lambda>v. nu_id v = nu_id u) (xs @ u # ys) = Some (length xs)"
    by (simp add: find_index_append del: find_index_None_iff)
  with assms(1) show ?thesis by (simp add: users_delete_def users_find_Some)
qed

lemma mysql_delete_loop_filter:
  "st_users cu = Some (xs @ ys) \<Longrightarrow> distinct (map nu_id (xs @ ys)) \<Longrightarrow>
   mysql_delete_loop now ys cu = cu\<lparr>st_users := Some (xs @ filter (\<lambda>u. \<not> stale now u) ys),
     clean_list := clean_list cu @ map (\<lambda>u. u\<lparr>nu_time_live := now\<rparr>) (filter (stale now) ys),
     cur_users := cur_users cu - int (length (filter (stale now) ys))\<rparr>"
proof (induction ys arbitrary: cu xs)
  case (Cons u ys)
  show ?case
  proof (cases "stale now u")
    case True
    have "nu_id u \<notin> nu_id ` set xs" using Cons.prems(2) by auto
    from users_delete_found [OF Cons.prems(1) this, of now] True Cons.IH [of _ xs] Cons.prems(2) show ?thesis
      by (simp add: stale_def)
  next
    case False
    with Cons.IH [of cu "xs @ [u]"] Cons.prems show ?thesis by (simp add: stale_def)
  qed
qed simp

text \<open>
  Stale users. When the identifiers are distinct, the periodic clean-up removes exactly the users not confirmed for more
  than 90 seconds, keeps the others in order, moves the removed ones to the clean list with the current time
  and adjusts the user count.
\<close>

theorem users_mysql_delete_stale:
  assumes "st_users cu = Some us" and "distinct (map nu_id us)"
  shows "users_mysql_delete now cu = (1, cu\<lparr>st_users := Some (filter (\<lambda>u. \<not> stale now u) us),
     clean_list := clean_list cu @ map (\<lambda>u. u\<lparr>nu_time_live := now\<rparr>) (filter (stale now) us),
     cur_users := cur_users cu - int (length (filter (stale now) us))\<rparr>)"
  using mysql_delete_loop_filter [of cu "[]" us now] assms by (simp add: users_mysql_delete_def)

theorem users_mysql_delete_stale_witness:
  "map nu_id (the (st_users (snd (users_mysql_delete 50 ex_core)))) = [7, 8] \<and>
   map nu_id (the (st_users (snd (users_mysql_delete 91 ex_core)))) = []"
proof -
  have us: "st_users ex_core = Some ex_users" "distinct (map nu_id ex_users)" by (simp_all add: ex_core_def ex_users_def)
  show ?thesis
    using users_mysql_delete_stale [OF us, of 50] users_mysql_delete_stale [OF us, of 91]
    by (simp add: ex_users_def stale_def zero_user_def)
qed

end
