(* ===== verification/Core_Sync.thy ===== *)
theory Core_Sync
  imports Core_Users
begin

unbundle bit_operations_syntax

text \<open>
  The second half of \<^verbatim>\<open>src/core_users.c\<close>: the rules of a user, loading users and rules from the
  database, exporting the counters, and the periodic \<^verbatim>\<open>users_sync\<close>. The statements are built as
  the code builds them. \<open>None\<close> is a dereferenced null pointer: the price query of
  \<^verbatim>\<open>rules_mysql_export\<close> is read without looking whether it returned a row.
\<close>

section \<open>Rules\<close>

definition rules_init :: "NODE_USER \<Rightarrow> gboolean \<times> NODE_USER" where
  "rules_init u = (if nu_id_rules u \<noteq> [] then (0, u) else (1, u\<lparr>nu_id_rules := []\<rparr>))"

definition rules_insert :: "bool \<Rightarrow> NODE_USER \<Rightarrow> NODE_RULE \<Rightarrow> gboolean \<times> NODE_USER" where
  "rules_insert ok u node = (if \<not> ok then (0, u) else (1, u\<lparr>nu_id_rules := nu_id_rules u @ [node]\<rparr>))"

definition rules_clean :: "NODE_USER \<Rightarrow> gboolean \<times> NODE_USER" where
  "rules_clean u = (1, u\<lparr>nu_id_rules := []\<rparr>)"

definition rules_free :: "NODE_USER \<Rightarrow> gboolean \<times> NODE_USER" where
  "rules_free u = rules_clean u"

definition rules_find :: "NODE_USER \<Rightarrow> IP_id \<Rightarrow> nat option" where
  "rules_find u key = find_index (\<lambda>r. users_compare_rules_id r (zero_rule\<lparr>nr_id := key\<rparr>) = 0) (nu_id_rules u)"

section \<open>Exporting the counters\<close>

definition export_rollback :: "'w STORE_API \<Rightarrow> SQL_SESSION \<Rightarrow> 'w \<Rightarrow> (bool \<times> 'w) option" where
  "export_rollback api sid w = Some (False, snd (sql_exec api sid ''rollback'' w))"

definition rules_update_stmt :: "IP_size \<Rightarrow> IP_id \<Rightarrow> string" where
  "rules_update_stmt traffic id_sql =
     update_rules_prefix @ fmt_u traffic @ '', TDay = TDay + '' @ fmt_u traffic @
     '', TMonth = TMonth + '' @ fmt_u traffic @ '' where id='' @ fmt_u id_sql"

definition price_query :: "IP_id \<Rightarrow> string" where
  "price_query id_sql =
     ''select Rules.id_user, Price from Rules LEFT JOIN Type_Traffic ON Rules.id_type = Type_Traffic.id where Rules.id = ''
     @ fmt_u id_sql"

definition balance_stmt :: "floats \<Rightarrow> IP_size \<Rightarrow> rat \<Rightarrow> IP_id \<Rightarrow> string" where
  "balance_stmt fl traffic price id_user =
     ''update Users SET Balance = Balance - ('' @ fl_fmt fl (of_nat (unat (traffic div 1024))) @ '' * '' @
     fl_fmt fl price @ '') where id = '' @ fmt_u id_user"

definition rules_mysql_export ::
  "floats \<Rightarrow> 'w STORE_API \<Rightarrow> SQL_SESSION \<Rightarrow> IP_id \<Rightarrow> IP_size \<Rightarrow> IP_flag \<Rightarrow> 'w \<Rightarrow> (bool \<times> 'w) option" where
  "rules_mysql_export fl api sid id_sql traffic action w0 =
     (let (ok1, w1) = sql_exec api sid ''set autocommit=0'' w0 in
      if \<not> ok1 then export_rollback api sid w1
      else let (ok2, w2) = sql_exec api sid ''start transaction'' w1 in
      if \<not> ok2 then export_rollback api sid w2
      else let (ok3, w3) = sql_exec api sid (rules_update_stmt traffic id_sql) w2 in
      if \<not> ok3 then export_rollback api sid w3
      else if \<not> has_flag action CONST_SUM then
        (case sql_query api sid (price_query id_sql) w3 of
           (None, w4) \<Rightarrow> export_rollback api sid w4
         | (Some [], w4) \<Rightarrow> None
         | (Some (row # _), w4) \<Rightarrow>
             let (ok5, w5) = sql_exec api sid
                   (balance_stmt fl traffic (fl_atof fl (col row 1)) (conv (atoi (col row 0)))) w4 in
             if \<not> ok5 then export_rollback api sid w5
             else let (ok6, w6) = sql_exec api sid ''commit'' w5 in
             if \<not> ok6 then export_rollback api sid w6 else Some (True, w6))
      else let (ok6, w6) = sql_exec api sid ''commit'' w3 in
           if \<not> ok6 then export_rollback api sid w6 else Some (True, w6))"

fun rules_sync_loop ::
  "floats \<Rightarrow> 'w STORE_API \<Rightarrow> SQL_SESSION \<Rightarrow> NODE_RULE list \<Rightarrow> 'w \<Rightarrow> (NODE_RULE list \<times> 'w) option" where
  "rules_sync_loop fl api sid [] w = Some ([], w)"
| "rules_sync_loop fl api sid (r # rs) w =
     (if nr_traffic r \<noteq> 0 then do {
        let t_traffic = nr_traffic r;
        let r1 = r\<lparr>nr_traffic := nr_traffic r - t_traffic\<rparr>;
        (ok, w1) \<leftarrow> rules_mysql_export fl api sid (nr_id r) t_traffic (nr_action r) w;
        let r2 = (if ok then r1 else r1\<lparr>nr_traffic := nr_traffic r1 + t_traffic\<rparr>);
        (rs', w2) \<leftarrow> rules_sync_loop fl api sid rs w1;
        Some (r2 # rs', w2)
      }
      else do {
        (rs', w2) \<leftarrow> rules_sync_loop fl api sid rs w;
        Some (r # rs', w2)
      })"

definition rules_sync_traffic ::
  "floats \<Rightarrow> 'w STORE_API \<Rightarrow> NODE_USER \<Rightarrow> 'w \<Rightarrow> (gboolean \<times> NODE_USER \<times> 'w) option" where
  "rules_sync_traffic fl api u w =
     (case sql_open api w of
        (None, w1) \<Rightarrow> Some (0, u, w1)
      | (Some sid, w1) \<Rightarrow> do {
          (rs, w2) \<leftarrow> rules_sync_loop fl api sid (nu_id_rules u) w1;
          Some (1, u\<lparr>nu_id_rules := rs\<rparr>, sql_close api sid w2)
        })"

definition rules_mysql_unload ::
  "floats \<Rightarrow> 'w STORE_API \<Rightarrow> NODE_USER \<Rightarrow> 'w \<Rightarrow> (gboolean \<times> NODE_USER \<times> 'w) option" where
  "rules_mysql_unload fl api u w = do {
     (rc, u1, w1) \<leftarrow> rules_sync_traffic fl api u w;
     if rc \<noteq> 0 then Some (1, snd (rules_clean u1), w1) else Some (0, u1, w1)
   }"

definition users_mysql_export ::
  "'w STORE_API \<Rightarrow> SQL_SESSION \<Rightarrow> IP_id \<Rightarrow> IP_size \<Rightarrow> 'w \<Rightarrow> bool \<times> 'w" where
  "users_mysql_export api sid id_sql traffic w =
     sql_exec api sid (''update Users SET Traffic = Traffic + '' @ fmt_u traffic @ '', TDay = TDay + '' @ fmt_u traffic @
       '', TMonth = TMonth + '' @ fmt_u traffic @ '' where id = '' @ fmt_u id_sql) w"

fun users_traffic_loop ::
  "floats \<Rightarrow> 'w STORE_API \<Rightarrow> SQL_SESSION \<Rightarrow> NODE_USER list \<Rightarrow> 'w \<Rightarrow> (NODE_USER list \<times> 'w) option" where
  "users_traffic_loop fl api sid [] w = Some ([], w)"
| "users_traffic_loop fl api sid (u # us) w =
     (if nu_traffic u \<noteq> 0 then do {
        let t_traffic = nu_traffic u;
        let u1 = u\<lparr>nu_traffic := nu_traffic u - t_traffic\<rparr>;
        let (ok, w1) = users_mysql_export api sid (nu_id u) t_traffic w;
        (u2, w2) \<leftarrow> (if \<not> ok then Some (u1\<lparr>nu_traffic := nu_traffic u1 + t_traffic\<rparr>, w1)
                     else do { (_, u2, w2) \<leftarrow> rules_sync_traffic fl api u1 w1; Some (u2, w2) });
        (us', w3) \<leftarrow> users_traffic_loop fl api sid us w2;
        Some (u2 # us', w3)
      }
      else do {
        (us', w3) \<leftarrow> users_traffic_loop fl api sid us w;
        Some (u # us', w3)
      })"

definition users_sync_traffic ::
  "floats \<Rightarrow> time_t \<Rightarrow> 'w STORE_API \<Rightarrow> core_users \<Rightarrow> 'w \<Rightarrow> (gboolean \<times> core_users \<times> 'w) option" where
  "users_sync_traffic fl now api cu w =
     (case st_users cu of None \<Rightarrow> Some (0, cu, w)
      | Some us \<Rightarrow>
          case sql_open api w of
            (None, w1) \<Rightarrow> Some (0, cu, w1)
          | (Some sid, w1) \<Rightarrow> do {
              (us', w2) \<leftarrow> users_traffic_loop fl api sid us w1;
              let (_, w3) = save_timestamp now api sid ''date_last_insert_users'' w2;
              Some (1, cu\<lparr>st_users := Some us'\<rparr>, sql_close api sid w3)
            })"

section \<open>Loading\<close>

definition load_rules_query :: "IP_id \<Rightarrow> string" where
  "load_rules_query idu =
     ''select Rules.id, Direct, Proto, Net, Mask, Ports, Action, onActive, Price, id_type, Type_Traffic.id_group, md5(concat(Rules.id, id_type, Type_Traffic.id_group, Direct, Proto, Net, Mask, Ports, Action, onActive, Price)) from Rules RIGHT JOIN Type_Traffic ON Rules.id_type = Type_Traffic.id where id_user = ''
     @ fmt_u idu @ '' order by  Proto, Mask desc, Ports desc, Direct''"

definition rule_of_row :: "floats \<Rightarrow> bool \<Rightarrow> SQL_ROW \<Rightarrow> NODE_RULE" where
  "rule_of_row fl ok row =
     (let t_ip = snd (hostbyip ok (col row 3) 0); proto = conv (atoi (col row 2))
      in zero_rule\<lparr>nr_id := conv (atoi (col row 0)), nr_direct := conv (atoi (col row 1)), nr_proto := proto,
           nr_net := t_ip, nr_mask := conv (atoi (col row 4)), nr_ports := conv (atoi (col row 5)),
           nr_action := conv (atoi (col row 6)), nr_status := conv (atoi (col row 7)),
           nr_price := fl_atof fl (col row 8), nr_traffic := 0, nr_id_type := conv (atoi (col row 9)),
           nr_id_group := conv (atoi (col row 10)),
           nr_service := (if proto = 254 then SERVICE_SQUID else SERVICE_TRAFFIC),
           nr_md5 := strncpy (nr_md5 zero_rule) (col row 11) 32\<rparr>)"

definition rules_mysql_load ::
  "floats \<Rightarrow> bool \<Rightarrow> 'w STORE_API \<Rightarrow> NODE_USER \<Rightarrow> 'w \<Rightarrow> gboolean \<times> NODE_USER \<times> 'w" where
  "rules_mysql_load fl ok api u w =
     (let (rc, u0) = rules_init u in
      if rc \<noteq> 1 then (0, u0, w)
      else case sql_open api w of
        (None, w1) \<Rightarrow> (1, u0, w1)
      | (Some sid, w1) \<Rightarrow>
          case sql_query api sid (load_rules_query (nu_id u0)) w1 of
            (None, w2) \<Rightarrow>
              (0, if nu_id_rules u0 \<noteq> [] then snd (rules_free u0) else u0, sql_close api sid w2)
          | (Some rows, w2) \<Rightarrow>
              (1, fold (\<lambda>row v. snd (rules_insert ok v (rule_of_row fl ok row))) rows u0, sql_close api sid w2))"

definition user_query :: "IP_id \<Rightarrow> string" where
  "user_query s_id =
     ''select Addr, Mac, onActive, id_group, md5(concat(id_group, Addr, Mac, onActive)) from Users where id = '' @ fmt_u s_id"

fun mysql_insert_rows ::
  "floats \<Rightarrow> bool \<Rightarrow> time_t \<Rightarrow> 'w STORE_API \<Rightarrow> IP_id \<Rightarrow> SQL_ROW list \<Rightarrow> core_users \<Rightarrow> 'w \<Rightarrow> core_users \<times> 'w" where
  "mysql_insert_rows fl ok now api s_id [] cu w = (cu, w)"
| "mysql_insert_rows fl ok now api s_id (row # rows) cu w =
     (let t_ip = snd (hostbyip ok (col row 0) 0) in
      if t_ip = 0 then mysql_insert_rows fl ok now api s_id rows cu w
      else
        let node = zero_user\<lparr>nu_id := s_id, nu_addr := t_ip, nu_traffic := 0,
                     nu_id_group := conv (atoi (col row 3)), nu_status := conv (atoi (col row 2)), nu_id_rules := [],
                     nu_md5 := strncpy (nu_md5 zero_user) (col row 4) 32,
                     nu_mac := strncpy (nu_mac zero_user) (col row 1) 18, nu_time_live := now\<rparr>
        in case users_insert ok node cu of
             (None, cu1) \<Rightarrow> mysql_insert_rows fl ok now api s_id rows cu1 w
           | (Some i, cu1) \<Rightarrow>
               let (_, u', w1) = rules_mysql_load fl ok api (user_at cu1 i) w
               in mysql_insert_rows fl ok now api s_id rows (set_user cu1 i u') w1)"

definition users_mysql_insert ::
  "floats \<Rightarrow> bool \<Rightarrow> time_t \<Rightarrow> 'w STORE_API option \<Rightarrow> IP_id \<Rightarrow> core_users \<Rightarrow> 'w \<Rightarrow> gboolean \<times> core_users \<times> 'w" where
  "users_mysql_insert fl ok now store s_id cu w =
     (if st_users cu = None then (0, cu, w)
      else case store of None \<Rightarrow> (0, cu, w)
      | Some api \<Rightarrow>
          case sql_open api w of
            (None, w1) \<Rightarrow> (1, cu, w1)
          | (Some sid, w1) \<Rightarrow>
              case sql_query api sid (user_query s_id) w1 of
                (None, w2) \<Rightarrow> (0, cu, sql_close api sid w2)
              | (Some rows, w2) \<Rightarrow>
                  let (cu', w3) = mysql_insert_rows fl ok now api s_id rows cu w2
                  in (1, cu', sql_close api sid w3))"

definition update_row :: "bool \<Rightarrow> IP_id \<Rightarrow> SQL_ROW \<Rightarrow> NODE_USER \<Rightarrow> NODE_USER" where
  "update_row ok s_id row u =
     (let t_ip = snd (hostbyip ok (col row 0) 0) in
      if t_ip = 0 then u
      else u\<lparr>nu_id := s_id, nu_addr := t_ip, nu_status := conv (atoi (col row 2)),
             nu_id_group := conv (atoi (col row 3)), nu_md5 := strncpy (nu_md5 u) (col row 4) 32,
             nu_mac := strncpy (nu_mac u) (col row 1) 18\<rparr>)"

definition users_mysql_update ::
  "floats \<Rightarrow> bool \<Rightarrow> 'w STORE_API option \<Rightarrow> IP_id \<Rightarrow> core_users \<Rightarrow> 'w \<Rightarrow> (gboolean \<times> core_users \<times> 'w) option" where
  "users_mysql_update fl ok store s_id cu w =
     (if st_users cu = None then Some (0, cu, w)
      else case store of None \<Rightarrow> Some (0, cu, w)
      | Some api \<Rightarrow>
          case users_find cu s_id of None \<Rightarrow> Some (1, cu, w)
          | Some i \<Rightarrow>
              case sql_open api w of
                (None, w1) \<Rightarrow> Some (1, cu, w1)
              | (Some sid, w1) \<Rightarrow> do {
                  (_, u1, w2) \<leftarrow> rules_mysql_unload fl api (user_at cu i) w1;
                  case sql_query api sid (user_query s_id) w2 of
                    (None, w3) \<Rightarrow> Some (0, set_user cu i u1, sql_close api sid w3)
                  | (Some rows, w3) \<Rightarrow>
                      let u2 = fold (update_row ok s_id) rows u1;
                          (_, u3, w4) = rules_mysql_load fl ok api u2 w3
                      in Some (1, set_user cu i u3, sql_close api sid w4)
                })"

section \<open>Synchronisation\<close>

definition rules_sync_query :: "IP_id \<Rightarrow> string" where
  "rules_sync_query idu =
     ''select Rules.id, md5(concat(Rules.id, id_type, Type_Traffic.id_group, Direct, Proto, Net, Mask, Ports, Action, onActive, Price)) from Rules RIGHT JOIN Type_Traffic ON Rules.id_type = Type_Traffic.id where id_user = ''
     @ fmt_u idu"

definition md5_buf :: "string \<Rightarrow> string" where
  "md5_buf s = take 32 (strncpy (replicate 33 NUL) s 32)"

fun rules_sync_rows :: "time_t \<Rightarrow> SQL_ROW list \<Rightarrow> bool \<Rightarrow> NODE_USER \<Rightarrow> bool \<times> NODE_USER" where
  "rules_sync_rows now [] flag_update u = (flag_update, u)"
| "rules_sync_rows now (row # rows) flag_update u =
     (case rules_find u (conv (atoi (col row 0))) of
        Some i \<Rightarrow>
          let r = nu_id_rules u ! i
          in if take 32 (nr_md5 r) \<noteq> md5_buf (col row 1) then rules_sync_rows now rows True u
             else rules_sync_rows now rows flag_update (u\<lparr>nu_id_rules := (nu_id_rules u)[i := r\<lparr>nr_time_live := now\<rparr>]\<rparr>)
      | None \<Rightarrow> rules_sync_rows now rows True u)"

definition rules_sync ::
  "time_t \<Rightarrow> 'w STORE_API \<Rightarrow> NODE_USER \<Rightarrow> 'w \<Rightarrow> bool \<times> NODE_USER \<times> 'w" where
  "rules_sync now api u w =
     (case sql_open api w of
        (None, w1) \<Rightarrow> (False, u, w1)
      | (Some sid, w1) \<Rightarrow>
          case sql_query api sid (rules_sync_query (nu_id u)) w1 of
            (None, w2) \<Rightarrow> (False, u, sql_close api sid w2)
          | (Some rows, w2) \<Rightarrow>
              let (flag, u') = rules_sync_rows now rows False u;
                  flag' = (if \<not> flag then list_ex (\<lambda>r. now - nr_time_live r > 90) (nu_id_rules u') else flag)
              in (flag', u', sql_close api sid w2))"

definition users_query :: string where
  "users_query = ''select id, Addr, md5(concat(id_group, Addr, Mac, onActive)) from Users order by id''"

text \<open>One row of the user query: \<open>store\<close> is not null here, since the query has been made through it.\<close>

definition users_sync_row ::
  "floats \<Rightarrow> bool \<Rightarrow> time_t \<Rightarrow> 'w STORE_API \<Rightarrow> SQL_ROW \<Rightarrow> core_users \<Rightarrow> 'w \<Rightarrow> (core_users \<times> 'w) option" where
  "users_sync_row fl ok now api row cu w =
     (let t_id = conv (atoi (col row 0)) in
      case users_find cu t_id of
        None \<Rightarrow> (case users_mysql_insert fl ok now (Some api) t_id cu w of (_, cu1, w1) \<Rightarrow> Some (cu1, w1))
      | Some i \<Rightarrow> do {
          let u = user_at cu i;
          (cu1, w1) \<leftarrow>
            (if take 32 (nu_md5 u) \<noteq> md5_buf (col row 2)
             then map_option snd (users_mysql_update fl ok (Some api) t_id cu w)
             else let (flag, u', w1) = rules_sync now api u w; cu1 = set_user cu i u'
                  in if flag then map_option snd (users_mysql_update fl ok (Some api) t_id cu1 w1)
                     else Some (cu1, w1));
          Some (set_user cu1 i ((user_at cu1 i)\<lparr>nu_time_live := now\<rparr>), w1)
        })"

fun users_sync_rows ::
  "floats \<Rightarrow> bool \<Rightarrow> time_t \<Rightarrow> 'w STORE_API \<Rightarrow> SQL_ROW list \<Rightarrow> core_users \<Rightarrow> 'w \<Rightarrow> (core_users \<times> 'w) option" where
  "users_sync_rows fl ok now api [] cu w = Some (cu, w)"
| "users_sync_rows fl ok now api (row # rows) cu w = do {
     (cu1, w1) \<leftarrow> users_sync_row fl ok now api row cu w;
     users_sync_rows fl ok now api rows cu1 w1
   }"

definition users_sync ::
  "floats \<Rightarrow> bool \<Rightarrow> time_t \<Rightarrow> 'w STORE_API option \<Rightarrow> core_users \<Rightarrow> 'w \<Rightarrow> (gboolean \<times> core_users \<times> 'w) option" where
  "users_sync fl ok now store cu w =
     (if st_users cu = None then Some (0, cu, w)
      else case store of None \<Rightarrow> None
      | Some api \<Rightarrow> do {
          let (sid0, w1) = sql_open api w;
          r \<leftarrow> (case sid0 of
                 None \<Rightarrow> Some (Inr (cu, w1))
               | Some sid \<Rightarrow>
                   (case sql_query api sid users_query w1 of
                      (None, w2) \<Rightarrow> Some (Inl (sql_close api sid w2))
                    | (Some rows, w2) \<Rightarrow> do {
                        (cu1, w3) \<leftarrow> users_sync_rows fl ok now api rows cu w2;
                        Some (Inr (cu1, sql_close api sid w3))
                      }));
          case r of
            Inl w2 \<Rightarrow> Some (0, cu, w2)
          | Inr (cu1, w2) \<Rightarrow> do {
              let (_, cu2) = users_mysql_delete now cu1;
              (_, cu3, w3) \<leftarrow> users_sync_traffic fl now api cu2 w2;
              Some (1, cu3, w3)
            }
        })"

definition core_scheduler ::
  "floats \<Rightarrow> bool \<Rightarrow> time_t \<Rightarrow> 'w STORE_API option \<Rightarrow> core_users \<Rightarrow> 'w \<Rightarrow> (gboolean \<times> core_users \<times> 'w) option" where
  "core_scheduler fl ok now store cu w = do { (_, cu', w') \<leftarrow> users_sync fl ok now store cu w; Some (1, cu', w') }"

fun unload_all ::
  "floats \<Rightarrow> 'w STORE_API \<Rightarrow> NODE_USER list \<Rightarrow> 'w \<Rightarrow> 'w option" where
  "unload_all fl api [] w = Some w"
| "unload_all fl api (u # us) w = do { (_, _, w1) \<leftarrow> rules_mysql_unload fl api u w; unload_all fl api us w1 }"

definition users_free ::
  "floats \<Rightarrow> 'w STORE_API \<Rightarrow> core_users \<Rightarrow> 'w \<Rightarrow> (gboolean \<times> core_users \<times> 'w) option" where
  "users_free fl api cu w =
     (case st_users cu of None \<Rightarrow> Some (0, cu, w)
      | Some us \<Rightarrow> do {
          w1 \<leftarrow> unload_all fl api us w;
          w2 \<leftarrow> unload_all fl api (clean_list cu) w1;
          Some (1, cu\<lparr>st_users := None, clean_list := []\<rparr>, w2)
        })"

section \<open>Exported traffic\<close>

lemma stmt_facts:
  "\<not> tx_word (rules_update_stmt n i)" "rules_effect (rules_update_stmt n i) = unat n"
  "\<not> tx_word (balance_stmt fl n p i)" "rules_effect (balance_stmt fl n p i) = 0"
proof -
  show "\<not> tx_word (rules_update_stmt n i)" "\<not> tx_word (balance_stmt fl n p i)"
    by (simp_all add: tx_word_def rules_update_stmt_def update_rules_prefix_def balance_stmt_def)
  show "rules_effect (rules_update_stmt n i) = unat n"
    unfolding rules_update_stmt_def by (rule rules_effect_update) (simp add: isdigit_def char_code_def)
  show "rules_effect (balance_stmt fl n p i) = 0"
    by (simp add: rules_effect_def balance_stmt_def update_rules_prefix_def)
qed

definition rules_traffic :: "NODE_RULE list \<Rightarrow> nat" where
  "rules_traffic rs = sum_list (map (\<lambda>r. unat (nr_traffic r)) rs)"

lemma export_rollback_booked:
  assumes "transactional api tx booked" and "export_rollback api sid w = Some (ok, w')"
  shows "\<not> ok \<and> booked w' = booked w"
  using assms(2) tx_rollback [OF assms(1), of sid w]
  by (cases "sql_exec api sid ''rollback'' w") (auto simp: export_rollback_def)

lemma export_commit_booked:
  assumes "transactional api tx booked" and "tx sid v = Some n"
    and "(let (ok6, w6) = sql_exec api sid ''commit'' v in
          if \<not> ok6 then export_rollback api sid w6 else Some (True, w6)) = Some (ok, w')"
  shows "booked w' = booked v + (if ok then n else 0)"
  using assms(2,3) tx_commit [OF assms(1), of sid v] export_rollback_booked [OF assms(1)]
  by (fastforce split: prod.splits if_splits)

text \<open>The part of the export after the traffic update: the charge of the balance and the commit.\<close>

lemma export_charge_booked:
  assumes tr: "transactional api tx booked" and tx: "tx sid w3 = Some n"
    and ex: "(case sql_query api sid q w3 of
           (None, w4) \<Rightarrow> export_rollback api sid w4
         | (Some [], w4) \<Rightarrow> None
         | (Some (row # _), w4) \<Rightarrow>
             let (ok5, w5) = sql_exec api sid (balance_stmt fl m (fl_atof fl (col row 1)) (conv (atoi (col row 0)))) w4 in
             if \<not> ok5 then export_rollback api sid w5
             else let (ok6, w6) = sql_exec api sid ''commit'' w5 in
             if \<not> ok6 then export_rollback api sid w6 else Some (True, w6)) = Some (ok, w')"
  shows "booked w' = booked w3 + (if ok then n else 0)"
proof -
  obtain rows w4 where q: "sql_query api sid q w3 = (rows, w4)" by force
  note b4 = tx_query [OF tr q]
  show ?thesis
  proof (cases rows)
    case None
    with ex q b4 export_rollback_booked [OF tr] show ?thesis by fastforce
  next
    case (Some rs)
    with ex q obtain row rest where rs: "rs = row # rest" by (cases rs) auto
    obtain ok5 w5 where e5: "sql_exec api sid (balance_stmt fl m (fl_atof fl (col row 1)) (conv (atoi (col row 0)))) w4 = (ok5, w5)"
      by force
    have t5: "tx sid w5 = Some n" "booked w5 = booked w3"
      using tx_exec [OF tr stmt_facts(3) _ e5, unfolded stmt_facts(4)] b4 tx by auto
    show ?thesis
    proof (cases ok5)
      case True
      with ex q Some rs e5 export_commit_booked [OF tr t5(1)] t5(2) show ?thesis by simp
    next
      case False
      with ex q Some rs e5 export_rollback_booked [OF tr] t5(2) show ?thesis by fastforce
    qed
  qed
qed

lemma rules_mysql_export_booked:
  assumes tr: "transactional api tx booked"
    and ex: "rules_mysql_export fl api sid i n act w = Some (ok, w')"
  shows "booked w' = booked w + (if ok then unat n else 0)"
proof -
  obtain ok1 w1 where e1: "sql_exec api sid ''set autocommit=0'' w = (ok1, w1)" by force
  obtain ok2 w2 where e2: "sql_exec api sid ''start transaction'' w1 = (ok2, w2)" by force
  obtain ok3 w3 where e3: "sql_exec api sid (rules_update_stmt n i) w2 = (ok3, w3)" by force
  note b1 = tx_autocommit [OF tr e1] and b2 = tx_start [OF tr e2]
    and b3 = tx_exec [OF tr stmt_facts(1) _ e3, unfolded stmt_facts(2)]
  note rb = export_rollback_booked [OF tr]
  consider "\<not> ok1" | "ok1" "\<not> ok2" | "ok1" "ok2" "\<not> ok3" | "ok1" "ok2" "ok3" by blast
  then show ?thesis
  proof cases
    case 1
    with ex e1 rb b1 show ?thesis by (fastforce simp: rules_mysql_export_def)
  next
    case 2
    with ex e1 e2 rb b1 b2 show ?thesis by (fastforce simp: rules_mysql_export_def)
  next
    case 3
    with ex e1 e2 e3 rb b1 b2 b3 show ?thesis by (fastforce simp: rules_mysql_export_def)
  next
    case 4
    then have t3: "tx sid w3 = Some (unat n)" "booked w3 = booked w" using b1 b2 b3 by auto
    show ?thesis
    proof (cases "has_flag act CONST_SUM")
      case True
      with 4 ex e1 e2 e3 export_commit_booked [OF tr t3(1)] t3(2) show ?thesis by (simp add: rules_mysql_export_def)
    next
      case False
      with 4 ex e1 e2 e3 export_charge_booked [OF tr t3(1)] t3(2) show ?thesis
        by (simp add: rules_mysql_export_def)
    qed
  qed
qed

lemma bind_pair_map: "Option.bind x (\<lambda>(a, b). Some (f a b)) = map_option (\<lambda>(a, b). f a b) x"
  by (cases x) auto

lemma rules_sync_loop_Cons:
  "rules_sync_loop fl api sid (r # rs) w =
     (case (if nr_traffic r \<noteq> 0 then rules_mysql_export fl api sid (nr_id r) (nr_traffic r) (nr_action r) w else Some (False, w)) of
        None \<Rightarrow> None
      | Some (ok, w1) \<Rightarrow> map_option (apfst ((#) (if ok then r\<lparr>nr_traffic := 0\<rparr> else r))) (rules_sync_loop fl api sid rs w1))"
  by (auto simp: Let_def bind_pair_map apfst_def map_prod_def split: option.splits)

declare rules_sync_loop.simps(2) [simp del]

lemma rules_sync_loop_booked:
  assumes "transactional api tx booked"
  shows "rules_sync_loop fl api sid rs w = Some (rs', w') \<Longrightarrow>
    booked w' + rules_traffic rs' = booked w + rules_traffic rs"
proof (induction rs arbitrary: w rs' w')
  case (Cons r rs)
  then obtain ok w1 rs'' where
    e: "(if nr_traffic r \<noteq> 0 then rules_mysql_export fl api sid (nr_id r) (nr_traffic r) (nr_action r) w else Some (False, w)) = Some (ok, w1)"
    and l: "rules_sync_loop fl api sid rs w1 = Some (rs'', w')"
    and r: "rs' = (if ok then r\<lparr>nr_traffic := 0\<rparr> else r) # rs''"
    by (auto simp: rules_sync_loop_Cons split: option.splits)
  have "booked w1 = booked w + (if ok then unat (nr_traffic r) else 0)"
    using e rules_mysql_export_booked [OF assms] by (auto split: if_splits)
  with Cons.IH [OF l] r show ?case by (auto simp: rules_traffic_def)
qed simp

section \<open>Properties\<close>

text \<open>
  C6 (export). Exporting the counters of a user's rules loses and invents nothing: on a transactional store the traffic booked
  in the database plus the traffic left in the counters is the same before and after, whichever of the statements fail.
\<close>

theorem rules_sync_traffic_conserves:
  assumes "transactional api tx booked" and "rules_sync_traffic fl api u w = Some (rc, u', w')"
  shows "booked w' + rules_traffic (nu_id_rules u') = booked w + rules_traffic (nu_id_rules u)"
  using assms(2) tx_open [OF assms(1), of w] tx_close [OF assms(1)] rules_sync_loop_booked [OF assms(1)]
  by (fastforce simp: rules_sync_traffic_def bind_eq_Some_conv split: prod.splits option.splits)


definition ex_floats :: floats where
  "ex_floats = \<lparr>fl_atof = (\<lambda>s. of_int (signed_val s)), fl_fmt = (\<lambda>q. fmt_int (fst (quotient_of q)))\<rparr>"

definition ex_db :: ledger_db where
  "ex_db = \<lparr>ld_tx = None, ld_booked = 100, ld_log = []\<rparr>"

definition ex_counted :: NODE_USER where
  "ex_counted = zero_user\<lparr>nu_id := 7, nu_id_rules := [ex_rule\<lparr>nr_traffic := 5, nr_action := CONST_SUM\<rparr>, ex_rule]\<rparr>"

lemmas ledger_simps =
  ledger_api_def ledger_exec_def rules_mysql_export_def rules_update_stmt_def update_rules_prefix_def
  rules_sync_loop_Cons rules_sync_traffic_def Let_def

theorem rules_sync_traffic_conserves_witness:
  "\<exists>rc u' w'. rules_sync_traffic ex_floats (ledger_api []) ex_counted ex_db = Some (rc, u', w') \<and>
     ld_booked w' + rules_traffic (nu_id_rules u') = 105"
proof -
  obtain rc u' w' where r: "rules_sync_traffic ex_floats (ledger_api []) ex_counted ex_db = Some (rc, u', w')"
    by (simp add: ledger_simps ex_counted_def ex_rule_def zero_rule_def has_flag_def CONST_SUM_def ex_db_def zero_user_def)
  from rules_sync_traffic_conserves [OF transactional_ledger r] r show ?thesis
    by (simp add: ex_counted_def ex_rule_def zero_rule_def rules_traffic_def ex_db_def)
qed

lemma rules_sync_loop_failing:
  assumes "\<And>w. \<not> fst (sql_exec api sid ''set autocommit=0'' w)"
  shows "\<exists>w'. rules_sync_loop fl api sid rs w = Some (rs, w')"
proof (induction rs arbitrary: w)
  case (Cons r rs)
  have "\<exists>w1. rules_mysql_export fl api sid (nr_id r) (nr_traffic r) (nr_action r) w = Some (False, w1)"
    using assms [of w] by (auto simp: rules_mysql_export_def export_rollback_def split: prod.splits)
  then obtain w1 where e: "rules_mysql_export fl api sid (nr_id r) (nr_traffic r) (nr_action r) w = Some (False, w1)" ..
  from Cons.IH [of w] Cons.IH [of w1] e show ?case by (cases "nr_traffic r = 0") (auto simp: rules_sync_loop_Cons)
qed simp

text \<open>
  Unload. Reloading the rules of a user, in contrast, discards the counters that could not be exported: when the store
  refuses the transaction, \<^verbatim>\<open>rules_mysql_unload\<close> still reports success and drops every rule with
  its traffic, and nothing has been booked.
\<close>

theorem rules_mysql_unload_drops:
  assumes "transactional api tx booked" and "sql_open api w = (Some sid, w1)"
    and "\<And>v. \<not> fst (sql_exec api sid ''set autocommit=0'' v)"
  shows "\<exists>w'. rules_mysql_unload fl api u w = Some (1, u\<lparr>nu_id_rules := []\<rparr>, w') \<and> booked w' = booked w"
proof -
  from rules_sync_loop_failing [OF assms(3)] obtain w2 where
    l: "rules_sync_loop fl api sid (nu_id_rules u) w1 = Some (nu_id_rules u, w2)" by blast
  have "booked w2 = booked w"
    using rules_sync_loop_booked [OF assms(1) l] tx_open [OF assms(1,2)] by simp
  with l assms(2) tx_close [OF assms(1)] show ?thesis
    by (simp add: rules_mysql_unload_def rules_sync_traffic_def rules_clean_def)
qed

theorem rules_mysql_unload_drops_witness:
  "\<exists>w'. rules_mysql_unload ex_floats (ledger_api []\<lparr>sql_exec := (\<lambda>sid s w. (False, w))\<rparr>) ex_counted ex_db =
     Some (1, ex_counted\<lparr>nu_id_rules := []\<rparr>, w') \<and> ld_booked w' = 100 \<and> rules_traffic (nu_id_rules ex_counted) = 5"
proof -
  have t: "transactional (ledger_api []\<lparr>sql_exec := (\<lambda>sid s w. (False, w))\<rparr>) (\<lambda>sid. ld_tx) ld_booked"
    by (auto simp: transactional_def ledger_api_def)
  show ?thesis
    using rules_mysql_unload_drops [OF t, of ex_db 1 ex_db ex_floats ex_counted]
    by (simp add: ledger_api_def ex_db_def ex_counted_def rules_traffic_def ex_rule_def zero_rule_def)
qed

section \<open>The invariant of the table\<close>

definition users_inv :: "core_users \<Rightarrow> bool" where
  "users_inv cu \<longleftrightarrow> (\<exists>us. st_users cu = Some us \<and> cur_users cu = int (length us) \<and> (\<forall>u \<in> set us. nu_addr u \<noteq> 0))"

lemma users_invI: "st_users cu = Some us \<Longrightarrow> cur_users cu = int (length us) \<Longrightarrow> \<forall>u \<in> set us. nu_addr u \<noteq> 0 \<Longrightarrow> users_inv cu"
  by (simp add: users_inv_def)

lemma set_user_inv: "users_inv cu \<Longrightarrow> nu_addr u \<noteq> 0 \<Longrightarrow> users_inv (set_user cu i u)"
  using set_update_subset_insert by (fastforce simp: users_inv_def set_user_def)

lemma users_find_addr: "users_inv cu \<Longrightarrow> users_find cu k = Some i \<Longrightarrow> nu_addr (user_at cu i) \<noteq> 0"
  by (auto simp: users_inv_def dest!: users_find_SomeD)

lemma rules_sync_traffic_addr: "rules_sync_traffic fl api u w = Some (rc, u', w') \<Longrightarrow> nu_addr u' = nu_addr u"
  by (auto simp: rules_sync_traffic_def bind_eq_Some_conv split: prod.splits option.splits)

lemma rules_mysql_unload_addr: "rules_mysql_unload fl api u w = Some (rc, u', w') \<Longrightarrow> nu_addr u' = nu_addr u"
  by (auto simp: rules_mysql_unload_def rules_clean_def bind_eq_Some_conv dest!: rules_sync_traffic_addr split: prod.splits if_splits)

lemma fold_rules_addr: "nu_addr (fold (\<lambda>row v. snd (rules_insert ok v (g row))) rows u) = nu_addr u"
  by (induction rows arbitrary: u) (auto simp: rules_insert_def)

lemma rules_mysql_load_addr: "nu_addr (fst (snd (rules_mysql_load fl ok api u w))) = nu_addr u"
  by (auto simp: rules_mysql_load_def rules_init_def rules_free_def rules_clean_def fold_rules_addr Let_def
      split: prod.splits option.splits)

lemma update_row_addr: "nu_addr u \<noteq> 0 \<Longrightarrow> nu_addr (fold (update_row ok k) rows u) \<noteq> 0"
  by (induction rows arbitrary: u) (auto simp: update_row_def Let_def)

lemma rules_sync_addr: "nu_addr (fst (snd (rules_sync now api u w))) = nu_addr u"
proof -
  have "nu_addr (snd (rules_sync_rows now rows f v)) = nu_addr v" for rows f v
    by (induction now rows f v rule: rules_sync_rows.induct) (auto simp: Let_def split: option.splits)
  then show ?thesis
    by (simp add: rules_sync_def Let_def split: prod.splits option.splits) (metis snd_conv)
qed

lemma users_insert_inv:
  "users_inv cu \<Longrightarrow> nu_addr node \<noteq> 0 \<Longrightarrow> users_insert ok node cu = (r, cu1) \<Longrightarrow>
   users_inv cu1 \<and> (\<forall>i. r = Some i \<longrightarrow> user_at cu1 i = node)"
  by (auto simp: users_inv_def users_insert_def user_at_def split: if_splits)

lemma mysql_insert_rows_inv:
  "users_inv cu \<Longrightarrow> users_inv (fst (mysql_insert_rows fl ok now api k rows cu w))"
proof (induction rows arbitrary: cu w)
  case (Cons row rows)
  let ?ip = "snd (hostbyip ok (col row 0) 0)"
  let ?node = "zero_user\<lparr>nu_id := k, nu_addr := ?ip, nu_traffic := 0,
       nu_id_group := conv (atoi (col row 3)), nu_status := conv (atoi (col row 2)), nu_id_rules := [],
       nu_md5 := strncpy (nu_md5 zero_user) (col row 4) 32,
       nu_mac := strncpy (nu_mac zero_user) (col row 1) 18, nu_time_live := now\<rparr>"
  obtain r cu1 where ui: "users_insert ok ?node cu = (r, cu1)" by force
  show ?case
  proof (cases "?ip = 0")
    case True
    then show ?thesis using Cons by (simp add: Let_def)
  next
    case False
    then have inv: "users_inv cu1" "\<And>i. r = Some i \<Longrightarrow> user_at cu1 i = ?node"
      using users_insert_inv [OF Cons.prems _ ui] by auto
    show ?thesis
    proof (cases r)
      case None
      with False ui inv Cons.IH show ?thesis by (simp add: Let_def)
    next
      case (Some i)
      obtain rc u' w1 where l: "rules_mysql_load fl ok api (user_at cu1 i) w = (rc, u', w1)" by (metis prod_cases3)
      then have "nu_addr u' \<noteq> 0"
        using rules_mysql_load_addr [of fl ok api "user_at cu1 i" w] inv(2) [OF Some] False by simp
      with False ui Some l Cons.IH set_user_inv [OF inv(1)] show ?thesis by (simp add: Let_def)
    qed
  qed
qed simp

lemma users_mysql_insert_inv:
  assumes "users_inv cu"
  shows "users_inv (fst (snd (users_mysql_insert fl ok now store k cu w)))"
proof -
  have "users_inv c" if "mysql_insert_rows fl ok now api k rows cu v = (c, v')" for api rows v c v'
    using mysql_insert_rows_inv [OF assms, of fl ok now api k rows v] that by simp
  with assms show ?thesis
    by (auto simp: users_mysql_insert_def Let_def split: option.splits prod.splits)
qed

lemma users_mysql_update_inv:
  assumes inv: "users_inv cu" and upd: "users_mysql_update fl ok store k cu w = Some (rc, cu', w')"
  shows "users_inv cu'"
proof (cases "store = None \<or> users_find cu k = None \<or> fst (sql_open (the store) w) = None")
  case True
  obtain us where "st_users cu = Some us" using inv by (auto simp: users_inv_def)
  with inv upd True show ?thesis
    by (cases "sql_open (the store) w"; cases store; cases "users_find cu k") (auto simp: users_mysql_update_def)
next
  case False
  then obtain api i sid w1 where o: "store = Some api" "users_find cu k = Some i" "sql_open api w = (Some sid, w1)"
    by (cases "sql_open (the store) w") auto
  obtain us where us: "st_users cu = Some us" using inv by (auto simp: users_inv_def)
  from upd o us obtain rc1 u1 w2 where un: "rules_mysql_unload fl api (user_at cu i) w1 = Some (rc1, u1, w2)"
    by (cases "rules_mysql_unload fl api (user_at cu i) w1") (auto simp: users_mysql_update_def)
  have a: "nu_addr u1 \<noteq> 0" using rules_mysql_unload_addr [OF un] users_find_addr [OF inv o(2)] by simp
  obtain rows w3 where q: "sql_query api sid (user_query k) w2 = (rows, w3)" by force
  show ?thesis
  proof (cases rows)
    case None
    with upd o us un q set_user_inv [OF inv a] show ?thesis by (auto simp: users_mysql_update_def)
  next
    case (Some rs)
    obtain rc3 u3 w4 where l: "rules_mysql_load fl ok api (fold (update_row ok k) rs u1) w3 = (rc3, u3, w4)" by (metis prod_cases3)
    then have "nu_addr u3 \<noteq> 0"
      using rules_mysql_load_addr [of fl ok api "fold (update_row ok k) rs u1" w3] update_row_addr [OF a] by simp
    with upd o us un q Some l set_user_inv [OF inv] show ?thesis by (auto simp: users_mysql_update_def)
  qed
qed

lemma touch_inv:
  assumes "users_inv cu"
  shows "users_inv (set_user cu i ((user_at cu i)\<lparr>nu_time_live := t\<rparr>))"
proof -
  from assms obtain us where us: "st_users cu = Some us" by (auto simp: users_inv_def)
  show ?thesis
  proof (cases "i < length us")
    case True
    then have "nu_addr (user_at cu i) \<noteq> 0" using assms us by (auto simp: users_inv_def user_at_def)
    then show ?thesis by (intro set_user_inv [OF assms]) simp
  qed (use assms us in \<open>simp add: set_user_def users_inv_def not_less list_update_beyond\<close>)
qed

lemma users_sync_row_inv:
  assumes "users_inv cu" and "users_sync_row fl ok now api row cu w = Some (cu', w')"
  shows "users_inv cu'"
proof (cases "users_find cu (conv (atoi (col row 0)))")
  case None
  with assms users_mysql_insert_inv [OF assms(1), of fl ok now "Some api" "conv (atoi (col row 0))" w] show ?thesis
    by (auto simp: users_sync_row_def Let_def split: prod.splits)
next
  case (Some i)
  obtain flag u' w1 where r: "rules_sync now api (user_at cu i) w = (flag, u', w1)" by (metis prod_cases3)
  have "users_inv (set_user cu i u')"
    using rules_sync_addr [of now api "user_at cu i" w] r users_find_addr [OF assms(1) Some] set_user_inv [OF assms(1)] by simp
  then show ?thesis
    using assms Some r
    by (auto simp: users_sync_row_def Let_def bind_eq_Some_conv intro!: touch_inv dest: users_mysql_update_inv split: if_splits)
qed

lemma users_sync_rows_inv:
  "users_inv cu \<Longrightarrow> users_sync_rows fl ok now api rows cu w = Some (cu', w') \<Longrightarrow> users_inv cu'"
  by (induction rows arbitrary: cu w) (auto simp: bind_eq_Some_conv dest: users_sync_row_inv)

lemma mysql_delete_loop_inv: "users_inv cu \<Longrightarrow> users_inv (mysql_delete_loop now vs cu)"
proof (induction vs arbitrary: cu)
  case (Cons v vs)
  have "users_inv (snd (users_delete now (nu_id v) cu))"
    using Cons.prems
    by (auto simp: users_delete_def users_inv_def dest!: users_find_SomeD dest: in_set_takeD in_set_dropD split: option.splits)
  with Cons show ?case by simp
qed simp

lemma users_traffic_loop_inv:
  "users_traffic_loop fl api sid us w = Some (us', w') \<Longrightarrow> map nu_addr us' = map nu_addr us"
proof (induction us arbitrary: w us' w')
  case (Cons u us)
  then show ?case
    by (fastforce simp: Let_def bind_eq_Some_conv dest: rules_sync_traffic_addr split: if_splits prod.splits)
qed simp

lemma users_mysql_delete_inv: "users_inv cu \<Longrightarrow> users_mysql_delete now cu = (rc, cu') \<Longrightarrow> users_inv cu'"
  using mysql_delete_loop_inv by (auto simp: users_mysql_delete_def users_inv_def split: option.splits)

lemma users_sync_traffic_inv:
  assumes "users_inv cu" and "users_sync_traffic fl now api cu w = Some (rc, cu', w')"
  shows "users_inv cu'"
proof -
  from assms(1) obtain us where us: "st_users cu = Some us" "cur_users cu = int (length us)" "0 \<notin> nu_addr ` set us"
    by (auto simp: users_inv_def image_iff)
  show ?thesis
  proof (cases "fst (sql_open api w)")
    case None
    with us assms show ?thesis by (auto simp: users_sync_traffic_def split: prod.splits)
  next
    case (Some sid)
    with us assms(2) obtain us' w1 w2 where l: "users_traffic_loop fl api sid us w1 = Some (us', w2)" and c: "cu' = cu\<lparr>st_users := Some us'\<rparr>"
      by (cases "sql_open api w") (auto simp: users_sync_traffic_def bind_eq_Some_conv case_prod_beta)
    note m = users_traffic_loop_inv [OF l]
    have "length us' = length us" using m map_eq_imp_length_eq by blast
    moreover have "0 \<notin> nu_addr ` set us'" using m us(3) by (metis list.set_map)
    ultimately show ?thesis using c us by (auto simp: users_inv_def image_iff)
  qed
qed



end
