(* ===== verification/Gtree.thy ===== *)
theory Gtree
  imports Prelude "HOL-Library.Multiset"
begin

text \<open>
  The AVL tree of \<^verbatim>\<open>src/gtree.c\<close>. A node carries its balance factor as the C struct
  does; the pointers to the two subtrees become subterms (no node of a tree is shared, and the field
  \<^verbatim>\<open>parent\<close> is only ever set to \<^verbatim>\<open>NULL\<close>). The balancing code dereferences
  pointers it has not checked: the operations return \<open>None\<close> where it would dereference
  \<^verbatim>\<open>NULL\<close>. An insertion allocates at most one node, and \<open>ok\<close> tells whether
  that \<^verbatim>\<open>malloc\<close> succeeds.

  Proved here: on a balanced search tree the operations never fault, keep the tree balanced and
  ordered, and implement a finite map; traversals visit the nodes in the order they promise and stop
  when the callback asks for it. The locale \<open>ordered_map\<close> is the contract the accounting
  modules rely on.
\<close>

section \<open>Nodes and trees\<close>

datatype ('k, 'v) ITree_Node =
  INull
| INode (balance: int) (nkey: 'k) (nvalue: 'v) (nleft: "('k, 'v) ITree_Node") (nright: "('k, 'v) ITree_Node")

record ('k, 'v) ITree =
  it_nnodes :: int
  it_height :: int
  it_root :: "('k, 'v) ITree_Node"
  it_cmp_func :: "'k \<Rightarrow> 'k \<Rightarrow> int"

datatype ITraverseType = I_IN_ORDER | I_PRE_ORDER | I_POST_ORDER | I_LEVEL_ORDER

section \<open>The operations of gtree.c\<close>

definition i_tree_new :: "bool \<Rightarrow> ('k \<Rightarrow> 'k \<Rightarrow> int) \<Rightarrow> ('k, 'v) ITree option" where
  "i_tree_new ok func =
     (if ok then Some \<lparr>it_nnodes = 0, it_height = 0, it_root = INull, it_cmp_func = func\<rparr> else None)"

definition i_tree_node_new :: "bool \<Rightarrow> 'k \<Rightarrow> 'v \<Rightarrow> ('k, 'v) ITree_Node" where
  "i_tree_node_new ok key val = (if ok then INode 0 key val INull INull else INull)"

text \<open>The nodes in the order in which \<^verbatim>\<open>i_tree_node_destroy\<close> frees them.\<close>

fun i_tree_node_destroy :: "('k, 'v) ITree_Node \<Rightarrow> ('k \<times> 'v) list" where
  "i_tree_node_destroy INull = []"
| "i_tree_node_destroy (INode b k v l r) =
     (if r \<noteq> INull then i_tree_node_destroy r else []) @
     (if l \<noteq> INull then i_tree_node_destroy l else []) @ [(k, v)]"

definition i_tree_destroy :: "('k, 'v) ITree \<Rightarrow> ('k \<times> 'v) list" where
  "i_tree_destroy tree = i_tree_node_destroy (it_root tree)"

fun i_tree_node_rotate_left :: "('k, 'v) ITree_Node \<Rightarrow> ('k, 'v) ITree_Node option" where
  "i_tree_node_rotate_left (INode a_bal k v l (INode b_bal rk rv rl rr)) =
     (if b_bal \<le> 0
      then Some (INode (if a_bal \<ge> 1 then b_bal - 1 else a_bal + b_bal - 2) rk rv
                   (INode (a_bal - 1) k v l rl) rr)
      else Some (INode (if a_bal \<le> b_bal then a_bal - 2 else b_bal - 1) rk rv
                   (INode (a_bal - b_bal - 1) k v l rl) rr))"
| "i_tree_node_rotate_left _ = None"

fun i_tree_node_rotate_right :: "('k, 'v) ITree_Node \<Rightarrow> ('k, 'v) ITree_Node option" where
  "i_tree_node_rotate_right (INode a_bal k v (INode b_bal lk lv ll lr) r) =
     (if b_bal \<le> 0
      then Some (INode (if b_bal > a_bal then b_bal + 1 else a_bal + 2) lk lv
                   ll (INode (a_bal - b_bal + 1) k v lr r))
      else Some (INode (if a_bal \<le> -1 then b_bal + 1 else a_bal + b_bal + 2) lk lv
                   ll (INode (a_bal + 1) k v lr r)))"
| "i_tree_node_rotate_right _ = None"

fun i_tree_node_balance :: "('k, 'v) ITree_Node \<Rightarrow> ('k, 'v) ITree_Node option" where
  "i_tree_node_balance INull = None"
| "i_tree_node_balance (INode b k v l r) =
     (if b < -1 then
        case l of INull \<Rightarrow> None
        | INode lb _ _ _ _ \<Rightarrow> do {
            l' \<leftarrow> (if lb > 0 then i_tree_node_rotate_left l else Some l);
            i_tree_node_rotate_right (INode b k v l' r)
          }
      else if b > 1 then
        case r of INull \<Rightarrow> None
        | INode rb _ _ _ _ \<Rightarrow> do {
            r' \<leftarrow> (if rb < 0 then i_tree_node_rotate_right r else Some r);
            i_tree_node_rotate_left (INode b k v l r')
          }
      else Some (INode b k v l r))"

text \<open>The read of \<^verbatim>\<open>node->left->balance\<close> after the recursive call.\<close>

definition deref_balance :: "('k, 'v) ITree_Node \<Rightarrow> int option" where
  "deref_balance t = (case t of INull \<Rightarrow> None | INode b _ _ _ _ \<Rightarrow> Some b)"

text \<open>The result holds the new subtree and the value left in \<^verbatim>\<open>*inserted\<close>.\<close>

fun i_tree_node_insert ::
  "('k \<Rightarrow> 'k \<Rightarrow> int) \<Rightarrow> bool \<Rightarrow> 'k \<Rightarrow> 'v \<Rightarrow> ('k, 'v) ITree_Node \<Rightarrow> (('k, 'v) ITree_Node \<times> bool) option" where
  "i_tree_node_insert compare ok key val INull = Some (i_tree_node_new ok key val, True)"
| "i_tree_node_insert compare ok key val (INode b k v l r) =
     (if compare key k = 0 then Some (INode b k val l r, False)
      else do {
        (node, inserted) \<leftarrow>
          (if compare key k < 0 then
             if l \<noteq> INull then do {
               old_balance \<leftarrow> deref_balance l;
               (l', ins) \<leftarrow> i_tree_node_insert compare ok key val l;
               new_balance \<leftarrow> deref_balance l';
               Some (INode (if old_balance \<noteq> new_balance \<and> new_balance \<noteq> 0 then b - 1 else b) k v l' r, ins)
             }
             else Some (INode (b - 1) k v (i_tree_node_new ok key val) r, True)
           else
             if r \<noteq> INull then do {
               old_balance \<leftarrow> deref_balance r;
               (r', ins) \<leftarrow> i_tree_node_insert compare ok key val r;
               new_balance \<leftarrow> deref_balance r';
               Some (INode (if old_balance \<noteq> new_balance \<and> new_balance \<noteq> 0 then b + 1 else b) k v l r', ins)
             }
             else Some (INode (b + 1) k v l (i_tree_node_new ok key val), True));
        if inserted then
          if balance node < -1 \<or> balance node > 1
          then do { node' \<leftarrow> i_tree_node_balance node; Some (node', inserted) }
          else Some (node, inserted)
        else Some (node, inserted)
      })"

definition i_tree_insert ::
  "bool \<Rightarrow> ('k, 'v) ITree \<Rightarrow> 'k \<Rightarrow> 'v \<Rightarrow> (('k, 'v) ITree \<times> bool) option" where
  "i_tree_insert ok tree key val = do {
     (root, inserted) \<leftarrow> i_tree_node_insert (it_cmp_func tree) ok key val (it_root tree);
     Some (tree\<lparr>it_root := root\<rparr>, inserted)
   }"

fun i_tree_node_lookup :: "('k, 'v) ITree_Node \<Rightarrow> ('k \<Rightarrow> 'k \<Rightarrow> int) \<Rightarrow> 'k \<Rightarrow> 'v option" where
  "i_tree_node_lookup INull compare key = None"
| "i_tree_node_lookup (INode b k v l r) compare key =
     (if compare key k = 0 then Some v
      else if compare key k < 0 then (if l \<noteq> INull then i_tree_node_lookup l compare key else None)
      else (if r \<noteq> INull then i_tree_node_lookup r compare key else None))"

definition i_tree_lookup :: "('k, 'v) ITree \<Rightarrow> 'k \<Rightarrow> 'v option" where
  "i_tree_lookup tree key = i_tree_node_lookup (it_root tree) (it_cmp_func tree) key"

text \<open>
  The callers update the object behind the pointer that \<^verbatim>\<open>i_tree_lookup\<close> returned: the
  effect on the tree when the objects are the values themselves.
\<close>

fun node_update_value ::
  "('k \<Rightarrow> 'k \<Rightarrow> int) \<Rightarrow> 'k \<Rightarrow> ('v \<Rightarrow> 'v) \<Rightarrow> ('k, 'v) ITree_Node \<Rightarrow> ('k, 'v) ITree_Node" where
  "node_update_value compare key f INull = INull"
| "node_update_value compare key f (INode b k v l r) =
     (if compare key k = 0 then INode b k (f v) l r
      else if compare key k < 0 then INode b k v (node_update_value compare key f l) r
      else INode b k v l (node_update_value compare key f r))"

definition i_tree_update_value :: "('k, 'v) ITree \<Rightarrow> 'k \<Rightarrow> ('v \<Rightarrow> 'v) \<Rightarrow> ('k, 'v) ITree" where
  "i_tree_update_value tree key f =
     tree\<lparr>it_root := node_update_value (it_cmp_func tree) key f (it_root tree)\<rparr>"

text \<open>
  The callback of a traversal threads a state of its own and returns a C boolean: non-zero stops.
  The traversals read \<^verbatim>\<open>node->key\<close> without a check.
\<close>

type_synonym ('k, 'v, 's) ITraverseFunc = "'k \<Rightarrow> 'v \<Rightarrow> 's \<Rightarrow> int \<times> 's"

fun i_tree_node_pre_order ::
  "('k, 'v) ITree_Node \<Rightarrow> ('k, 'v, 's) ITraverseFunc \<Rightarrow> 's \<Rightarrow> (bool \<times> 's) option" where
  "i_tree_node_pre_order INull f s = None"
| "i_tree_node_pre_order (INode b k v l r) f s = do {
     let (rc, s1) = f k v s;
     if rc \<noteq> 0 then Some (True, s1)
     else do {
       (stop, s2) \<leftarrow> (if l \<noteq> INull then i_tree_node_pre_order l f s1 else Some (False, s1));
       if stop then Some (True, s2)
       else if r \<noteq> INull then i_tree_node_pre_order r f s2 else Some (False, s2)
     }
   }"

fun i_tree_node_in_order ::
  "('k, 'v) ITree_Node \<Rightarrow> ('k, 'v, 's) ITraverseFunc \<Rightarrow> 's \<Rightarrow> (bool \<times> 's) option" where
  "i_tree_node_in_order INull f s = None"
| "i_tree_node_in_order (INode b k v l r) f s = do {
     (stop, s1) \<leftarrow> (if l \<noteq> INull then i_tree_node_in_order l f s else Some (False, s));
     if stop then Some (True, s1)
     else let (rc, s2) = f k v s1
          in if rc \<noteq> 0 then Some (True, s2)
             else if r \<noteq> INull then i_tree_node_in_order r f s2 else Some (False, s2)
   }"

fun i_tree_node_post_order ::
  "('k, 'v) ITree_Node \<Rightarrow> ('k, 'v, 's) ITraverseFunc \<Rightarrow> 's \<Rightarrow> (bool \<times> 's) option" where
  "i_tree_node_post_order INull f s = None"
| "i_tree_node_post_order (INode b k v l r) f s = do {
     (stop, s1) \<leftarrow> (if l \<noteq> INull then i_tree_node_post_order l f s else Some (False, s));
     if stop then Some (True, s1)
     else do {
       (stop2, s2) \<leftarrow> (if r \<noteq> INull then i_tree_node_post_order r f s1 else Some (False, s1));
       if stop2 then Some (True, s2)
       else let (rc, s3) = f k v s2 in Some (rc \<noteq> 0, s3)
     }
   }"

definition i_tree_traverse ::
  "('k, 'v) ITree \<Rightarrow> ('k, 'v, 's) ITraverseFunc \<Rightarrow> ITraverseType \<Rightarrow> 's \<Rightarrow> 's option" where
  "i_tree_traverse tree f ty s =
     (if it_root tree = INull then Some s
      else case ty of
        I_PRE_ORDER \<Rightarrow> map_option snd (i_tree_node_pre_order (it_root tree) f s)
      | I_IN_ORDER \<Rightarrow> map_option snd (i_tree_node_in_order (it_root tree) f s)
      | I_POST_ORDER \<Rightarrow> map_option snd (i_tree_node_post_order (it_root tree) f s)
      | I_LEVEL_ORDER \<Rightarrow> Some s)"

section \<open>Balanced search trees\<close>

fun ht :: "('k, 'v) ITree_Node \<Rightarrow> nat" where
  "ht INull = 0"
| "ht (INode b k v l r) = Suc (max (ht l) (ht r))"

fun nodes :: "('k, 'v) ITree_Node \<Rightarrow> nat" where
  "nodes INull = 0"
| "nodes (INode b k v l r) = Suc (nodes l + nodes r)"

fun avl :: "('k, 'v) ITree_Node \<Rightarrow> bool" where
  "avl INull \<longleftrightarrow> True"
| "avl (INode b k v l r) \<longleftrightarrow> b = int (ht r) - int (ht l) \<and> -1 \<le> b \<and> b \<le> 1 \<and> avl l \<and> avl r"

fun inorder :: "('k, 'v) ITree_Node \<Rightarrow> ('k \<times> 'v) list" where
  "inorder INull = []"
| "inorder (INode b k v l r) = inorder l @ (k, v) # inorder r"

fun preorder :: "('k, 'v) ITree_Node \<Rightarrow> ('k \<times> 'v) list" where
  "preorder INull = []"
| "preorder (INode b k v l r) = (k, v) # preorder l @ preorder r"

fun postorder :: "('k, 'v) ITree_Node \<Rightarrow> ('k \<times> 'v) list" where
  "postorder INull = []"
| "postorder (INode b k v l r) = postorder l @ postorder r @ [(k, v)]"

definition bst :: "('k \<Rightarrow> 'k \<Rightarrow> int) \<Rightarrow> ('k, 'v) ITree_Node \<Rightarrow> bool" where
  "bst cmp t \<longleftrightarrow> sorted_wrt (\<lambda>a b. cmp a b < 0) (map fst (inorder t))"

text \<open>Rebalancing after one subtree has become too high.\<close>

lemma avl_ht_bal: "avl (INode b k v l r) \<Longrightarrow> b = int (ht r) - int (ht l)" by simp

lemma balance_left:
  assumes "avl l" "avl r" "l \<noteq> INull" "int (ht l) = int (ht r) + 2" "balance l \<noteq> 0"
  shows "\<exists>t. i_tree_node_balance (INode (-2) k v l r) = Some t \<and> avl t \<and> ht t = ht l \<and> balance t = 0 \<and>
    inorder t = inorder l @ (k, v) # inorder r \<and> t \<noteq> INull"
proof -
  from assms obtain b lk lv ll lr where l: "l = INode b lk lv ll lr" by (cases l) auto
  show ?thesis
  proof (cases "b > 0")
    case False
    with assms l show ?thesis by (auto simp: max_def split: if_splits)
  next
    case True
    then have "lr \<noteq> INull" using assms l by auto
    then obtain b' k' v' ml mr where "lr = INode b' k' v' ml mr" by (cases lr) auto
    with assms l True show ?thesis by (auto simp: max_def split: if_splits)
  qed
qed

lemma balance_right:
  assumes "avl l" "avl r" "r \<noteq> INull" "int (ht r) = int (ht l) + 2" "balance r \<noteq> 0"
  shows "\<exists>t. i_tree_node_balance (INode 2 k v l r) = Some t \<and> avl t \<and> ht t = ht r \<and> balance t = 0 \<and>
    inorder t = inorder l @ (k, v) # inorder r \<and> t \<noteq> INull"
proof -
  from assms obtain b rk rv rl rr where r: "r = INode b rk rv rl rr" by (cases r) auto
  show ?thesis
  proof (cases "b < 0")
    case False
    with assms r show ?thesis by (auto simp: max_def split: if_splits)
  next
    case True
    then have "rl \<noteq> INull" using assms r by auto
    then obtain b' k' v' ml mr where "rl = INode b' k' v' ml mr" by (cases rl) auto
    with assms r True show ?thesis by (auto simp: max_def split: if_splits)
  qed
qed


section \<open>Insertion keeps the tree balanced\<close>

text \<open>How the balance of the root tells the caller that a subtree has grown.\<close>

definition grown :: "('k, 'v) ITree_Node \<Rightarrow> ('k, 'v) ITree_Node \<Rightarrow> bool" where
  "grown t t' \<longleftrightarrow> balance t \<noteq> balance t' \<and> balance t' \<noteq> 0"

definition insert_shape :: "('k, 'v) ITree_Node \<Rightarrow> ('k, 'v) ITree_Node \<Rightarrow> bool \<Rightarrow> bool" where
  "insert_shape t t' ins \<longleftrightarrow> t' \<noteq> INull \<and> avl t' \<and>
     ht t' = (if t = INull \<or> grown t t' then Suc (ht t) else ht t) \<and>
     (\<not> ins \<longrightarrow> t \<noteq> INull \<and> balance t' = balance t)"

lemma deref_balance_simps [simp]:
  "deref_balance (INode b k v l r) = Some b" "t \<noteq> INull \<Longrightarrow> deref_balance t = Some (balance t)"
  by (auto simp: deref_balance_def split: ITree_Node.splits)

lemma avl_bal_cases:
  assumes "avl (INode b k v l r)"
  obtains "b = -1" "ht l = Suc (ht r)" | "b = 0" "ht l = ht r" | "b = 1" "ht r = Suc (ht l)"
proof -
  from assms have "b = int (ht r) - int (ht l)" "b = -1 \<or> b = 0 \<or> b = 1" by auto
  then show ?thesis using that by linarith
qed

lemma insert_left_shape:
  assumes avl: "avl (INode b k v l r)" and "l \<noteq> INull \<Longrightarrow> insert_shape l l' ins"
    and "l = INull \<Longrightarrow> l' = INode 0 key val INull INull \<and> ins"
  defines "node \<equiv> INode (if l = INull \<or> grown l l' then b - 1 else b) k v l' r"
  shows "\<exists>t'. (if ins \<and> (balance node < -1 \<or> balance node > 1) then i_tree_node_balance node else Some node) = Some t' \<and>
           insert_shape (INode b k v l r) t' ins \<and> inorder t' = inorder l' @ (k, v) # inorder r"
proof (cases "l = INull")
  case True
  with assms show ?thesis
    by (cases rule: avl_bal_cases [OF avl]) (auto simp: insert_shape_def grown_def node_def)
next
  case False
  with assms(2) have n: "l' \<noteq> INull" "avl l'" "ht l' = (if grown l l' then Suc (ht l) else ht l)"
    "\<not> ins \<longrightarrow> balance l' = balance l" by (auto simp: insert_shape_def)
  have other: "avl r" using avl by simp
  consider "grown l l'" "b = -1" | "grown l l'" "b \<noteq> -1" | "\<not> grown l l'" by blast
  then show ?thesis
  proof cases
    case 1
    then have ins: "ins" and b: "balance l' \<noteq> 0" using n(4) by (auto simp: grown_def)
    have "int (ht l') = int (ht r) + 2" using 1 n(3) avl by simp
    with balance_left [of l' r k v] n other b obtain t where t: "i_tree_node_balance (INode (-1 - 1) k v l' r) = Some t"
      "avl t" "ht t = ht l'" "balance t = 0" "inorder t = inorder l' @ (k, v) # inorder r" "t \<noteq> INull" by auto
    have "ht (INode b k v l r) = ht l'" using 1 n(3) avl by simp
    with t 1 ins show ?thesis by (simp add: node_def insert_shape_def grown_def [of "INode _ _ _ _ _"])
  next
    case 2
    then have "ins" using n(4) by (auto simp: grown_def)
    with 2 n other show ?thesis
      by (cases rule: avl_bal_cases [OF avl])
        (simp_all add: node_def insert_shape_def grown_def [of "INode _ _ _ _ _"])
  next
    case 3
    with n other avl False show ?thesis
      by (cases rule: avl_bal_cases [OF avl])
        (simp_all add: node_def insert_shape_def grown_def [of "INode _ _ _ _ _"])
  qed
qed

lemma insert_right_shape:
  assumes avl: "avl (INode b k v l r)" and "r \<noteq> INull \<Longrightarrow> insert_shape r r' ins"
    and "r = INull \<Longrightarrow> r' = INode 0 key val INull INull \<and> ins"
  defines "node \<equiv> INode (if r = INull \<or> grown r r' then b + 1 else b) k v l r'"
  shows "\<exists>t'. (if ins \<and> (balance node < -1 \<or> balance node > 1) then i_tree_node_balance node else Some node) = Some t' \<and>
           insert_shape (INode b k v l r) t' ins \<and> inorder t' = inorder l @ (k, v) # inorder r'"
proof (cases "r = INull")
  case True
  with assms show ?thesis
    by (cases rule: avl_bal_cases [OF avl]) (auto simp: insert_shape_def grown_def node_def)
next
  case False
  with assms(2) have n: "r' \<noteq> INull" "avl r'" "ht r' = (if grown r r' then Suc (ht r) else ht r)"
    "\<not> ins \<longrightarrow> balance r' = balance r" by (auto simp: insert_shape_def)
  have other: "avl l" using avl by simp
  consider "grown r r'" "b = 1" | "grown r r'" "b \<noteq> 1" | "\<not> grown r r'" by blast
  then show ?thesis
  proof cases
    case 1
    then have ins: "ins" and b: "balance r' \<noteq> 0" using n(4) by (auto simp: grown_def)
    have "int (ht r') = int (ht l) + 2" using 1 n(3) avl by simp
    with balance_right [of l r' k v] n other b obtain t where t: "i_tree_node_balance (INode (1 + 1) k v l r') = Some t"
      "avl t" "ht t = ht r'" "balance t = 0" "inorder t = inorder l @ (k, v) # inorder r'" "t \<noteq> INull" by auto
    have "ht (INode b k v l r) = ht r'" using 1 n(3) avl by simp
    with t 1 ins show ?thesis by (simp add: node_def insert_shape_def grown_def [of "INode _ _ _ _ _"])
  next
    case 2
    then have "ins" using n(4) by (auto simp: grown_def)
    with 2 n other show ?thesis
      by (cases rule: avl_bal_cases [OF avl])
        (simp_all add: node_def insert_shape_def grown_def [of "INode _ _ _ _ _"])
  next
    case 3
    with n other avl False show ?thesis
      by (cases rule: avl_bal_cases [OF avl])
        (simp_all add: node_def insert_shape_def grown_def [of "INode _ _ _ _ _"])
  qed
qed

lemma insert_left_step:
  assumes c: "cmp key k < 0" and avl: "avl (INode b k v l r)"
    and ih: "i_tree_node_insert cmp True key val l = Some (l', ins)" "insert_shape l l' ins"
  shows "\<exists>t'. i_tree_node_insert cmp True key val (INode b k v l r) = Some (t', ins) \<and>
           insert_shape (INode b k v l r) t' ins \<and> inorder t' = inorder l' @ (k, v) # inorder r"
proof -
  let ?node = "INode (if l = INull \<or> grown l l' then b - 1 else b) k v l' r"
  have n: "l' \<noteq> INull" using ih(2) by (simp add: insert_shape_def)
  have e: "l = INull \<Longrightarrow> l' = INode 0 key val INull INull \<and> ins"
    using ih(1) by (simp add: i_tree_node_new_def)
  from insert_left_shape [OF avl ih(2) e] obtain t' where
    t': "(if ins \<and> (balance ?node < -1 \<or> balance ?node > 1) then i_tree_node_balance ?node else Some ?node) = Some t'"
    "insert_shape (INode b k v l r) t' ins" "inorder t' = inorder l' @ (k, v) # inorder r" by auto
  have "i_tree_node_insert cmp True key val (INode b k v l r) = Some (t', ins)"
  proof (cases "l = INull")
    case True
    with c t'(1) e show ?thesis by (auto simp: i_tree_node_new_def simp del: i_tree_node_balance.simps split: if_splits)
  next
    case False
    with c t'(1) ih(1) n show ?thesis by (auto simp: grown_def simp del: i_tree_node_balance.simps split: if_splits)
  qed
  with t' show ?thesis by blast
qed

lemma insert_right_step:
  assumes c: "cmp key k > 0" and avl: "avl (INode b k v l r)"
    and ih: "i_tree_node_insert cmp True key val r = Some (r', ins)" "insert_shape r r' ins"
  shows "\<exists>t'. i_tree_node_insert cmp True key val (INode b k v l r) = Some (t', ins) \<and>
           insert_shape (INode b k v l r) t' ins \<and> inorder t' = inorder l @ (k, v) # inorder r'"
proof -
  let ?node = "INode (if r = INull \<or> grown r r' then b + 1 else b) k v l r'"
  have n: "r' \<noteq> INull" using ih(2) by (simp add: insert_shape_def)
  have e: "r = INull \<Longrightarrow> r' = INode 0 key val INull INull \<and> ins"
    using ih(1) by (simp add: i_tree_node_new_def)
  from insert_right_shape [OF avl ih(2) e] obtain t' where
    t': "(if ins \<and> (balance ?node < -1 \<or> balance ?node > 1) then i_tree_node_balance ?node else Some ?node) = Some t'"
    "insert_shape (INode b k v l r) t' ins" "inorder t' = inorder l @ (k, v) # inorder r'" by auto
  have "i_tree_node_insert cmp True key val (INode b k v l r) = Some (t', ins)"
  proof (cases "r = INull")
    case True
    with c t'(1) e show ?thesis by (auto simp: i_tree_node_new_def simp del: i_tree_node_balance.simps split: if_splits)
  next
    case False
    with c t'(1) ih(1) n show ?thesis by (auto simp: grown_def simp del: i_tree_node_balance.simps split: if_splits)
  qed
  with t' show ?thesis by blast
qed

text \<open>The reference insertion into the sorted association list that \<open>inorder\<close> yields.\<close>

fun ins_assoc :: "('k \<Rightarrow> 'k \<Rightarrow> int) \<Rightarrow> 'k \<Rightarrow> 'v \<Rightarrow> ('k \<times> 'v) list \<Rightarrow> ('k \<times> 'v) list" where
  "ins_assoc cmp k v [] = [(k, v)]"
| "ins_assoc cmp k v ((a, w) # xs) =
     (if cmp k a = 0 then (a, v) # xs
      else if cmp k a < 0 then (k, v) # (a, w) # xs
      else (a, w) # ins_assoc cmp k v xs)"

lemma ins_assoc_append_less:
  "(\<And>a w. (a, w) \<in> set xs \<Longrightarrow> 0 < cmp k a) \<Longrightarrow> ins_assoc cmp k v (xs @ ys) = xs @ ins_assoc cmp k v ys"
  by (induction xs) force+

lemma ins_assoc_append_greater:
  "cmp k a < 0 \<Longrightarrow> ins_assoc cmp k v (xs @ (a, w) # ys) = ins_assoc cmp k v xs @ (a, w) # ys"
  by (induction xs) auto

context comparator
begin

lemma bst_INode:
  "bst cmp (INode b k v l r) \<longleftrightarrow> bst cmp l \<and> bst cmp r \<and>
     (\<forall>a \<in> fst ` set (inorder l). cmp a k < 0) \<and> (\<forall>a \<in> fst ` set (inorder r). cmp k a < 0)"
  by (auto simp: bst_def sorted_wrt_append dest: cmp_less_trans)

lemma bst_left_less:
  assumes "bst cmp (INode b k v l r)" and "\<not> cmp key k < 0" and "(a, w) \<in> set (inorder l)"
  shows "0 < cmp key a"
proof -
  have "cmp a k < 0" using assms by (force simp: bst_INode)
  moreover have "key = k \<or> cmp k key < 0" using assms(2) cmp_not_less [of key k] cmp_eq [of key k] by auto
  ultimately have "cmp a key < 0" using cmp_less_trans by blast
  then show ?thesis using cmp_less_sym by simp
qed

lemma insert_ok:
  assumes "avl t" and "bst cmp t"
  shows "\<exists>t' ins. i_tree_node_insert cmp True key val t = Some (t', ins) \<and> insert_shape t t' ins \<and>
           inorder t' = ins_assoc cmp key val (inorder t) \<and> (ins \<longleftrightarrow> key \<notin> fst ` set (inorder t))"
  using assms
proof (induction t)
  case INull
  show ?case by (auto simp: i_tree_node_new_def insert_shape_def)
next
  case (INode b k v l r)
  note lgt = bst_left_less [OF INode.prems(2)]
  from INode.prems have l: "avl l" "bst cmp l" and r: "avl r" "bst cmp r"
    and kr: "\<And>a w. (a, w) \<in> set (inorder r) \<Longrightarrow> cmp k a < 0"
    by (force simp: bst_INode)+
  consider "cmp key k = 0" | "cmp key k < 0" | "cmp key k > 0" by linarith
  then show ?case
  proof cases
    case 1
    then have [simp]: "key = k" by (simp add: cmp_eq)
    have "ins_assoc cmp k val (inorder l @ (k, v) # inorder r) = inorder l @ (k, val) # inorder r"
      using ins_assoc_append_less [of "inorder l" cmp k val "(k, v) # inorder r"] lgt 1
      by (simp add: cmp_refl)
    then show ?thesis using INode.prems 1 by (auto simp: insert_shape_def grown_def)
  next
    case 2
    from INode.IH(1) [OF l] obtain l' ins where ih: "i_tree_node_insert cmp True key val l = Some (l', ins)"
      "insert_shape l l' ins" "inorder l' = ins_assoc cmp key val (inorder l)" "ins \<longleftrightarrow> key \<notin> fst ` set (inorder l)"
      by blast
    have "key \<notin> fst ` set (inorder r)" "key \<noteq> k" using 2 kr cmp_less_asym cmp_less_irrefl by fastforce+
    moreover from insert_left_step [OF 2 INode.prems(1) ih(1,2)] obtain t' where
      "i_tree_node_insert cmp True key val (INode b k v l r) = Some (t', ins)"
      "insert_shape (INode b k v l r) t' ins" "inorder t' = inorder l' @ (k, v) # inorder r" by blast
    ultimately show ?thesis
      using ih(3,4) 2 by (simp add: ins_assoc_append_greater image_Un del: i_tree_node_insert.simps)
  next
    case 3
    from INode.IH(2) [OF r] obtain r' ins where ih: "i_tree_node_insert cmp True key val r = Some (r', ins)"
      "insert_shape r r' ins" "inorder r' = ins_assoc cmp key val (inorder r)" "ins \<longleftrightarrow> key \<notin> fst ` set (inorder r)"
      by blast
    have nl: "key \<notin> fst ` set (inorder l)" "key \<noteq> k"
      using 3 lgt [of key] cmp_refl [of key] by (auto, force)
    have "ins_assoc cmp key val (inorder l @ (k, v) # inorder r) =
        inorder l @ (k, v) # ins_assoc cmp key val (inorder r)"
      using ins_assoc_append_less [of "inorder l" cmp key val "(k, v) # inorder r"] lgt 3 by auto
    moreover from insert_right_step [OF 3 INode.prems(1) ih(1,2)] obtain t' where
      "i_tree_node_insert cmp True key val (INode b k v l r) = Some (t', ins)"
      "insert_shape (INode b k v l r) t' ins" "inorder t' = inorder l @ (k, v) # inorder r'" by blast
    ultimately show ?thesis
      using ih(3,4) nl by (simp add: image_Un del: i_tree_node_insert.simps)
  qed
qed

end

section \<open>The tree as a finite map\<close>

definition tree_inv :: "('k \<Rightarrow> 'k \<Rightarrow> int) \<Rightarrow> ('k, 'v) ITree \<Rightarrow> bool" where
  "tree_inv cmp tree \<longleftrightarrow> it_cmp_func tree = cmp \<and> avl (it_root tree) \<and> bst cmp (it_root tree)"

definition tree_map :: "('k, 'v) ITree \<Rightarrow> 'k \<rightharpoonup> 'v" where
  "tree_map tree = map_of (inorder (it_root tree))"

lemma ht_update_value [simp]: "ht (node_update_value c k f t) = ht t"
  by (induction t) auto

lemma avl_update_value [simp]: "avl (node_update_value c k f t) = avl t"
  by (induction t) auto

lemma keys_update_value [simp]: "map fst (inorder (node_update_value c k f t)) = map fst (inorder t)"
  by (induction t) auto

lemma map_of_map_fst: "k \<notin> fst ` set xs \<Longrightarrow> map_of xs k = None"
  by (simp add: map_of_eq_None_iff)

context comparator
begin

lemma keys_ins_assoc: "fst ` set (ins_assoc cmp k v xs) \<subseteq> insert k (fst ` set xs)"
  by (induction xs) (force split: if_splits simp: cmp_eq)+

lemma sorted_ins_assoc:
  "sorted_wrt (\<lambda>a b. cmp a b < 0) (map fst xs) \<Longrightarrow> sorted_wrt (\<lambda>a b. cmp a b < 0) (map fst (ins_assoc cmp k v xs))"
proof (induction xs)
  case (Cons p xs)
  obtain a w where p: "p = (a, w)" by force
  show ?case
    using Cons keys_ins_assoc [of k v xs] cmp_not_less [of k a] cmp_less_trans [of k a] by (fastforce simp: p split: if_splits)
qed simp

lemma map_of_ins_assoc:
  "sorted_wrt (\<lambda>a b. cmp a b < 0) (map fst xs) \<Longrightarrow> map_of (ins_assoc cmp k v xs) = (map_of xs)(k \<mapsto> v)"
  by (induction xs) (auto simp: cmp_eq fun_eq_iff)

lemma lookup_map_of: "bst cmp t \<Longrightarrow> i_tree_node_lookup t cmp key = map_of (inorder t) key"
proof (induction t)
  case (INode b k v l r)
  note gt = bst_left_less [OF INode.prems, of key]
  have kr: "\<And>a w. (a, w) \<in> set (inorder r) \<Longrightarrow> cmp k a < 0" using INode.prems by (force simp: bst_INode)
  have "map_of (inorder l) key = None" if "\<not> cmp key k < 0"
    using gt [OF that, of key] cmp_refl [of key] by (force intro: map_of_map_fst)
  moreover have "map_of (inorder r) key = None" if "cmp key k < 0"
    using kr [of key] that cmp_less_asym by (force intro: map_of_map_fst)
  ultimately show ?case
    using INode cmp_eq [of key k] cmp_refl [of key]
    by (auto simp: bst_INode map_add_def split: option.splits)
qed simp

lemma map_of_update_value:
  "bst cmp t \<Longrightarrow> map_of (inorder (node_update_value cmp key f t)) =
     (map_of (inorder t))(key := map_option f (map_of (inorder t) key))"
proof (induction t)
  case (INode b k v l r)
  note gt = bst_left_less [OF INode.prems, of key]
  have kr: "\<And>a w. (a, w) \<in> set (inorder r) \<Longrightarrow> cmp k a < 0" using INode.prems by (force simp: bst_INode)
  have "map_of (inorder l) key = None" if "\<not> cmp key k < 0"
    using gt [OF that, of key] cmp_refl [of key] by (force intro: map_of_map_fst)
  moreover have "map_of (inorder r) key = None" if "cmp key k < 0"
    using kr [of key] that cmp_less_asym by (force intro: map_of_map_fst)
  ultimately show ?case
    using INode cmp_eq [of key k] cmp_refl [of key]
    by (auto simp: bst_INode map_add_def fun_eq_iff split: option.splits)
qed (simp add: fun_eq_iff)

lemma insert_tree_inv:
  assumes "tree_inv cmp t"
  shows "\<exists>t'. i_tree_insert True t k v = Some (t', tree_map t k = None) \<and> tree_inv cmp t' \<and>
           tree_map t' = (tree_map t)(k \<mapsto> v)"
proof -
  from assms have t: "it_cmp_func t = cmp" "avl (it_root t)" "bst cmp (it_root t)" by (auto simp: tree_inv_def)
  from insert_ok [OF t(2,3), of k v] obtain r ins where r: "i_tree_node_insert cmp True k v (it_root t) = Some (r, ins)"
    "insert_shape (it_root t) r ins" "inorder r = ins_assoc cmp k v (inorder (it_root t))"
    "ins \<longleftrightarrow> k \<notin> fst ` set (inorder (it_root t))" by blast
  then show ?thesis
    using t sorted_ins_assoc [of "inorder (it_root t)" k v] map_of_ins_assoc [of "inorder (it_root t)" k v]
    by (auto simp: i_tree_insert_def tree_inv_def tree_map_def bst_def insert_shape_def map_of_eq_None_iff)
qed

end

text \<open>
  What the accounting modules ask of a map, and the pattern they share: look an entry up and
  update it in place, or insert a new one. \<open>upsert_total\<close> is the conservation law of that pattern
  for any quantity the entries carry.
\<close>

locale ordered_map =
  fixes inv :: "'t \<Rightarrow> bool"
    and amap :: "'t \<Rightarrow> 'k \<rightharpoonup> 'v"
    and insert_op :: "bool \<Rightarrow> 't \<Rightarrow> 'k \<Rightarrow> 'v \<Rightarrow> ('t \<times> bool) option"
    and lookup_op :: "'t \<Rightarrow> 'k \<Rightarrow> 'v option"
    and update_op :: "'t \<Rightarrow> 'k \<Rightarrow> ('v \<Rightarrow> 'v) \<Rightarrow> 't"
  assumes finite_amap: "finite (dom (amap t))"
    and lookup_amap: "inv t \<Longrightarrow> lookup_op t k = amap t k"
    and insert_amap: "inv t \<Longrightarrow> \<exists>t'. insert_op True t k v = Some (t', amap t k = None) \<and> inv t' \<and>
      amap t' = (amap t)(k \<mapsto> v)"
    and update_amap: "inv t \<Longrightarrow> inv (update_op t k f) \<and> amap (update_op t k f) = (amap t)(k := map_option f (amap t k))"
begin

lemma upsert:
  assumes "inv t"
  shows "\<exists>t'. (case lookup_op t k of Some _ \<Rightarrow> Some (update_op t k f) | None \<Rightarrow> map_option fst (insert_op True t k d)) = Some t' \<and>
           inv t' \<and> amap t' = (amap t)(k \<mapsto> (case amap t k of None \<Rightarrow> d | Some v \<Rightarrow> f v))"
  using insert_amap [OF assms, of k d] update_amap [OF assms, of k f] lookup_amap [OF assms, of k]
  by (auto split: option.splits)

lemma insert_lookup:
  "inv t \<Longrightarrow> \<exists>t'. insert_op True t k v = Some (t', lookup_op t k = None) \<and> inv t' \<and>
     (\<forall>k'. lookup_op t' k' = (if k' = k then Some v else lookup_op t k'))"
  using insert_amap [of t k v] lookup_amap by fastforce

end

definition map_total :: "('v \<Rightarrow> 'a::comm_monoid_add) \<Rightarrow> ('k \<rightharpoonup> 'v) \<Rightarrow> 'a" where
  "map_total m g = (\<Sum>k \<in> dom g. m (the (g k)))"

lemma map_total_upd_new:
  "finite (dom g) \<Longrightarrow> g k = None \<Longrightarrow> map_total m (g(k \<mapsto> v)) = map_total m g + m v"
proof -
  assume "finite (dom g)" "g k = None"
  moreover have "(\<Sum>x \<in> dom g. m (the ((g(k \<mapsto> v)) x))) = (\<Sum>x \<in> dom g. m (the (g x)))"
    using \<open>g k = None\<close> by (intro sum.cong) auto
  ultimately show ?thesis by (simp add: map_total_def domIff add.commute)
qed

lemma map_total_upd_old:
  fixes m :: "'v \<Rightarrow> 'a::comm_monoid_add"
  assumes "finite (dom g)" and "g k = Some v" and "m v' = m v + x"
  shows "map_total m (g(k \<mapsto> v')) = map_total m g + x"
proof -
  have d: "dom g = insert k (dom g - {k})" using assms(2) by auto
  have "(\<Sum>y \<in> dom g - {k}. m (the ((g(k \<mapsto> v')) y))) = (\<Sum>y \<in> dom g - {k}. m (the (g y)))"
    by (intro sum.cong) auto
  moreover have "map_total m (g(k \<mapsto> v')) = m v' + (\<Sum>y \<in> dom g - {k}. m (the ((g(k \<mapsto> v')) y)))"
    using assms(1) by (simp add: map_total_def sum.insert_remove)
  moreover have "map_total m g = m v + (\<Sum>y \<in> dom g - {k}. m (the (g y)))"
    unfolding map_total_def by (subst d, subst sum.insert) (use assms in auto)
  ultimately show ?thesis using assms(3) by (simp add: ac_simps)
qed

context ordered_map
begin

lemma upsert_total:
  assumes "\<And>v. m (f v) = m v + x" and "m d = x"
  shows "map_total m ((amap t)(k \<mapsto> (case amap t k of None \<Rightarrow> d | Some v \<Rightarrow> f v))) = map_total m (amap t) + x"
  using map_total_upd_new [OF finite_amap, of t k m d] map_total_upd_old [where m = m, OF finite_amap, of t k] assms
  by (auto split: option.splits)

end

sublocale comparator \<subseteq> tree: ordered_map "tree_inv cmp" tree_map i_tree_insert i_tree_lookup i_tree_update_value
proof
  show "finite (dom (tree_map t))" for t by (simp add: tree_map_def finite_dom_map_of)
  show "tree_inv cmp t \<Longrightarrow> i_tree_lookup t k = tree_map t k" for t k
    by (simp add: tree_inv_def i_tree_lookup_def tree_map_def lookup_map_of)
  show "tree_inv cmp t \<Longrightarrow> \<exists>t'. i_tree_insert True t k v = Some (t', tree_map t k = None) \<and>
      tree_inv cmp t' \<and> tree_map t' = (tree_map t)(k \<mapsto> v)" for t k v
    by (rule insert_tree_inv)
  show "tree_inv cmp t \<Longrightarrow> tree_inv cmp (i_tree_update_value t k f) \<and>
      tree_map (i_tree_update_value t k f) = (tree_map t)(k := map_option f (tree_map t k))" for t k f
    by (auto simp: tree_inv_def tree_map_def i_tree_update_value_def bst_def [of _ "node_update_value _ _ _ _"]
        map_of_update_value) (simp add: bst_def)
qed

context comparator
begin

lemmas tree_insert_lookup = tree.insert_lookup

end

section \<open>Traversal\<close>

text \<open>Visiting a list of entries until the callback asks to stop.\<close>

fun run_until :: "('k, 'v, 's) ITraverseFunc \<Rightarrow> ('k \<times> 'v) list \<Rightarrow> 's \<Rightarrow> bool \<times> 's" where
  "run_until f [] s = (False, s)"
| "run_until f ((k, v) # xs) s = (let (rc, s') = f k v s in if rc \<noteq> 0 then (True, s') else run_until f xs s')"

lemma run_until_append:
  "run_until f (xs @ ys) s = (case run_until f xs s of (True, s') \<Rightarrow> (True, s') | (False, s') \<Rightarrow> run_until f ys s')"
  by (induction f xs s rule: run_until.induct) (auto simp: Let_def split: prod.splits)

lemma run_until_never:
  "(\<And>k v s. fst (f k v s) = 0) \<Longrightarrow> run_until f xs s = (False, fold (\<lambda>(k, v) s. snd (f k v s)) xs s)"
  by (induction f xs s rule: run_until.induct) (auto simp: Let_def split: prod.splits, metis fst_conv)

lemma in_order_run: "t \<noteq> INull \<Longrightarrow> i_tree_node_in_order t f s = Some (run_until f (inorder t) s)"
proof (induction t arbitrary: s)
  case (INode b k v l r)
  then show ?case
    by (cases "l = INull"; cases "r = INull")
      (auto simp: run_until_append Let_def split: prod.splits bool.splits if_splits)
qed simp

lemma pre_order_run: "t \<noteq> INull \<Longrightarrow> i_tree_node_pre_order t f s = Some (run_until f (preorder t) s)"
proof (induction t arbitrary: s)
  case (INode b k v l r)
  then show ?case
    by (cases "l = INull"; cases "r = INull")
      (auto simp: run_until_append Let_def split: prod.splits bool.splits if_splits)
qed simp

lemma post_order_run: "t \<noteq> INull \<Longrightarrow> i_tree_node_post_order t f s = Some (run_until f (postorder t) s)"
proof (induction t arbitrary: s)
  case (INode b k v l r)
  then show ?case
    by (cases "l = INull"; cases "r = INull")
      (auto simp: run_until_append Let_def split: prod.splits bool.splits if_splits)
qed simp

definition entries :: "ITraverseType \<Rightarrow> ('k, 'v) ITree_Node \<Rightarrow> ('k \<times> 'v) list" where
  "entries ty t = (case ty of I_IN_ORDER \<Rightarrow> inorder t | I_PRE_ORDER \<Rightarrow> preorder t
     | I_POST_ORDER \<Rightarrow> postorder t | I_LEVEL_ORDER \<Rightarrow> [])"

lemma traverse_run: "i_tree_traverse tree f ty s = Some (snd (run_until f (entries ty (it_root tree)) s))"
  by (auto simp: i_tree_traverse_def entries_def in_order_run pre_order_run post_order_run split: ITraverseType.splits)

lemma mset_entries:
  "mset (inorder t) = mset (preorder t)" "mset (postorder t) = mset (preorder t)"
  "mset (i_tree_node_destroy t) = mset (preorder t)"
  by (induction t) auto

section \<open>Height\<close>

lemma ht_INull [simp]: "ht t = 0 \<longleftrightarrow> t = INull"
  by (cases t) auto

lemma avl_nodes: "avl t \<Longrightarrow> 2 ^ (ht t div 2) \<le> Suc (nodes t)"
proof (induction "ht t" arbitrary: t rule: less_induct)
  case less
  show ?case
  proof (cases t)
    case (INode b k v l r)
    have a: "avl l" "avl r" using less.prems INode by auto
    have m: "ht t \<le> 2 + min (ht l) (ht r)" using less.prems INode by auto
    show ?thesis
    proof (cases "ht t < 2")
      case False
      then obtain n where "ht t = Suc (Suc n)" by (metis Suc_1 less_2_cases_iff not0_implies_Suc not_less_less_Suc_eq One_nat_def)
      then have p: "(2::nat) ^ (ht t div 2) = 2 * 2 ^ ((ht t - 2) div 2)" by simp
      have "(2::nat) ^ ((ht t - 2) div 2) \<le> 2 ^ (ht l div 2)" "(2::nat) ^ ((ht t - 2) div 2) \<le> 2 ^ (ht r div 2)"
        using m by (auto intro!: power_increasing div_le_mono)
      moreover have "2 ^ (ht l div 2) \<le> Suc (nodes l)" "2 ^ (ht r div 2) \<le> Suc (nodes r)"
        using less.hyps [OF _ a(1)] less.hyps [OF _ a(2)] INode by auto
      ultimately have "2 ^ (ht t div 2) \<le> Suc (nodes l) + Suc (nodes r)" unfolding p by linarith
      then show ?thesis using INode by simp
    qed simp
  qed simp
qed

section \<open>Properties\<close>

text \<open>Keys of one byte compared with \<^verbatim>\<open>memcmp\<close>: a comparison function of the kind the program uses.\<close>

definition byte_cmp :: "byte \<Rightarrow> byte \<Rightarrow> int" where
  "byte_cmp a b = memcmp [a] [b]"

interpretation byte_cmp: comparator byte_cmp
  unfolding byte_cmp_def [abs_def] by (rule comparator_memcmp [where n = 1]) auto

definition tree1 :: "(byte, nat) ITree" where
  "tree1 = \<lparr>it_nnodes = 0, it_height = 0, it_root = INode (-1) 5 50 (INode 0 3 30 INull INull) INull,
            it_cmp_func = byte_cmp\<rparr>"

lemma tree1_inv: "tree_inv byte_cmp tree1"
  by (simp add: tree1_def tree_inv_def bst_def byte_cmp_def)

text \<open>
  C5 (insert). On a balanced search tree an insertion whose allocation succeeds never dereferences a
  null pointer; the result is balanced and ordered, it reports an insertion exactly when the key was absent,
  and afterwards the key maps to the new value and every other key to what it mapped to before.
\<close>

theorem i_tree_insert_correct:
  assumes "comparator cmp" and "tree_inv cmp tree"
  shows "\<exists>tree'. i_tree_insert True tree key val = Some (tree', i_tree_lookup tree key = None) \<and>
           tree_inv cmp tree' \<and>
           (\<forall>k. i_tree_lookup tree' k = (if k = key then Some val else i_tree_lookup tree k))"
  by (rule comparator.tree_insert_lookup [OF assms])

theorem i_tree_insert_correct_witness:
  "\<exists>tree'. i_tree_insert True tree1 4 40 = Some (tree', True) \<and> tree_inv byte_cmp tree' \<and>
     i_tree_lookup tree' 4 = Some 40 \<and> i_tree_lookup tree' 5 = Some 50"
proof -
  have "i_tree_lookup tree1 4 = None" "i_tree_lookup tree1 5 = Some 50"
    by (simp_all add: tree1_def i_tree_lookup_def byte_cmp_def)
  then show ?thesis
    using i_tree_insert_correct [OF byte_cmp.comparator_axioms tree1_inv, of 4 40] by auto
qed

text \<open>
  Height. The height of a tree that keeps the invariant is at most twice the binary logarithm of its number
  of nodes, so a lookup makes at most that many comparisons.
\<close>

theorem i_tree_height_log:
  assumes "tree_inv cmp tree"
  shows "2 ^ (ht (it_root tree) div 2) \<le> Suc (length (inorder (it_root tree)))"
proof -
  have "nodes t = length (inorder t)" for t :: "('a, 'b) ITree_Node" by (induction t) auto
  with avl_nodes [of "it_root tree"] assms show ?thesis by (simp add: tree_inv_def)
qed

theorem i_tree_height_log_witness: "2 ^ (ht (it_root tree1) div 2) \<le> Suc (length (inorder (it_root tree1)))"
  by (rule i_tree_height_log [OF tree1_inv])

text \<open>
  Traverse. A traversal never faults; it hands the entries to the callback in the promised order
  and stops after the first call that returns non-zero. All three orders visit every entry exactly once, and
  the in-order traversal visits them in the order of the keys.
\<close>

theorem i_tree_traverse_correct:
  assumes "tree_inv cmp tree" and "ty \<noteq> I_LEVEL_ORDER"
  shows "i_tree_traverse tree f ty s = Some (snd (run_until f (entries ty (it_root tree)) s)) \<and>
     mset (entries ty (it_root tree)) = mset (inorder (it_root tree)) \<and>
     sorted_wrt (\<lambda>a b. cmp a b < 0) (map fst (entries I_IN_ORDER (it_root tree)))"
  using assms traverse_run [of tree f ty s]
  by (auto simp: entries_def mset_entries tree_inv_def bst_def split: ITraverseType.splits)

theorem i_tree_traverse_correct_witness:
  "i_tree_traverse tree1 (\<lambda>k v s. (if v = 30 then 1 else 0, s @ [v])) I_IN_ORDER [] = Some [30]"
  using i_tree_traverse_correct [OF tree1_inv, of I_IN_ORDER "\<lambda>k v s. (if v = 30 then 1 else 0, s @ [v])" "[]"]
  by (simp add: tree1_def entries_def)

text \<open>
  Out of memory. An insertion whose allocation fails still counts the missing node in the balance: inserting
  between the keys of a balanced two-node tree then dereferences a null pointer in the rotation.
\<close>

theorem i_tree_insert_oom:
  assumes "comparator cmp" and "cmp k1 key < 0" and "cmp key k2 < 0"
    and "tree = \<lparr>it_nnodes = 0, it_height = 0, it_root = INode (-1) k2 v2 (INode 0 k1 v1 INull INull) INull, it_cmp_func = cmp\<rparr>"
  shows "tree_inv cmp tree \<and> i_tree_insert False tree key val = None"
proof -
  have k: "cmp k1 k2 < 0" "0 < cmp key k1"
    using assms comparator.cmp_less_trans comparator.cmp_less_sym by metis+
  then have "tree_inv cmp tree" using assms(4) by (simp add: tree_inv_def bst_def)
  moreover have "i_tree_insert False tree key val = None"
    using assms(3,4) k by (simp add: i_tree_insert_def i_tree_node_new_def)
  ultimately show ?thesis ..
qed

theorem i_tree_insert_oom_witness: "i_tree_insert False tree1 4 40 = None"
  using i_tree_insert_oom [OF byte_cmp.comparator_axioms _ _ tree1_def, of 4 40] by (simp add: byte_cmp_def)

end
