(* ===== verification/Aggregation.thy ===== *)
theory Aggregation
  imports Misc Gtree
begin

text \<open>
  What the three accounting modules \<^verbatim>\<open>func_ip.c\<close>, \<^verbatim>\<open>func_time.c\<close> and
  \<^verbatim>\<open>func_squid.c\<close> share: output to the control connection (\<^verbatim>\<open>send_to_socket\<close> of
  \<^verbatim>\<open>misc.c\<close>), requests to the registries of the control server and of the scheduler, the
  bounded retry of an export, and the contract of a database table of counters.

  \<open>counter_table\<close> says what SQL promises about the three statements an export issues: the count query
  returns the number of rows of the key, an insertion adds a row, an update adds to each row of the key,
  and a refused statement changes nothing. It is stated for the statements of a set \<open>S\<close> of keys and
  amounts. The locale \<open>row_export\<close> is the interface of an export routine: query the count, then
  update or insert; \<open>export_books\<close> and \<open>retry_books\<close> follow for every routine that obeys it.
\<close>

section \<open>Output and registration\<close>

definition fmt_pad :: "nat \<Rightarrow> string \<Rightarrow> string" where
  "fmt_pad n s = replicate (n - length s) CHR '' '' @ s"

text \<open>
  The text sent to the connection so far; \<^verbatim>\<open>vsnprintf\<close> cuts a message to 8190 characters.
  Every caller ignores the result.
\<close>

definition send_to_socket :: "string \<Rightarrow> string list \<Rightarrow> string list" where
  "send_to_socket msg sock = sock @ [take 8190 msg]"

definition crlf :: string where "crlf = [CHR 0x0A, CHR 0x0D]"

definition dashes :: "nat \<Rightarrow> string" where "dashes n = replicate n CHR ''-'' @ crlf"

text \<open>
  What a module asks of the rest of the program: a command of the control server, a job of the scheduler with its
  schedule, its own function as an authorization or accounting hook of the core, and the removal of each.
\<close>

datatype registration =
  ServerReg string
| SchedReg string string
| ServerUnreg string
| SchedUnreg string
| AutzHook
| AcctHook
| AutzUnhook
| AcctUnhook

text \<open>\<^verbatim>\<open>sprintf\<close> into an array of \<open>n\<close> bytes.\<close>

definition sprintf_buf :: "nat \<Rightarrow> string \<Rightarrow> string option" where
  "sprintf_buf n s = (if length s < n then Some s else None)"

definition every_minutes :: "int \<Rightarrow> string" where
  "every_minutes t = ''*/'' @ fmt_int t @ '' * * * *''"

section \<open>Retrying an export\<close>

text \<open>
  The loop at the label \<^verbatim>\<open>l_start\<close> of the two traversal callbacks: \<open>n\<close> is
  \<^verbatim>\<open>n_repeat\<close>; the result tells whether an attempt succeeded.
\<close>

fun export_retry :: "nat \<Rightarrow> ('w \<Rightarrow> (gboolean \<times> 'w) option) \<Rightarrow> 'w \<Rightarrow> (bool \<times> 'w) option" where
  "export_retry n ex w =
     (case ex w of
        None \<Rightarrow> None
      | Some (r, w1) \<Rightarrow>
          if r = 1 then Some (True, w1)
          else (case n of 0 \<Rightarrow> Some (False, w1) | Suc m \<Rightarrow> export_retry m ex w1))"

declare export_retry.simps [simp del]

section \<open>A table of counters\<close>

definition booked :: "('f \<times> nat) list \<Rightarrow> 'f \<Rightarrow> nat" where
  "booked rows f = sum_list (map snd (filter (\<lambda>r. fst r = f) rows))"

definition add_to_rows :: "'f \<Rightarrow> nat \<Rightarrow> ('f \<times> nat) list \<Rightarrow> ('f \<times> nat) list" where
  "add_to_rows f n rows = map (\<lambda>(g, t). if g = f then (g, t + n) else (g, t)) rows"

definition counter_table ::
  "'w STORE_API \<Rightarrow> ('w \<Rightarrow> ('f \<times> nat) list) \<Rightarrow> ('f \<Rightarrow> string) \<Rightarrow> ('f \<Rightarrow> IP_size \<Rightarrow> string) \<Rightarrow>
   ('f \<Rightarrow> IP_size \<Rightarrow> string) \<Rightarrow> ('f \<times> IP_size) set \<Rightarrow> bool" where
  "counter_table api rows cnt upd ins S \<longleftrightarrow>
     (\<forall>w. rows (snd (sql_open api w)) = rows w) \<and>
     (\<forall>sid w. rows (sql_close api sid w) = rows w) \<and>
     (\<forall>(f, n) \<in> S. \<forall>sid w.
        rows (snd (sql_query api sid (cnt f) w)) = rows w \<and>
        fst (sql_query api sid (cnt f) w) \<in> {None, Some [[show_nat (length (filter (\<lambda>r. fst r = f) (rows w)))]]} \<and>
        rows (snd (sql_exec api sid (upd f n) w)) =
          (if fst (sql_exec api sid (upd f n) w) then add_to_rows f (unat n) (rows w) else rows w) \<and>
        rows (snd (sql_exec api sid (ins f n) w)) =
          (if fst (sql_exec api sid (ins f n) w) then rows w @ [(f, unat n)] else rows w))"

text \<open>The database accepts every statement.\<close>

definition reliable :: "'w STORE_API \<Rightarrow> bool" where
  "reliable api \<longleftrightarrow> (\<forall>w. fst (sql_open api w) \<noteq> None) \<and> (\<forall>sid s w. fst (sql_query api sid s w) \<noteq> None) \<and>
     (\<forall>sid s w. fst (sql_exec api sid s w))"

lemma keys_add_to_rows [simp]: "map fst (add_to_rows f n rows) = map fst rows"
  by (induction rows) (auto simp: add_to_rows_def)

lemma booked_append [simp]: "booked (xs @ ys) f = booked xs f + booked ys f"
  by (simp add: booked_def)

lemma booked_simps [simp]:
  "booked [] f = 0" "booked ((g, n) # rows) f = (if g = f then n else 0) + booked rows f"
  by (simp_all add: booked_def)

lemma booked_add_to_rows:
  "booked (add_to_rows f n rows) g = booked rows g + (if g = f then n * length (filter (\<lambda>r. fst r = f) rows) else 0)"
  by (induction rows) (auto simp: add_to_rows_def)

lemma count_distinct:
  "distinct (map fst rows) \<Longrightarrow> length (filter (\<lambda>r. fst r = f) rows) = (if f \<in> fst ` set rows then 1 else 0)"
  by (induction rows) (auto simp: image_iff)

lemma show_nat_small: "atoi (show_nat 0) = 0" "atoi (show_nat (Suc 0)) = 1"
  using atoi_show_nat [of 0] atoi_show_nat [of "Suc 0"] by simp_all

section \<open>Export routines\<close>

locale row_export =
  fixes export :: "'w STORE_API \<Rightarrow> bool \<Rightarrow> SQL_SESSION \<Rightarrow> 'k \<Rightarrow> IP_size \<Rightarrow> 'w \<Rightarrow> (gboolean \<times> 'w) option"
    and key_of :: "'k \<Rightarrow> 'f"
    and cnt :: "'f \<Rightarrow> string"
    and upd :: "'f \<Rightarrow> IP_size \<Rightarrow> string"
    and ins :: "'f \<Rightarrow> IP_size \<Rightarrow> string"
    and present :: "int \<Rightarrow> bool"
  assumes present_01: "\<not> present 0" "present 1"
    and export_oom: "export api False sid k n w = Some (0, w)"
    and export_refused: "sql_query api sid (cnt (key_of k)) w = (None, w1) \<Longrightarrow> export api True sid k n w = Some (0, w1)"
    and export_row: "sql_query api sid (cnt (key_of k)) w = (Some (row # rows), w1) \<Longrightarrow>
      export api True sid k n w =
        (let (ok, w2) = sql_exec api sid (if present (atoi (col row 0)) then upd (key_of k) n else ins (key_of k) n) w1
         in Some (if ok then 1 else 0, w2))"
begin

lemma export_books:
  assumes ct: "counter_table api rows cnt upd ins S" and S: "(key_of k, n) \<in> S"
    and d: "distinct (map fst (rows w))"
  shows "\<exists>r w'. export api ok sid k n w = Some (r, w') \<and> r \<in> {0, 1} \<and> (ok \<longrightarrow> reliable api \<longrightarrow> r = 1) \<and>
           distinct (map fst (rows w')) \<and>
           (\<forall>g. booked (rows w') g = booked (rows w) g + (if r = 1 \<and> g = key_of k then unat n else 0))"
proof (cases ok)
  case False
  then show ?thesis using d by (simp add: export_oom)
next
  case ok: True
  let ?f = "key_of k"
  obtain res w1 where q: "sql_query api sid (cnt ?f) w = (res, w1)" by fastforce
  have c: "\<forall>sid w. rows (snd (sql_query api sid (cnt ?f) w)) = rows w \<and>
        fst (sql_query api sid (cnt ?f) w) \<in> {None, Some [[show_nat (length (filter (\<lambda>r. fst r = ?f) (rows w)))]]} \<and>
        rows (snd (sql_exec api sid (upd ?f n) w)) =
          (if fst (sql_exec api sid (upd ?f n) w) then add_to_rows ?f (unat n) (rows w) else rows w) \<and>
        rows (snd (sql_exec api sid (ins ?f n) w)) =
          (if fst (sql_exec api sid (ins ?f n) w) then rows w @ [(?f, unat n)] else rows w)"
    using bspec [OF conjunct2 [OF conjunct2 [OF ct [unfolded counter_table_def]]] S] unfolding prod.case .
  note w1 = c [rule_format, of sid w, THEN conjunct1, unfolded q snd_conv]
  note cq = c [rule_format, of sid w, THEN conjunct2, THEN conjunct1, unfolded q fst_conv]
  note cu = c [rule_format, of sid w1, THEN conjunct2, THEN conjunct2, THEN conjunct1]
  note ci = c [rule_format, of sid w1, THEN conjunct2, THEN conjunct2, THEN conjunct2]
  show ?thesis
  proof (cases res)
    case None
    have "\<not> reliable api" using q None unfolding reliable_def by (metis fst_conv)
    then show ?thesis using None q ok w1 d by (simp add: export_refused)
  next
    case (Some rs)
    let ?b = "?f \<in> fst ` set (rows w)"
    obtain c0 where rs: "res = Some [[c0]]" and c0: "c0 = show_nat (if ?b then 1 else 0)"
      using cq Some count_distinct [OF d, of ?f] by simp
    have pr: "(if present (atoi c0) then upd ?f n else ins ?f n) = (if ?b then upd ?f n else ins ?f n)"
      unfolding c0 using present_01 by (cases ?b) (simp_all add: show_nat_small)
    let ?s = "if ?b then upd ?f n else ins ?f n"
    obtain e w2 where e: "sql_exec api sid ?s w1 = (e, w2)" by fastforce
    have "export api True sid k n w = Some (if e then 1 else 0, w2)"
      using export_row [OF q [unfolded rs], of n, unfolded Let_def] by (simp add: col_def pr e del: if_split)
    then have x: "export api ok sid k n w = Some (if e then 1 else 0, w2)" using ok by simp
    have rel: "reliable api \<Longrightarrow> e" using e unfolding reliable_def by (metis fst_conv)
    have "rows w2 = (if e then (if ?b then add_to_rows ?f (unat n) (rows w) else rows w @ [(?f, unat n)]) else rows w)"
      using e cu ci w1 by (auto split: if_splits)
    then show ?thesis
      using x d rel count_distinct [OF d, of ?f] by (auto simp: booked_add_to_rows)
  qed
qed

lemma retry_books:
  assumes ct: "counter_table api rows cnt upd ins S" and S: "(key_of k, n) \<in> S"
    and d: "distinct (map fst (rows w))"
  shows "\<exists>r w'. export_retry m (export api ok sid k n) w = Some (r, w') \<and> (ok \<longrightarrow> reliable api \<longrightarrow> r) \<and>
           distinct (map fst (rows w')) \<and>
           (\<forall>g. booked (rows w') g = booked (rows w) g + (if r \<and> g = key_of k then unat n else 0))"
  using d
proof (induction m arbitrary: w)
  case 0
  then show ?case using export_books [OF ct S 0, of ok sid] by (fastforce simp: export_retry.simps)
next
  case (Suc m)
  obtain r w1 where e: "export api ok sid k n w = Some (r, w1)" "r \<in> {0, 1}" "ok \<longrightarrow> reliable api \<longrightarrow> r = 1"
      "distinct (map fst (rows w1))"
      "\<forall>g. booked (rows w1) g = booked (rows w) g + (if r = 1 \<and> g = key_of k then unat n else 0)"
    using export_books [OF ct S Suc.prems, of ok sid] by blast
  show ?case
  proof (cases "r = 1")
    case True
    then show ?thesis using e by (intro exI [of _ True] exI [of _ w1]) (simp add: export_retry.simps)
  next
    case False
    then show ?thesis using Suc.IH [OF e(4)] e by (simp add: export_retry.simps [of "Suc m"])
  qed
qed

end

text \<open>
  A database that holds one such table and decides the statements of one key and amount by their text; it
  refuses the statement while \<open>refusals\<close> is positive.
\<close>

record 'f one_table =
  ot_rows :: "('f \<times> nat) list"
  ot_refusals :: nat

definition one_table_api ::
  "('f \<Rightarrow> string) \<Rightarrow> ('f \<Rightarrow> IP_size \<Rightarrow> string) \<Rightarrow> ('f \<Rightarrow> IP_size \<Rightarrow> string) \<Rightarrow> 'f \<Rightarrow> IP_size \<Rightarrow> 'f one_table STORE_API" where
  "one_table_api cnt upd ins f n =
     \<lparr>sql_open = (\<lambda>w. (Some 1, w)), sql_close = (\<lambda>sid w. w),
      sql_exec = (\<lambda>sid s w.
        if ot_refusals w \<noteq> 0 then (False, w\<lparr>ot_refusals := ot_refusals w - 1\<rparr>)
        else if s = upd f n then (True, w\<lparr>ot_rows := add_to_rows f (unat n) (ot_rows w)\<rparr>)
        else if s = ins f n then (True, w\<lparr>ot_rows := ot_rows w @ [(f, unat n)]\<rparr>)
        else (True, w)),
      sql_query = (\<lambda>sid s w.
        (Some (if s = cnt f then [[show_nat (length (filter (\<lambda>r. fst r = f) (ot_rows w)))]] else []), w)),
      sql_list_tables = (\<lambda>sid s w. (Some [], w))\<rparr>"

lemma counter_table_one:
  "upd f n \<noteq> ins f n \<Longrightarrow> counter_table (one_table_api cnt upd ins f n) ot_rows cnt upd ins {(f, n)}"
  by (auto simp: counter_table_def one_table_api_def)

end
