(* ===== verification/Func_Ip.thy ===== *)
theory Func_Ip
  imports Aggregation Core_Users "HOL-Library.Sublist"
begin

text \<open>
  Aggregation of traffic per user, protocol, direction, remote address and port
  (\<^verbatim>\<open>src/func_ip.c\<close>). The module keeps an AVL tree of counters, \<open>ip_acct\<close> adds a packet,
  and the scheduled job \<open>ip_sync\<close> replaces the tree by an empty one and exports the old one into the
  table \<^verbatim>\<open>Log_IP\<close>.

  The tree compares keys with \<^verbatim>\<open>memcmp\<close> over the whole struct, so the two padding words of
  \<^verbatim>\<open>st_key\<close> are part of the key. \<open>ip_acct\<close> fills the fields of a key on the stack and
  leaves the padding as it finds it: what the stack holds there is the argument \<open>pad\<close>. \<open>mem\<close> lists
  whether the allocations of the key, the value and the tree node succeed. Besides undefined behaviour,
  \<open>None\<close> stands for waiting on \<^verbatim>\<open>ip_mutex\<close> when its holder has returned without releasing it
  (\<open>ip_locked\<close>). The pauses between export attempts and the release of memory are not modelled.
\<close>

section \<open>Data\<close>

record st_key =
  k_id_user :: IP_id
  k_proto :: IP_proto
  k_direct :: IP_flag
  k_pad1 :: "16 word"
  k_addr :: IP_addr
  k_port :: IP_port
  k_pad2 :: "16 word"

record st_value =
  v_stime :: time_t
  v_pkt :: IP_size
  v_bytes :: IP_size

record func_ip =
  ag_ip :: "(st_key, st_value) ITree option"
  ip_flag_export :: gboolean
  ip_locked :: bool

definition st_key_bytes :: "st_key \<Rightarrow> byte list" where
  "st_key_bytes k = le_bytes 4 (k_id_user k) @ le_bytes 1 (k_proto k) @ le_bytes 1 (k_direct k) @ le_bytes 2 (k_pad1 k) @
     le_bytes 4 (k_addr k) @ le_bytes 2 (k_port k) @ le_bytes 2 (k_pad2 k)"

definition ip_compare :: "st_key \<Rightarrow> st_key \<Rightarrow> int" where
  "ip_compare a b = memcmp (st_key_bytes a) (st_key_bytes b)"

text \<open>Start-up: the configured period, and which registries exist.\<close>

definition ip_init :: "bool \<Rightarrow> bool \<Rightarrow> bool \<Rightarrow> int \<Rightarrow> func_ip \<Rightarrow> (gboolean \<times> func_ip \<times> registration list) option" where
  "ip_init ok server sched timeout st =
     (case i_tree_new ok ip_compare of
        None \<Rightarrow> Some (0, st\<lparr>ag_ip := None\<rparr>, [])
      | Some t \<Rightarrow> do {
          str \<leftarrow> sprintf_buf 20 (every_minutes timeout);
          Some (1, st\<lparr>ag_ip := Some t\<rparr>,
                (if server then [ServerReg ''ip_aggregation''] else []) @
                (if sched then [SchedReg ''ip_aggregation'' str] else []))
        })"

section \<open>Accounting\<close>

definition acct_key :: "16 word \<times> 16 word \<Rightarrow> PACKET_INFO \<Rightarrow> PACKET_DATA_INFO \<Rightarrow> st_key" where
  "acct_key pad pinfo pdata =
     \<lparr>k_id_user = pd_id_user pdata, k_proto = pi_proto pinfo, k_direct = pd_direct pdata, k_pad1 = fst pad,
      k_addr = (if pd_direct pdata = 1 then pi_src pinfo else pi_dest pinfo),
      k_port = (if pd_direct pdata = 1 then pi_src_port pinfo else pi_dest_port pinfo), k_pad2 = snd pad\<rparr>"

definition ip_acct ::
  "bool \<times> bool \<times> bool \<Rightarrow> 16 word \<times> 16 word \<Rightarrow> PACKET_INFO \<Rightarrow> PACKET_DATA_INFO \<Rightarrow> func_ip \<Rightarrow> (gboolean \<times> func_ip) option" where
  "ip_acct mem pad packet_info packet_data st =
     (case ag_ip st of
        None \<Rightarrow> Some (0, st)
      | Some t \<Rightarrow>
          if ip_locked st then None
          else let key_ptr = acct_key pad packet_info packet_data
            in case i_tree_lookup t key_ptr of
                 Some _ \<Rightarrow>
                   Some (1, st\<lparr>ag_ip := Some (i_tree_update_value t key_ptr
                     (\<lambda>value. value\<lparr>v_pkt := v_pkt value + 1, v_bytes := v_bytes value + pd_len packet_data\<rparr>))\<rparr>)
               | None \<Rightarrow>
                   let (key_ok, value_ok, node_ok) = mem
                   in if \<not> key_ok \<or> \<not> value_ok then Some (0, st)
                      else do {
                        (t', _) \<leftarrow> i_tree_insert node_ok t key_ptr \<lparr>v_stime = 0, v_pkt = 1, v_bytes = pd_len packet_data\<rparr>;
                        Some (1, st\<lparr>ag_ip := Some t'\<rparr>)
                      })"

section \<open>Export\<close>

text \<open>The flow a key stands for: its fields without the padding, the address in host order.\<close>

type_synonym ip_flow = "IP_id \<times> IP_proto \<times> IP_flag \<times> IP_addr \<times> IP_port"

definition ntohl :: "32 word \<Rightarrow> 32 word" where
  "ntohl w = word_of_bytes (rev (le_bytes 4 w))"

definition flow_of :: "st_key \<Rightarrow> ip_flow" where
  "flow_of k = (k_id_user k, k_proto k, k_direct k, ntohl (k_addr k), k_port k)"

fun flow_where :: "ip_flow \<Rightarrow> string" where
  "flow_where (id_user, proto, direct, a, port) =
     '' where id_user='' @ fmt_d id_user @ '' and Proto='' @ fmt_u proto @ '' and Direct='' @ fmt_u direct @
     '' and Addr='' @ fmt_u a @ '' and Port='' @ fmt_u port @ '' and Date=CURDATE()''"

definition ip_count_stmt :: "ip_flow \<Rightarrow> string" where
  "ip_count_stmt f = ''select COUNT(*) from Log_IP'' @ flow_where f"

definition ip_update_stmt :: "ip_flow \<Rightarrow> IP_size \<Rightarrow> string" where
  "ip_update_stmt f sz = ''update Log_IP SET Traffic=Traffic+'' @ fmt_u sz @ flow_where f"

fun ip_insert_stmt :: "ip_flow \<Rightarrow> IP_size \<Rightarrow> string" where
  "ip_insert_stmt (id_user, proto, direct, a, port) sz =
     ''insert into Log_IP (id_user, Proto, Direct, Addr, Port, Traffic, Date) values ('' @ fmt_d id_user @ '', '' @
     fmt_u proto @ '', '' @ fmt_u direct @ '', '' @ fmt_u a @ '', '' @ fmt_u port @ '', '' @ fmt_u sz @ '', CURDATE())''"

definition ip_export ::
  "'w STORE_API option \<Rightarrow> bool \<Rightarrow> SQL_SESSION \<Rightarrow> st_key \<Rightarrow> IP_size \<Rightarrow> 'w \<Rightarrow> (gboolean \<times> 'w) option" where
  "ip_export store ok sid key sz w =
     (case store of
        None \<Rightarrow> Some (0, w)
      | Some api \<Rightarrow>
          if \<not> ok then Some (0, w)
          else do {
            q \<leftarrow> sprintf_buf 1024 (ip_count_stmt (flow_of key));
            let (res, w1) = sql_query api sid q w;
            case res of
              None \<Rightarrow> Some (0, w1)
            | Some [] \<Rightarrow> None
            | Some (row # _) \<Rightarrow> do {
                s \<leftarrow> sprintf_buf 1024
                  (if atoi (col row 0) \<noteq> 0 then ip_update_stmt (flow_of key) sz else ip_insert_stmt (flow_of key) sz);
                let (done, w2) = sql_exec api sid s w1;
                Some (if done then 1 else 0, w2)
              }
          })"

definition ip_traverse_sync ::
  "'w STORE_API option \<Rightarrow> bool \<Rightarrow> SQL_SESSION \<Rightarrow> (st_key, st_value, 'w option) ITraverseFunc" where
  "ip_traverse_sync store ok sid key val s =
     (0, do { w \<leftarrow> s; (_, w1) \<leftarrow> export_retry 3 (ip_export store ok sid key (v_bytes val)) w; Some w1 })"

text \<open>The job of the scheduler. \<open>ok\<close> is the allocation of the new tree, \<open>bok\<close> the one of the export buffers.\<close>

definition ip_sync ::
  "'w STORE_API option \<Rightarrow> bool \<Rightarrow> bool \<Rightarrow> func_ip \<Rightarrow> 'w \<Rightarrow> (gboolean \<times> func_ip \<times> 'w) option" where
  "ip_sync store ok bok st w =
     (if ip_flag_export st \<noteq> 0 then Some (0, st, w)
      else case store of
        None \<Rightarrow> Some (0, st, w)
      | Some api \<Rightarrow>
          (case sql_open api w of
             (None, w1) \<Rightarrow> Some (1, st, w1)
           | (Some sid, w1) \<Rightarrow>
               if ip_locked st then None
               else case i_tree_new ok ip_compare of
                 None \<Rightarrow> Some (0, st\<lparr>ag_ip := None, ip_flag_export := 1, ip_locked := True\<rparr>, w1)
               | Some t \<Rightarrow> do {
                   backup \<leftarrow> ag_ip st;
                   s \<leftarrow> i_tree_traverse backup (ip_traverse_sync store bok sid) I_IN_ORDER (Some w1);
                   w2 \<leftarrow> s;
                   Some (1, st\<lparr>ag_ip := Some t, ip_flag_export := 0\<rparr>, sql_close api sid w2)
                 }))"

definition ip_free ::
  "'w STORE_API option \<Rightarrow> bool \<Rightarrow> bool \<Rightarrow> bool \<Rightarrow> bool \<Rightarrow> func_ip \<Rightarrow> 'w \<Rightarrow> (gboolean \<times> func_ip \<times> registration list \<times> 'w) option" where
  "ip_free store server sched ok bok st w =
     (if ag_ip st = None then Some (0, st, [], w)
      else do {
        (_, st1, w1) \<leftarrow> ip_sync store ok bok st w;
        if ip_locked st1 \<or> ag_ip st1 = None then None
        else Some (1, st1\<lparr>ag_ip := None\<rparr>,
          (if server then [ServerUnreg ''ip_aggregation''] else []) @ (if sched then [SchedUnreg ''ip_aggregation''] else []), w1)
      })"

section \<open>The control command\<close>

definition ip_traverse_print :: "(st_key, st_value, string list) ITraverseFunc" where
  "ip_traverse_print key val sock =
     (0, send_to_socket (''| '' @ fmt_pad 4 (get_proto (k_proto key)) @ '' | '' @ fmt_pad 7 (fmt_d (k_id_user key)) @ '' | '' @
            fmt_pad 15 (inet_ntoa (k_addr key)) @ '' | '' @ fmt_pad 6 (fmt_u (k_port key)) @ '' | '' @
            fmt_pad 10 (fmt_u (v_bytes val)) @ '' | '' @ fmt_pad 4 (fmt_u (v_pkt val)) @ '' |'' @ crlf) sock)"

definition ip_print :: "func_ip \<Rightarrow> string list \<Rightarrow> (gboolean \<times> string list) option" where
  "ip_print st sock =
     (if ip_locked st then None
      else do {
        t \<leftarrow> ag_ip st;
        let head = send_to_socket (dashes 65) (send_to_socket (''| '' @ fmt_pad 4 ''Prot'' @ '' | '' @ fmt_pad 7 ''id_user'' @ '' | '' @
               fmt_pad 15 ''Addr'' @ '' | '' @ fmt_pad 6 ''S_port'' @ '' | '' @ fmt_pad 10 ''Size'' @ '' | '' @ fmt_pad 4 ''Pkt'' @ '' |'' @ crlf)
             (send_to_socket (dashes 65) (send_to_socket (''IP Aggregations:'' @ crlf) sock)));
        body \<leftarrow> i_tree_traverse t ip_traverse_print I_IN_ORDER head;
        Some (1, send_to_socket (dashes 65) body)
      })"

definition ip_job :: "string list \<Rightarrow> func_ip \<Rightarrow> string list \<Rightarrow> (gboolean \<times> string list) option" where
  "ip_job argv st sock =
     (if length argv = 1 \<and> strncmp (argv ! 0) ''help'' 4 = 0
      then Some (0, send_to_socket (''*  - show ip        - Show ip aggregation     *'' @ crlf) sock)
      else if length argv = 2 \<and> strncmp (argv ! 0) ''show'' 4 = 0 \<and> strncmp (argv ! 1) ''ip'' 2 = 0
      then do { (_, sock') \<leftarrow> ip_print st sock; Some (1, sock') }
      else Some (0, sock))"

section \<open>Keys and statements\<close>

lemma length_st_key_bytes [simp]: "length (st_key_bytes k) = 16"
  by (simp add: st_key_bytes_def)

lemma st_key_bytes_inject: "st_key_bytes a = st_key_bytes b \<Longrightarrow> a = b"
  unfolding st_key_bytes_def
  by (simp add: append_eq_append_conv) (auto dest!: le_bytes_inject [rotated] intro: st_key.equality)

interpretation ip_keys: comparator ip_compare
  unfolding ip_compare_def [abs_def] by (rule comparator_memcmp [where n = 16]) (auto dest: st_key_bytes_inject)

lemma ip_stmts_fit:
  "length (ip_count_stmt f) < 1024" "length (ip_update_stmt f n) < 1024" "length (ip_insert_stmt f n) < 1024"
proof -
  obtain u p d a q where f: "f = (u, p, d, a, q)" by (cases f)
  have l: "length (fmt_d u) \<le> 11" "length (fmt_u p) \<le> 3" "length (fmt_u d) \<le> 3" "length (fmt_u a) \<le> 10"
      "length (fmt_u q) \<le> 5" "length (fmt_u n) \<le> 10"
    by (rule length_fmt_d length_fmt_u)+
  show "length (ip_count_stmt f) < 1024" "length (ip_update_stmt f n) < 1024" "length (ip_insert_stmt f n) < 1024"
    using l by (simp_all add: f ip_count_stmt_def ip_update_stmt_def)
qed

interpretation ip_rows: row_export "\<lambda>api. ip_export (Some api)" flow_of ip_count_stmt ip_update_stmt ip_insert_stmt "\<lambda>i. i \<noteq> 0"
  by unfold_locales (auto simp: ip_export_def sprintf_buf_def ip_stmts_fit Let_def split: prod.splits)

section \<open>Accounting as grouping\<close>

type_synonym ip_packet = "(16 word \<times> 16 word) \<times> PACKET_INFO \<times> PACKET_DATA_INFO"

fun packet_key :: "ip_packet \<Rightarrow> st_key" where
  "packet_key (pad, pinfo, pdata) = acct_key pad pinfo pdata"

fun ip_acct_all :: "ip_packet list \<Rightarrow> func_ip \<Rightarrow> func_ip option" where
  "ip_acct_all [] st = Some st"
| "ip_acct_all ((pad, pinfo, pdata) # ps) st = do {
     (_, st1) \<leftarrow> ip_acct (True, True, True) pad pinfo pdata st;
     ip_acct_all ps st1
   }"

definition key_packets :: "st_key \<Rightarrow> ip_packet list \<Rightarrow> ip_packet list" where
  "key_packets k ps = filter (\<lambda>p. packet_key p = k) ps"

definition add_packets :: "st_value option \<Rightarrow> ip_packet list \<Rightarrow> st_value option" where
  "add_packets v ps =
     (case v of
        None \<Rightarrow> if ps = [] then None
                else Some \<lparr>v_stime = 0, v_pkt = of_nat (length ps), v_bytes = sum_list (map (\<lambda>(_, _, pdata). pd_len pdata) ps)\<rparr>
      | Some x \<Rightarrow> Some (x\<lparr>v_pkt := v_pkt x + of_nat (length ps),
                           v_bytes := v_bytes x + sum_list (map (\<lambda>(_, _, pdata). pd_len pdata) ps)\<rparr>))"

lemma ip_acct_step:
  assumes "tree_inv ip_compare t" and "ag_ip st = Some t" and "\<not> ip_locked st"
  shows "\<exists>t'. ip_acct (True, True, True) pad pinfo pdata st = Some (1, st\<lparr>ag_ip := Some t'\<rparr>) \<and> tree_inv ip_compare t' \<and>
           tree_map t' = (tree_map t)(acct_key pad pinfo pdata \<mapsto> the (add_packets (tree_map t (acct_key pad pinfo pdata)) [(pad, pinfo, pdata)]))"
proof -
  let ?k = "acct_key pad pinfo pdata"
  let ?f = "\<lambda>value. value\<lparr>v_pkt := v_pkt value + 1, v_bytes := v_bytes value + pd_len pdata\<rparr>"
  let ?d = "\<lparr>v_stime = 0, v_pkt = 1, v_bytes = pd_len pdata\<rparr>"
  obtain t' where t': "(case i_tree_lookup t ?k of Some _ \<Rightarrow> Some (i_tree_update_value t ?k ?f) | None \<Rightarrow> map_option fst (i_tree_insert True t ?k ?d)) = Some t'"
      "tree_inv ip_compare t'" "tree_map t' = (tree_map t)(?k \<mapsto> (case tree_map t ?k of None \<Rightarrow> ?d | Some v \<Rightarrow> ?f v))"
    using ip_keys.tree.upsert [OF assms(1), where k = ?k and f = ?f and d = ?d] by blast
  then have "ip_acct (True, True, True) pad pinfo pdata st = Some (1, st\<lparr>ag_ip := Some t'\<rparr>)"
    using assms by (auto simp: ip_acct_def Let_def bind_eq_Some_conv split: option.splits)
  with t' show ?thesis by (auto simp: add_packets_def split: option.splits)
qed

lemma add_packets_Cons:
  "packet_key p = k \<Longrightarrow> add_packets v (p # key_packets k ps) = add_packets (Some (the (add_packets v [p]))) (key_packets k ps)"
  by (cases p) (auto simp: add_packets_def algebra_simps split: option.splits)

lemma ip_acct_all_map:
  assumes "tree_inv ip_compare t" and "ag_ip st = Some t" and "\<not> ip_locked st"
  shows "\<exists>t'. ip_acct_all ps st = Some (st\<lparr>ag_ip := Some t'\<rparr>) \<and> tree_inv ip_compare t' \<and>
           (\<forall>k. tree_map t' k = add_packets (tree_map t k) (key_packets k ps))"
  using assms
proof (induction ps arbitrary: t st)
  case Nil
  then show ?case
    by (intro exI [of _ t]) (auto simp: add_packets_def key_packets_def split: option.splits)
next
  case (Cons p ps)
  obtain pad pinfo pdata where p: "p = (pad, pinfo, pdata)" by (cases p)
  let ?k = "acct_key pad pinfo pdata"
  obtain t1 where t1: "ip_acct (True, True, True) pad pinfo pdata st = Some (1, st\<lparr>ag_ip := Some t1\<rparr>)" "tree_inv ip_compare t1"
      "tree_map t1 = (tree_map t)(?k \<mapsto> the (add_packets (tree_map t ?k) [p]))"
    using ip_acct_step [OF Cons.prems, of pad pinfo pdata] p by blast
  obtain t' where t': "ip_acct_all ps (st\<lparr>ag_ip := Some t1\<rparr>) = Some (st\<lparr>ag_ip := Some t'\<rparr>)" "tree_inv ip_compare t'"
      "\<forall>k. tree_map t' k = add_packets (tree_map t1 k) (key_packets k ps)"
    using Cons.IH [OF t1(2), of "st\<lparr>ag_ip := Some t1\<rparr>"] Cons.prems(3) by auto
  have "tree_map t' k = add_packets (tree_map t k) (key_packets k (p # ps))" for k
  proof (cases "packet_key p = k")
    case True
    then have "key_packets k (p # ps) = p # key_packets k ps" by (simp add: key_packets_def)
    with True show ?thesis using t'(3) t1(3) add_packets_Cons [OF True, of "tree_map t k" ps] p by auto
  next
    case False
    then have "key_packets k (p # ps) = key_packets k ps" by (simp add: key_packets_def)
    with False show ?thesis using t'(3) t1(3) p by auto
  qed
  then show ?case using p t1 t' by auto
qed

section \<open>Exporting a tree\<close>

definition flow_bytes :: "ip_flow \<Rightarrow> (st_key \<times> st_value) list \<Rightarrow> nat" where
  "flow_bytes f xs = sum_list (map (\<lambda>(k, v). if flow_of k = f then unat (v_bytes v) else 0) xs)"

definition export_amounts :: "(st_key \<times> st_value) list \<Rightarrow> (ip_flow \<times> IP_size) set" where
  "export_amounts xs = (\<lambda>(k, v). (flow_of k, v_bytes v)) ` set xs"

lemma ip_run_books:
  assumes ct: "counter_table api rows ip_count_stmt ip_update_stmt ip_insert_stmt S"
    and S: "export_amounts xs \<subseteq> S" and d: "distinct (map fst (rows w))"
  shows "\<exists>exported w'. snd (run_until (ip_traverse_sync (Some api) bok sid) xs (Some w)) = Some w' \<and>
           subseq exported xs \<and> (bok \<longrightarrow> reliable api \<longrightarrow> exported = xs) \<and> distinct (map fst (rows w')) \<and>
           (\<forall>f. booked (rows w') f = booked (rows w) f + flow_bytes f exported)"
  using S d
proof (induction xs arbitrary: w)
  case Nil
  then show ?case by (intro exI [of _ "[]"] exI [of _ w]) (simp add: flow_bytes_def)
next
  case (Cons x xs)
  obtain k v where x: "x = (k, v)" by (cases x)
  have "(flow_of k, v_bytes v) \<in> S" using Cons.prems(1) x by (auto simp: export_amounts_def)
  then obtain r w1 where r: "export_retry 3 (ip_export (Some api) bok sid k (v_bytes v)) w = Some (r, w1)"
      "bok \<longrightarrow> reliable api \<longrightarrow> r" "distinct (map fst (rows w1))"
      "\<forall>g. booked (rows w1) g = booked (rows w) g + (if r \<and> g = flow_of k then unat (v_bytes v) else 0)"
    using ip_rows.retry_books [OF ct _ Cons.prems(2), of k "v_bytes v" 3 bok sid] by blast
  have "export_amounts xs \<subseteq> S" using Cons.prems(1) by (auto simp: export_amounts_def)
  then obtain ex w' where ex: "snd (run_until (ip_traverse_sync (Some api) bok sid) xs (Some w1)) = Some w'"
      "subseq ex xs" "bok \<longrightarrow> reliable api \<longrightarrow> ex = xs" "distinct (map fst (rows w'))"
      "\<forall>f. booked (rows w') f = booked (rows w1) f + flow_bytes f ex"
    using Cons.IH [OF _ r(3)] by blast
  let ?ex = "if r then x # ex else ex"
  have "snd (run_until (ip_traverse_sync (Some api) bok sid) (x # xs) (Some w)) = Some w'"
    using r(1) ex(1) x by (simp add: ip_traverse_sync_def)
  moreover have "\<forall>f. booked (rows w') f = booked (rows w) f + flow_bytes f ?ex"
    using ex(5) r(4) x by (auto simp: flow_bytes_def)
  ultimately show ?case
    using ex r(2) by (intro exI [of _ ?ex] exI [of _ w']) auto
qed

section \<open>Properties\<close>

definition empty_ip :: func_ip where
  "empty_ip = \<lparr>ag_ip = Some \<lparr>it_nnodes = 0, it_height = 0, it_root = INull, it_cmp_func = ip_compare\<rparr>, ip_flag_export = 0, ip_locked = False\<rparr>"

lemma empty_ip_inv: "\<exists>t. ag_ip empty_ip = Some t \<and> tree_inv ip_compare t \<and> tree_map t = Map.empty"
  by (auto simp: empty_ip_def tree_inv_def bst_def tree_map_def)

text \<open>
  C29 (aggregation). Starting from the empty tree of \<^verbatim>\<open>ip_init\<close>, accounting any sequence of packets with
  successful allocations never faults and groups the packets by key: the tree has an entry for a key
  exactly when a packet had that key, holding the number of these packets and the sum of their lengths (both
  modulo \<open>2 ^ 32\<close>).
\<close>

theorem ip_acct_groups:
  "\<exists>st' t'. ip_acct_all ps empty_ip = Some st' \<and> ag_ip st' = Some t' \<and> tree_inv ip_compare t' \<and>
     (\<forall>k. i_tree_lookup t' k =
        (if key_packets k ps = [] then None
         else Some \<lparr>v_stime = 0, v_pkt = of_nat (length (key_packets k ps)),
                    v_bytes = sum_list (map (\<lambda>(_, _, pdata). pd_len pdata) (key_packets k ps))\<rparr>))"
proof -
  obtain t where t: "ag_ip empty_ip = Some t" "tree_inv ip_compare t" "tree_map t = Map.empty"
    using empty_ip_inv by blast
  have "\<not> ip_locked empty_ip" by (simp add: empty_ip_def)
  then obtain t' where t': "ip_acct_all ps empty_ip = Some (empty_ip\<lparr>ag_ip := Some t'\<rparr>)" "tree_inv ip_compare t'"
      "\<forall>k. tree_map t' k = add_packets (tree_map t k) (key_packets k ps)"
    using ip_acct_all_map [OF t(2,1), of ps] by blast
  then show ?thesis
    using t(3) ip_keys.tree.lookup_amap [OF t'(2)] by (auto simp: add_packets_def)
qed

text \<open>
  C30 (export). With a database that treats \<^verbatim>\<open>Log_IP\<close> as SQL promises and holds at most one row per flow,
  the job empties the tree, clears its flag and books a subsequence of the old entries: the total of every flow
  grows by exactly the bytes of the entries exported for it, and still at most one row exists per flow. When the
  database refuses no statement and the buffers are allocated, all entries are exported.
\<close>

theorem ip_sync_books:
  assumes ct: "counter_table api rows ip_count_stmt ip_update_stmt ip_insert_stmt (export_amounts (inorder (it_root t)))"
    and d: "distinct (map fst (rows w))" and st: "ag_ip st = Some t" "\<not> ip_locked st" "ip_flag_export st = 0"
    and opened: "fst (sql_open api w) \<noteq> None"
  shows "\<exists>st' w' exported. ip_sync (Some api) True bok st w = Some (1, st', w') \<and>
           (\<exists>t'. ag_ip st' = Some t' \<and> it_root t' = INull) \<and> ip_flag_export st' = 0 \<and> \<not> ip_locked st' \<and>
           subseq exported (inorder (it_root t)) \<and>
           (bok \<longrightarrow> reliable api \<longrightarrow> exported = inorder (it_root t)) \<and> distinct (map fst (rows w')) \<and>
           (\<forall>f. booked (rows w') f = booked (rows w) f + flow_bytes f exported)"
proof -
  obtain sid w1 where o1: "sql_open api w = (Some sid, w1)" using opened by (cases "sql_open api w") auto
  have c: "\<forall>w. rows (snd (sql_open api w)) = rows w" "\<forall>sid w. rows (sql_close api sid w) = rows w"
    using ct by (auto simp only: counter_table_def)
  have w1: "rows w1 = rows w" using c(1) [rule_format, of w] o1 by simp
  obtain ex w2 where ex: "snd (run_until (ip_traverse_sync (Some api) bok sid) (inorder (it_root t)) (Some w1)) = Some w2"
      "subseq ex (inorder (it_root t))" "bok \<longrightarrow> reliable api \<longrightarrow> ex = inorder (it_root t)" "distinct (map fst (rows w2))"
      "\<forall>f. booked (rows w2) f = booked (rows w1) f + flow_bytes f ex"
    using ip_run_books [OF ct order_refl, of w1 bok sid] d w1 by auto
  let ?t' = "\<lparr>it_nnodes = 0, it_height = 0, it_root = INull, it_cmp_func = ip_compare\<rparr>"
  have "ip_sync (Some api) True bok st w = Some (1, st\<lparr>ag_ip := Some ?t', ip_flag_export := 0\<rparr>, sql_close api sid w2)"
    using st o1 ex(1) by (simp add: ip_sync_def i_tree_new_def traverse_run entries_def)
  then show ?thesis
    using st ex(2-5) c(2) w1 by (intro exI [of _ ex] exI [of _ "sql_close api sid w2"] exI [of _ "st\<lparr>ag_ip := Some ?t', ip_flag_export := 0\<rparr>"]) auto
qed

definition ex_key :: st_key where
  "ex_key = \<lparr>k_id_user = 7, k_proto = 6, k_direct = 2, k_pad1 = 0, k_addr = 0x0100A8C0, k_port = 80, k_pad2 = 0\<rparr>"

definition ex_ip :: func_ip where
  "ex_ip = empty_ip\<lparr>ag_ip := Some \<lparr>it_nnodes = 0, it_height = 0,
     it_root = INode 0 ex_key \<lparr>v_stime = 0, v_pkt = 2, v_bytes = 3000\<rparr> INull INull, it_cmp_func = ip_compare\<rparr>\<rparr>"

theorem ip_sync_books_witness:
  "\<exists>st' w' exported. ip_sync (Some (one_table_api ip_count_stmt ip_update_stmt ip_insert_stmt (flow_of ex_key) 3000)) True True ex_ip
       \<lparr>ot_rows = [(flow_of ex_key, 500)], ot_refusals = 1\<rparr> = Some (1, st', w') \<and>
     booked (ot_rows w') (flow_of ex_key) = 500 + flow_bytes (flow_of ex_key) exported"
proof -
  let ?api = "one_table_api ip_count_stmt ip_update_stmt ip_insert_stmt (flow_of ex_key) 3000"
  let ?w = "\<lparr>ot_rows = [(flow_of ex_key, 500)], ot_refusals = 1\<rparr>"
  have "ip_update_stmt (flow_of ex_key) 3000 \<noteq> ip_insert_stmt (flow_of ex_key) 3000"
    by (simp add: ip_update_stmt_def flow_of_def)
  then have "counter_table ?api ot_rows ip_count_stmt ip_update_stmt ip_insert_stmt (export_amounts (inorder (it_root (the (ag_ip ex_ip)))))"
    using counter_table_one [of ip_update_stmt "flow_of ex_key" 3000 ip_insert_stmt ip_count_stmt]
    by (simp add: ex_ip_def export_amounts_def)
  moreover have "ag_ip ex_ip = Some (the (ag_ip ex_ip))" "\<not> ip_locked ex_ip" "ip_flag_export ex_ip = 0"
    by (simp_all add: ex_ip_def empty_ip_def)
  moreover have "fst (sql_open ?api ?w) \<noteq> None" by (simp add: one_table_api_def)
  ultimately obtain st' w' ex where "ip_sync (Some ?api) True True ex_ip ?w = Some (1, st', w')"
      and b: "\<forall>f. booked (ot_rows w') f = booked (ot_rows ?w) f + flow_bytes f ex"
    using ip_sync_books [where api = ?api and rows = ot_rows and t = "the (ag_ip ex_ip)" and w = ?w and st = ex_ip and bok = True]
    by auto
  then show ?thesis using b [rule_format, of "flow_of ex_key"] by auto
qed

text \<open>
  Padding. Two packets of the same flow are counted in two entries whenever the stack held different bytes in
  the padding of the key: the tree distinguishes keys that stand for the same row of the report.
\<close>

theorem ip_acct_padding_splits:
  assumes "pad1 \<noteq> pad2"
  shows "\<exists>st' t' v1 v2. ip_acct_all [(pad1, pinfo, pdata), (pad2, pinfo, pdata)] empty_ip = Some st' \<and> ag_ip st' = Some t' \<and>
           i_tree_lookup t' (acct_key pad1 pinfo pdata) = Some v1 \<and> v_pkt v1 = 1 \<and>
           i_tree_lookup t' (acct_key pad2 pinfo pdata) = Some v2 \<and> v_pkt v2 = 1 \<and>
           flow_of (acct_key pad1 pinfo pdata) = flow_of (acct_key pad2 pinfo pdata)"
proof -
  let ?ps = "[(pad1, pinfo, pdata), (pad2, pinfo, pdata)]"
  have ne: "acct_key pad1 pinfo pdata \<noteq> acct_key pad2 pinfo pdata"
    using assms by (auto simp: acct_key_def prod_eq_iff)
  obtain t where t: "ag_ip empty_ip = Some t" "tree_inv ip_compare t" "tree_map t = Map.empty"
    using empty_ip_inv by blast
  have "\<not> ip_locked empty_ip" by (simp add: empty_ip_def)
  then obtain t' where t': "ip_acct_all ?ps empty_ip = Some (empty_ip\<lparr>ag_ip := Some t'\<rparr>)" "tree_inv ip_compare t'"
      "\<forall>k. tree_map t' k = add_packets (tree_map t k) (key_packets k ?ps)"
    using ip_acct_all_map [OF t(2,1), of ?ps] by blast
  moreover have "flow_of (acct_key pad1 pinfo pdata) = flow_of (acct_key pad2 pinfo pdata)"
    by (simp add: flow_of_def acct_key_def)
  ultimately show ?thesis
    using t(3) ne ip_keys.tree.lookup_amap [OF t'(2)] by (simp add: add_packets_def key_packets_def)
qed

theorem ip_acct_padding_splits_witness:
  "\<exists>st' t' v1 v2. ip_acct_all [((0, 0), ex_packet, ex_pd), ((0xBEEF, 0), ex_packet, ex_pd)] empty_ip = Some st' \<and> ag_ip st' = Some t' \<and>
     i_tree_lookup t' (acct_key (0, 0) ex_packet ex_pd) = Some v1 \<and> v_pkt v1 = 1 \<and>
     i_tree_lookup t' (acct_key (0xBEEF, 0) ex_packet ex_pd) = Some v2 \<and> v_pkt v2 = 1"
  using ip_acct_padding_splits [of "(0, 0)" "(0xBEEF, 0)" ex_packet ex_pd] by auto

text \<open>
  Lost module. When the job cannot allocate the new tree it returns with the mutex held, the export flag set
  and no tree; from then on every packet is refused and every later run of the job gives up at once, so
  nothing is accounted until the program restarts.
\<close>

theorem ip_sync_oom_disables:
  assumes "ip_flag_export st = 0" and "\<not> ip_locked st" and "fst (sql_open api w) \<noteq> None"
  shows "\<exists>st' w'. ip_sync (Some api) False bok st w = Some (0, st', w') \<and> ip_locked st' \<and>
           (\<forall>mem pad pinfo pdata. ip_acct mem pad pinfo pdata st' = Some (0, st')) \<and>
           (\<forall>ok bok' w2. ip_sync (Some api) ok bok' st' w2 = Some (0, st', w2))"
  using assms by (cases "sql_open api w") (auto simp: ip_sync_def i_tree_new_def ip_acct_def)

theorem ip_sync_oom_disables_witness:
  "\<exists>st' w'. ip_sync (Some (ledger_api [])) False True ex_ip \<lparr>ld_tx = None, ld_booked = 0, ld_log = []\<rparr> = Some (0, st', w') \<and>
     ip_acct (True, True, True) (0, 0) ex_packet ex_pd st' = Some (0, st')"
  using ip_sync_oom_disables [of ex_ip "ledger_api []" "\<lparr>ld_tx = None, ld_booked = 0, ld_log = []\<rparr>" True]
  by (auto simp: ex_ip_def empty_ip_def ledger_api_def)

end
