(* ===== verification/Func_Time.thy ===== *)
theory Func_Time
  imports Aggregation Core_Users
begin

text \<open>
  Aggregation of traffic per user (\<^verbatim>\<open>src/func_time.c\<close>). The module keeps an AVL tree from user
  numbers to counters. The counters are objects of their own: \<open>time_acct\<close> and the export of
  \<open>time_sync\<close> change them through the pointers stored in the tree, the latter while it traverses the
  tree. So the tree maps a user to a position of \<open>time_vals\<close>, the counters allocated so far. \<open>mem\<close>
  lists whether the allocations of the key, the counter and the tree node succeed.

  The main theorem, \<open>time_ledger\<close>, follows the traffic of a user through any sequence of accounted packets
  and export runs: what the database has booked and what is still pending add up to what was accounted.
\<close>

section \<open>State and operations\<close>

record func_time =
  ag_time :: "(IP_id, addr) ITree option"
  time_vals :: "IP_size list"

definition time_compare :: "IP_id \<Rightarrow> IP_id \<Rightarrow> int" where
  "time_compare a b = memcmp (le_bytes 4 a) (le_bytes 4 b)"

definition time_init ::
  "bool \<Rightarrow> bool \<Rightarrow> bool \<Rightarrow> int \<Rightarrow> int \<Rightarrow> func_time \<Rightarrow> (gboolean \<times> func_time \<times> registration list) option" where
  "time_init ok server sched timeout group_timeout st =
     (case i_tree_new ok time_compare of
        None \<Rightarrow> Some (0, st\<lparr>ag_time := None\<rparr>, [])
      | Some t \<Rightarrow> do {
          str \<leftarrow> sprintf_buf 20 (every_minutes timeout);
          gstr \<leftarrow> sprintf_buf 20 (every_minutes group_timeout);
          Some (1, st\<lparr>ag_time := Some t\<rparr>,
                (if server then [ServerReg ''time_aggregation''] else []) @
                (if sched then [SchedReg ''time_aggregation'' str] else []) @
                (if group_timeout \<noteq> 0 \<and> sched then [SchedReg ''time_group'' gstr] else []))
        })"

definition time_acct :: "bool \<times> bool \<times> bool \<Rightarrow> PACKET_DATA_INFO \<Rightarrow> func_time \<Rightarrow> (gboolean \<times> func_time) option" where
  "time_acct mem packet_data st =
     (case ag_time st of
        None \<Rightarrow> Some (0, st)
      | Some t \<Rightarrow>
          let id_user = pd_id_user packet_data
          in case i_tree_lookup t id_user of
               Some ptr \<Rightarrow>
                 if ptr < length (time_vals st)
                 then Some (1, st\<lparr>time_vals := (time_vals st)[ptr := time_vals st ! ptr + pd_len packet_data]\<rparr>)
                 else None
             | None \<Rightarrow>
                 let (key_ok, value_ok, node_ok) = mem
                 in if \<not> key_ok \<or> \<not> value_ok then Some (0, st)
                    else do {
                      (t', _) \<leftarrow> i_tree_insert node_ok t id_user (length (time_vals st));
                      Some (1, st\<lparr>ag_time := Some t', time_vals := time_vals st @ [pd_len packet_data]\<rparr>)
                    })"

definition time_count_stmt :: "IP_id \<Rightarrow> string" where
  "time_count_stmt id_user = ''select COUNT(id) from Log_Temp where id = '' @ fmt_u id_user"

definition time_update_stmt :: "IP_id \<Rightarrow> IP_size \<Rightarrow> string" where
  "time_update_stmt id_user sz = ''update Log_Temp SET Traffic = Traffic + '' @ fmt_u sz @ '' where id='' @ fmt_u id_user"

definition time_insert_stmt :: "IP_id \<Rightarrow> IP_size \<Rightarrow> string" where
  "time_insert_stmt id_user sz = ''insert into Log_Temp values ('' @ fmt_u id_user @ '', '' @ fmt_u sz @ '')''"

text \<open>The count is kept in an \<^verbatim>\<open>IP_flag\<close>: only its low eight bits are tested.\<close>

definition time_export ::
  "'w STORE_API option \<Rightarrow> bool \<Rightarrow> SQL_SESSION \<Rightarrow> IP_id \<Rightarrow> IP_size \<Rightarrow> 'w \<Rightarrow> (gboolean \<times> 'w) option" where
  "time_export store ok sid id_user sz w =
     (case store of
        None \<Rightarrow> Some (0, w)
      | Some api \<Rightarrow>
          if \<not> ok then Some (0, w)
          else do {
            q \<leftarrow> sprintf_buf 1024 (time_count_stmt id_user);
            let (res, w1) = sql_query api sid q w;
            case res of
              None \<Rightarrow> Some (0, w1)
            | Some [] \<Rightarrow> None
            | Some (row # _) \<Rightarrow> do {
                let flag_tmp = (conv (atoi (col row 0)) :: IP_flag);
                s \<leftarrow> sprintf_buf 1024 (if flag_tmp \<noteq> 0 then time_update_stmt id_user sz else time_insert_stmt id_user sz);
                let (done, w2) = sql_exec api sid s w1;
                Some (if done then 1 else 0, w2)
              }
          })"

definition time_traverse_sync ::
  "'w STORE_API option \<Rightarrow> bool \<Rightarrow> SQL_SESSION \<Rightarrow> (IP_id, addr, ('w \<times> IP_size list) option) ITraverseFunc" where
  "time_traverse_sync store ok sid id_user ptr s =
     (0, do {
        (w, vals) \<leftarrow> s;
        if \<not> ptr < length vals then None
        else do {
          let tmp = vals ! ptr;
          let vals1 = vals[ptr := vals ! ptr - tmp];
          (r, w1) \<leftarrow> time_export store ok sid id_user tmp w;
          Some (w1, if r \<noteq> 1 then vals1[ptr := vals1 ! ptr + tmp] else vals1)
        }
      })"

definition time_sync :: "'w STORE_API option \<Rightarrow> bool \<Rightarrow> func_time \<Rightarrow> 'w \<Rightarrow> (gboolean \<times> func_time \<times> 'w) option" where
  "time_sync store bok st w =
     (case store of
        None \<Rightarrow> Some (0, st, w)
      | Some api \<Rightarrow>
          (case sql_open api w of
             (None, w1) \<Rightarrow> Some (1, st, w1)
           | (Some sid, w1) \<Rightarrow> do {
               t \<leftarrow> ag_time st;
               s \<leftarrow> i_tree_traverse t (time_traverse_sync store bok sid) I_IN_ORDER (Some (w1, time_vals st));
               (w2, vals) \<leftarrow> s;
               Some (1, st\<lparr>time_vals := vals\<rparr>, sql_close api sid w2)
             }))"

definition time_free ::
  "'w STORE_API option \<Rightarrow> bool \<Rightarrow> bool \<Rightarrow> int \<Rightarrow> bool \<Rightarrow> func_time \<Rightarrow> 'w \<Rightarrow> (gboolean \<times> func_time \<times> registration list \<times> 'w) option" where
  "time_free store server sched group_timeout bok st w =
     (if ag_time st = None then Some (0, st, [], w)
      else do {
        (_, st1, w1) \<leftarrow> time_sync store bok st w;
        Some (1, st1\<lparr>ag_time := None\<rparr>,
          (if group_timeout \<noteq> 0 \<and> sched then [SchedUnreg ''time_group''] else []) @
          (if sched then [SchedUnreg ''time_aggregation''] else []) @
          (if server then [ServerUnreg ''time_aggregation''] else []), w1)
      })"

text \<open>The job that moves the collected traffic into the history, in one transaction.\<close>

definition time_group :: "'w STORE_API option \<Rightarrow> 'w \<Rightarrow> gboolean \<times> 'w" where
  "time_group store w =
     (case store of
        None \<Rightarrow> (0, w)
      | Some api \<Rightarrow>
          (case sql_open api w of
             (None, w1) \<Rightarrow> (1, w1)
           | (Some sid, w1) \<Rightarrow>
               let (ok, w2) = exec_all api sid
                     [''set autocommit=0'', ''start transaction'',
                      ''insert into Log_Time (Time, id_user, Traffic) select NOW(), id, Traffic from Log_Temp where Traffic!=0'',
                      ''update Log_Temp SET Traffic = 0'', ''commit''] w1
               in if ok then (1, sql_close api sid w2)
                  else (0, sql_close api sid (snd (sql_exec api sid ''rollback'' w2)))))"

definition time_traverse_print :: "IP_size list \<Rightarrow> (IP_id, addr, string list option) ITraverseFunc" where
  "time_traverse_print vals id_user ptr s =
     (0, do {
        sock \<leftarrow> s;
        if \<not> ptr < length vals then None
        else Some (send_to_socket (''| '' @ fmt_pad 8 (fmt_d id_user) @ '' | '' @ fmt_pad 20 (fmt_u (vals ! ptr)) @ '' |'' @ crlf) sock)
      })"

definition time_print :: "func_time \<Rightarrow> string list \<Rightarrow> (gboolean \<times> string list) option" where
  "time_print st sock = do {
     t \<leftarrow> ag_time st;
     let head = send_to_socket (dashes 77) (send_to_socket (''| '' @ fmt_pad 8 ''id_user'' @ '' | '' @ fmt_pad 20 ''Traffic'' @ '' |'' @ crlf)
          (send_to_socket (dashes 77) (send_to_socket (''Time Aggregations:'' @ crlf) sock)));
     s \<leftarrow> i_tree_traverse t (time_traverse_print (time_vals st)) I_IN_ORDER (Some head);
     body \<leftarrow> s;
     Some (1, send_to_socket (dashes 77) body)
   }"

definition time_job :: "string list \<Rightarrow> func_time \<Rightarrow> string list \<Rightarrow> (gboolean \<times> string list) option" where
  "time_job argv st sock =
     (if length argv = 1 \<and> strncmp (argv ! 0) ''help'' 4 = 0
      then Some (0, send_to_socket (''*  - show time      - Show time'' @ [CHR 0x60] @ ''s aggregation *'' @ crlf) sock)
      else if length argv = 2 \<and> strncmp (argv ! 0) ''show'' 4 = 0 \<and> strncmp (argv ! 1) ''time'' 4 = 0
      then do { (_, sock') \<leftarrow> time_print st sock; Some (1, sock') }
      else Some (0, sock))"

section \<open>Keys and statements\<close>

interpretation time_keys: comparator time_compare
  unfolding time_compare_def [abs_def] by (rule comparator_memcmp [where n = 4]) (auto dest: le_bytes_inject [rotated])

lemma time_stmts_fit:
  "length (time_count_stmt f) < 1024" "length (time_update_stmt f n) < 1024" "length (time_insert_stmt f n) < 1024"
  using length_fmt_u(1) [of f] length_fmt_u(1) [of n]
  by (simp_all add: time_count_stmt_def time_update_stmt_def time_insert_stmt_def)

interpretation time_rows: row_export "\<lambda>api. time_export (Some api)" "\<lambda>k. k" time_count_stmt time_update_stmt time_insert_stmt
    "\<lambda>i. (conv i :: IP_flag) \<noteq> 0"
  by unfold_locales (auto simp: time_export_def sprintf_buf_def time_stmts_fit Let_def conv_def split: prod.splits)

section \<open>The invariant and the pending traffic\<close>

text \<open>Every counter belongs to one user.\<close>

definition time_inv :: "func_time \<Rightarrow> bool" where
  "time_inv st \<longleftrightarrow> (\<exists>t. ag_time st = Some t \<and> tree_inv time_compare t \<and>
     (\<forall>k p. tree_map t k = Some p \<longrightarrow> p < length (time_vals st)) \<and>
     (\<forall>k k' p. tree_map t k = Some p \<longrightarrow> tree_map t k' = Some p \<longrightarrow> k = k'))"

definition time_pending :: "func_time \<Rightarrow> IP_id \<Rightarrow> IP_size" where
  "time_pending st id_user =
     (case ag_time st of None \<Rightarrow> 0
      | Some t \<Rightarrow> (case tree_map t id_user of None \<Rightarrow> 0 | Some p \<Rightarrow> time_vals st ! p))"

lemma time_acct_pending:
  assumes "time_inv st"
  shows "\<exists>st'. time_acct (True, True, True) pdata st = Some (1, st') \<and> time_inv st' \<and>
           (\<forall>u. time_pending st' u = time_pending st u + (if u = pd_id_user pdata then pd_len pdata else 0))"
proof -
  let ?u = "pd_id_user pdata"
  obtain t where t: "ag_time st = Some t" "tree_inv time_compare t"
      "\<forall>k p. tree_map t k = Some p \<longrightarrow> p < length (time_vals st)"
      "\<forall>k k' p. tree_map t k = Some p \<longrightarrow> tree_map t k' = Some p \<longrightarrow> k = k'"
    using assms by (auto simp: time_inv_def)
  have l: "i_tree_lookup t ?u = tree_map t ?u" by (rule time_keys.tree.lookup_amap [OF t(2)])
  show ?thesis
  proof (cases "tree_map t ?u")
    case (Some p)
    let ?st = "st\<lparr>time_vals := (time_vals st)[p := time_vals st ! p + pd_len pdata]\<rparr>"
    have "time_acct (True, True, True) pdata st = Some (1, ?st)"
      using Some t l by (simp add: time_acct_def Let_def)
    moreover have "time_inv ?st" using t by (auto simp: time_inv_def)
    moreover have "time_pending ?st u = time_pending st u + (if u = ?u then pd_len pdata else 0)" for u
    proof (cases "tree_map t u")
      case (Some q)
      have "p = q \<longleftrightarrow> u = ?u" using t(4) Some \<open>tree_map t ?u = Some p\<close> by auto
      then show ?thesis using Some t(1,3) by (auto simp: time_pending_def nth_list_update)
    qed (use Some t(1) in \<open>auto simp: time_pending_def\<close>)
    ultimately show ?thesis by blast
  next
    case None
    obtain t' where t': "i_tree_insert True t ?u (length (time_vals st)) = Some (t', True)" "tree_inv time_compare t'"
        "tree_map t' = (tree_map t)(?u \<mapsto> length (time_vals st))"
      using time_keys.tree.insert_amap [OF t(2), of ?u "length (time_vals st)"] None by auto
    let ?st = "st\<lparr>ag_time := Some t', time_vals := time_vals st @ [pd_len pdata]\<rparr>"
    have "time_acct (True, True, True) pdata st = Some (1, ?st)"
      using None t l t'(1) by (simp add: time_acct_def Let_def)
    moreover have "time_inv ?st"
      using t t'(2,3) by (fastforce simp: time_inv_def split: if_splits)
    moreover have "time_pending ?st u = time_pending st u + (if u = ?u then pd_len pdata else 0)" for u
      using t(1,3) t'(3) None by (auto simp: time_pending_def nth_append split: option.splits)
    ultimately show ?thesis by blast
  qed
qed

section \<open>Exporting the counters\<close>

lemma time_step_books:
  assumes ct: "counter_table api rows time_count_stmt time_update_stmt time_insert_stmt UNIV"
    and d: "distinct (map fst (rows w))" and p: "p < length vals"
  shows "\<exists>w1 v. time_traverse_sync (Some api) bok sid k p (Some (w, vals)) = (0, Some (w1, vals[p := v])) \<and>
           distinct (map fst (rows w1)) \<and> booked (rows w1) k + unat v = booked (rows w) k + unat (vals ! p) \<and>
           (\<forall>g. g \<noteq> k \<longrightarrow> booked (rows w1) g = booked (rows w) g) \<and> (bok \<longrightarrow> reliable api \<longrightarrow> v = 0)"
proof -
  obtain r w1 where r: "time_export (Some api) bok sid k (vals ! p) w = Some (r, w1)" "r \<in> {0, 1}"
      "bok \<longrightarrow> reliable api \<longrightarrow> r = 1" "distinct (map fst (rows w1))"
      "\<forall>g. booked (rows w1) g = booked (rows w) g + (if r = 1 \<and> g = k then unat (vals ! p) else 0)"
    using time_rows.export_books [OF ct _ d, of k "vals ! p" bok sid] by auto
  have "time_traverse_sync (Some api) bok sid k p (Some (w, vals)) =
      (0, Some (w1, vals[p := if r = 1 then 0 else vals ! p]))"
    using r(1) p by (simp add: time_traverse_sync_def Let_def)
  then show ?thesis using r(2-5) by (intro exI [of _ w1] exI [of _ "if r = 1 then 0 else vals ! p"]) auto
qed

lemma time_run_books:
  assumes ct: "counter_table api rows time_count_stmt time_update_stmt time_insert_stmt UNIV"
    and "distinct (map fst (rows w))" and "distinct (map fst xs)" and "distinct (map snd xs)" and "\<forall>p \<in> snd ` set xs. p < length vals"
  shows "\<exists>w' vals'. snd (run_until (time_traverse_sync (Some api) bok sid) xs (Some (w, vals))) = Some (w', vals') \<and>
           length vals' = length vals \<and> distinct (map fst (rows w')) \<and> (\<forall>p. p \<notin> snd ` set xs \<longrightarrow> vals' ! p = vals ! p) \<and>
           (\<forall>g. g \<notin> fst ` set xs \<longrightarrow> booked (rows w') g = booked (rows w) g) \<and>
           (\<forall>k p. (k, p) \<in> set xs \<longrightarrow> booked (rows w') k + unat (vals' ! p) = booked (rows w) k + unat (vals ! p) \<and>
              (bok \<longrightarrow> reliable api \<longrightarrow> vals' ! p = 0))"
  using assms(2-)
proof (induction xs arbitrary: w vals)
  case Nil
  then show ?case by simp
next
  case (Cons x xs)
  obtain k p where x: "x = (k, p)" by (cases x)
  have p: "p < length vals" using Cons.prems x by simp
  obtain w1 v where 1: "time_traverse_sync (Some api) bok sid k p (Some (w, vals)) = (0, Some (w1, vals[p := v]))"
      "distinct (map fst (rows w1))" "booked (rows w1) k + unat v = booked (rows w) k + unat (vals ! p)"
      "\<forall>g. g \<noteq> k \<longrightarrow> booked (rows w1) g = booked (rows w) g" "bok \<longrightarrow> reliable api \<longrightarrow> v = 0"
    using time_step_books [OF ct Cons.prems(1) p] by blast
  obtain w' vals' where 2: "snd (run_until (time_traverse_sync (Some api) bok sid) xs (Some (w1, vals[p := v]))) = Some (w', vals')"
      "length vals' = length vals" "distinct (map fst (rows w'))" "\<forall>q. q \<notin> snd ` set xs \<longrightarrow> vals' ! q = vals[p := v] ! q"
      "\<forall>g. g \<notin> fst ` set xs \<longrightarrow> booked (rows w') g = booked (rows w1) g"
      "\<forall>k q. (k, q) \<in> set xs \<longrightarrow> booked (rows w') k + unat (vals' ! q) = booked (rows w1) k + unat (vals[p := v] ! q) \<and>
         (bok \<longrightarrow> reliable api \<longrightarrow> vals' ! q = 0)"
    using Cons.IH [OF 1(2), of "vals[p := v]"] Cons.prems by auto
  have k: "k \<notin> fst ` set xs" "p \<notin> snd ` set xs" using Cons.prems x by auto
  have v: "vals' ! p = v" using 2(4) k(2) p by simp
  have "booked (rows w') j + unat (vals' ! q) = booked (rows w) j + unat (vals ! q) \<and> (bok \<longrightarrow> reliable api \<longrightarrow> vals' ! q = 0)"
    if "(j, q) \<in> set (x # xs)" for j q
  proof (cases "(j, q) = x")
    case True
    then show ?thesis using x v 2(5) k(1) 1(3,5) by auto
  next
    case False
    then have m: "(j, q) \<in> set xs" using that by auto
    then have "j \<noteq> k" "q \<noteq> p" using k by force+
    then show ?thesis using 2(6) m 1(4) by auto
  qed
  moreover have "snd (run_until (time_traverse_sync (Some api) bok sid) (x # xs) (Some (w, vals))) = Some (w', vals')"
    using 1(1) 2(1) x by simp
  moreover have "\<forall>q. q \<notin> snd ` set (x # xs) \<longrightarrow> vals' ! q = vals ! q" using 2(4) x by auto
  moreover have "\<forall>g. g \<notin> fst ` set (x # xs) \<longrightarrow> booked (rows w') g = booked (rows w) g" using 2(5) 1(4) x by auto
  ultimately show ?case using 2(2,3) by (intro exI [of _ w'] exI [of _ vals']) blast
qed

lemma inorder_pointers:
  assumes "tree_inv time_compare t" and inj: "\<forall>k k' p. tree_map t k = Some p \<longrightarrow> tree_map t k' = Some p \<longrightarrow> k = k'"
  shows "distinct (map fst (inorder (it_root t)))" and "distinct (map snd (inorder (it_root t)))"
    and "\<And>k p. tree_map t k = Some p \<longleftrightarrow> (k, p) \<in> set (inorder (it_root t))"
proof -
  let ?xs = "inorder (it_root t)"
  show d: "distinct (map fst ?xs)"
    using assms(1) time_keys.cmp_refl unfolding tree_inv_def bst_def distinct_conv_nth sorted_wrt_iff_nth_less
    by (metis less_irrefl nat_neq_iff)
  show m: "tree_map t k = Some p \<longleftrightarrow> (k, p) \<in> set ?xs" for k p
    using d by (simp add: tree_map_def)
  have "inj_on snd (set ?xs)"
    using inj m by (intro inj_onI) (metis prod.collapse)
  then show "distinct (map snd ?xs)" using d by (simp add: distinct_map)
qed

lemma time_sync_pending:
  assumes ct: "counter_table api rows time_count_stmt time_update_stmt time_insert_stmt UNIV"
    and d: "distinct (map fst (rows w))" and inv: "time_inv st"
  shows "\<exists>st' w'. time_sync (Some api) bok st w = Some (1, st', w') \<and> time_inv st' \<and> distinct (map fst (rows w')) \<and>
           (\<forall>u. booked (rows w') u + unat (time_pending st' u) = booked (rows w) u + unat (time_pending st u)) \<and>
           (bok \<longrightarrow> reliable api \<longrightarrow> (\<forall>u. time_pending st' u = 0))"
proof -
  obtain t where t: "ag_time st = Some t" "tree_inv time_compare t"
      "\<forall>k p. tree_map t k = Some p \<longrightarrow> p < length (time_vals st)"
      "\<forall>k k' p. tree_map t k = Some p \<longrightarrow> tree_map t k' = Some p \<longrightarrow> k = k'"
    using inv by (auto simp: time_inv_def)
  note ptr = inorder_pointers [OF t(2,4)]
  have c: "\<forall>w. rows (snd (sql_open api w)) = rows w" "\<forall>sid w. rows (sql_close api sid w) = rows w"
    using ct by (auto simp only: counter_table_def)
  show ?thesis
  proof (cases "fst (sql_open api w)")
    case None
    then have "\<not> reliable api" by (auto simp: reliable_def)
    then show ?thesis
      using None c(1) [rule_format, of w] inv d by (cases "sql_open api w") (auto simp: time_sync_def)
  next
    case (Some sid)
    then obtain w1 where o1: "sql_open api w = (Some sid, w1)" by (cases "sql_open api w") auto
    have w1: "rows w1 = rows w" using c(1) [rule_format, of w] o1 by simp
    obtain w2 vals where 2: "snd (run_until (time_traverse_sync (Some api) bok sid) (inorder (it_root t)) (Some (w1, time_vals st))) = Some (w2, vals)"
        "length vals = length (time_vals st)" "distinct (map fst (rows w2))"
        "\<forall>g. g \<notin> fst ` set (inorder (it_root t)) \<longrightarrow> booked (rows w2) g = booked (rows w1) g"
        "\<forall>k p. (k, p) \<in> set (inorder (it_root t)) \<longrightarrow> booked (rows w2) k + unat (vals ! p) = booked (rows w1) k + unat (time_vals st ! p) \<and>
          (bok \<longrightarrow> reliable api \<longrightarrow> vals ! p = 0)"
      using time_run_books [OF ct _ ptr(1,2), of w1 "time_vals st" bok sid] d w1 t(3) ptr(3) by force
    let ?st = "st\<lparr>time_vals := vals\<rparr>"
    have "time_sync (Some api) bok st w = Some (1, ?st, sql_close api sid w2)"
      using o1 t(1) 2(1) by (simp add: time_sync_def traverse_run entries_def)
    moreover have "time_inv ?st" using t 2(2) by (auto simp: time_inv_def)
    moreover have "booked (rows w2) u + unat (time_pending ?st u) = booked (rows w) u + unat (time_pending st u) \<and>
        (bok \<longrightarrow> reliable api \<longrightarrow> time_pending ?st u = 0)" for u
    proof (cases "tree_map t u")
      case None
      then have "u \<notin> fst ` set (inorder (it_root t))" using ptr(3) [of u] by force
      then show ?thesis using None 2(4) w1 t(1) by (simp add: time_pending_def)
    next
      case (Some p)
      then show ?thesis using 2(5) ptr(3) [of u p] w1 t(1) by (simp add: time_pending_def)
    qed
    ultimately show ?thesis using 2(3) c(2) by (intro exI [of _ ?st] exI [of _ "sql_close api sid w2"]) auto
  qed
qed

section \<open>Runs of the module\<close>

datatype time_op = TAcct PACKET_DATA_INFO | TSync bool

fun time_run :: "'w STORE_API \<Rightarrow> time_op list \<Rightarrow> func_time \<Rightarrow> 'w \<Rightarrow> (func_time \<times> 'w) option" where
  "time_run api [] st w = Some (st, w)"
| "time_run api (TAcct pdata # ops) st w = do {
     (_, st1) \<leftarrow> time_acct (True, True, True) pdata st;
     time_run api ops st1 w
   }"
| "time_run api (TSync bok # ops) st w = do {
     (_, st1, w1) \<leftarrow> time_sync (Some api) bok st w;
     time_run api ops st1 w1
   }"

fun accounted :: "IP_id \<Rightarrow> time_op list \<Rightarrow> IP_size" where
  "accounted u [] = 0"
| "accounted u (TAcct pdata # ops) = (if pd_id_user pdata = u then pd_len pdata else 0) + accounted u ops"
| "accounted u (TSync bok # ops) = accounted u ops"

lemma time_run_conserves:
  assumes ct: "counter_table api rows time_count_stmt time_update_stmt time_insert_stmt UNIV"
    and "distinct (map fst (rows w))" and "time_inv st"
  shows "\<exists>st' w'. time_run api ops st w = Some (st', w') \<and> time_inv st' \<and> distinct (map fst (rows w')) \<and>
           (\<forall>u. of_nat (booked (rows w') u) + time_pending st' u = of_nat (booked (rows w) u) + time_pending st u + accounted u ops)"
  using assms(2-)
proof (induction ops arbitrary: st w)
  case Nil
  then show ?case by simp
next
  case (Cons op ops)
  show ?case
  proof (cases op)
    case (TAcct pdata)
    obtain st1 where 1: "time_acct (True, True, True) pdata st = Some (1, st1)" "time_inv st1"
        "\<forall>u. time_pending st1 u = time_pending st u + (if u = pd_id_user pdata then pd_len pdata else 0)"
      using time_acct_pending [OF Cons.prems(2)] by blast
    show ?thesis using Cons.IH [OF Cons.prems(1) 1(2)] 1(1,3) TAcct by (auto simp: algebra_simps)
  next
    case (TSync bok)
    obtain st1 w1 where 1: "time_sync (Some api) bok st w = Some (1, st1, w1)" "time_inv st1" "distinct (map fst (rows w1))"
        "\<forall>u. booked (rows w1) u + unat (time_pending st1 u) = booked (rows w) u + unat (time_pending st u)"
      using time_sync_pending [OF ct Cons.prems, of bok] by blast
    have "of_nat (booked (rows w1) u) + time_pending st1 u = of_nat (booked (rows w) u) + time_pending st u" for u
      using arg_cong [OF 1(4) [rule_format, of u], of "of_nat :: nat \<Rightarrow> IP_size"] by simp
    then show ?thesis using Cons.IH [OF 1(3,2)] 1(1) TSync by auto
  qed
qed

text \<open>A database that reads the user and the amount off the statements of this module.\<close>

function numbers :: "string \<Rightarrow> nat list" where
  "numbers s =
     (let t = dropWhile (\<lambda>c. \<not> isdigit c) s
      in if t = [] then [] else nat (digits_val 0 t) # numbers (dropWhile isdigit t))"
  by pat_completeness auto
termination
proof (relation "measure length")
  fix s t assume t: "t = dropWhile (\<lambda>c. \<not> isdigit c) s" "t \<noteq> []"
  then have "isdigit (hd t)" using hd_dropWhile [of "\<lambda>c. \<not> isdigit c" s] by simp
  then have "length (dropWhile isdigit t) < length t"
    using t(2) length_dropWhile_le [of isdigit "tl t"] by (cases t) auto
  also have "\<dots> \<le> length s" using t(1) length_dropWhile_le [of "\<lambda>c. \<not> isdigit c" s] by simp
  finally show "(dropWhile isdigit t, s) \<in> measure length" by simp
qed simp

declare numbers.simps [simp del]

lemma numbers_show_nat:
  assumes "\<forall>c \<in> set lit. \<not> isdigit c" and "\<not> isdigit (chd rest)"
  shows "numbers (lit @ show_nat n @ rest) = n # numbers rest"
proof -
  have d: "\<forall>c \<in> set (show_nat n). isdigit c" by (blast intro: show_nat_digits)
  then have "isdigit (hd (show_nat n))" by simp
  then have 1: "dropWhile (\<lambda>c. \<not> isdigit c) (lit @ show_nat n @ rest) = show_nat n @ rest"
    using assms(1) by (cases "show_nat n") (auto simp: dropWhile_append)
  have 2: "dropWhile isdigit (show_nat n @ rest) = rest"
    using d assms(2) by (cases rest) (auto simp: dropWhile_append)
  have "digits_val 0 (show_nat n @ rest) = digits_val (int n) rest"
    using digits_val_append [of "show_nat n" 0 rest] d by (simp add: digits_val_show_nat)
  then have 3: "digits_val 0 (show_nat n @ rest) = int n" using assms(2) by (cases rest) auto
  show ?thesis by (subst numbers.simps) (simp add: 1 2 3 Let_def)
qed

lemma numbers_none: "\<forall>c \<in> set s. \<not> isdigit c \<Longrightarrow> numbers s = []"
  by (subst numbers.simps) (simp add: Let_def dropWhile_eq_Nil_conv)

definition log_temp_api :: "(IP_id \<times> nat) list STORE_API" where
  "log_temp_api =
     \<lparr>sql_open = (\<lambda>w. (Some 1, w)), sql_close = (\<lambda>sid w. w),
      sql_exec = (\<lambda>sid s w.
        (True, if chd s = CHR ''u'' then add_to_rows (of_nat (numbers s ! 1)) (numbers s ! 0) w
               else w @ [(of_nat (numbers s ! 0), numbers s ! 1)])),
      sql_query = (\<lambda>sid s w. (Some [[show_nat (length (filter (\<lambda>r. fst r = of_nat (numbers s ! 0)) w))]], w)),
      sql_list_tables = (\<lambda>sid s w. (Some [], w))\<rparr>"

lemma numbers_time_stmts:
  "numbers (time_count_stmt f) = [unat f]" "numbers (time_update_stmt f n) = [unat n, unat f]"
  "numbers (time_insert_stmt f n) = [unat f, unat n]"
proof -
  have [simp]: "numbers [] = []" "numbers '')'' = []" by (rule numbers_none, simp add: isdigit_def char_code_def)+
  show "numbers (time_count_stmt f) = [unat f]"
    using numbers_show_nat [of "''select COUNT(id) from Log_Temp where id = ''" "[]" "unat f"]
    by (simp add: time_count_stmt_def fmt_u_def isdigit_def char_code_def NUL_def)
  have "numbers ('' where id='' @ show_nat (unat f)) = [unat f]"
    using numbers_show_nat [of "'' where id=''" "[]" "unat f"] by (simp add: isdigit_def char_code_def NUL_def)
  then show "numbers (time_update_stmt f n) = [unat n, unat f]"
    using numbers_show_nat [of "''update Log_Temp SET Traffic = Traffic + ''" "'' where id='' @ show_nat (unat f)" "unat n"]
    by (simp add: time_update_stmt_def fmt_u_def isdigit_def char_code_def)
  have "numbers ('', '' @ show_nat (unat n) @ '')'') = [unat n]"
    using numbers_show_nat [of "'', ''" "'')''" "unat n"] by (simp add: isdigit_def char_code_def)
  then show "numbers (time_insert_stmt f n) = [unat f, unat n]"
    using numbers_show_nat [of "''insert into Log_Temp values (''" "'', '' @ show_nat (unat n) @ '')''" "unat f"]
    by (simp add: time_insert_stmt_def fmt_u_def isdigit_def char_code_def)
qed

lemma log_temp_contract: "counter_table log_temp_api (\<lambda>w. w) time_count_stmt time_update_stmt time_insert_stmt UNIV"
proof -
  have "chd (time_update_stmt f n) = CHR ''u''" "chd (time_insert_stmt f n) \<noteq> CHR ''u''" for f n
    by (simp_all add: time_update_stmt_def time_insert_stmt_def)
  then show ?thesis
    by (simp add: counter_table_def log_temp_api_def numbers_time_stmts)
qed

section \<open>Properties\<close>

definition empty_time :: func_time where
  "empty_time = \<lparr>ag_time = Some \<lparr>it_nnodes = 0, it_height = 0, it_root = INull, it_cmp_func = time_compare\<rparr>, time_vals = []\<rparr>"

lemma empty_time_inv: "time_inv empty_time" "time_pending empty_time u = 0"
  by (auto simp: time_inv_def time_pending_def empty_time_def tree_inv_def bst_def tree_map_def)

text \<open>
  C28 (ledger). Start with the empty tree and let packets be accounted and export jobs run in any order, on a
  database that treats \<^verbatim>\<open>Log_Temp\<close> as SQL promises but may refuse any statement. The module never faults,
  and for every user the traffic booked in the table plus the traffic still pending in the tree has grown by
  exactly the accounted packet lengths (modulo \<open>2 ^ 32\<close>, the width of the counters): failed exports lose nothing and nothing
  is booked twice.
\<close>

theorem time_ledger:
  assumes "counter_table api rows time_count_stmt time_update_stmt time_insert_stmt UNIV"
    and "distinct (map fst (rows w))"
  shows "\<exists>st' w'. time_run api ops empty_time w = Some (st', w') \<and> distinct (map fst (rows w')) \<and>
           (\<forall>u. of_nat (booked (rows w') u) + time_pending st' u = of_nat (booked (rows w) u) + accounted u ops)"
  using time_run_conserves [OF assms empty_time_inv(1), of ops] by (auto simp: empty_time_inv(2))

theorem time_ledger_witness:
  "\<exists>st' w'. time_run log_temp_api [TAcct ex_pd, TSync True, TAcct ex_pd, TSync False] empty_time [(7, 100)] = Some (st', w') \<and>
     of_nat (booked w' 7) + time_pending st' 7 = 3100"
proof -
  obtain st' w' where "time_run log_temp_api [TAcct ex_pd, TSync True, TAcct ex_pd, TSync False] empty_time [(7, 100)] = Some (st', w')"
      and "\<forall>u. of_nat (booked w' u) + time_pending st' u = of_nat (booked [(7, 100)] u) + accounted u [TAcct ex_pd, TSync True, TAcct ex_pd, TSync False]"
    using time_ledger [OF log_temp_contract, of "[(7, 100)]" "[TAcct ex_pd, TSync True, TAcct ex_pd, TSync False]"] by auto
  moreover have "of_nat (booked [(7, 100)] (7 :: IP_id)) + accounted 7 [TAcct ex_pd, TSync True, TAcct ex_pd, TSync False] = 3100"
    by (simp add: ex_pd_def)
  ultimately show ?thesis by auto
qed

text \<open>
  Flush. When the database refuses nothing and the export buffers are allocated, an export run books every pending
  counter and resets it to zero.
\<close>

theorem time_sync_flushes:
  assumes "counter_table api rows time_count_stmt time_update_stmt time_insert_stmt UNIV"
    and "distinct (map fst (rows w))" and "time_inv st" and "reliable api"
  shows "\<exists>st' w'. time_sync (Some api) True st w = Some (1, st', w') \<and>
           (\<forall>u. time_pending st' u = 0 \<and> booked (rows w') u = booked (rows w) u + unat (time_pending st u))"
  using time_sync_pending [OF assms(1-3), of True] assms(4) by fastforce

theorem time_sync_flushes_witness:
  "\<exists>st1 st' w'. time_acct (True, True, True) ex_pd empty_time = Some (1, st1) \<and>
     time_sync (Some log_temp_api) True st1 [(7, 100)] = Some (1, st', w') \<and> booked w' 7 = 1600"
proof -
  obtain st1 where st1: "time_acct (True, True, True) ex_pd empty_time = Some (1, st1)" "time_inv st1" "time_pending st1 7 = 1500"
    using time_acct_pending [OF empty_time_inv(1), of ex_pd] by (auto simp: empty_time_inv(2) ex_pd_def)
  have "reliable log_temp_api" by (simp add: reliable_def log_temp_api_def)
  then obtain st' w' where "time_sync (Some log_temp_api) True st1 [(7, 100)] = Some (1, st', w')"
      "booked w' 7 = booked [(7, 100)] 7 + unat (time_pending st1 7)"
    using time_sync_flushes [OF log_temp_contract _ st1(2), of "[(7, 100)]"] by auto
  then show ?thesis using st1 by auto
qed

end
