(* ===== verification/Func_Squid.thy ===== *)
theory Func_Squid
  imports Aggregation Core_Users "HOL-Library.Sublist"
begin

text \<open>
  Accounting of proxy requests (\<^verbatim>\<open>src/func_squid.c\<close>): every accounted request becomes a node at the head of
  a list, and the scheduled job \<open>squid_sync\<close> takes the list away and inserts its nodes into the table
  \<^verbatim>\<open>Log_Squid\<close>. \<open>mem\<close> tells whether the allocations of the node and of the list cell succeed;
  \<open>g_list_prepend\<close> returns \<^verbatim>\<open>NULL\<close> without a cell. The named pipe the module reads
  (\<^verbatim>\<open>fifo_create\<close>, \<^verbatim>\<open>fifo_open\<close>, \<^verbatim>\<open>fifo_close\<close>, \<^verbatim>\<open>fifo_read\<close>)
  is operating system work and not modelled, nor is the release of memory.

  What SQL promises for an append-only table is the predicate \<open>journal\<close>: an accepted statement is recorded
  once, a refused one not at all.
\<close>

section \<open>State and operations\<close>

record ACCT_SQUID_NODE =
  sn_id_user :: IP_id
  sn_url :: string
  sn_traffic :: IP_size

record func_squid =
  ag_squid :: "ACCT_SQUID_NODE list"
  sq_flag_export :: gboolean
  total_acct_query :: IP_size

definition squid_init :: "bool \<Rightarrow> bool \<Rightarrow> int \<Rightarrow> func_squid \<Rightarrow> (gboolean \<times> func_squid \<times> registration list) option" where
  "squid_init server sched timeout st = do {
     str \<leftarrow> sprintf_buf 20 (every_minutes timeout);
     Some (1, st\<lparr>ag_squid := []\<rparr>,
           (if server then [ServerReg ''squid_aggregation''] else []) @
           (if sched then [SchedReg ''squid_aggregation'' str] else []))
   }"

definition squid_acct :: "bool \<times> bool \<Rightarrow> string \<Rightarrow> SQUID_DATA_INFO \<Rightarrow> func_squid \<Rightarrow> gboolean \<times> func_squid" where
  "squid_acct mem url squid_data st =
     (if \<not> fst mem then (0, st)
      else let ptr = \<lparr>sn_id_user = sd_id_user squid_data, sn_url = strncpy (replicate 1024 NUL) url 1023,
                      sn_traffic = sd_len squid_data\<rparr>
           in (1, st\<lparr>ag_squid := (if snd mem then ptr # ag_squid st else []),
                     total_acct_query := total_acct_query st + 1\<rparr>))"

definition squid_stmt :: "IP_id \<Rightarrow> string \<Rightarrow> IP_size \<Rightarrow> string" where
  "squid_stmt id_user url traffic =
     ''insert into Log_Squid (Time, id_user, URL, Traffic) values (NOW(), '' @ fmt_d id_user @ '', '' @ squote @ url @ squote @
     '', '' @ fmt_u traffic @ '')''"

definition squid_export :: "'w STORE_API \<Rightarrow> bool \<Rightarrow> SQL_SESSION \<Rightarrow> ACCT_SQUID_NODE \<Rightarrow> 'w \<Rightarrow> (gboolean \<times> 'w) option" where
  "squid_export api ok sid node w =
     (if \<not> ok then Some (0, w)
      else do {
        s \<leftarrow> sprintf_buf 2048 (squid_stmt (sn_id_user node) (cstr (sn_url node)) (sn_traffic node));
        let (done, w1) = sql_exec api sid s w;
        Some (if done then 1 else 0, w1)
      })"

definition squid_traverse_sync :: "'w STORE_API \<Rightarrow> bool \<Rightarrow> SQL_SESSION \<Rightarrow> ACCT_SQUID_NODE \<Rightarrow> 'w \<Rightarrow> 'w option" where
  "squid_traverse_sync api ok sid node w = map_option snd (export_retry 3 (squid_export api ok sid node) w)"

fun squid_foreach :: "'w STORE_API \<Rightarrow> bool \<Rightarrow> SQL_SESSION \<Rightarrow> ACCT_SQUID_NODE list \<Rightarrow> 'w \<Rightarrow> 'w option" where
  "squid_foreach api ok sid [] w = Some w"
| "squid_foreach api ok sid (node # ns) w = do { w1 \<leftarrow> squid_traverse_sync api ok sid node w; squid_foreach api ok sid ns w1 }"

definition squid_sync :: "'w STORE_API option \<Rightarrow> bool \<Rightarrow> func_squid \<Rightarrow> 'w \<Rightarrow> (gboolean \<times> func_squid \<times> 'w) option" where
  "squid_sync store bok st w =
     (if sq_flag_export st \<noteq> 0 then Some (0, st, w)
      else case store of
        None \<Rightarrow> Some (0, st, w)
      | Some api \<Rightarrow>
          (case sql_open api w of
             (None, w1) \<Rightarrow> Some (1, st, w1)
           | (Some sid, w1) \<Rightarrow> do {
               w2 \<leftarrow> squid_foreach api bok sid (ag_squid st) w1;
               Some (1, st\<lparr>ag_squid := [], sq_flag_export := 0\<rparr>, sql_close api sid w2)
             }))"

definition squid_free ::
  "'w STORE_API option \<Rightarrow> bool \<Rightarrow> bool \<Rightarrow> bool \<Rightarrow> func_squid \<Rightarrow> 'w \<Rightarrow> (gboolean \<times> func_squid \<times> registration list \<times> 'w) option" where
  "squid_free store server sched bok st w =
     (if ag_squid st = [] then Some (0, st, [], w)
      else do {
        (_, st1, w1) \<leftarrow> squid_sync store bok st w;
        Some (1, st1\<lparr>ag_squid := []\<rparr>,
          (if server then [ServerUnreg ''squid_aggregation''] else []) @
          (if sched then [SchedUnreg ''squid_aggregation''] else []), w1)
      })"

definition squid_traverse_print :: "ACCT_SQUID_NODE \<Rightarrow> string list \<Rightarrow> string list" where
  "squid_traverse_print node sock =
     send_to_socket (''| '' @ fmt_pad 7 (fmt_d (sn_id_user node)) @ '' | '' @ fmt_pad 50 (cstr (sn_url node)) @ '' | '' @
       fmt_pad 8 (fmt_d (sn_traffic node)) @ '' |'' @ crlf) sock"

text \<open>The statistics of the collector that owns the module: queries in total, accepted, rejected, and the two connection states.\<close>

definition squid_print :: "IP_size \<times> IP_size \<times> IP_size \<Rightarrow> gboolean \<times> gboolean \<Rightarrow> func_squid \<Rightarrow> string list \<Rightarrow> string list" where
  "squid_print stats status st sock =
     (let (total_auth, success_auth, failed_auth) = stats;
          (status_socket, status_fifo) = status;
          connected = (\<lambda>b. if b = 1 then ''CONNECT'' else ''NOT CONNECT'');
          head = foldl (\<lambda>out msg. send_to_socket msg out) sock
            [''Squid Aggregations:'' @ crlf, dashes 75,
             ''| '' @ fmt_pad 7 ''id_user'' @ '' | '' @ fmt_pad 50 ''URL'' @ '' | '' @ fmt_pad 8 ''Traffic'' @ '' |'' @ crlf, dashes 75];
          body = fold squid_traverse_print (ag_squid st) head
      in foldl (\<lambda>out msg. send_to_socket msg out) body
           [dashes 75,
            ''Aggregate nodes - '' @ show_nat (length (ag_squid st)) @ crlf,
            ''Total auth query - '' @ fmt_d total_auth @ crlf,
            ''Total success auth query - '' @ fmt_d success_auth @ crlf,
            ''Total failed auth query - '' @ fmt_d failed_auth @ crlf,
            ''Total acct query - '' @ fmt_d (total_acct_query st) @ crlf,
            ''Status auth - '' @ connected status_socket @ crlf,
            ''Status acct - '' @ connected status_fifo @ crlf])"

definition squid_job ::
  "IP_size \<times> IP_size \<times> IP_size \<Rightarrow> gboolean \<times> gboolean \<Rightarrow> string list \<Rightarrow> func_squid \<Rightarrow> string list \<Rightarrow> gboolean \<times> string list" where
  "squid_job stats status argv st sock =
     (if length argv = 1 \<and> strncmp (argv ! 0) ''help'' 4 = 0
      then (0, send_to_socket (''*  - show squid     - Show squid aggregation  *'' @ crlf) sock)
      else if length argv = 2 \<and> strncmp (argv ! 0) ''show'' 4 = 0 \<and> strncmp (argv ! 1) ''squid'' 4 = 0
      then (1, squid_print stats status st sock)
      else (0, sock))"

section \<open>Exporting the list\<close>

definition journal :: "'w STORE_API \<Rightarrow> ('w \<Rightarrow> string list) \<Rightarrow> bool" where
  "journal api jr \<longleftrightarrow>
     (\<forall>w. jr (snd (sql_open api w)) = jr w) \<and> (\<forall>sid w. jr (sql_close api sid w) = jr w) \<and>
     (\<forall>sid s w. jr (snd (sql_exec api sid s w)) = (if fst (sql_exec api sid s w) then jr w @ [s] else jr w))"

definition node_stmt :: "ACCT_SQUID_NODE \<Rightarrow> string" where
  "node_stmt node = squid_stmt (sn_id_user node) (cstr (sn_url node)) (sn_traffic node)"

definition url_terminated :: "ACCT_SQUID_NODE \<Rightarrow> bool" where
  "url_terminated node \<longleftrightarrow> length (cstr (sn_url node)) \<le> 1023"

lemma node_stmt_fits: "url_terminated node \<Longrightarrow> length (node_stmt node) < 2048"
  using length_fmt_d [of "sn_id_user node"] length_fmt_u(1) [of "sn_traffic node"]
  by (simp add: node_stmt_def squid_stmt_def squote_def url_terminated_def)

lemma squid_export_journal:
  assumes j: "journal api jr" and u: "url_terminated node"
  shows "\<exists>d w'. squid_export api ok sid node w = Some (if d then 1 else 0, w') \<and> (ok \<longrightarrow> reliable api \<longrightarrow> d) \<and>
           jr w' = jr w @ (if d then [node_stmt node] else [])"
proof (cases ok)
  case False
  then show ?thesis by (intro exI [of _ False]) (simp add: squid_export_def)
next
  case True
  obtain d w1 where e: "sql_exec api sid (node_stmt node) w = (d, w1)" by fastforce
  have "jr w1 = (if d then jr w @ [node_stmt node] else jr w)"
    using j e unfolding journal_def by (metis fst_conv snd_conv)
  moreover have "reliable api \<Longrightarrow> d" using e unfolding reliable_def by (metis fst_conv)
  moreover have "squid_export api ok sid node w = Some (if d then 1 else 0, w1)"
    using True e node_stmt_fits [OF u] by (simp add: squid_export_def sprintf_buf_def node_stmt_def)
  ultimately show ?thesis by (intro exI [of _ d] exI [of _ w1]) simp
qed

lemma squid_retry:
  assumes j: "journal api jr" and u: "url_terminated node"
  shows "\<exists>r w'. export_retry n (squid_export api ok sid node) w = Some (r, w') \<and> (ok \<longrightarrow> reliable api \<longrightarrow> r) \<and>
           jr w' = jr w @ (if r then [node_stmt node] else [])"
proof (induction n arbitrary: w)
  case 0
  obtain d w1 where "squid_export api ok sid node w = Some (if d then 1 else 0, w1)" "ok \<longrightarrow> reliable api \<longrightarrow> d"
      "jr w1 = jr w @ (if d then [node_stmt node] else [])"
    using squid_export_journal [OF j u] by blast
  then show ?case by (intro exI [of _ d] exI [of _ w1]) (simp add: export_retry.simps)
next
  case (Suc n)
  obtain d w1 where d: "squid_export api ok sid node w = Some (if d then 1 else 0, w1)" "ok \<longrightarrow> reliable api \<longrightarrow> d"
      "jr w1 = jr w @ (if d then [node_stmt node] else [])"
    using squid_export_journal [OF j u] by blast
  show ?case
  proof (cases d)
    case True
    then show ?thesis using d by (intro exI [of _ True] exI [of _ w1]) (simp add: export_retry.simps)
  next
    case False
    then show ?thesis using d Suc.IH [of w1] by (simp add: export_retry.simps [of "Suc n"])
  qed
qed

lemma squid_foreach_books:
  assumes j: "journal api jr" and "\<forall>node \<in> set ns. url_terminated node"
  shows "\<exists>exported w'. squid_foreach api ok sid ns w = Some w' \<and> subseq exported ns \<and>
           (ok \<longrightarrow> reliable api \<longrightarrow> exported = ns) \<and> jr w' = jr w @ map node_stmt exported"
  using assms(2)
proof (induction ns arbitrary: w)
  case Nil
  then show ?case by (intro exI [of _ "[]"]) simp
next
  case (Cons node ns)
  obtain r w1 where r: "export_retry 3 (squid_export api ok sid node) w = Some (r, w1)" "ok \<longrightarrow> reliable api \<longrightarrow> r"
      "jr w1 = jr w @ (if r then [node_stmt node] else [])"
    using squid_retry [OF j, of node 3 ok sid w] Cons.prems by auto
  obtain ex w' where ex: "squid_foreach api ok sid ns w1 = Some w'" "subseq ex ns" "ok \<longrightarrow> reliable api \<longrightarrow> ex = ns"
      "jr w' = jr w1 @ map node_stmt ex"
    using Cons.IH [of w1] Cons.prems by auto
  show ?case
    using r ex by (intro exI [of _ "if r then node # ex else ex"] exI [of _ w']) (auto simp: squid_traverse_sync_def)
qed

section \<open>Properties\<close>

fun squid_acct_all :: "(string \<times> SQUID_DATA_INFO) list \<Rightarrow> func_squid \<Rightarrow> func_squid" where
  "squid_acct_all [] st = st"
| "squid_acct_all ((url, sdata) # rs) st = squid_acct_all rs (snd (squid_acct (True, True) url sdata st))"

definition request_stmt :: "string \<times> SQUID_DATA_INFO \<Rightarrow> string" where
  "request_stmt r = squid_stmt (sd_id_user (snd r)) (take 1023 (cstr (fst r))) (sd_len (snd r))"

lemma cstr_app_NUL: "cstr (xs @ NUL # ys) = cstr xs"
  by (induction xs) auto

lemma cstr_url_buffer: "cstr (strncpy (replicate 1024 NUL) url 1023) = take 1023 (cstr url)"
proof -
  let ?k = "1023 :: nat"
  have "drop ?k (replicate 1024 NUL) = [NUL]"
    using drop_replicate [of ?k 1024 NUL] by (simp add: numeral_eq_Suc)
  then have "strncpy (replicate 1024 NUL) url ?k = take ?k (cstr url @ replicate ?k NUL) @ NUL # []"
    by (simp add: strncpy_def)
  then have "cstr (strncpy (replicate 1024 NUL) url ?k) = take ?k (cstr (cstr url @ replicate ?k NUL))"
    by (simp only: cstr_app_NUL cstr_take)
  also have "cstr (cstr url @ replicate ?k NUL) = cstr url"
    using cstr_append_replicate [of "cstr url" ?k "[]"] by simp
  finally show ?thesis .
qed

lemma squid_acct_all_nodes:
  "map node_stmt (ag_squid (squid_acct_all rs st)) = rev (map request_stmt rs) @ map node_stmt (ag_squid st)"
  "sq_flag_export (squid_acct_all rs st) = sq_flag_export st"
  by (induction rs st rule: squid_acct_all.induct)
    (simp_all add: squid_acct_def Let_def node_stmt_def request_stmt_def cstr_url_buffer)

lemma squid_acct_all_urls:
  "\<forall>n \<in> set (ag_squid st). url_terminated n \<Longrightarrow> \<forall>n \<in> set (ag_squid (squid_acct_all rs st)). url_terminated n"
proof (induction rs st rule: squid_acct_all.induct)
  case (2 url sdata rs st)
  have "\<forall>n \<in> set (ag_squid (snd (squid_acct (True, True) url sdata st))). url_terminated n"
    using 2(2) by (auto simp: squid_acct_def Let_def url_terminated_def cstr_url_buffer)
  then show ?case using 2(1) by simp
qed simp

definition empty_squid :: func_squid where
  "empty_squid = \<lparr>ag_squid = [], sq_flag_export = 0, total_acct_query = 0\<rparr>"

text \<open>
  Proxy log. Account any sequence of requests, then run the job on a database that records accepted statements.
  The statements always fit their buffer; the journal grows by the insertions of a subsequence of the
  requests, newest first, each at most once and with its URL cut to 1023 characters; the list is empty
  afterwards. If the database refuses nothing, every request is recorded.
\<close>

theorem squid_sync_records:
  assumes "journal api jr" and "fst (sql_open api w) \<noteq> None"
  shows "\<exists>st' w' recorded. squid_sync (Some api) bok (squid_acct_all rs empty_squid) w = Some (1, st', w') \<and> ag_squid st' = [] \<and>
           jr w' = jr w @ recorded \<and> subseq recorded (rev (map request_stmt rs)) \<and>
           (bok \<longrightarrow> reliable api \<longrightarrow> recorded = rev (map request_stmt rs))"
proof -
  let ?st = "squid_acct_all rs empty_squid"
  have st: "map node_stmt (ag_squid ?st) = rev (map request_stmt rs)" "\<forall>n \<in> set (ag_squid ?st). url_terminated n" "sq_flag_export ?st = 0"
    using squid_acct_all_nodes [of rs empty_squid] squid_acct_all_urls [of empty_squid rs] by (auto simp: empty_squid_def)
  obtain sid w1 where o1: "sql_open api w = (Some sid, w1)" using assms(2) by (cases "sql_open api w") auto
  have c: "jr w1 = jr w" "\<forall>sid w. jr (sql_close api sid w) = jr w"
    using assms(1) o1 unfolding journal_def by (metis snd_conv, metis)
  obtain ex w2 where ex: "squid_foreach api bok sid (ag_squid ?st) w1 = Some w2" "subseq ex (ag_squid ?st)"
      "bok \<longrightarrow> reliable api \<longrightarrow> ex = ag_squid ?st" "jr w2 = jr w1 @ map node_stmt ex"
    using squid_foreach_books [OF assms(1) st(2)] by blast
  have "squid_sync (Some api) bok ?st w = Some (1, ?st\<lparr>ag_squid := [], sq_flag_export := 0\<rparr>, sql_close api sid w2)"
    using st(3) o1 ex(1) by (simp add: squid_sync_def)
  moreover have "subseq (map node_stmt ex) (rev (map request_stmt rs))"
    using subseq_map [OF ex(2), of node_stmt] st(1) by simp
  ultimately show ?thesis using ex(3,4) c st(1) by auto
qed

definition ex_sdata :: SQUID_DATA_INFO where
  "ex_sdata = \<lparr>sd_service = SERVICE_SQUID, sd_id_user = 7, sd_id_group_user = 0, sd_id_traffic_group = 0, sd_id_traffic_type = 0,
     sd_not_sum = 0, sd_len = 512\<rparr>"

lemma journal_ledger: "journal (ledger_api rows) ld_log" "reliable (ledger_api rows)"
  by (simp_all add: journal_def reliable_def ledger_api_def ledger_exec_def Let_def)

theorem squid_sync_records_witness:
  "\<exists>st' w'. squid_sync (Some (ledger_api [])) True (squid_acct_all [(''http://a/'', ex_sdata)] empty_squid)
       \<lparr>ld_tx = None, ld_booked = 0, ld_log = []\<rparr> = Some (1, st', w') \<and>
     ld_log w' = [request_stmt (''http://a/'', ex_sdata)]"
proof -
  have "fst (sql_open (ledger_api []) \<lparr>ld_tx = None, ld_booked = 0, ld_log = []\<rparr>) \<noteq> None" by (simp add: ledger_api_def)
  from squid_sync_records [OF journal_ledger(1) this, of True "[(''http://a/'', ex_sdata)]"] journal_ledger(2) [of "[]"]
  show ?thesis by auto
qed

end
