(* ===== verification/Threads.thy ===== *)
theory Threads
  imports Prelude
begin

unbundle bit_operations_syntax

text \<open>
  The thread pool of \<^verbatim>\<open>src/threads.c\<close>. Requests pass through a ring buffer to worker threads that
  wait on a semaphore. The model has two layers.

  \<^item> The operations: \<open>IPStat_spawn_thread\<close>, \<open>IPStat_drop_thread\<close>, the queue operations,
    \<open>IPStat_pool_addrequest\<close>, \<open>IPStat_pool_clean\<close>, \<open>IPStat_pool_init\<close>. The doubly linked
    list of handles is the list of handles from \<^verbatim>\<open>head\<close> to \<^verbatim>\<open>tail\<close>. A request is a
    pointer, 0 the null pointer. \<open>mem\<close> and \<open>tc\<close> tell whether \<^verbatim>\<open>malloc\<close> and
    \<^verbatim>\<open>pthread_create\<close> succeed. \<open>None\<close> is undefined behaviour: clearing a handle that
    was not allocated, or the \<^verbatim>\<open>memset\<close> of a grown queue, which starts at element
    \<open>sizeof(*new_queue) * queue_size\<close> of an array of \<open>2 * queue_size\<close> elements.
  \<^item> The workers: \<open>pool_run\<close> interleaves the operations of the main thread with the steps of the
    workers, one step per critical section of \<open>IPStat_request_handler\<close>. A handle carries the
    position of its thread in that function (\<open>worker_pc\<close>). The two lists are the requests
    accepted and the requests taken so far.

  The operations of the main thread are atomic: one thread calls them.
\<close>

section \<open>Data\<close>

definition THREAD_RUNNING :: int where "THREAD_RUNNING = 1"
definition THREAD_CANCELLED :: int where "THREAD_CANCELLED = 2"
definition THREAD_EXITED :: int where "THREAD_EXITED = 3"
definition STATUS_REQUEST :: int where "STATUS_REQUEST = 0"
definition STATUS_SLEEP :: int where "STATUS_SLEEP = 1"

lemmas thread_consts = THREAD_RUNNING_def THREAD_CANCELLED_def THREAD_EXITED_def STATUS_REQUEST_def STATUS_SLEEP_def

type_synonym request = nat

datatype worker_pc = Waiting | Woken | Dequeued request | Serving request | Served | Exited

record THREAD_HANDLE =
  th_num :: int
  th_status :: int
  th_request :: int
  th_request_count :: "32 word"
  th_timestamp :: time_t
  th_pc :: worker_pc

record INIT_POOL =
  ip_start_threads :: int
  ip_max_threads :: int
  ip_min_spare_threads :: int
  ip_max_spare_threads :: int
  ip_max_requests_per_thread :: "32 word"
  ip_cleanup_delay :: int

record THREAD_POOL =
  tp_handles :: "THREAD_HANDLE list"
  total_threads :: int
  max_thread_num :: int
  start_threads :: int
  max_threads :: int
  min_spare_threads :: int
  max_spare_threads :: int
  max_requests_per_thread :: "32 word"
  request_count :: "32 word"
  time_last_spawned :: time_t
  cleanup_delay :: int
  semaphore :: nat
  active_threads :: int
  queue_head :: nat
  queue_tail :: nat
  queue_size :: nat
  queue :: "request list"

section \<open>Threads\<close>

definition new_handle :: "int \<Rightarrow> time_t \<Rightarrow> THREAD_HANDLE" where
  "new_handle n now =
     \<lparr>th_num = n, th_status = THREAD_RUNNING, th_request = STATUS_SLEEP, th_request_count = 0, th_timestamp = now, th_pc = Waiting\<rparr>"

definition IPStat_spawn_thread :: "bool \<Rightarrow> bool \<Rightarrow> time_t \<Rightarrow> THREAD_POOL \<Rightarrow> (bool \<times> THREAD_POOL) option" where
  "IPStat_spawn_thread mem tc now pool =
     (if total_threads pool \<ge> max_threads pool then Some (False, pool)
      else if \<not> mem then None
      else let pool1 = pool\<lparr>max_thread_num := max_thread_num pool + 1\<rparr>
           in if \<not> tc then Some (False, pool1)
              else Some (True, pool1\<lparr>tp_handles := tp_handles pool @ [new_handle (max_thread_num pool) now],
                                     total_threads := total_threads pool + 1, time_last_spawned := now\<rparr>))"

fun spawn_loop :: "nat \<Rightarrow> bool \<Rightarrow> bool \<Rightarrow> time_t \<Rightarrow> THREAD_POOL \<Rightarrow> (bool \<times> THREAD_POOL) option" where
  "spawn_loop 0 mem tc now pool = Some (True, pool)"
| "spawn_loop (Suc n) mem tc now pool = do {
     (ok, pool1) \<leftarrow> IPStat_spawn_thread mem tc now pool;
     if ok then spawn_loop n mem tc now pool1 else Some (False, pool1)
   }"

text \<open>Unlinking the handle at position \<open>i\<close>.\<close>

definition IPStat_drop_thread :: "nat \<Rightarrow> THREAD_POOL \<Rightarrow> THREAD_POOL" where
  "IPStat_drop_thread i pool =
     pool\<lparr>tp_handles := take i (tp_handles pool) @ drop (Suc i) (tp_handles pool), total_threads := total_threads pool - 1\<rparr>"

section \<open>The queue\<close>

definition num_entries :: "THREAD_POOL \<Rightarrow> nat" where
  "num_entries pool = (queue_tail pool + queue_size pool - queue_head pool) mod queue_size pool"

definition IPStat_request_dequeue :: "THREAD_POOL \<Rightarrow> request \<times> THREAD_POOL" where
  "IPStat_request_dequeue pool =
     (if queue_head pool = queue_tail pool then (0, pool)
      else (queue pool ! queue_head pool,
            pool\<lparr>queue_head := (queue_head pool + 1) AND (queue_size pool - 1), active_threads := active_threads pool + 1\<rparr>))"

text \<open>The flag tells whether the request was stored.\<close>

definition IPStat_request_enqueue :: "bool \<Rightarrow> request \<Rightarrow> THREAD_POOL \<Rightarrow> (bool \<times> THREAD_POOL) option" where
  "IPStat_request_enqueue mem req pool0 =
     (let pool1 = pool0\<lparr>request_count := request_count pool0 + 1\<rparr>;
          pool = (if queue_head pool1 = queue_tail pool1 \<and> queue_head pool1 \<noteq> 0
                  then pool1\<lparr>queue_head := 0, queue_tail := 0\<rparr> else pool1)
      in if num_entries pool = queue_size pool - 1 then
           if queue_size pool \<ge> 65536 then Some (False, pool)
           else if \<not> mem then Some (False, pool)
           else None
         else Some (True,
           pool\<lparr>queue := (queue pool)[queue_tail pool := req],
                queue_tail := (queue_tail pool + 1) AND (queue_size pool - 1),
                semaphore := semaphore pool + 1\<rparr>))"

definition IPStat_pool_addrequest :: "bool \<Rightarrow> bool \<Rightarrow> time_t \<Rightarrow> request \<Rightarrow> THREAD_POOL \<Rightarrow> (bool \<times> THREAD_POOL) option" where
  "IPStat_pool_addrequest mem tc now req pool = do {
     (_, pool1) \<leftarrow> (if active_threads pool = total_threads pool then IPStat_spawn_thread mem tc now pool else Some (True, pool));
     IPStat_request_enqueue mem req pool1
   }"

section \<open>The pool\<close>

fun clean_loop :: "nat \<Rightarrow> nat \<Rightarrow> THREAD_POOL \<Rightarrow> THREAD_POOL" where
  "clean_loop 0 i pool = pool"
| "clean_loop (Suc n) i pool =
     (if th_status (tp_handles pool ! i) = THREAD_EXITED then clean_loop n i (IPStat_drop_thread i pool)
      else clean_loop n (Suc i) pool)"

definition idle :: "THREAD_HANDLE \<Rightarrow> bool" where
  "idle h \<longleftrightarrow> th_request h = STATUS_SLEEP \<and> th_status h = THREAD_RUNNING"

definition cancel :: "THREAD_HANDLE \<Rightarrow> THREAD_HANDLE" where
  "cancel h = h\<lparr>th_status := THREAD_CANCELLED\<rparr>"

definition cancel_spare :: "THREAD_POOL \<Rightarrow> THREAD_POOL" where
  "cancel_spare pool =
     (if \<exists>h \<in> set (tp_handles pool). idle h
      then pool\<lparr>tp_handles := update_first idle cancel (tp_handles pool), semaphore := semaphore pool + 1\<rparr>
      else pool)"

definition worn_out :: "32 word \<Rightarrow> THREAD_HANDLE \<Rightarrow> bool" where
  "worn_out m h \<longleftrightarrow> idle h \<and> th_request_count h > m"

definition cancel_worn_out :: "THREAD_POOL \<Rightarrow> THREAD_POOL" where
  "cancel_worn_out pool =
     (let m = max_requests_per_thread pool
      in pool\<lparr>tp_handles := map (\<lambda>h. if worn_out m h then cancel h else h) (tp_handles pool),
              semaphore := semaphore pool + length (filter (worn_out m) (tp_handles pool))\<rparr>)"

text \<open>\<open>last_cleaned\<close> is the static variable of the function.\<close>

definition IPStat_pool_clean ::
  "bool \<Rightarrow> bool \<Rightarrow> time_t \<Rightarrow> time_t \<Rightarrow> THREAD_POOL \<Rightarrow> (int \<times> time_t \<times> THREAD_POOL) option" where
  "IPStat_pool_clean mem tc now last_cleaned pool0 =
     (let pool = clean_loop (length (tp_handles pool0)) 0 pool0;
          spare = total_threads pool - active_threads pool
      in if spare < min_spare_threads pool then do {
           (ok, pool1) \<leftarrow> spawn_loop (nat (min_spare_threads pool - spare)) mem tc now pool;
           Some (if ok then 1 else 0, last_cleaned, pool1)
         }
         else if now = last_cleaned then Some (1, last_cleaned, pool)
         else if now - time_last_spawned pool < cleanup_delay pool then Some (1, now, pool)
         else let pool1 = (if spare > max_spare_threads pool then cancel_spare pool else pool);
                  pool2 = (if max_requests_per_thread pool > 0 then cancel_worn_out pool1 else pool1)
              in Some (1, now, pool2))"

text \<open>
  \<open>mem\<close> lists the allocations of the pool, the queue and the handles. Without a queue the function frees the pool
  and then destroys the semaphore inside it.
\<close>

definition IPStat_pool_init ::
  "bool \<times> bool \<times> bool \<Rightarrow> bool \<Rightarrow> bool \<Rightarrow> time_t \<Rightarrow> INIT_POOL option \<Rightarrow> (THREAD_POOL option) option" where
  "IPStat_pool_init mem sem_ok tc now init_pool =
     (if \<not> fst mem \<or> \<not> sem_ok then Some None
      else if \<not> fst (snd mem) then None
      else let c = (case init_pool of Some c \<Rightarrow> c | None \<Rightarrow>
                 \<lparr>ip_start_threads = 5, ip_max_threads = 12, ip_min_spare_threads = 3, ip_max_spare_threads = 20,
                  ip_max_requests_per_thread = 0, ip_cleanup_delay = 5\<rparr>);
               pool = \<lparr>tp_handles = [], total_threads = 0, max_thread_num = 1, start_threads = ip_start_threads c,
                       max_threads = ip_max_threads c, min_spare_threads = ip_min_spare_threads c,
                       max_spare_threads = ip_max_spare_threads c, max_requests_per_thread = ip_max_requests_per_thread c,
                       request_count = 0, time_last_spawned = 0, cleanup_delay = ip_cleanup_delay c, semaphore = 0,
                       active_threads = 0, queue_head = 0, queue_tail = 0, queue_size = 256, queue = replicate 256 0\<rparr>
           in do {
             (ok, pool1) \<leftarrow> spawn_loop (nat (start_threads pool)) (snd (snd mem)) tc now pool;
             Some (if ok then Some pool1 else None)
           })"

section \<open>The workers\<close>

definition set_handle :: "nat \<Rightarrow> THREAD_HANDLE \<Rightarrow> THREAD_POOL \<Rightarrow> THREAD_POOL" where
  "set_handle i h pool = pool\<lparr>tp_handles := (tp_handles pool)[i := h]\<rparr>"

text \<open>The test at the end of the loop.\<close>

definition loop_end :: "THREAD_HANDLE \<Rightarrow> THREAD_HANDLE" where
  "loop_end h = (if th_status h \<noteq> THREAD_CANCELLED then h\<lparr>th_pc := Waiting\<rparr> else h\<lparr>th_status := THREAD_EXITED, th_pc := Exited\<rparr>)"

text \<open>
  The next step of the thread with handle \<open>h\<close> at position \<open>i\<close>: the new pool and the request it
  takes from the queue, if any. A waiting thread is woken when the semaphore allows it; otherwise its wait
  times out and it ends if it has been cancelled.
\<close>

definition IPStat_request_handler :: "nat \<Rightarrow> THREAD_HANDLE \<Rightarrow> THREAD_POOL \<Rightarrow> THREAD_POOL \<times> request list" where
  "IPStat_request_handler i h pool =
     (case th_pc h of
        Waiting \<Rightarrow>
          if semaphore pool > 0 then (set_handle i (h\<lparr>th_pc := Woken\<rparr>) (pool\<lparr>semaphore := semaphore pool - 1\<rparr>), [])
          else if th_status h = THREAD_CANCELLED then (set_handle i (h\<lparr>th_status := THREAD_EXITED, th_pc := Exited\<rparr>) pool, [])
          else (pool, [])
      | Woken \<Rightarrow>
          (case IPStat_request_dequeue pool of (req, pool1) \<Rightarrow>
             if req = 0 then (set_handle i (loop_end h) pool1, [])
             else (set_handle i (h\<lparr>th_pc := Dequeued req\<rparr>) pool1, [req]))
      | Dequeued req \<Rightarrow>
          (set_handle i (h\<lparr>th_request_count := th_request_count h + 1, th_request := STATUS_REQUEST, th_pc := Serving req\<rparr>) pool, [])
      | Serving req \<Rightarrow> (set_handle i (h\<lparr>th_request := STATUS_SLEEP, th_pc := Served\<rparr>) pool, [])
      | Served \<Rightarrow> (set_handle i (loop_end h) (pool\<lparr>active_threads := active_threads pool - 1\<rparr>), [])
      | Exited \<Rightarrow> (pool, []))"

inductive pool_run :: "THREAD_POOL \<Rightarrow> THREAD_POOL \<Rightarrow> request list \<Rightarrow> request list \<Rightarrow> bool" for pool0 where
  start: "pool_run pool0 pool0 [] []"
| add: "pool_run pool0 pool acc tak \<Longrightarrow> req \<noteq> 0 \<Longrightarrow> IPStat_pool_addrequest mem tc now req pool = Some (stored, pool') \<Longrightarrow>
    pool_run pool0 pool' (if stored then acc @ [req] else acc) tak"
| clean: "pool_run pool0 pool acc tak \<Longrightarrow> IPStat_pool_clean mem tc now lc pool = Some (r, lc', pool') \<Longrightarrow>
    pool_run pool0 pool' acc tak"
| work: "pool_run pool0 pool acc tak \<Longrightarrow> i < length (tp_handles pool) \<Longrightarrow>
    IPStat_request_handler i (tp_handles pool ! i) pool = (pool', taken) \<Longrightarrow> pool_run pool0 pool' acc (tak @ taken)"

section \<open>The ring buffer is a queue\<close>

definition ring_inv :: "THREAD_POOL \<Rightarrow> bool" where
  "ring_inv pool \<longleftrightarrow> (\<exists>k. queue_size pool = 2 ^ k) \<and> length (queue pool) = queue_size pool \<and>
     queue_head pool < queue_size pool \<and> queue_tail pool < queue_size pool"

definition contents :: "THREAD_POOL \<Rightarrow> request list" where
  "contents pool = map (\<lambda>i. queue pool ! ((queue_head pool + i) mod queue_size pool)) [0..<num_entries pool]"

lemma queue_frame [simp]:
  "num_entries (pool\<lparr>active_threads := a\<rparr>) = num_entries pool" "num_entries (pool\<lparr>tp_handles := hs\<rparr>) = num_entries pool"
  "num_entries (pool\<lparr>semaphore := s\<rparr>) = num_entries pool" "num_entries (pool\<lparr>request_count := c\<rparr>) = num_entries pool"
  "num_entries (pool\<lparr>total_threads := n\<rparr>) = num_entries pool" "num_entries (pool\<lparr>max_thread_num := n\<rparr>) = num_entries pool"
  "num_entries (pool\<lparr>time_last_spawned := tm\<rparr>) = num_entries pool"
  "contents (pool\<lparr>active_threads := a\<rparr>) = contents pool" "contents (pool\<lparr>tp_handles := hs\<rparr>) = contents pool"
  "contents (pool\<lparr>semaphore := s\<rparr>) = contents pool" "contents (pool\<lparr>request_count := c\<rparr>) = contents pool"
  "contents (pool\<lparr>total_threads := n\<rparr>) = contents pool" "contents (pool\<lparr>max_thread_num := n\<rparr>) = contents pool"
  "contents (pool\<lparr>time_last_spawned := tm\<rparr>) = contents pool"
  "ring_inv (pool\<lparr>active_threads := a\<rparr>) = ring_inv pool" "ring_inv (pool\<lparr>tp_handles := hs\<rparr>) = ring_inv pool"
  "ring_inv (pool\<lparr>semaphore := s\<rparr>) = ring_inv pool" "ring_inv (pool\<lparr>request_count := c\<rparr>) = ring_inv pool"
  "ring_inv (pool\<lparr>total_threads := n\<rparr>) = ring_inv pool" "ring_inv (pool\<lparr>max_thread_num := n\<rparr>) = ring_inv pool"
  "ring_inv (pool\<lparr>time_last_spawned := tm\<rparr>) = ring_inv pool"
  by (simp_all add: num_entries_def contents_def ring_inv_def)

lemma and_size_mod: "n AND (2 ^ k - 1) = n mod (2 ^ k :: nat)"
  by (simp add: take_bit_eq_mask mask_eq_exp_minus_1 flip: take_bit_eq_mod)

lemma num_entries_cases:
  "ring_inv pool \<Longrightarrow> num_entries pool =
     (if queue_head pool \<le> queue_tail pool then queue_tail pool - queue_head pool
      else queue_tail pool + queue_size pool - queue_head pool)"
  by (auto simp: num_entries_def ring_inv_def mod_if)

lemma num_entries_less: "ring_inv pool \<Longrightarrow> num_entries pool < queue_size pool"
  by (simp add: num_entries_def ring_inv_def)

lemma next_index: "ring_inv pool \<Longrightarrow> n < queue_size pool \<Longrightarrow>
    (n + 1) AND (queue_size pool - 1) = (if n + 1 = queue_size pool then 0 else n + 1)"
  using and_size_mod [of "n + 1"] by (auto simp: ring_inv_def)

lemma length_contents [simp]: "length (contents pool) = num_entries pool"
  by (simp add: contents_def)

lemma contents_empty: "ring_inv pool \<Longrightarrow> contents pool = [] \<longleftrightarrow> queue_head pool = queue_tail pool"
  using num_entries_cases [of pool] by (auto simp: contents_def ring_inv_def split: if_splits)

lemma dequeue_contents:
  assumes inv: "ring_inv pool" and ne: "queue_head pool \<noteq> queue_tail pool"
  shows "\<exists>h. IPStat_request_dequeue pool = (queue pool ! queue_head pool, pool\<lparr>queue_head := h, active_threads := active_threads pool + 1\<rparr>) \<and>
           ring_inv (pool\<lparr>queue_head := h\<rparr>) \<and> contents pool = queue pool ! queue_head pool # contents (pool\<lparr>queue_head := h\<rparr>)"
proof -
  let ?n = "queue_size pool"
  let ?p = "pool\<lparr>queue_head := (queue_head pool + 1) AND (?n - 1)\<rparr>"
  have h: "queue_head pool < ?n" using inv by (simp add: ring_inv_def)
  have ri: "ring_inv ?p" using inv h next_index [OF inv h] by (auto simp: ring_inv_def)
  have hm: "queue_head ?p = (queue_head pool + 1) mod ?n" using next_index [OF inv h] h by auto
  have n: "num_entries pool = Suc (num_entries ?p)"
    using num_entries_cases [OF inv] num_entries_cases [OF ri] next_index [OF inv h] ne h inv
    by (auto simp: ring_inv_def split: if_splits)
  have "contents pool = queue pool ! queue_head pool # map (\<lambda>i. queue pool ! ((queue_head pool + Suc i) mod ?n)) [0..<num_entries ?p]"
    using h by (simp only: contents_def n upt_conv_Cons map_Suc_upt [symmetric] zero_less_Suc list.map map_map) (simp add: comp_def)
  also have "map (\<lambda>i. queue pool ! ((queue_head pool + Suc i) mod ?n)) [0..<num_entries ?p] = contents ?p"
    unfolding contents_def hm by (simp add: mod_add_left_eq)
  finally show ?thesis using ri ne by (intro exI [of _ "queue_head ?p"]) (simp add: IPStat_request_dequeue_def)
qed

lemma contents_reset:
  "ring_inv pool \<Longrightarrow> queue_head pool = queue_tail pool \<Longrightarrow> contents (pool\<lparr>queue_head := 0, queue_tail := 0\<rparr>) = contents pool"
  by (simp add: contents_def num_entries_def)

lemma store_contents:
  assumes inv: "ring_inv pool" and room: "Suc (num_entries pool) < queue_size pool"
  shows "ring_inv (pool\<lparr>queue := (queue pool)[queue_tail pool := req], queue_tail := (queue_tail pool + 1) AND (queue_size pool - 1), semaphore := s\<rparr>)"
    and "contents (pool\<lparr>queue := (queue pool)[queue_tail pool := req], queue_tail := (queue_tail pool + 1) AND (queue_size pool - 1), semaphore := s\<rparr>) =
           contents pool @ [req]"
proof -
  let ?n = "queue_size pool"
  let ?p = "pool\<lparr>queue := (queue pool)[queue_tail pool := req], queue_tail := (queue_tail pool + 1) AND (?n - 1), semaphore := s\<rparr>"
  have b: "queue_tail pool < ?n" "queue_head pool < ?n" "length (queue pool) = ?n" using inv by (simp_all add: ring_inv_def)
  show ri: "ring_inv ?p" using inv b next_index [OF inv b(1)] by (auto simp: ring_inv_def)
  have n: "num_entries ?p = Suc (num_entries pool)"
    using num_entries_cases [OF inv] num_entries_cases [OF ri] next_index [OF inv b(1)] b room
    by (auto split: if_splits)
  have m: "(queue_head pool + i) mod ?n = (if queue_head pool + i < ?n then queue_head pool + i else queue_head pool + i - ?n)"
    if "i < ?n" for i
    using b that by (simp add: mod_if)
  have e: "num_entries pool < ?n" using room by simp
  have t: "(queue_head pool + num_entries pool) mod ?n = queue_tail pool"
    unfolding m [OF e] num_entries_cases [OF inv] using b by simp
  have "(queue_head pool + i) mod ?n \<noteq> queue_tail pool" if i: "i < num_entries pool" for i
  proof -
    have "i < ?n" using i e by simp
    then show ?thesis
      using i b unfolding m [OF \<open>i < ?n\<close>] num_entries_cases [OF inv] by (auto split: if_splits)
  qed
  then show "contents ?p = contents pool @ [req]"
    unfolding contents_def n using b t by (auto intro!: nth_list_update_neq dest: sym)
qed

lemma enqueue_eq:
  assumes inv: "ring_inv pool"
  shows "\<exists>h t. ring_inv (pool\<lparr>queue_head := h, queue_tail := t\<rparr>) \<and> contents (pool\<lparr>queue_head := h, queue_tail := t\<rparr>) = contents pool \<and>
    IPStat_request_enqueue mem req pool =
     (if Suc (num_entries pool) < queue_size pool
      then Some (True, pool\<lparr>queue_head := h, queue_tail := t, queue := (queue pool)[t := req],
                            queue_tail := (t + 1) AND (queue_size pool - 1), semaphore := semaphore pool + 1, request_count := request_count pool + 1\<rparr>)
      else if queue_size pool \<ge> 65536 \<or> \<not> mem
      then Some (False, pool\<lparr>queue_head := h, queue_tail := t, request_count := request_count pool + 1\<rparr>) else None)"
proof -
  define z where "z \<longleftrightarrow> queue_head pool = queue_tail pool \<and> queue_head pool \<noteq> 0"
  define h where "h = (if z then 0 else queue_head pool)"
  define t where "t = (if z then 0 else queue_tail pool)"
  let ?p = "pool\<lparr>queue_head := h, queue_tail := t\<rparr>"
  have ri: "ring_inv ?p" using inv by (auto simp: ring_inv_def h_def t_def)
  have c: "contents ?p = contents pool" using contents_reset [OF inv] by (auto simp: h_def t_def z_def)
  then have n: "num_entries ?p = num_entries pool" by (metis length_contents)
  have full: "num_entries ?p = queue_size pool - 1 \<longleftrightarrow> \<not> Suc (num_entries pool) < queue_size pool"
    unfolding n using num_entries_less [OF inv] by auto
  have p: "(if queue_head (pool\<lparr>request_count := x\<rparr>) = queue_tail (pool\<lparr>request_count := x\<rparr>) \<and> queue_head (pool\<lparr>request_count := x\<rparr>) \<noteq> 0
      then pool\<lparr>request_count := x\<rparr>\<lparr>queue_head := 0, queue_tail := 0\<rparr> else pool\<lparr>request_count := x\<rparr>) = ?p\<lparr>request_count := x\<rparr>" for x
    by (simp add: h_def t_def z_def)
  have "IPStat_request_enqueue mem req pool =
     (if Suc (num_entries pool) < queue_size pool
      then Some (True, ?p\<lparr>queue := (queue pool)[t := req], queue_tail := (t + 1) AND (queue_size pool - 1),
                          semaphore := semaphore pool + 1, request_count := request_count pool + 1\<rparr>)
      else if queue_size pool \<ge> 65536 \<or> \<not> mem then Some (False, ?p\<lparr>request_count := request_count pool + 1\<rparr>) else None)"
    unfolding IPStat_request_enqueue_def Let_def p using full by simp
  then show ?thesis using ri c by blast
qed

lemma enqueue_stores:
  assumes inv: "ring_inv pool" and room: "Suc (num_entries pool) < queue_size pool"
  shows "\<exists>q h t. let pool' = pool\<lparr>queue_head := h, queue := q, queue_tail := t, semaphore := semaphore pool + 1, request_count := request_count pool + 1\<rparr>
    in IPStat_request_enqueue mem req pool = Some (True, pool') \<and> ring_inv pool' \<and> contents pool' = contents pool @ [req]"
proof -
  obtain h t where p: "ring_inv (pool\<lparr>queue_head := h, queue_tail := t\<rparr>)" "contents (pool\<lparr>queue_head := h, queue_tail := t\<rparr>) = contents pool"
      and e: "IPStat_request_enqueue mem req pool =
        Some (True, pool\<lparr>queue_head := h, queue_tail := t, queue := (queue pool)[t := req],
                         queue_tail := (t + 1) AND (queue_size pool - 1), semaphore := semaphore pool + 1, request_count := request_count pool + 1\<rparr>)"
    using enqueue_eq [OF inv, of mem req] room by auto
  have "Suc (num_entries (pool\<lparr>queue_head := h, queue_tail := t\<rparr>)) < queue_size (pool\<lparr>queue_head := h, queue_tail := t\<rparr>)"
    using p(2) room by (metis length_contents THREAD_POOL.select_convs(16) THREAD_POOL.surjective THREAD_POOL.update_convs(14) THREAD_POOL.update_convs(15))
  from store_contents [OF p(1) this, where req = req and s = "semaphore pool + 1"] e p(2)
  show ?thesis
    by (rule_tac x = "(queue pool)[t := req]" in exI, rule_tac x = h in exI, rule_tac x = "(t + 1) AND (queue_size pool - 1)" in exI) (simp add: Let_def)
qed

lemma enqueue_full:
  assumes inv: "ring_inv pool" and full: "\<not> Suc (num_entries pool) < queue_size pool"
    and e: "IPStat_request_enqueue mem req pool = Some (stored, pool')"
  shows "\<exists>h t. pool' = pool\<lparr>queue_head := h, queue_tail := t, request_count := request_count pool + 1\<rparr> \<and> \<not> stored \<and>
    ring_inv pool' \<and> contents pool' = contents pool"
  using enqueue_eq [OF inv, of mem req] full e by (auto split: if_splits)

section \<open>Queues\<close>

text \<open>What a client of a bounded first-in first-out queue relies on.\<close>

locale bounded_fifo =
  fixes inv :: "'s \<Rightarrow> bool" and items :: "'s \<Rightarrow> 'r list" and cap :: "'s \<Rightarrow> nat"
    and put :: "'r \<Rightarrow> 's \<Rightarrow> (bool \<times> 's) option" and get :: "'s \<Rightarrow> 'r \<times> 's"
  assumes put_ok: "inv s \<Longrightarrow> Suc (length (items s)) < cap s \<Longrightarrow>
      \<exists>s'. put r s = Some (True, s') \<and> inv s' \<and> items s' = items s @ [r] \<and> cap s' = cap s"
    and get_ok: "inv s \<Longrightarrow> items s = r # rs \<Longrightarrow> \<exists>s'. get s = (r, s') \<and> inv s' \<and> items s' = rs \<and> cap s' = cap s"
begin

primrec put_all :: "'r list \<Rightarrow> 's \<Rightarrow> 's option" where
  "put_all [] s = Some s"
| "put_all (r # rs) s = Option.bind (put r s) (\<lambda>(_, s1). put_all rs s1)"

primrec get_all :: "nat \<Rightarrow> 's \<Rightarrow> 'r list \<times> 's" where
  "get_all 0 s = ([], s)"
| "get_all (Suc n) s = (let (r, s1) = get s; (rs, s2) = get_all n s1 in (r # rs, s2))"

lemma put_all_items:
  "inv s \<Longrightarrow> length (items s) + length rs < cap s \<Longrightarrow>
   \<exists>s'. put_all rs s = Some s' \<and> inv s' \<and> items s' = items s @ rs \<and> cap s' = cap s"
proof (induction rs arbitrary: s)
  case (Cons r rs)
  obtain s1 where s1: "put r s = Some (True, s1)" "inv s1" "items s1 = items s @ [r]" "cap s1 = cap s"
    using put_ok [OF Cons.prems(1), of r] Cons.prems(2) by auto
  then show ?case using Cons.IH [OF s1(2)] Cons.prems(2) by auto
qed simp

lemma get_all_items:
  "inv s \<Longrightarrow> items s = rs @ ts \<Longrightarrow> \<exists>s'. get_all (length rs) s = (rs, s') \<and> inv s' \<and> items s' = ts"
proof (induction rs arbitrary: s)
  case (Cons r rs)
  obtain s1 where s1: "get s = (r, s1)" "inv s1" "items s1 = rs @ ts"
    using get_ok [OF Cons.prems(1), of r "rs @ ts"] Cons.prems(2) by auto
  then show ?case using Cons.IH [OF s1(2,3)] by auto
qed simp

lemma transfer:
  assumes "inv s" and "length (items s) + length rs < cap s"
  shows "\<exists>s1 s2. put_all rs s = Some s1 \<and> get_all (length (items s) + length rs) s1 = (items s @ rs, s2) \<and> items s2 = []"
proof -
  obtain s1 where s1: "put_all rs s = Some s1" "inv s1" "items s1 = (items s @ rs) @ []"
    using put_all_items [OF assms] by auto
  show ?thesis using get_all_items [OF s1(2,3)] s1(1) by auto
qed

end

interpretation ring: bounded_fifo ring_inv contents queue_size "IPStat_request_enqueue mem" IPStat_request_dequeue for mem
proof
  fix s :: THREAD_POOL and r rs
  assume inv: "ring_inv s"
  {
    assume "Suc (length (contents s)) < queue_size s"
    then show "\<exists>s'. IPStat_request_enqueue mem r s = Some (True, s') \<and> ring_inv s' \<and> contents s' = contents s @ [r] \<and> queue_size s' = queue_size s"
      using enqueue_stores [OF inv, of mem r] by (auto simp: Let_def)
  }
  assume c: "contents s = r # rs"
  then have "queue_head s \<noteq> queue_tail s" using contents_empty [OF inv] by auto
  from dequeue_contents [OF inv this] c
  show "\<exists>s'. IPStat_request_dequeue s = (r, s') \<and> ring_inv s' \<and> contents s' = rs \<and> queue_size s' = queue_size s"
    by auto
qed

section \<open>The invariant of the pool\<close>

definition busy :: "THREAD_HANDLE \<Rightarrow> bool" where
  "busy h \<longleftrightarrow> (case th_pc h of Dequeued _ \<Rightarrow> True | Serving _ \<Rightarrow> True | Served \<Rightarrow> True | _ \<Rightarrow> False)"

definition woken :: "THREAD_HANDLE \<Rightarrow> bool" where
  "woken h \<longleftrightarrow> th_pc h = Woken"

definition handle_ok :: "THREAD_HANDLE \<Rightarrow> bool" where
  "handle_ok h \<longleftrightarrow> (th_status h = THREAD_EXITED \<longleftrightarrow> th_pc h = Exited)"

definition count_if :: "('a \<Rightarrow> bool) \<Rightarrow> 'a list \<Rightarrow> nat" where
  "count_if P xs = length (filter P xs)"

definition pool_inv :: "THREAD_POOL \<Rightarrow> bool" where
  "pool_inv pool \<longleftrightarrow> ring_inv pool \<and> 0 \<notin> set (contents pool) \<and>
     total_threads pool = int (length (tp_handles pool)) \<and> total_threads pool \<le> max 0 (max_threads pool) \<and>
     active_threads pool = int (count_if busy (tp_handles pool)) \<and>
     length (contents pool) \<le> semaphore pool + count_if woken (tp_handles pool) \<and>
     (\<forall>h \<in> set (tp_handles pool). handle_ok h)"

lemma count_if_simps [simp]:
  "count_if P [] = 0" "count_if P (x # xs) = (if P x then 1 else 0) + count_if P xs" "count_if P (xs @ ys) = count_if P xs + count_if P ys"
  by (simp_all add: count_if_def)

lemma count_if_update:
  "i < length xs \<Longrightarrow> count_if P (xs[i := y]) + (if P (xs ! i) then 1 else 0) = count_if P xs + (if P y then 1 else 0)"
proof (induction xs arbitrary: i)
  case (Cons x xs)
  then show ?case by (cases i) auto
qed simp

lemma count_if_update_first: "(\<And>x. Q x \<Longrightarrow> P (f x) = P x) \<Longrightarrow> count_if P (update_first Q f xs) = count_if P xs"
  by (induction xs) auto

lemma count_if_map: "(\<And>x. P (f x) = P x) \<Longrightarrow> count_if P (map f xs) = count_if P xs"
  by (induction xs) auto

lemma count_if_filter: "(\<And>x. x \<in> set xs \<Longrightarrow> P x \<Longrightarrow> Q x) \<Longrightarrow> count_if P (filter Q xs) = count_if P xs"
  by (induction xs) auto

lemma set_update_first: "x \<in> set (update_first P f xs) \<Longrightarrow> x \<in> set xs \<or> (\<exists>y \<in> set xs. P y \<and> x = f y)"
  by (induction xs) (auto split: if_splits)

lemma new_handle_ok [simp]: "handle_ok (new_handle n now)" "\<not> busy (new_handle n now)" "\<not> woken (new_handle n now)"
  by (simp_all add: handle_ok_def busy_def woken_def new_handle_def thread_consts)

lemma cancel_handle [simp]: "busy (cancel h) = busy h" "woken (cancel h) = woken h" "idle h \<Longrightarrow> handle_ok h \<Longrightarrow> handle_ok (cancel h)"
  by (auto simp: busy_def woken_def cancel_def handle_ok_def idle_def thread_consts)

lemma spawn_inv:
  "pool_inv pool \<Longrightarrow> IPStat_spawn_thread mem tc now pool = Some (ok, pool') \<Longrightarrow> pool_inv pool' \<and> contents pool' = contents pool"
  by (auto simp: IPStat_spawn_thread_def Let_def pool_inv_def split: if_splits)

lemma spawn_loop_inv:
  "pool_inv pool \<Longrightarrow> spawn_loop n mem tc now pool = Some (ok, pool') \<Longrightarrow> pool_inv pool' \<and> contents pool' = contents pool"
proof (induction n arbitrary: pool)
  case (Suc n)
  then obtain ok1 pool1 where s: "IPStat_spawn_thread mem tc now pool = Some (ok1, pool1)"
      "(if ok1 then spawn_loop n mem tc now pool1 else Some (False, pool1)) = Some (ok, pool')"
    by (auto simp: bind_eq_Some_conv)
  with spawn_inv [OF Suc.prems(1) s(1)] Suc.IH [of pool1] show ?case by (auto split: if_splits)
qed simp

lemma enqueue_inv:
  assumes inv: "pool_inv pool" and e: "IPStat_request_enqueue mem req pool = Some (stored, pool')" and req: "req \<noteq> 0"
  shows "pool_inv pool' \<and> contents pool' = contents pool @ (if stored then [req] else [])"
proof (cases "Suc (num_entries pool) < queue_size pool")
  case True
  have ri: "ring_inv pool" using inv by (simp add: pool_inv_def)
  obtain q h t where *: "pool' = pool\<lparr>queue_head := h, queue := q, queue_tail := t, semaphore := semaphore pool + 1, request_count := request_count pool + 1\<rparr>"
      "stored" "ring_inv pool'" "contents pool' = contents pool @ [req]"
    using enqueue_stores [OF ri True, of mem req] e by (auto simp: Let_def)
  then have "length (contents pool') = Suc (length (contents pool))" by simp
  then show ?thesis using * inv req by (simp add: pool_inv_def)
next
  case False
  have ri: "ring_inv pool" using inv by (simp add: pool_inv_def)
  obtain h t where *: "pool' = pool\<lparr>queue_head := h, queue_tail := t, request_count := request_count pool + 1\<rparr>" "\<not> stored"
      "ring_inv pool'" "contents pool' = contents pool"
    using enqueue_full [OF ri False e] by blast
  then have "length (contents pool') = length (contents pool)" by simp
  then show ?thesis using * inv by (simp add: pool_inv_def)
qed

lemma addrequest_inv:
  assumes inv: "pool_inv pool" and a: "IPStat_pool_addrequest mem tc now req pool = Some (stored, pool')" and req: "req \<noteq> 0"
  shows "pool_inv pool' \<and> contents pool' = contents pool @ (if stored then [req] else [])"
proof -
  obtain r pool1 where s: "(if active_threads pool = total_threads pool then IPStat_spawn_thread mem tc now pool else Some (True, pool)) = Some (r, pool1)"
      "IPStat_request_enqueue mem req pool1 = Some (stored, pool')"
    using a by (auto simp: IPStat_pool_addrequest_def bind_eq_Some_conv)
  have "pool_inv pool1 \<and> contents pool1 = contents pool"
    using s(1) spawn_inv [OF inv] inv by (auto split: if_splits)
  then show ?thesis using enqueue_inv [OF _ s(2) req] by simp
qed

abbreviation alive :: "THREAD_HANDLE \<Rightarrow> bool" where
  "alive h \<equiv> th_status h \<noteq> THREAD_EXITED"

lemma clean_loop_filter:
  "i + n = length (tp_handles pool) \<Longrightarrow>
   clean_loop n i pool = pool\<lparr>tp_handles := take i (tp_handles pool) @ filter alive (drop i (tp_handles pool)),
     total_threads := total_threads pool - int (count_if (\<lambda>h. \<not> alive h) (drop i (tp_handles pool)))\<rparr>"
proof (induction n i pool rule: clean_loop.induct)
  case (2 n i pool)
  let ?hs = "tp_handles pool"
  have d: "drop i ?hs = ?hs ! i # drop (Suc i) ?hs" using 2(3) by (simp add: Cons_nth_drop_Suc)
  show ?case
  proof (cases "alive (?hs ! i)")
    case True
    then show ?thesis using 2(2) 2(3) d by (simp add: take_Suc_conv_app_nth)
  next
    case False
    let ?p = "IPStat_drop_thread i pool"
    have t: "take i (tp_handles ?p) = take i ?hs" "drop i (tp_handles ?p) = drop (Suc i) ?hs"
      using 2(3) by (simp_all add: IPStat_drop_thread_def)
    have "i + n = length (tp_handles ?p)" using 2(3) by (simp add: IPStat_drop_thread_def)
    then show ?thesis using 2(1) False t d by (simp add: IPStat_drop_thread_def)
  qed
qed simp

lemma clean_loop_inv:
  assumes inv: "pool_inv pool" and p: "pool' = clean_loop (length (tp_handles pool)) 0 pool"
  shows "pool_inv pool' \<and> contents pool' = contents pool"
proof -
  let ?hs = "tp_handles pool"
  have p': "pool' = pool\<lparr>tp_handles := filter alive ?hs, total_threads := total_threads pool - int (count_if (\<lambda>h. \<not> alive h) ?hs)\<rparr>"
    using clean_loop_filter [of 0 "length ?hs" pool] p by simp
  have h: "handle_ok h" if "h \<in> set ?hs" for h using inv that by (simp add: pool_inv_def)
  have "count_if busy (filter alive ?hs) = count_if busy ?hs" "count_if woken (filter alive ?hs) = count_if woken ?hs"
    using h by (auto intro!: count_if_filter simp: handle_ok_def busy_def woken_def)
  moreover have "length (filter alive ?hs) + count_if (\<lambda>h. \<not> alive h) ?hs = length ?hs"
    unfolding count_if_def by (rule sum_length_filter_compl)
  ultimately show ?thesis using inv unfolding p' by (auto simp: pool_inv_def)
qed

lemma cancel_spare_inv: "pool_inv pool \<Longrightarrow> pool_inv (cancel_spare pool) \<and> contents (cancel_spare pool) = contents pool"
proof -
  assume inv: "pool_inv pool"
  have "\<forall>h \<in> set (update_first idle cancel (tp_handles pool)). handle_ok h"
    using inv by (auto simp: pool_inv_def dest!: set_update_first)
  then show ?thesis using inv by (auto simp: pool_inv_def cancel_spare_def count_if_update_first)
qed

lemma cancel_worn_out_inv: "pool_inv pool \<Longrightarrow> pool_inv (cancel_worn_out pool) \<and> contents (cancel_worn_out pool) = contents pool"
  by (auto simp: pool_inv_def cancel_worn_out_def Let_def count_if_map worn_out_def)

lemma clean_inv:
  assumes inv: "pool_inv pool" and c: "IPStat_pool_clean mem tc now lc pool = Some (r, lc', pool')"
  shows "pool_inv pool' \<and> contents pool' = contents pool"
proof -
  define pool1 where "pool1 = clean_loop (length (tp_handles pool)) 0 pool"
  have 1: "pool_inv pool1 \<and> contents pool1 = contents pool" by (rule clean_loop_inv [OF inv pool1_def])
  let ?p2 = "if total_threads pool1 - active_threads pool1 > max_spare_threads pool1 then cancel_spare pool1 else pool1"
  have 2: "pool_inv ?p2 \<and> contents ?p2 = contents pool" using 1 cancel_spare_inv by simp
  show ?thesis
    using c 1 spawn_loop_inv [of pool1] cancel_worn_out_inv [of ?p2] 2
    unfolding IPStat_pool_clean_def pool1_def [symmetric] Let_def
    by (auto simp: bind_eq_Some_conv split: if_splits)
qed

section \<open>Steps of the workers\<close>

abbreviation one_if :: "bool \<Rightarrow> nat" where
  "one_if b \<equiv> (if b then 1 else 0)"

lemma set_handle_simps [simp]:
  "contents (set_handle i h pool) = contents pool" "ring_inv (set_handle i h pool) = ring_inv pool"
  by (simp_all add: set_handle_def)

lemma set_handle_inv:
  assumes inv: "pool_inv pool" and i: "i < length (tp_handles pool)" and ok: "handle_ok h'"
    and p1: "tp_handles p1 = tp_handles pool" "total_threads p1 = total_threads pool" "max_threads p1 = max_threads pool"
      "ring_inv p1" "set (contents p1) \<subseteq> set (contents pool)"
    and act: "active_threads p1 + int (one_if (busy (tp_handles pool ! i))) = active_threads pool + int (one_if (busy h'))"
    and sem: "length (contents p1) + semaphore pool + one_if (woken (tp_handles pool ! i)) \<le>
      length (contents pool) + semaphore p1 + one_if (woken h')"
  shows "pool_inv (set_handle i h' p1)"
proof -
  note b = count_if_update [OF i, of busy h']
  note w = count_if_update [OF i, of woken h']
  have "active_threads p1 = int (count_if busy ((tp_handles pool)[i := h']))"
    using act b inv unfolding pool_inv_def by linarith
  moreover have "length (contents p1) \<le> semaphore p1 + count_if woken ((tp_handles pool)[i := h'])"
    using sem w inv unfolding pool_inv_def by linarith
  moreover have "\<forall>h \<in> set ((tp_handles pool)[i := h']). handle_ok h"
    using inv ok set_update_subset_insert [of "tp_handles pool" i h'] by (auto simp: pool_inv_def)
  ultimately show ?thesis
    using inv p1 unfolding pool_inv_def set_handle_simps by (auto simp: set_handle_def)
qed

lemma loop_end_handle [simp]: "handle_ok h \<Longrightarrow> th_pc h \<noteq> Exited \<Longrightarrow> handle_ok (loop_end h)" "\<not> busy (loop_end h)" "\<not> woken (loop_end h)"
  by (auto simp: loop_end_def handle_ok_def busy_def woken_def thread_consts)

lemma dequeue_step:
  assumes inv: "pool_inv pool" and i: "i < length (tp_handles pool)" and pc: "th_pc (tp_handles pool ! i) = Woken"
    and s: "IPStat_request_handler i (tp_handles pool ! i) pool = (pool', taken)"
  shows "pool_inv pool' \<and> contents pool = taken @ contents pool'"
proof -
  let ?h = "tp_handles pool ! i"
  have ri: "ring_inv pool" and hok: "handle_ok ?h" and nz: "0 \<notin> set (contents pool)" using inv i by (auto simp: pool_inv_def)
  have bw: "\<not> busy ?h" "woken ?h" using pc by (simp_all add: busy_def woken_def)
  show ?thesis
  proof (cases "queue_head pool = queue_tail pool")
    case True
    then have p': "pool' = set_handle i (loop_end ?h) pool" "taken = []"
      using s pc by (simp_all add: IPStat_request_handler_def IPStat_request_dequeue_def)
    have "contents pool = []" using contents_empty [OF ri] True by simp
    then have c0: "num_entries pool = 0" by (metis length_contents list.size(3))
    have "pool_inv pool'"
    proof -
      have "length (contents pool) \<le> semaphore pool + count_if woken ((tp_handles pool)[i := loop_end ?h])" using c0 by simp
      moreover have "count_if busy ((tp_handles pool)[i := loop_end ?h]) = count_if busy (tp_handles pool)"
        using count_if_update [OF i, of busy "loop_end ?h"] bw by simp
      moreover have "\<forall>h \<in> set ((tp_handles pool)[i := loop_end ?h]). handle_ok h"
        using inv hok pc set_update_subset_insert [of "tp_handles pool" i "loop_end ?h"] by (auto simp: pool_inv_def)
      ultimately show ?thesis using inv unfolding p' pool_inv_def set_handle_simps by (auto simp: set_handle_def)
    qed
    then show ?thesis using p' by simp
  next
    case False
    let ?r = "queue pool ! queue_head pool"
    obtain hd' where d: "IPStat_request_dequeue pool = (?r, pool\<lparr>queue_head := hd', active_threads := active_threads pool + 1\<rparr>)"
        "ring_inv (pool\<lparr>queue_head := hd'\<rparr>)" "contents pool = ?r # contents (pool\<lparr>queue_head := hd'\<rparr>)"
      using dequeue_contents [OF ri False] by blast
    let ?p1 = "pool\<lparr>queue_head := hd', active_threads := active_threads pool + 1\<rparr>"
    have r: "?r \<noteq> 0" using nz d(3) by (metis list.set_intros(1))
    then have p': "pool' = set_handle i (?h\<lparr>th_pc := Dequeued ?r\<rparr>) ?p1" "taken = [?r]"
      using s pc d(1) by (simp_all add: IPStat_request_handler_def)
    have c: "contents pool = ?r # contents ?p1" using d(3) by simp
    have "pool_inv pool'" unfolding p'(1)
    proof (rule set_handle_inv [OF inv i])
      show "handle_ok (?h\<lparr>th_pc := Dequeued ?r\<rparr>)" using hok pc by (simp add: handle_ok_def)
      show "set (contents ?p1) \<subseteq> set (contents pool)" by (subst c) auto
      show "length (contents ?p1) + semaphore pool + one_if (woken ?h) \<le> length (contents pool) + semaphore ?p1 + one_if (woken (?h\<lparr>th_pc := Dequeued ?r\<rparr>))"
        using arg_cong [OF c, of length] by (simp add: woken_def)
    qed (use d(2) bw in \<open>simp_all add: busy_def\<close>)
    then show ?thesis using p' c by simp
  qed
qed

lemma worker_inv:
  assumes inv: "pool_inv pool" and i: "i < length (tp_handles pool)"
    and s: "IPStat_request_handler i (tp_handles pool ! i) pool = (pool', taken)"
  shows "pool_inv pool' \<and> contents pool = taken @ contents pool'"
proof (cases "th_pc (tp_handles pool ! i) = Woken")
  case True
  then show ?thesis using dequeue_step [OF inv i _ s] by simp
next
  case False
  let ?h = "tp_handles pool ! i"
  have ri: "ring_inv pool" and hok: "handle_ok ?h" using inv i by (auto simp: pool_inv_def)
  have k: "pool_inv (set_handle i h' (pool\<lparr>semaphore := sm, active_threads := a\<rparr>))"
    if "handle_ok h'" "a + int (one_if (busy ?h)) = active_threads pool + int (one_if (busy h'))"
      "semaphore pool + one_if (woken ?h) \<le> sm + one_if (woken h')" for h' sm a
    by (rule set_handle_inv [OF inv i that(1)]) (use ri that in simp_all)
  show ?thesis
    using s False inv hok
      k [where sm = "semaphore pool" and a = "active_threads pool"]
      k [where h' = "?h\<lparr>th_pc := Woken\<rparr>" and sm = "semaphore pool - 1" and a = "active_threads pool"]
      k [where h' = "loop_end ?h" and sm = "semaphore pool" and a = "active_threads pool - 1"]
    by (cases "th_pc ?h")
      (auto simp: IPStat_request_handler_def handle_ok_def busy_def woken_def thread_consts loop_end_def split: if_splits)
qed

lemma pool_run_inv:
  assumes "pool_run pool0 pool acc tak" and "pool_inv pool0" and "contents pool0 = []"
  shows "pool_inv pool \<and> acc = tak @ contents pool"
  using assms(1)
proof (induction rule: pool_run.induct)
  case start
  then show ?case using assms(2,3) by simp
next
  case (add pool acc tak req mem tc now stored pool')
  then show ?case using addrequest_inv [OF _ add.hyps(3,2)] by simp
next
  case (clean pool acc tak mem tc now lc r lc' pool')
  then show ?case using clean_inv [OF _ clean.hyps(2)] by simp
next
  case (work pool acc tak i pool' taken)
  then show ?case using worker_inv [OF _ work.hyps(2,3)] by simp
qed

lemma pool_init_inv:
  assumes "IPStat_pool_init mem sem_ok tc now c = Some (Some pool)"
  shows "pool_inv pool \<and> contents pool = []"
proof -
  have "\<exists>k. (256 :: nat) = 2 ^ k" by (rule exI [of _ 8]) simp
  moreover obtain n mh p0 where "spawn_loop n mh tc now p0 = Some (True, pool)"
      "tp_handles p0 = []" "total_threads p0 = 0" "active_threads p0 = 0" "semaphore p0 = 0"
      "queue_head p0 = 0" "queue_tail p0 = 0" "queue_size p0 = 256" "queue p0 = replicate 256 0"
    using assms by (auto simp: IPStat_pool_init_def Let_def bind_eq_Some_conv split: if_splits)
  ultimately show ?thesis
    using spawn_loop_inv [of p0 n mh tc now True pool] by (simp add: pool_inv_def ring_inv_def contents_def num_entries_def)
qed

section \<open>Properties\<close>

primrec enqueue_all :: "bool \<Rightarrow> request list \<Rightarrow> THREAD_POOL \<Rightarrow> THREAD_POOL option" where
  "enqueue_all mem [] pool = Some pool"
| "enqueue_all mem (r # rs) pool = do { (_, pool1) \<leftarrow> IPStat_request_enqueue mem r pool; enqueue_all mem rs pool1 }"

primrec dequeue_all :: "nat \<Rightarrow> THREAD_POOL \<Rightarrow> request list \<times> THREAD_POOL" where
  "dequeue_all 0 pool = ([], pool)"
| "dequeue_all (Suc n) pool = (let (r, pool1) = IPStat_request_dequeue pool; (rs, pool2) = dequeue_all n pool1 in (r # rs, pool2))"

lemma enqueue_all_ring: "ring.put_all mem rs pool = enqueue_all mem rs pool" "ring.get_all n pool = dequeue_all n pool"
proof -
  show "ring.put_all mem rs pool = enqueue_all mem rs pool" by (induction rs arbitrary: pool) (simp_all add: case_prod_beta)
  show "ring.get_all n pool = dequeue_all n pool" by (induction n arbitrary: pool) simp_all
qed

definition ex_pool :: THREAD_POOL where
  "ex_pool = \<lparr>tp_handles = [], total_threads = 0, max_thread_num = 1, start_threads = 0, max_threads = 2, min_spare_threads = 0,
     max_spare_threads = 1, max_requests_per_thread = 0, request_count = 0, time_last_spawned = 0, cleanup_delay = 5, semaphore = 0,
     active_threads = 0, queue_head = 3, queue_tail = 0, queue_size = 4, queue = [0, 0, 0, 9]\<rparr>"

lemma ex_pool_ring: "ring_inv ex_pool" "contents ex_pool = [9]" "num_entries ex_pool = 1"
  by (auto simp: ring_inv_def ex_pool_def contents_def num_entries_def intro: exI [of _ 2])

text \<open>
  Queue. The ring buffer is a first-in first-out queue as long as it need not grow: storing requests that fit
  beside the ones already queued, then taking as many as are there, delivers the old requests followed by the
  new ones in order and leaves the queue empty, wherever head and tail stand.
\<close>

theorem queue_fifo:
  assumes "ring_inv pool" and "num_entries pool + length rs < queue_size pool"
  shows "\<exists>pool1 pool2. enqueue_all mem rs pool = Some pool1 \<and>
           dequeue_all (num_entries pool + length rs) pool1 = (contents pool @ rs, pool2) \<and> contents pool2 = []"
  using ring.transfer [OF assms(1), of rs mem] assms(2) by (simp add: enqueue_all_ring)

theorem queue_fifo_witness:
  "\<exists>pool1 pool2. enqueue_all True [5, 6] ex_pool = Some pool1 \<and> dequeue_all 3 pool1 = ([9, 5, 6], pool2)"
proof -
  have "num_entries ex_pool + length [5 :: nat, 6] < queue_size ex_pool" by (simp add: ex_pool_ring(3), simp add: ex_pool_def)
  from queue_fifo [OF ex_pool_ring(1) this, of True] show ?thesis
    by (auto simp: ex_pool_ring(2,3) numeral_3_eq_3)
qed

definition ex_init :: INIT_POOL where
  "ex_init = \<lparr>ip_start_threads = 1, ip_max_threads = 2, ip_min_spare_threads = 1, ip_max_spare_threads = 1,
     ip_max_requests_per_thread = 0, ip_cleanup_delay = 5\<rparr>"

definition small_pool :: THREAD_POOL where
  "small_pool = the (the (IPStat_pool_init (True, True, True) True True 0 (Some ex_init)))"

lemma small_pool_init: "IPStat_pool_init (True, True, True) True True 0 (Some ex_init) = Some (Some small_pool)"
  unfolding small_pool_def by (simp add: IPStat_pool_init_def Let_def IPStat_spawn_thread_def ex_init_def)

lemma small_pool_run:
  "IPStat_pool_addrequest True True 0 7 small_pool = Some (True, p) \<Longrightarrow> pool_run small_pool p [7] []"
  using pool_run.add [OF pool_run.start, of 7 True True 0 small_pool True p] by simp

lemma small_pool_add: "\<exists>p. IPStat_pool_addrequest True True 0 7 small_pool = Some (True, p)"
proof -
  have p: "pool_inv small_pool" "contents small_pool = []" using pool_init_inv [OF small_pool_init] by auto
  have "active_threads small_pool = 0" "total_threads small_pool = 1" "queue_size small_pool = 256"
    unfolding small_pool_def by (simp_all add: IPStat_pool_init_def Let_def IPStat_spawn_thread_def ex_init_def)
  moreover have "num_entries small_pool = 0" using p(2) by (metis length_contents list.size(3))
  ultimately show ?thesis
    using enqueue_stores [of small_pool True 7] p(1) by (auto simp: IPStat_pool_addrequest_def pool_inv_def Let_def)
qed

text \<open>
  C31 (requests). In every run of an initialised pool, whatever the interleaving of new requests, clean-ups and worker
  steps, the requests taken by workers are exactly the first ones accepted, in order; the others are in the
  queue; and for every queued request a post of the semaphore is outstanding or a woken worker is about to look,
  so no request can be left behind unnoticed.
\<close>

theorem pool_requests_in_order:
  assumes "IPStat_pool_init mem sem_ok tc now c = Some (Some pool0)" and "pool_run pool0 pool acc tak"
  shows "acc = tak @ contents pool \<and>
         length (contents pool) \<le> semaphore pool + length (filter (\<lambda>h. th_pc h = Woken) (tp_handles pool))"
  using pool_run_inv [OF assms(2)] pool_init_inv [OF assms(1)] by (simp add: pool_inv_def count_if_def woken_def [abs_def])

theorem pool_requests_in_order_witness:
  "\<exists>p. pool_run small_pool p [7] [] \<and> [7] = contents p"
proof -
  obtain p where "IPStat_pool_addrequest True True 0 7 small_pool = Some (True, p)" using small_pool_add by blast
  then have "pool_run small_pool p [7] []" by (rule small_pool_run)
  with pool_requests_in_order [OF small_pool_init this] show ?thesis by auto
qed

text \<open>
  C33 (threads). In every run, the thread counter equals the number of handles and stays within the configured maximum,
  the number of active threads is the number of workers between taking a request and reporting it done, and
  a handle is marked as exited exactly when its thread has left the loop: the clean-up never frees
  the handle of a thread that still uses it.
\<close>

theorem pool_thread_bounds:
  assumes "IPStat_pool_init mem sem_ok tc now c = Some (Some pool0)" and "pool_run pool0 pool acc tak"
  shows "total_threads pool = int (length (tp_handles pool)) \<and> total_threads pool \<le> max 0 (max_threads pool) \<and>
         active_threads pool = int (length (filter busy (tp_handles pool))) \<and>
         (\<forall>h. h \<in> set (tp_handles pool) \<longrightarrow> (th_status h = THREAD_EXITED \<longleftrightarrow> th_pc h = Exited))"
  using pool_run_inv [OF assms(2)] pool_init_inv [OF assms(1)] by (simp add: pool_inv_def count_if_def handle_ok_def)

theorem pool_thread_bounds_witness:
  "\<exists>p. pool_run small_pool p [7] [] \<and> total_threads p = int (length (tp_handles p))"
proof -
  obtain p where "IPStat_pool_addrequest True True 0 7 small_pool = Some (True, p)" using small_pool_add by blast
  then have "pool_run small_pool p [7] []" by (rule small_pool_run)
  with pool_thread_bounds [OF small_pool_init this] show ?thesis by auto
qed

text \<open>
  Growing. Storing a request in a full queue of less than 65536 places reaches the out-of-range
  \<^verbatim>\<open>memset\<close> whenever the larger array can be allocated; a full queue of 65536 places discards the request.
\<close>

theorem enqueue_full_queue:
  assumes "ring_inv pool" and "num_entries pool = queue_size pool - 1"
  shows "IPStat_request_enqueue True req pool = None \<longleftrightarrow> queue_size pool < 65536"
  using enqueue_eq [OF assms(1), of True req] assms(2) by (auto split: if_splits)

theorem enqueue_full_queue_witness: "IPStat_request_enqueue True 5 (ex_pool\<lparr>queue_tail := 2\<rparr>) = None"
proof -
  have "ring_inv (ex_pool\<lparr>queue_tail := 2\<rparr>)" "num_entries (ex_pool\<lparr>queue_tail := 2\<rparr>) = queue_size (ex_pool\<lparr>queue_tail := 2\<rparr>) - 1"
    by (auto simp: ring_inv_def ex_pool_def num_entries_def intro: exI [of _ 2])
  from enqueue_full_queue [OF this, of 5] show ?thesis by (simp add: ex_pool_def)
qed

end
