(* ===== verification/Registry.thy ===== *)
theory Registry
  imports Prelude
begin

text \<open>
  The scheduler and the control server keep their jobs the same way: a new job goes to the head of a
  \<^verbatim>\<open>GList\<close>, and a job is removed by the first 50 bytes of its name. The locale
  \<open>name_registry\<close> is this contract, with the lemmas on registering and unregistering that both
  components use.
\<close>

text \<open>The comparison both components pass to \<^verbatim>\<open>g_list_find_custom\<close>.\<close>

definition same_name :: "string \<Rightarrow> string \<Rightarrow> bool" where
  "same_name a b \<longleftrightarrow> strncmp a b 50 = 0"

lemma same_name_iff: "same_name a b \<longleftrightarrow> take 50 (cstr a) = take 50 (cstr b)"
  by (simp add: same_name_def strncmp_eq_0)

lemma name_buffer: "take 50 (cstr (strncpy (replicate 50 NUL) name 50)) = take 50 (cstr name)"
proof -
  let ?s = "cstr name @ replicate 50 NUL"
  have "strncpy (replicate 50 NUL) name 50 = take 50 ?s" by (simp add: strncpy_def)
  moreover have "cstr ?s = cstr name" using cstr_append_replicate [of "cstr name" 50 "[]"] by simp
  ultimately have "cstr (strncpy (replicate 50 NUL) name 50) = take 50 (cstr name)" by (simp only: cstr_take)
  then show ?thesis by simp
qed

lemma same_name_buffer: "strncmp a (strncpy (replicate 50 NUL) name 50) 50 = 0 \<longleftrightarrow> same_name name a"
  by (auto simp: same_name_iff strncmp_eq_0 name_buffer)

locale name_registry =
  fixes jobs :: "'s \<Rightarrow> 'n list" and name_of :: "'n \<Rightarrow> string"
    and unregister :: "string \<Rightarrow> 's \<Rightarrow> 's" and added :: "string \<Rightarrow> 's \<Rightarrow> 's \<Rightarrow> bool"
  assumes unregister_jobs: "jobs (unregister name s) = remove_first (\<lambda>n. same_name name (name_of n)) (jobs s)"
    and added_jobs: "added name s s' \<Longrightarrow> \<exists>n. jobs s' = n # jobs s \<and> take 50 (cstr (name_of n)) = take 50 (cstr name)"
begin

lemma unregister_added: "added name s s' \<Longrightarrow> jobs (unregister name s') = jobs s"
  using added_jobs [of name s s'] by (auto simp: unregister_jobs same_name_iff)

lemma unregister_other:
  assumes "added name s s'" and "\<not> same_name other name"
  shows "\<exists>n. jobs (unregister other s') = n # jobs (unregister other s)"
  using added_jobs [OF assms(1)] assms(2) by (auto simp: unregister_jobs same_name_iff)

end

end
