(* ===== verification/Sched.thy ===== *)
theory Sched
  imports Registry Misc Aggregation
begin

text \<open>
  The scheduler (\<^verbatim>\<open>src/sched.c\<close>): jobs with a crontab line of five fields, looked at once a minute.

  The broken-down time is a record; \<^verbatim>\<open>localtime\<close> depends on the time zone of the host and is the
  argument \<open>localtime\<close>. Functions and their data are numbers. The C library's \<^verbatim>\<open>strtok\<close>
  skips delimiters and cuts the next token as \<open>ip_strtok_r\<close> does. A job name of 50 or more characters is
  stored without terminator. \<open>None\<close> is a fault: a null pointer handed to \<open>parse_vol\<close>, a
  missing scheduler, or a division by zero in \<open>time_cmp\<close>. Threads are only modelled by what they do to
  the job: \<open>thr_scheduler_tick\<close> is one turn of the manager's loop, \<open>child_start\<close> and
  \<open>child_finish\<close> the two halves of \<^verbatim>\<open>thr_scheduler_child\<close>.

  Proved: the printed form of a schedule means what it says after a registration (\<open>time_cmp_cron\<close>), the
  registry laws, and that a period of zero faults.
\<close>

section \<open>Data\<close>

record tm =
  tm_sec :: int
  tm_min :: int
  tm_hour :: int
  tm_mday :: int
  tm_mon :: int
  tm_year :: int
  tm_wday :: int

definition zero_tm :: tm where
  "zero_tm = \<lparr>tm_sec = 0, tm_min = 0, tm_hour = 0, tm_mday = 0, tm_mon = 0, tm_year = 0, tm_wday = 0\<rparr>"

definition SCHEDULER_SLEEP :: int where "SCHEDULER_SLEEP = 1"
definition SCHEDULER_RUN :: int where "SCHEDULER_RUN = 2"

record NODE_SCHEDULER =
  ns_name :: string
  ns_crontab :: string
  ns_vol :: tm
  ns_vol_div :: tm
  ns_data :: nat
  ns_last_runs :: time_t
  ns_delay_time :: time_t
  ns_status :: int
  ns_last_status :: gboolean
  ns_func :: nat

record SCHEDULER =
  sched_list :: "NODE_SCHEDULER list"
  sched_do_exit :: int

section \<open>Crontab fields\<close>

text \<open>The results stored in \<^verbatim>\<open>*vol\<close> and \<^verbatim>\<open>*vol_div\<close>.\<close>

definition parse_vol :: "string option \<Rightarrow> (int \<times> int) option" where
  "parse_vol ptr =
     (case ptr of
        None \<Rightarrow> None
      | Some str \<Rightarrow>
          let before = takeWhile (\<lambda>c. c \<noteq> CHR ''/'') str;
              pos = dropWhile (\<lambda>c. c \<noteq> CHR ''/'') str;
              vol = (\<lambda>s. if chd s = CHR ''*'' then -1 else atoi s)
          in if pos \<noteq> [] then Some (vol before, atoi (tl pos)) else Some (vol str, -1))"

definition time_field :: "int \<Rightarrow> int \<Rightarrow> int \<Rightarrow> bool option" where
  "time_field vol vol_div t =
     (if vol_div = -1 then Some (if vol \<noteq> -1 then vol = t else True)
      else if vol_div = 0 then None
      else Some (t mod vol_div = 0))"

definition time_cmp :: "(time_t \<Rightarrow> tm) \<Rightarrow> time_t \<Rightarrow> NODE_SCHEDULER \<Rightarrow> bool option" where
  "time_cmp localtime now node = do {
     let t = localtime now;
     f_min \<leftarrow> time_field (tm_min (ns_vol node)) (tm_min (ns_vol_div node)) (tm_min t);
     f_hour \<leftarrow> time_field (tm_hour (ns_vol node)) (tm_hour (ns_vol_div node)) (tm_hour t);
     f_mday \<leftarrow> time_field (tm_mday (ns_vol node)) (tm_mday (ns_vol_div node)) (tm_mday t);
     f_mon \<leftarrow> time_field (tm_mon (ns_vol node)) (tm_mon (ns_vol_div node)) (tm_mon t);
     f_wday \<leftarrow> time_field (tm_wday (ns_vol node)) (tm_wday (ns_vol_div node)) (tm_wday t);
     Some (f_min \<and> f_hour \<and> f_mday \<and> f_mon \<and> f_wday)
   }"

section \<open>Registration\<close>

definition new_node :: "string \<Rightarrow> string \<Rightarrow> nat \<Rightarrow> nat \<Rightarrow> NODE_SCHEDULER" where
  "new_node name crontab func data =
     \<lparr>ns_name = strncpy (replicate 50 NUL) name 50, ns_crontab = strncpy (replicate 50 NUL) crontab 50, ns_vol = zero_tm,
      ns_vol_div = zero_tm, ns_data = data, ns_last_runs = 0, ns_delay_time = 0, ns_status = SCHEDULER_SLEEP,
      ns_last_status = 1, ns_func = func\<rparr>"

text \<open>\<open>mem\<close> lists the allocations of the node, of the copy of the crontab line and of the list cell.\<close>

definition schedulers_register ::
  "bool \<times> bool \<times> bool \<Rightarrow> string \<Rightarrow> string \<Rightarrow> nat \<Rightarrow> nat \<Rightarrow> SCHEDULER option \<Rightarrow> (gboolean \<times> SCHEDULER option) option" where
  "schedulers_register mem name crontab func data st =
     (case st of
        None \<Rightarrow> Some (0, None)
      | Some sc \<Rightarrow>
          if \<not> fst mem then Some (0, st)
          else let node = new_node name crontab func data
            in if \<not> fst (snd mem) then Some (0, st)
               else do {
                 let (p1, s1) = ip_strtok_r (Some (cstr (ns_crontab node))) '' '' [];
                 (v1, d1) \<leftarrow> parse_vol p1;
                 let (p2, s2) = ip_strtok_r None '' '' s1;
                 (v2, d2) \<leftarrow> parse_vol p2;
                 let (p3, s3) = ip_strtok_r None '' '' s2;
                 (v3, d3) \<leftarrow> parse_vol p3;
                 let (p4, s4) = ip_strtok_r None '' '' s3;
                 (v4, d4) \<leftarrow> parse_vol p4;
                 let (p5, s5) = ip_strtok_r None '' '' s4;
                 (v5, d5) \<leftarrow> parse_vol p5;
                 let node' = node\<lparr>ns_vol := zero_tm\<lparr>tm_min := v1, tm_hour := v2, tm_mday := v3, tm_mon := v4, tm_wday := v5\<rparr>,
                                  ns_vol_div := zero_tm\<lparr>tm_min := d1, tm_hour := d2, tm_mday := d3, tm_mon := d4, tm_wday := d5\<rparr>\<rparr>;
                 Some (1, Some (sc\<lparr>sched_list := (if snd (snd mem) then node' # sched_list sc else [])\<rparr>))
               })"

definition sched_compare :: "NODE_SCHEDULER \<Rightarrow> NODE_SCHEDULER \<Rightarrow> int" where
  "sched_compare a b = strncmp (ns_name a) (ns_name b) 50"

definition schedulers_unregister :: "string \<Rightarrow> SCHEDULER option \<Rightarrow> gboolean \<times> SCHEDULER option" where
  "schedulers_unregister name st =
     (case st of
        None \<Rightarrow> (0, None)
      | Some sc \<Rightarrow>
          let key = strncpy (replicate 50 NUL) name 50
          in (1, Some (sc\<lparr>sched_list := remove_first (\<lambda>n. strncmp (ns_name n) key 50 = 0) (sched_list sc)\<rparr>)))"

text \<open>Start and end. \<open>mem\<close> and \<open>tc\<close> are the allocation and the creation of the manager thread.\<close>

definition schedulers_init :: "bool \<Rightarrow> bool \<Rightarrow> SCHEDULER option \<Rightarrow> gboolean \<times> SCHEDULER option" where
  "schedulers_init mem tc st =
     (if \<not> mem \<or> \<not> tc then (0, st) else (1, Some \<lparr>sched_list = [], sched_do_exit = 0\<rparr>))"

text \<open>The list is read before the check for a scheduler.\<close>

definition schedulers_free :: "bool \<Rightarrow> SCHEDULER option \<Rightarrow> (gboolean \<times> SCHEDULER option \<times> registration list) option" where
  "schedulers_free server st =
     (case st of
        None \<Rightarrow> None
      | Some sc \<Rightarrow> Some (1, None, if server then [ServerUnreg ''scheduler''] else []))"

definition schedulers_set_server :: "bool \<Rightarrow> registration list" where
  "schedulers_set_server server = (if server then [ServerReg ''scheduler''] else [])"

text \<open>
  The interface the other modules see; the first argument is its allocation. The result tells whether it is returned. Releasing it
  always answers 1.
\<close>

definition scheduler_init :: "bool \<Rightarrow> bool \<Rightarrow> bool \<Rightarrow> SCHEDULER option \<Rightarrow> bool \<times> SCHEDULER option" where
  "scheduler_init api_ok mem tc st =
     (if \<not> api_ok then (False, st) else let (res, st1) = schedulers_init mem tc st in (res \<noteq> 0, st1))"

definition scheduler_free :: "bool \<Rightarrow> SCHEDULER option \<Rightarrow> (gboolean \<times> SCHEDULER option \<times> registration list) option" where
  "scheduler_free server st = do { (_, st1, regs) \<leftarrow> schedulers_free server st; Some (1, st1, regs) }"

section \<open>Running jobs\<close>

text \<open>The positions of the jobs one turn of the manager's loop starts a thread for; \<open>tc i\<close> tells whether that thread is created.\<close>

fun tick_loop :: "(time_t \<Rightarrow> tm) \<Rightarrow> time_t \<Rightarrow> (nat \<Rightarrow> bool) \<Rightarrow> nat \<Rightarrow> NODE_SCHEDULER list \<Rightarrow> nat list option" where
  "tick_loop localtime now tc i [] = Some []"
| "tick_loop localtime now tc i (node # ns) = do {
     due \<leftarrow> time_cmp localtime now node;
     rest \<leftarrow> tick_loop localtime now tc (Suc i) ns;
     Some (if due \<and> ns_status node = SCHEDULER_SLEEP \<and> tc i then i # rest else rest)
   }"

definition thr_scheduler_tick :: "(time_t \<Rightarrow> tm) \<Rightarrow> time_t \<Rightarrow> (nat \<Rightarrow> bool) \<Rightarrow> SCHEDULER \<Rightarrow> nat list option" where
  "thr_scheduler_tick localtime now tc sc =
     (if sched_do_exit sc \<noteq> 0 then Some [] else tick_loop localtime now tc 0 (sched_list sc))"

definition child_start :: "time_t \<Rightarrow> NODE_SCHEDULER \<Rightarrow> NODE_SCHEDULER" where
  "child_start now task = task\<lparr>ns_last_runs := now, ns_status := SCHEDULER_RUN\<rparr>"

definition child_finish :: "gboolean \<Rightarrow> time_t \<Rightarrow> time_t \<Rightarrow> NODE_SCHEDULER \<Rightarrow> NODE_SCHEDULER" where
  "child_finish result start_time now task =
     task\<lparr>ns_last_status := result, ns_status := SCHEDULER_SLEEP, ns_delay_time := now - start_time\<rparr>"

text \<open>The whole of a child, with the times it reads at its start and end; \<open>call\<close> runs the function of the job on its data.\<close>

definition thr_scheduler_child ::
  "(nat \<Rightarrow> nat \<Rightarrow> 'w \<Rightarrow> gboolean \<times> 'w) \<Rightarrow> time_t \<Rightarrow> time_t \<Rightarrow> NODE_SCHEDULER \<Rightarrow> 'w \<Rightarrow> NODE_SCHEDULER \<times> 'w" where
  "thr_scheduler_child call start_time now task w =
     (let task1 = child_start start_time task; (result, w1) = call (ns_func task1) (ns_data task1) w
      in (child_finish result start_time now task1, w1))"

section \<open>The control command\<close>

definition fmt_02 :: "int \<Rightarrow> string" where
  "fmt_02 i = (if 0 \<le> i \<and> i < 10 then CHR ''0'' # fmt_int i else fmt_int i)"

definition sched_traverse :: "(time_t \<Rightarrow> tm) \<Rightarrow> NODE_SCHEDULER \<Rightarrow> string list \<Rightarrow> string list" where
  "sched_traverse localtime node sock =
     (let status = (if ns_status node = SCHEDULER_SLEEP then ''SLEEP'' else if ns_status node = SCHEDULER_RUN then ''RUN'' else ''UNKNOWN'');
          last_status = (if ns_last_status node = 1 then ''OK'' else if ns_last_status node = 0 then ''ERR'' else ''???'');
          t = localtime (ns_last_runs node);
          buf = (if ns_last_runs node = 0 then replicate 17 CHR ''-''
                 else fmt_02 (tm_mday t) @ ''.'' @ fmt_02 (tm_mon t + 1) @ ''.'' @ fmt_02 (tm_year t mod 100) @ '' '' @
                      fmt_02 (tm_hour t) @ '':'' @ fmt_02 (tm_min t) @ '':'' @ fmt_02 (tm_sec t))
      in send_to_socket (''| '' @ fmt_pad 20 (cstr (ns_name node @ ns_crontab node)) @ '' | '' @ fmt_pad 18 buf @ '' | '' @
           fmt_pad 7 (fmt_int (ns_delay_time node)) @ '' | '' @ fmt_pad 7 status @ '' | '' @ fmt_pad 5 last_status @ '' |'' @ crlf) sock)"

definition schedulers_print :: "(time_t \<Rightarrow> tm) \<Rightarrow> SCHEDULER option \<Rightarrow> string list \<Rightarrow> gboolean \<times> string list" where
  "schedulers_print localtime st sock =
     (case st of
        None \<Rightarrow> (0, sock)
      | Some sc \<Rightarrow>
          let head = foldl (\<lambda>out msg. send_to_socket msg out) sock
                [dashes 73, ''| '' @ fmt_pad 20 ''Name'' @ '' | '' @ fmt_pad 18 ''Last Runs'' @ '' | '' @ fmt_pad 7 ''Delay'' @ '' | '' @
                   fmt_pad 7 ''Status'' @ '' | '' @ fmt_pad 5 ''rcode'' @ '' |'' @ crlf, dashes 73]
          in (1, send_to_socket (dashes 73) (fold (sched_traverse localtime) (sched_list sc) head)))"

definition sched_server_job :: "(time_t \<Rightarrow> tm) \<Rightarrow> string list \<Rightarrow> SCHEDULER option \<Rightarrow> string list \<Rightarrow> gboolean \<times> string list" where
  "sched_server_job localtime argv st sock =
     (if length argv = 1 \<and> strncmp (argv ! 0) ''help'' 4 = 0
      then (0, send_to_socket (''*  - show sched    - Print scheduler jobs     *'' @ crlf) sock)
      else if length argv = 2 \<and> strncmp (argv ! 0) ''show'' 4 = 0 \<and> strncmp (argv ! 1) ''sched'' 4 = 0
      then (1, snd (schedulers_print localtime st sock))
      else (0, sock))"

section \<open>The registry\<close>

definition sched_jobs :: "SCHEDULER option \<Rightarrow> NODE_SCHEDULER list" where
  "sched_jobs st = (case st of None \<Rightarrow> [] | Some sc \<Rightarrow> sched_list sc)"

definition sched_added :: "string \<Rightarrow> SCHEDULER option \<Rightarrow> SCHEDULER option \<Rightarrow> bool" where
  "sched_added name st st' \<longleftrightarrow> (\<exists>crontab func data. schedulers_register (True, True, True) name crontab func data st = Some (1, st'))"

lemma register_shape:
  assumes "schedulers_register (True, True, True) name crontab func data st = Some (1, st')"
  shows "\<exists>v d. sched_jobs st' = (new_node name crontab func data)\<lparr>ns_vol := v, ns_vol_div := d\<rparr> # sched_jobs st"
proof (cases st)
  case None
  then show ?thesis using assms by (simp add: schedulers_register_def)
next
  case (Some sc)
  then show ?thesis
    using assms by (auto simp: schedulers_register_def sched_jobs_def Let_def case_prod_beta bind_eq_Some_conv) blast
qed

interpretation sched_registry: name_registry sched_jobs ns_name "\<lambda>name st. snd (schedulers_unregister name st)" sched_added
proof
  show "sched_jobs (snd (schedulers_unregister name s)) = remove_first (\<lambda>n. same_name name (ns_name n)) (sched_jobs s)" for name s
    by (cases s) (simp_all add: sched_jobs_def schedulers_unregister_def Let_def same_name_buffer)
  show "sched_added name s s' \<Longrightarrow> \<exists>n. sched_jobs s' = n # sched_jobs s \<and> take 50 (cstr (ns_name n)) = take 50 (cstr name)" for name s s'
  proof -
    assume "sched_added name s s'"
    then obtain crontab func data where "schedulers_register (True, True, True) name crontab func data s = Some (1, s')"
      by (auto simp: sched_added_def)
    from register_shape [OF this]
    obtain v d where "sched_jobs s' = (new_node name crontab func data)\<lparr>ns_vol := v, ns_vol_div := d\<rparr> # sched_jobs s" by blast
    then show ?thesis using name_buffer [of name] by (simp add: new_node_def)
  qed
qed

section \<open>The meaning of a crontab line\<close>

datatype cron_field = Every | At nat | EveryN nat

fun show_field :: "cron_field \<Rightarrow> string" where
  "show_field Every = ''*''"
| "show_field (At n) = show_nat n"
| "show_field (EveryN n) = ''*/'' @ show_nat n"

fun field_ok :: "cron_field \<Rightarrow> bool" where
  "field_ok Every \<longleftrightarrow> True"
| "field_ok (At n) \<longleftrightarrow> n < 2 ^ 31"
| "field_ok (EveryN n) \<longleftrightarrow> 0 < n \<and> n < 2 ^ 31"

fun field_matches :: "cron_field \<Rightarrow> int \<Rightarrow> bool" where
  "field_matches Every t \<longleftrightarrow> True"
| "field_matches (At n) t \<longleftrightarrow> t = int n"
| "field_matches (EveryN n) t \<longleftrightarrow> int n dvd t"

record cron =
  c_min :: cron_field
  c_hour :: cron_field
  c_mday :: cron_field
  c_mon :: cron_field
  c_wday :: cron_field

definition show_cron :: "cron \<Rightarrow> string" where
  "show_cron c = show_field (c_min c) @ '' '' @ show_field (c_hour c) @ '' '' @ show_field (c_mday c) @ '' '' @
     show_field (c_mon c) @ '' '' @ show_field (c_wday c)"

definition cron_ok :: "cron \<Rightarrow> bool" where
  "cron_ok c \<longleftrightarrow> field_ok (c_min c) \<and> field_ok (c_hour c) \<and> field_ok (c_mday c) \<and> field_ok (c_mon c) \<and> field_ok (c_wday c) \<and>
     length (show_cron c) < 50"

definition cron_matches :: "cron \<Rightarrow> tm \<Rightarrow> bool" where
  "cron_matches c t \<longleftrightarrow> field_matches (c_min c) (tm_min t) \<and> field_matches (c_hour c) (tm_hour t) \<and>
     field_matches (c_mday c) (tm_mday t) \<and> field_matches (c_mon c) (tm_mon t) \<and> field_matches (c_wday c) (tm_wday t)"

lemma show_nat_chars:
  "CHR ''/'' \<notin> set (show_nat n)" "CHR '' '' \<notin> set (show_nat n)" "NUL \<notin> set (show_nat n)" "chd (show_nat n) \<noteq> CHR ''*''"
proof -
  show "CHR ''/'' \<notin> set (show_nat n)" "CHR '' '' \<notin> set (show_nat n)" "NUL \<notin> set (show_nat n)"
    by (auto dest!: show_nat_digits simp: isdigit_def char_code_def NUL_def)
  have "isdigit (chd (show_nat n))" using show_nat_digits [of "chd (show_nat n)" n] by (cases "show_nat n") auto
  then show "chd (show_nat n) \<noteq> CHR ''*''" by (auto simp: isdigit_def char_code_def)
qed

lemma show_field_chars: "CHR '' '' \<notin> set (show_field f)" "NUL \<notin> set (show_field f)" "show_field f \<noteq> []"
  by (cases f; simp add: show_nat_chars NUL_def [THEN arg_cong, of "\<lambda>c. c = x" for x]; simp add: NUL_def)+

lemma parse_show_field:
  assumes "field_ok f"
  shows "\<exists>v d. parse_vol (Some (show_field f)) = Some (v, d) \<and> (\<forall>t. time_field v d t = Some (field_matches f t))"
proof (cases f)
  case Every
  then show ?thesis by (simp add: parse_vol_def time_field_def)
next
  case (At n)
  have "takeWhile (\<lambda>c. c \<noteq> CHR ''/'') (show_nat n) = show_nat n" "dropWhile (\<lambda>c. c \<noteq> CHR ''/'') (show_nat n) = []"
    using show_nat_chars(1) [of n] by (auto simp: takeWhile_eq_all_conv dropWhile_eq_Nil_conv)
  then show ?thesis
    using At assms atoi_show_nat [of n] show_nat_chars(4) [of n] by (auto simp: parse_vol_def time_field_def Let_def)
next
  case (EveryN n)
  then show ?thesis
    using assms atoi_show_nat [of n] by (auto simp: parse_vol_def time_field_def Let_def dvd_eq_mod_eq_0)
qed

lemma strtok_field:
  assumes "CHR '' '' \<notin> set f" and "f \<noteq> []"
  shows "ip_strtok_r (Some (f @ CHR '' '' # rest)) '' '' s = (Some f, rest)" "ip_strtok_r None '' '' (f @ CHR '' '' # rest) = (Some f, rest)"
    "ip_strtok_r None '' '' f = (Some f, [])"
proof -
  let ?in = "\<lambda>c. c \<in> set '' ''" and ?out = "\<lambda>c. c \<notin> set '' ''"
  have out: "\<And>x. x \<in> set f \<Longrightarrow> ?out x" using assms(1) by auto
  have skip: "dropWhile ?in (f @ r) = f @ r" for r using assms by (cases f) auto
  have take: "takeWhile ?out (f @ r) = f @ takeWhile ?out r" for r by (rule takeWhile_append2) (rule out)
  have drop: "dropWhile ?out (f @ r) = dropWhile ?out r" for r by (rule dropWhile_append2) (rule out)
  have rest: "takeWhile ?out (CHR '' '' # rest) = []" "dropWhile ?out (CHR '' '' # rest) = CHR '' '' # rest" by simp_all
  show "ip_strtok_r (Some (f @ CHR '' '' # rest)) '' '' s = (Some f, rest)" "ip_strtok_r None '' '' (f @ CHR '' '' # rest) = (Some f, rest)"
    unfolding ip_strtok_r_def Let_def option.case skip take drop rest using assms(2) by simp_all
  show "ip_strtok_r None '' '' f = (Some f, [])"
    unfolding ip_strtok_r_def Let_def option.case skip [of "[]", unfolded append_Nil2] drop [of "[]", unfolded append_Nil2]
      take [of "[]", unfolded append_Nil2] using assms(2) by simp
qed

lemma register_cron:
  assumes ok: "cron_ok c"
  shows "\<exists>sc' node. schedulers_register (True, True, True) name (show_cron c) func data (Some sc) = Some (1, Some sc') \<and>
           sched_list sc' = node # sched_list sc \<and> ns_status node = SCHEDULER_SLEEP \<and>
           (\<forall>localtime now. time_cmp localtime now node = Some (cron_matches c (localtime now)))"
proof -
  have nn: "NUL \<notin> set (show_cron c)" using show_field_chars(2) by (auto simp: show_cron_def NUL_def)
  have crontab: "cstr (strncpy (replicate 50 NUL) (show_cron c) 50) = show_cron c"
    using ok cstr_strncpy [of "show_cron c" 50] by (simp add: cron_ok_def cstr_ident [OF nn])
  obtain v1 d1 where f1: "parse_vol (Some (show_field (c_min c))) = Some (v1, d1)" "\<forall>t. time_field v1 d1 t = Some (field_matches (c_min c) t)"
    using parse_show_field ok cron_ok_def by blast
  obtain v2 d2 where f2: "parse_vol (Some (show_field (c_hour c))) = Some (v2, d2)" "\<forall>t. time_field v2 d2 t = Some (field_matches (c_hour c) t)"
    using parse_show_field ok cron_ok_def by blast
  obtain v3 d3 where f3: "parse_vol (Some (show_field (c_mday c))) = Some (v3, d3)" "\<forall>t. time_field v3 d3 t = Some (field_matches (c_mday c) t)"
    using parse_show_field ok cron_ok_def by blast
  obtain v4 d4 where f4: "parse_vol (Some (show_field (c_mon c))) = Some (v4, d4)" "\<forall>t. time_field v4 d4 t = Some (field_matches (c_mon c) t)"
    using parse_show_field ok cron_ok_def by blast
  obtain v5 d5 where f5: "parse_vol (Some (show_field (c_wday c))) = Some (v5, d5)" "\<forall>t. time_field v5 d5 t = Some (field_matches (c_wday c) t)"
    using parse_show_field ok cron_ok_def by blast
  let ?node = "(new_node name (show_cron c) func data)
      \<lparr>ns_vol := zero_tm\<lparr>tm_min := v1, tm_hour := v2, tm_mday := v3, tm_mon := v4, tm_wday := v5\<rparr>,
       ns_vol_div := zero_tm\<lparr>tm_min := d1, tm_hour := d2, tm_mday := d3, tm_mon := d4, tm_wday := d5\<rparr>\<rparr>"
  note tok = strtok_field [OF show_field_chars(1,3)]
  have "schedulers_register (True, True, True) name (show_cron c) func data (Some sc) =
      Some (1, Some (sc\<lparr>sched_list := ?node # sched_list sc\<rparr>))"
    unfolding schedulers_register_def Let_def
    by (simp add: new_node_def crontab, simp add: show_cron_def tok f1(1) f2(1) f3(1) f4(1) f5(1))
  moreover have "time_cmp localtime now ?node = Some (cron_matches c (localtime now))" for localtime now
    by (simp add: time_cmp_def zero_tm_def f1(2) f2(2) f3(2) f4(2) f5(2) cron_matches_def Let_def)
  moreover have "sched_list (sc\<lparr>sched_list := ?node # sched_list sc\<rparr>) = ?node # sched_list sc" "ns_status ?node = SCHEDULER_SLEEP"
    by (simp_all add: new_node_def)
  ultimately show ?thesis by blast
qed

lemma show_nat_0: "show_nat 0 = ''0''"
proof -
  have "digit_char 0 = CHR ''0''"
    using char_of_char [of "CHR ''0''", where 'a = nat] by (simp add: digit_char_def)
  then show ?thesis by (simp add: show_nat.simps)
qed

lemma every_minutes_cron:
  "every_minutes (int n) = show_cron \<lparr>c_min = EveryN n, c_hour = Every, c_mday = Every, c_mon = Every, c_wday = Every\<rparr>"
  by (simp add: every_minutes_def show_cron_def fmt_int_def)

section \<open>Properties\<close>

definition daily :: cron where
  "daily = \<lparr>c_min = At 0, c_hour = At 0, c_mday = Every, c_mon = Every, c_wday = Every\<rparr>"

lemma daily_ok: "cron_ok daily"
  by (simp add: cron_ok_def daily_def show_cron_def show_nat.simps)



lemma tick_loop_starts:
  "\<forall>n \<in> set ns. time_cmp localtime now n \<noteq> None \<Longrightarrow>
   \<exists>js. tick_loop localtime now tc i ns = Some js \<and> distinct js \<and> (\<forall>j \<in> set js. i \<le> j) \<and>
     (\<forall>j. j \<in> set js \<longleftrightarrow> i \<le> j \<and> j - i < length ns \<and> time_cmp localtime now (ns ! (j - i)) = Some True \<and>
        ns_status (ns ! (j - i)) = SCHEDULER_SLEEP \<and> tc j)"
proof (induction ns arbitrary: i)
  case (Cons n ns)
  obtain due where due: "time_cmp localtime now n = Some due" using Cons.prems by auto
  obtain js where js: "tick_loop localtime now tc (Suc i) ns = Some js" "distinct js" "\<forall>j \<in> set js. Suc i \<le> j"
      "\<forall>j. j \<in> set js \<longleftrightarrow> Suc i \<le> j \<and> j - Suc i < length ns \<and> time_cmp localtime now (ns ! (j - Suc i)) = Some True \<and>
        ns_status (ns ! (j - Suc i)) = SCHEDULER_SLEEP \<and> tc j"
    using Cons.IH [of "Suc i"] Cons.prems by auto
  let ?js = "if due \<and> ns_status n = SCHEDULER_SLEEP \<and> tc i then i # js else js"
  have "tick_loop localtime now tc i (n # ns) = Some ?js" using due js(1) by simp
  moreover have "distinct ?js" "\<forall>j \<in> set ?js. i \<le> j" using js(2,3) by (auto dest: Suc_leD)
  moreover have "j \<in> set ?js \<longleftrightarrow> i \<le> j \<and> j - i < length (n # ns) \<and> time_cmp localtime now ((n # ns) ! (j - i)) = Some True \<and>
        ns_status ((n # ns) ! (j - i)) = SCHEDULER_SLEEP \<and> tc j" for j
  proof (cases "j = i")
    case True
    then show ?thesis using due js(3) by auto
  next
    case False
    show ?thesis
    proof (cases "Suc i \<le> j")
      case True
      then have "j - i = Suc (j - Suc i)" by simp
      then show ?thesis using False js(4) True by auto
    next
      case outside: False
      then show ?thesis using False js(3) by auto
    qed
  qed
  ultimately show ?case by blast
qed simp

text \<open>
  Turn of the scheduler. When every registered schedule can be evaluated, one turn of the manager does not fault and
  starts a thread for exactly the jobs that are due, asleep and whose thread can be created, once for each.
\<close>

theorem thr_scheduler_tick_starts:
  assumes "sched_do_exit sc = 0" and "\<forall>n \<in> set (sched_list sc). time_cmp localtime now n \<noteq> None"
  shows "\<exists>js. thr_scheduler_tick localtime now tc sc = Some js \<and> distinct js \<and>
           (\<forall>j. j \<in> set js \<longleftrightarrow> j < length (sched_list sc) \<and> time_cmp localtime now (sched_list sc ! j) = Some True \<and>
              ns_status (sched_list sc ! j) = SCHEDULER_SLEEP \<and> tc j)"
  using tick_loop_starts [OF assms(2), of tc 0] assms(1) by (auto simp: thr_scheduler_tick_def)

definition ex_sched :: SCHEDULER where
  "ex_sched = \<lparr>sched_list = [(new_node ''a'' ''* * * * *'' 1 0)\<lparr>ns_vol := \<lparr>tm_sec = 0, tm_min = -1, tm_hour = -1, tm_mday = -1, tm_mon = -1, tm_year = 0, tm_wday = -1\<rparr>,
     ns_vol_div := \<lparr>tm_sec = 0, tm_min = -1, tm_hour = -1, tm_mday = -1, tm_mon = -1, tm_year = 0, tm_wday = -1\<rparr>\<rparr>], sched_do_exit = 0\<rparr>"

theorem thr_scheduler_tick_starts_witness:
  "\<exists>js. thr_scheduler_tick (\<lambda>_. zero_tm) 0 (\<lambda>_. True) ex_sched = Some js \<and> 0 \<in> set js"
proof -
  have c: "time_cmp (\<lambda>_. zero_tm) 0 (sched_list ex_sched ! 0) = Some True" "length (sched_list ex_sched) = 1"
      "ns_status (sched_list ex_sched ! 0) = SCHEDULER_SLEEP"
    by (simp_all add: ex_sched_def time_cmp_def time_field_def new_node_def Let_def)
  then have "\<forall>n \<in> set (sched_list ex_sched). time_cmp (\<lambda>_. zero_tm) 0 n \<noteq> None" by (auto simp: ex_sched_def)
  with thr_scheduler_tick_starts [of ex_sched "\<lambda>_. zero_tm" 0 "\<lambda>_. True"] c show ?thesis
    by (auto simp: ex_sched_def)
qed

text \<open>
  Registry. Unregistering a job right after it was registered restores the list of jobs, and unregistering any other
  name leaves the new job in place.
\<close>

theorem schedulers_unregister_inverse:
  assumes "schedulers_register (True, True, True) name crontab func data st = Some (1, st')"
  shows "sched_jobs (snd (schedulers_unregister name st')) = sched_jobs st \<and>
         (\<forall>other. take 50 (cstr other) = take 50 (cstr name) \<or>
            (\<exists>n. sched_jobs (snd (schedulers_unregister other st')) = n # sched_jobs (snd (schedulers_unregister other st))))"
proof -
  have a: "sched_added name st st'" using assms by (auto simp: sched_added_def)
  show ?thesis
    using sched_registry.unregister_added [OF a] sched_registry.unregister_other [OF a] by (auto simp: same_name_iff)
qed

theorem schedulers_unregister_inverse_witness:
  "\<exists>st'. schedulers_register (True, True, True) ''a'' (show_cron daily) 1 0 (Some ex_sched) = Some (1, st') \<and>
     sched_jobs (snd (schedulers_unregister ''a'' st')) = sched_list ex_sched"
proof -
  obtain st' where "schedulers_register (True, True, True) ''a'' (show_cron daily) 1 0 (Some ex_sched) = Some (1, st')"
    using register_cron [OF daily_ok] by blast
  with schedulers_unregister_inverse [OF this] show ?thesis by (simp add: sched_jobs_def)
qed

text \<open>
  Zero period. A configured aggregation period of 0 passes the registration, but the first evaluation of the job's schedule
  divides by zero: the scheduler thread, and with it the program, dies at the next minute.
\<close>

theorem zero_period_faults:
  "\<exists>sc' node. schedulers_register (True, True, True) name (every_minutes 0) func data (Some sc) = Some (1, Some sc') \<and>
     sched_list sc' = node # sched_list sc \<and> (\<forall>localtime now. time_cmp localtime now node = None)"
proof -
  have c: "cstr (strncpy (replicate 50 NUL) (every_minutes 0) 50) = ''*/0 * * * *''"
    using cstr_strncpy [of "every_minutes 0" 50 "replicate 50 NUL"]
    by (simp add: every_minutes_def fmt_int_def show_nat_0 NUL_def)
  have f: "''*/0 * * * *'' = ''*/0'' @ CHR '' '' # ''* * * *''" "''* * * *'' = ''*'' @ CHR '' '' # ''* * *''"
      "''* * *'' = ''*'' @ CHR '' '' # ''* *''" "''* *'' = ''*'' @ CHR '' '' # ''*''"
    by simp_all
  have tok: "ip_strtok_r (Some ''*/0 * * * *'') '' '' [] = (Some ''*/0'', ''* * * *'')"
      "ip_strtok_r None '' '' ''* * * *'' = (Some ''*'', ''* * *'')" "ip_strtok_r None '' '' ''* * *'' = (Some ''*'', ''* *'')"
      "ip_strtok_r None '' '' ''* *'' = (Some ''*'', ''*'')" "ip_strtok_r None '' '' ''*'' = (Some ''*'', [])"
    by (simp_all add: ip_strtok_r_def)
  have pv: "parse_vol (Some ''*/0'') = Some (-1, 0)" "parse_vol (Some ''*'') = Some (-1, -1)"
    using atoi_show_nat [of 0] by (simp_all add: parse_vol_def show_nat_0)
  show ?thesis
    by (simp add: schedulers_register_def Let_def new_node_def c tok pv time_cmp_def time_field_def)
qed

end
