(* ===== verification/Server.thy ===== *)
theory Server
  imports Registry Sched
begin

text \<open>
  The control server (\<^verbatim>\<open>src/server.c\<close>): the registry of command handlers, the splitting of a command
  line, and the loop that serves a connection. A handler is a number, called through the argument \<open>call\<close> on the
  arguments, its data and the pair of the text sent so far and the state \<open>'w\<close> of the rest of the program; it
  answers 1 when it has dealt with the command.

  \<open>thr_clientproc_step\<close> is one turn of the loop of \<^verbatim>\<open>thr_clientproc\<close>: the result of
  \<^verbatim>\<open>recv\<close> comes in, the connection goes on or is closed. The buffer is cleared before each turn, so its C string
  is the one in the received bytes. \<open>None\<close> is undefined behaviour: the write to
  \<^verbatim>\<open>buffer[strlen(buffer) - 2]\<close> below the buffer, the copy of a missing token, a date that overflows its
  array. Sockets and the accepting thread \<^verbatim>\<open>thr_server\<close> are not modelled, nor is a failing
  \<^verbatim>\<open>send\<close>.
\<close>

section \<open>The registry\<close>

record NODE_SERVER_JOBS =
  sj_name :: string
  sj_func :: nat
  sj_data :: nat

record SERVER =
  sv_jobs :: "NODE_SERVER_JOBS list"
  sv_do_exit :: int

text \<open>
  The result tells whether an interface is returned; \<open>mem\<close> lists the two allocations and the creation of the
  thread. When the latter fails, the structure is released but still referenced.
\<close>

definition server_init :: "bool \<Rightarrow> bool \<Rightarrow> bool \<times> bool \<times> bool \<Rightarrow> SERVER option \<Rightarrow> bool \<times> SERVER option" where
  "server_init conf logger mem st =
     (if \<not> conf \<or> \<not> logger \<or> \<not> fst mem then (False, st)
      else if \<not> fst (snd mem) then (False, None)
      else (snd (snd mem), Some \<lparr>sv_jobs = [], sv_do_exit = 0\<rparr>))"

text \<open>\<open>mem\<close> lists the allocations of the node and of the list cell.\<close>

definition register_server :: "bool \<times> bool \<Rightarrow> string \<Rightarrow> nat \<Rightarrow> nat \<Rightarrow> SERVER option \<Rightarrow> gboolean \<times> SERVER option" where
  "register_server mem name func data st =
     (case st of
        None \<Rightarrow> (0, None)
      | Some sv \<Rightarrow>
          if \<not> fst mem then (0, st)
          else let t_row = \<lparr>sj_name = strncpy (replicate 50 NUL) name 50, sj_func = func, sj_data = data\<rparr>
               in (1, Some (sv\<lparr>sv_jobs := (if snd mem then t_row # sv_jobs sv else [])\<rparr>)))"

definition server_compare :: "NODE_SERVER_JOBS \<Rightarrow> NODE_SERVER_JOBS \<Rightarrow> int" where
  "server_compare a b = strncmp (sj_name a) (sj_name b) 50"

definition unregister_server :: "string \<Rightarrow> SERVER option \<Rightarrow> gboolean \<times> SERVER option" where
  "unregister_server name st =
     (case st of
        None \<Rightarrow> (0, None)
      | Some sv \<Rightarrow>
          let key = strncpy (replicate 50 NUL) name 50
          in (1, Some (sv\<lparr>sv_jobs := remove_first (\<lambda>n. strncmp (sj_name n) key 50 = 0) (sv_jobs sv)\<rparr>)))"

definition server_free :: "SERVER option \<Rightarrow> gboolean \<times> SERVER option" where
  "server_free st = (case st of None \<Rightarrow> (0, None) | Some sv \<Rightarrow> (1, None))"

section \<open>A command line\<close>

text \<open>The arguments; with an empty buffer \<^verbatim>\<open>*argc\<close> keeps the 0 of the caller.\<close>

definition parse_arg :: "string \<Rightarrow> int \<Rightarrow> string list option" where
  "parse_arg buffer max_tok =
     (if buffer = [] then Some []
      else case ip_strtok_r (Some buffer) '' '' [] of
        (None, _) \<Rightarrow> None
      | (Some ptr, save) \<Rightarrow> Some (parse_arg_loop [ptr] max_tok '' '' save))"

definition get_date :: "(time_t \<Rightarrow> tm) \<Rightarrow> time_t \<Rightarrow> string option" where
  "get_date localtime s_time =
     (let td = localtime s_time
      in sprintf_buf 18
        (if s_time \<noteq> 0
         then fmt_02 (tm_mday td) @ ''.'' @ fmt_02 (tm_mon td + 1) @ ''.'' @ fmt_02 (tm_year td - 100) @ '' '' @
              fmt_02 (tm_hour td) @ '':'' @ fmt_02 (tm_min td) @ '':'' @ fmt_02 (tm_sec td)
         else replicate 17 CHR ''-''))"

section \<open>Serving a connection\<close>

type_synonym 'w handler = "nat \<Rightarrow> string list \<Rightarrow> nat \<Rightarrow> string list \<times> 'w \<Rightarrow> gboolean \<times> string list \<times> 'w"

text \<open>The loop over the registered jobs: whether one of them answered 1.\<close>

fun call_jobs :: "'w handler \<Rightarrow> string list \<Rightarrow> NODE_SERVER_JOBS list \<Rightarrow> string list \<times> 'w \<Rightarrow> bool \<times> string list \<times> 'w" where
  "call_jobs call argv [] s = (False, s)"
| "call_jobs call argv (job # jobs) s =
     (case call (sj_func job) argv (sj_data job) s of (r, s1) \<Rightarrow>
        if r = 1 then (True, s1) else call_jobs call argv jobs s1)"

definition help_text :: "string list" where
  "help_text =
     [[CHR 0x0A] @ ''Commands:'' @ crlf,
      replicate 47 CHR ''*'' @ crlf,
      replicate 15 CHR ''*'' @ '' System Commands '' @ replicate 15 CHR ''*'' @ crlf,
      replicate 47 CHR ''*'' @ crlf,
      ''*  - help          - This is help             *'' @ crlf,
      ''*  - date          - Print current date       *'' @ crlf,
      ''*  - exit or quit  - Exit from console        *'' @ crlf,
      replicate 47 CHR ''*'' @ crlf]"

definition send_all :: "string list \<Rightarrow> string list \<Rightarrow> string list" where
  "send_all msgs sock = foldl (\<lambda>out msg. send_to_socket msg out) sock msgs"

definition is_cmd :: "string \<Rightarrow> string list \<Rightarrow> bool" where
  "is_cmd cmd argv \<longleftrightarrow> strncmp (argv ! 0) cmd 4 = 0"

text \<open>What happens to a command; the flag tells whether the connection stays open.\<close>

definition serve_command ::
  "(time_t \<Rightarrow> tm) \<Rightarrow> time_t \<Rightarrow> 'w handler \<Rightarrow> NODE_SERVER_JOBS list \<Rightarrow> string list \<Rightarrow> string list \<times> 'w \<Rightarrow> (bool \<times> string list \<times> 'w) option" where
  "serve_command localtime now call jobs argv s =
     (if argv = [] then Some (True, s)
      else if \<not> is_cmd ''help'' argv \<and> is_cmd ''date'' argv then do {
        d \<leftarrow> get_date localtime now;
        Some (True, send_to_socket (''Current Date: '' @ d @ crlf @ crlf) (fst s), snd s)
      }
      else if \<not> is_cmd ''help'' argv \<and> (is_cmd ''exit'' argv \<or> is_cmd ''quit'' argv)
      then Some (False, send_to_socket (''Bye Bye!!!'' @ [CHR 0x0A] @ crlf) (fst s), snd s)
      else
        let s1 = (if is_cmd ''help'' argv then (send_all help_text (fst s), snd s) else s);
            (done, s2) = call_jobs call argv jobs s1
        in if done then Some (True, s2)
           else Some (True, send_to_socket (if is_cmd ''help'' argv then replicate 47 CHR ''*'' @ crlf @ [CHR 0x0A] else ''Error: unknow command'' @ crlf) (fst s2), snd s2))"

datatype recv_result = RecvFailed bool | Received string

definition thr_clientproc_step ::
  "(time_t \<Rightarrow> tm) \<Rightarrow> time_t \<Rightarrow> 'w handler \<Rightarrow> NODE_SERVER_JOBS list \<Rightarrow> recv_result \<Rightarrow> string list \<times> 'w \<Rightarrow> (bool \<times> string list \<times> 'w) option" where
  "thr_clientproc_step localtime now call jobs res s0 =
     (let s = (send_to_socket ''IPStat>'' (fst s0), snd s0)
      in case res of
           RecvFailed interrupted \<Rightarrow> Some (interrupted, s)
         | Received bytes \<Rightarrow>
             let line = cstr bytes
             in if length line < 2 \<or> length line \<ge> 4096 then None
                else do {
                  argv \<leftarrow> parse_arg (take (length line - 2) line) 19;
                  serve_command localtime now call jobs argv s
                })"

section \<open>Splitting\<close>

lemma ip_strtok_none: "ip_strtok_r (Some s) delim save = (None, r) \<longleftrightarrow> dropWhile (\<lambda>c. c \<in> set delim) s = [] \<and> r = []"
  by (auto simp: ip_strtok_r_def Let_def)

lemma parse_arg_misc:
  "parse_arg buffer max_tok =
     (if buffer \<noteq> [] \<and> (\<forall>c \<in> set buffer. c = CHR '' '') then None else Some (snd (ip_parse_arg buffer max_tok '' '')))"
proof -
  have all: "dropWhile (\<lambda>c. c \<in> set '' '') buffer = [] \<longleftrightarrow> (\<forall>c \<in> set buffer. c = CHR '' '')"
    by (simp add: dropWhile_eq_Nil_conv)
  show ?thesis
  proof (cases "ip_strtok_r (Some buffer) '' '' []")
    case (Pair p save)
    show ?thesis
    proof (cases p)
      case None
      then have "\<forall>c \<in> set buffer. c = CHR '' ''" using Pair ip_strtok_none [of buffer "'' ''" "[]" save] all by simp
      then show ?thesis using Pair None by (simp add: parse_arg_def ip_parse_arg_def)
    next
      case (Some ptr)
      have "dropWhile (\<lambda>c. c \<in> set '' '') buffer \<noteq> []"
        using Pair Some by (auto simp: ip_strtok_r_def Let_def split: if_splits)
      then have "\<not> (\<forall>c \<in> set buffer. c = CHR '' '')" using all by blast
      then show ?thesis using Pair Some by (auto simp: parse_arg_def ip_parse_arg_def Let_def)
    qed
  qed
qed

section \<open>The registry contract\<close>

definition server_jobs :: "SERVER option \<Rightarrow> NODE_SERVER_JOBS list" where
  "server_jobs st = (case st of None \<Rightarrow> [] | Some sv \<Rightarrow> sv_jobs sv)"

definition server_added :: "string \<Rightarrow> SERVER option \<Rightarrow> SERVER option \<Rightarrow> bool" where
  "server_added name st st' \<longleftrightarrow> (\<exists>func data. register_server (True, True) name func data st = (1, st'))"

interpretation server_registry: name_registry server_jobs sj_name "\<lambda>name st. snd (unregister_server name st)" server_added
proof
  show "server_jobs (snd (unregister_server name s)) = remove_first (\<lambda>n. same_name name (sj_name n)) (server_jobs s)" for name s
    by (cases s) (simp_all add: server_jobs_def unregister_server_def Let_def same_name_buffer)
  show "server_added name s s' \<Longrightarrow> \<exists>n. server_jobs s' = n # server_jobs s \<and> take 50 (cstr (sj_name n)) = take 50 (cstr name)" for name s s'
    using name_buffer [of name] by (cases s) (auto simp: server_added_def register_server_def server_jobs_def)
qed

section \<open>Properties\<close>

text \<open>The state after the first \<open>k\<close> jobs have been called, and the answer of the next one.\<close>

definition after_jobs :: "'w handler \<Rightarrow> string list \<Rightarrow> NODE_SERVER_JOBS list \<Rightarrow> nat \<Rightarrow> string list \<times> 'w \<Rightarrow> string list \<times> 'w" where
  "after_jobs call argv jobs k s = foldl (\<lambda>s job. snd (call (sj_func job) argv (sj_data job) s)) s (take k jobs)"

definition job_answer :: "'w handler \<Rightarrow> string list \<Rightarrow> NODE_SERVER_JOBS list \<Rightarrow> nat \<Rightarrow> string list \<times> 'w \<Rightarrow> gboolean" where
  "job_answer call argv jobs k s =
     fst (call (sj_func (jobs ! k)) argv (sj_data (jobs ! k)) (after_jobs call argv jobs k s))"

lemma after_jobs_0 [simp]: "after_jobs call argv jobs 0 s = s"
  by (simp add: after_jobs_def)

lemma after_jobs_Cons [simp]:
  "after_jobs call argv (j # jobs) (Suc k) s = after_jobs call argv jobs k (snd (call (sj_func j) argv (sj_data j) s))"
  by (simp add: after_jobs_def)

lemma job_answer_Cons [simp]:
  "job_answer call argv (j # jobs) 0 s = fst (call (sj_func j) argv (sj_data j) s)"
  "job_answer call argv (j # jobs) (Suc k) s = job_answer call argv jobs k (snd (call (sj_func j) argv (sj_data j) s))"
  by (simp_all add: job_answer_def)

lemma call_jobs_first:
  "\<exists>k \<le> length jobs. (\<forall>i < k. job_answer call argv jobs i s \<noteq> 1) \<and>
     (if k < length jobs then job_answer call argv jobs k s = 1 \<and> call_jobs call argv jobs s = (True, after_jobs call argv jobs (Suc k) s)
      else call_jobs call argv jobs s = (False, after_jobs call argv jobs k s))"
proof (induction jobs arbitrary: s)
  case (Cons j jobs)
  obtain r s1 where c: "call (sj_func j) argv (sj_data j) s = (r, s1)" by (rule prod.exhaust)
  show ?case
  proof (cases "r = 1")
    case True
    then show ?thesis using c by (intro exI [of _ 0]) simp
  next
    case False
    obtain k where k: "k \<le> length jobs" "\<forall>i < k. job_answer call argv jobs i s1 \<noteq> 1"
      "if k < length jobs then job_answer call argv jobs k s1 = 1 \<and> call_jobs call argv jobs s1 = (True, after_jobs call argv jobs (Suc k) s1)
       else call_jobs call argv jobs s1 = (False, after_jobs call argv jobs k s1)"
      using Cons.IH [of s1] by blast
    have "\<forall>i < Suc k. job_answer call argv (j # jobs) i s \<noteq> 1"
      using k(2) False c by (auto simp: less_Suc_eq_0_disj)
    then show ?thesis using k(1,3) False c by (intro exI [of _ "Suc k"]) (simp split: if_splits)
  qed
qed simp

lemma is_cmd_exclusive: "is_cmd ''help'' argv \<Longrightarrow> \<not> is_cmd ''date'' argv \<and> \<not> is_cmd ''exit'' argv \<and> \<not> is_cmd ''quit'' argv"
  by (auto simp: is_cmd_def strncmp_eq_0 NUL_def)

lemma serve_command_None:
  "serve_command localtime now call jobs argv s = None \<longleftrightarrow>
     argv \<noteq> [] \<and> is_cmd ''date'' argv \<and> get_date localtime now = None"
  using is_cmd_exclusive [of argv] by (auto simp: serve_command_def Let_def bind_eq_None_conv split: prod.splits)

text \<open>
  C25 (dispatch). A command that is none of the built-in ones is offered to the registered jobs in the order of the list, up
  to the first one that answers 1; the others are not called. When no job answers 1, all have been called and the client is told
  that the command is unknown. The connection stays open.
\<close>

theorem serve_command_dispatch:
  assumes "argv \<noteq> []" and "\<forall>cmd \<in> {''help'', ''date'', ''exit'', ''quit''}. \<not> is_cmd cmd argv"
  shows "\<exists>k \<le> length jobs. (\<forall>i < k. job_answer call argv jobs i s \<noteq> 1) \<and>
     (if k < length jobs
      then job_answer call argv jobs k s = 1 \<and>
           serve_command localtime now call jobs argv s = Some (True, after_jobs call argv jobs (Suc k) s)
      else serve_command localtime now call jobs argv s =
             Some (True, fst (after_jobs call argv jobs k s) @ [''Error: unknow command'' @ crlf], snd (after_jobs call argv jobs k s)))"
proof -
  have "serve_command localtime now call jobs argv s =
      (case call_jobs call argv jobs s of (found, s2) \<Rightarrow>
         if found then Some (True, s2) else Some (True, send_to_socket (''Error: unknow command'' @ crlf) (fst s2), snd s2))"
    using assms by (simp add: serve_command_def)
  moreover have "send_to_socket (''Error: unknow command'' @ crlf) out = out @ [''Error: unknow command'' @ crlf]" for out
    by (simp add: send_to_socket_def crlf_def)
  moreover obtain k where "k \<le> length jobs" "\<forall>i < k. job_answer call argv jobs i s \<noteq> 1"
      "if k < length jobs then job_answer call argv jobs k s = 1 \<and> call_jobs call argv jobs s = (True, after_jobs call argv jobs (Suc k) s)
       else call_jobs call argv jobs s = (False, after_jobs call argv jobs k s)"
    using call_jobs_first by blast
  ultimately show ?thesis by (intro exI [of _ k]) (simp split: if_splits)
qed

definition ex_call :: "nat handler" where
  "ex_call f argv d s = (if f = 2 then 1 else 0, fst s, snd s + 10 ^ f)"

theorem serve_command_dispatch_witness:
  "serve_command (\<lambda>_. zero_tm) 0 ex_call (map (\<lambda>f. \<lparr>sj_name = ''x'', sj_func = f, sj_data = 0\<rparr>) [1, 2, 3]) [''users''] ([], 0) =
     Some (True, [], 110)"
proof -
  have n: "\<forall>cmd \<in> {''help'', ''date'', ''exit'', ''quit''}. \<not> is_cmd cmd [''users'']"
    by (simp add: is_cmd_def strncmp_eq_0 NUL_def)
  show ?thesis
    using serve_command_dispatch [OF _ n, of "map (\<lambda>f. \<lparr>sj_name = ''x'', sj_func = f, sj_data = 0\<rparr>) [1, 2, 3]" ex_call "([], 0)" "\<lambda>_. zero_tm" 0]
    by (auto simp: job_answer_def after_jobs_def ex_call_def le_Suc_eq numeral_3_eq_3 numeral_2_eq_2 less_Suc_eq)
qed

text \<open>
  Splitting. The splitter of the server is the one of \<^verbatim>\<open>misc.c\<close> with a space as the delimiter, except
  on a line of spaces only: there it copies a token that does not exist.
\<close>

theorem parse_arg_equiv:
  "parse_arg buffer max_tok =
     (if buffer \<noteq> [] \<and> set buffer \<subseteq> {CHR '' ''} then None else Some (snd (ip_parse_arg buffer max_tok '' '')))"
proof -
  have "set buffer \<subseteq> {CHR '' ''} \<longleftrightarrow> (\<forall>c \<in> set buffer. c = CHR '' '')" by blast
  then show ?thesis by (simp only: parse_arg_misc)
qed


text \<open>
  Server registry. Unregistering a command right after it was registered restores the list of commands, and
  unregistering any other name leaves the new command in place.
\<close>

theorem unregister_server_inverse:
  assumes "register_server (True, True) name func data st = (1, st')"
  shows "server_jobs (snd (unregister_server name st')) = server_jobs st \<and>
         (\<forall>other. take 50 (cstr other) = take 50 (cstr name) \<or>
            (\<exists>n. server_jobs (snd (unregister_server other st')) = n # server_jobs (snd (unregister_server other st))))"
proof -
  have a: "server_added name st st'" using assms by (auto simp: server_added_def)
  show ?thesis
    using server_registry.unregister_added [OF a] server_registry.unregister_other [OF a] by (auto simp: same_name_iff)
qed

theorem unregister_server_inverse_witness:
  "server_jobs (snd (unregister_server ''core'' (snd (register_server (True, True) ''core'' 7 0 (Some \<lparr>sv_jobs = [], sv_do_exit = 0\<rparr>))))) = []"
  using unregister_server_inverse [of "''core''" 7 0 "Some \<lparr>sv_jobs = [], sv_do_exit = 0\<rparr>"]
  by (simp add: register_server_def server_jobs_def)

end
