(* ===== verification/Conf.thy ===== *)
theory Conf
  imports Misc
begin

text \<open>
  The configuration reader (\<^verbatim>\<open>src/conf.c\<close>). A module passes a table of variables; every variable
  first gets its default, then the lines of the file are applied from the top. The memory the variables live in maps the
  address in \<^verbatim>\<open>vol\<close> to a value of the table entry's type; a string variable is a character array.
  The file is its contents, or \<open>None\<close> when it cannot be opened.
\<close>

section \<open>Variables\<close>

datatype cf_type = CF_TYPE_STRING | CF_TYPE_INT | CF_TYPE_LONG

datatype cf_value = VString string | VInt "32 word" | VLong "32 word"

record CONF_PARSER =
  cp_name :: string
  cp_type :: cf_type
  cp_size :: nat
  cp_vol :: addr
  cp_defvol :: string

type_synonym cf_memory = "addr \<Rightarrow> cf_value"

text \<open>The bytes of an array, for a location used as one.\<close>

fun char_array :: "cf_value \<Rightarrow> string" where
  "char_array (VString s) = s"
| "char_array (VInt i) = []"
| "char_array (VLong i) = []"

text \<open>The two switches over the type: on the 32-bit platform \<^verbatim>\<open>atol\<close> and \<^verbatim>\<open>atoi\<close> agree.\<close>

definition assign :: "CONF_PARSER \<Rightarrow> string \<Rightarrow> cf_memory \<Rightarrow> cf_memory" where
  "assign this str m =
     m(cp_vol this :=
        (case cp_type this of
           CF_TYPE_STRING \<Rightarrow> VString (strncpy (char_array (m (cp_vol this))) str (cp_size this))
         | CF_TYPE_INT \<Rightarrow> VInt (conv (atoi str))
         | CF_TYPE_LONG \<Rightarrow> VLong (conv (atoi str))))"

definition set_defaults :: "CONF_PARSER list \<Rightarrow> cf_memory \<Rightarrow> cf_memory" where
  "set_defaults variables m = fold (\<lambda>this. assign this (cp_defvol this)) variables m"

section \<open>Lines\<close>

text \<open>\<^verbatim>\<open>fgets\<close> with a buffer of \<open>n + 1\<close> bytes: at most \<open>n\<close> bytes, up to and with a newline.\<close>

definition newline :: char where "newline = CHR 0x0A"

definition fgets :: "nat \<Rightarrow> string \<Rightarrow> (string \<times> string) option" where
  "fgets n fd =
     (if fd = [] then None
      else let line = takeWhile (\<lambda>c. c \<noteq> newline) fd @ take 1 (dropWhile (\<lambda>c. c \<noteq> newline) fd);
               got = take n line
           in Some (got, drop (length got) fd))"

text \<open>One turn of the inner loop over the table, then one turn of the loop over the lines.\<close>

definition apply_line :: "CONF_PARSER list \<Rightarrow> string \<Rightarrow> string \<Rightarrow> cf_memory \<Rightarrow> cf_memory" where
  "apply_line variables key str m =
     fold (\<lambda>this m. if strncasecmp (cp_name this) key (length (cp_name this)) = 0 then assign this str m else m) variables m"

definition parse_line :: "CONF_PARSER list \<Rightarrow> string \<Rightarrow> cf_memory \<Rightarrow> cf_memory" where
  "parse_line variables buffer m =
     (let line = cstr buffer
      in if line = [] \<or> chd line = CHR ''#'' \<or> chd line = newline then m
         else let text = takeWhile (\<lambda>c. c \<noteq> newline) line;
                  key = takeWhile (\<lambda>c. c \<noteq> CHR ''='') text;
                  rest = dropWhile (\<lambda>c. c \<noteq> CHR ''='') text
              in if rest = [] then m else apply_line variables key (tl rest) m)"

lemma fgets_shrinks: "0 < n \<Longrightarrow> fgets n fd = Some (got, rest) \<Longrightarrow> length rest < length fd"
proof -
  assume n: "0 < n" and g: "fgets n fd = Some (got, rest)"
  then have f: "fd \<noteq> []" by (auto simp: fgets_def split: if_splits)
  then have "takeWhile (\<lambda>c. c \<noteq> newline) fd @ take 1 (dropWhile (\<lambda>c. c \<noteq> newline) fd) \<noteq> []"
    by (cases fd) auto
  moreover have "got = take n (takeWhile (\<lambda>c. c \<noteq> newline) fd @ take 1 (dropWhile (\<lambda>c. c \<noteq> newline) fd))"
      and r: "rest = drop (length got) fd"
    using g f unfolding fgets_def Let_def by (simp_all only: if_False option.inject prod.inject) (elim conjE, simp only:)
  ultimately have "got \<noteq> []" using n by (simp only: take_eq_Nil) simp
  then show ?thesis using f r by simp
qed

lemma fgets_1023: "fgets 1023 fd = Some (got, rest) \<Longrightarrow> length rest < length fd"
  by (rule fgets_shrinks [of 1023]) simp_all

text \<open>The loop over the file; the buffer has 1024 bytes.\<close>

function parse_lines :: "CONF_PARSER list \<Rightarrow> string \<Rightarrow> cf_memory \<Rightarrow> cf_memory" where
  "parse_lines variables fd m =
     (case fgets 1023 fd of
        None \<Rightarrow> m
      | Some (buffer, rest) \<Rightarrow> parse_lines variables rest (parse_line variables buffer m))"
  by pat_completeness auto
termination
  by (relation "measure (\<lambda>(vs, f, m). length f)") (auto dest: fgets_1023)

declare parse_lines.simps [simp del]

record CONF_API =
  cf_file :: string

definition conf_init :: "bool \<Rightarrow> string option \<Rightarrow> CONF_API option" where
  "conf_init ok conf_file = (case conf_file of None \<Rightarrow> None | Some f \<Rightarrow> if ok then Some \<lparr>cf_file = f\<rparr> else None)"

definition conf_parse :: "(string \<Rightarrow> string option) \<Rightarrow> CONF_API option \<Rightarrow> CONF_PARSER list \<Rightarrow> cf_memory \<Rightarrow> gboolean \<times> cf_memory" where
  "conf_parse files conf variables m =
     (case conf of
        None \<Rightarrow> (0, m)
      | Some api \<Rightarrow>
          let m1 = set_defaults variables m
          in case files (cf_file api) of
               None \<Rightarrow> (0, m1)
             | Some text \<Rightarrow> (1, parse_lines variables text m1))"

definition conf_free :: "CONF_API option \<Rightarrow> gboolean" where
  "conf_free conf = 1"

text \<open>The table of \<^verbatim>\<open>src/main.c\<close>.\<close>

definition main_variables :: "CONF_PARSER list" where
  "main_variables = [\<lparr>cp_name = ''debug'', cp_type = CF_TYPE_INT, cp_size = 0, cp_vol = 0, cp_defvol = ''0''\<rparr>]"

section \<open>A file as a list of lines\<close>

text \<open>The reference: what a line sets, and the values the lines of a file give a variable.\<close>

fun setting :: "string \<Rightarrow> (string \<times> string) option" where
  "setting l =
     (if l = [] \<or> hd l = CHR ''#'' \<or> CHR ''='' \<notin> set l then None
      else Some (takeWhile (\<lambda>c. c \<noteq> CHR ''='') l, tl (dropWhile (\<lambda>c. c \<noteq> CHR ''='') l)))"

definition names :: "CONF_PARSER \<Rightarrow> string \<Rightarrow> bool" where
  "names this key \<longleftrightarrow> length (cp_name this) \<le> length key \<and> map tolower (take (length (cp_name this)) key) = map tolower (cp_name this)"

fun values_for :: "CONF_PARSER \<Rightarrow> string list \<Rightarrow> string list" where
  "values_for this [] = []"
| "values_for this (l # ls) =
     (case setting l of
        None \<Rightarrow> values_for this ls
      | Some (key, v) \<Rightarrow> if names this key then v # values_for this ls else values_for this ls)"

definition proper_line :: "string \<Rightarrow> bool" where
  "proper_line l \<longleftrightarrow> newline \<notin> set l \<and> NUL \<notin> set l \<and> length l < 1023"

definition file_of :: "string list \<Rightarrow> string" where
  "file_of ls = concat (map (\<lambda>l. l @ [newline]) ls)"

lemma file_of_Cons: "file_of (l # ls) = l @ newline # file_of ls"
  by (simp add: file_of_def)

lemma takeWhile_line: "newline \<notin> set l \<Longrightarrow> takeWhile (\<lambda>c. c \<noteq> newline) (l @ newline # r) = l"
  by (subst takeWhile_append) auto

lemma dropWhile_line: "newline \<notin> set l \<Longrightarrow> dropWhile (\<lambda>c. c \<noteq> newline) (l @ newline # r) = newline # r"
  by (subst dropWhile_append) auto

lemma fgets_line: "proper_line l \<Longrightarrow> fgets 1023 (l @ newline # r) = Some (l @ [newline], r)"
  by (auto simp: fgets_def proper_line_def takeWhile_line dropWhile_line Let_def take_Cons')

lemma names_strncasecmp:
  assumes "NUL \<notin> set key" and "NUL \<notin> set (cp_name this)"
  shows "strncasecmp (cp_name this) key (length (cp_name this)) = 0 \<longleftrightarrow> names this key"
proof -
  have "map tolower (cp_name this) = map tolower (take (length (cp_name this)) key) \<Longrightarrow> length (cp_name this) \<le> length key"
    by (drule arg_cong [where f = length]) simp
  then show ?thesis using assms by (auto simp: strncasecmp_eq_0 cstr_ident names_def)
qed

lemma parse_line_setting:
  assumes "proper_line l"
  shows "parse_line variables (l @ [newline]) m =
           (case setting l of None \<Rightarrow> m | Some (key, v) \<Rightarrow> apply_line variables key v m)"
proof -
  have n: "NUL \<notin> set (l @ [newline])" using assms by (simp add: proper_line_def newline_def NUL_def)
  have h: "chd (l @ [newline]) = (if l = [] then newline else hd l)" "l \<noteq> [] \<Longrightarrow> hd l \<noteq> newline"
    using assms by (cases l; auto simp: proper_line_def)+
  have t: "takeWhile (\<lambda>c. c \<noteq> newline) (l @ [newline]) = l"
    using takeWhile_line [of l "[]"] assms by (simp add: proper_line_def)
  have e: "dropWhile (\<lambda>c. c \<noteq> CHR ''='') l = [] \<longleftrightarrow> CHR ''='' \<notin> set l" by (auto simp: dropWhile_eq_Nil_conv)
  show ?thesis
    by (simp only: parse_line_def cstr_ident [OF n] Let_def t h(1) e) (use h(2) in auto)
qed

lemma parse_lines_file:
  "\<forall>l \<in> set ls. proper_line l \<Longrightarrow> parse_lines variables (file_of ls) m =
     fold (\<lambda>l m. case setting l of None \<Rightarrow> m | Some (key, v) \<Rightarrow> apply_line variables key v m) ls m"
proof (induction ls arbitrary: m)
  case Nil
  then show ?case by (subst parse_lines.simps) (simp add: file_of_def fgets_def)
next
  case (Cons l ls)
  then show ?case
    by (subst parse_lines.simps) (simp add: file_of_Cons fgets_line parse_line_setting del: setting.simps)
qed

section \<open>The value of a variable\<close>

text \<open>An assignment overwrites all that an earlier one wrote, and touches no other variable.\<close>

lemma strncpy_strncpy: "n \<le> length d \<Longrightarrow> strncpy (strncpy d s n) t n = strncpy d t n"
  by (simp add: strncpy_def)

definition has_room :: "CONF_PARSER \<Rightarrow> cf_memory \<Rightarrow> bool" where
  "has_room this m \<longleftrightarrow> cp_type this = CF_TYPE_STRING \<longrightarrow> cp_size this \<le> length (char_array (m (cp_vol this)))"

lemma assign_other: "a \<noteq> cp_vol this \<Longrightarrow> assign this s m a = m a"
  by (simp add: assign_def)

lemma assign_room: "has_room this m \<Longrightarrow> has_room this (assign this s m)"
  by (auto simp: has_room_def assign_def)

lemma assign_again: "has_room this m \<Longrightarrow> assign this t (assign this s m) (cp_vol this) = assign this t m (cp_vol this)"
  by (cases "cp_type this") (auto simp: has_room_def assign_def strncpy_strncpy)

lemma assign_cong: "m (cp_vol this) = m' (cp_vol this) \<Longrightarrow> assign this s m (cp_vol this) = assign this s m' (cp_vol this)"
  by (cases "cp_type this") (simp_all add: assign_def)

text \<open>A pass over a table with distinct locations changes a variable only through its own entry.\<close>

lemma fold_table_at:
  "distinct (map cp_vol variables) \<Longrightarrow> this \<in> set variables \<Longrightarrow>
   fold (\<lambda>v m. if P v then assign v (f v) m else m) variables m (cp_vol this) =
     (if P this then assign this (f this) m (cp_vol this) else m (cp_vol this))"
proof (induction variables arbitrary: m)
  case (Cons v vs)
  have skip: "cp_vol this \<notin> cp_vol ` set vs \<Longrightarrow>
      fold (\<lambda>v m. if P v then assign v (f v) m else m) vs m' (cp_vol this) = m' (cp_vol this)" for m'
    by (induction vs arbitrary: m') (auto simp: assign_other)
  show ?case
  proof (cases "v = this")
    case True
    then show ?thesis using Cons.prems skip by auto
  next
    case False
    then have in_vs: "this \<in> set vs" using Cons.prems by simp
    then have ne: "cp_vol this \<noteq> cp_vol v" using Cons.prems(1) by (auto simp: image_iff)
    let ?m = "if P v then assign v (f v) m else m"
    have "?m (cp_vol this) = m (cp_vol this)" using ne by (simp add: assign_other)
    then show ?thesis using Cons.IH [of ?m] in_vs Cons.prems(1) assign_cong [of ?m this m] by simp
  qed
qed simp

lemma apply_line_at:
  assumes "distinct (map cp_vol variables)" and "this \<in> set variables" and "NUL \<notin> set key" and "NUL \<notin> set (cp_name this)"
  shows "apply_line variables key v m (cp_vol this) =
           (if names this key then assign this v m (cp_vol this) else m (cp_vol this))"
  unfolding apply_line_def
  by (simp only: fold_table_at [OF assms(1,2)] names_strncasecmp [OF assms(3,4)])

lemma setting_key: "setting l = Some (key, v) \<Longrightarrow> set key \<subseteq> set l"
  by (auto split: if_splits dest: set_takeWhileD)

lemma has_room_cong: "m (cp_vol this) = m' (cp_vol this) \<Longrightarrow> has_room this m = has_room this m'"
  by (simp add: has_room_def)

lemma fold_lines_at:
  assumes d: "distinct (map cp_vol variables)" "this \<in> set variables" "NUL \<notin> set (cp_name this)" and room: "has_room this m"
  shows "\<forall>l \<in> set ls. proper_line l \<Longrightarrow> m' (cp_vol this) = assign this s m (cp_vol this) \<Longrightarrow>
    fold (\<lambda>l m. case setting l of None \<Rightarrow> m | Some (key, v) \<Rightarrow> apply_line variables key v m) ls m' (cp_vol this) =
      assign this (last (s # values_for this ls)) m (cp_vol this)"
proof (induction ls arbitrary: m' s)
  case (Cons l ls)
  show ?case
  proof (cases "setting l")
    case None
    then show ?thesis using Cons.IH [of m' s] Cons.prems by (simp del: setting.simps)
  next
    case (Some kv)
    obtain key v where kv: "kv = (key, v)" by (rule prod.exhaust)
    have n: "NUL \<notin> set key" using setting_key [of l key v] Some kv Cons.prems(1) by (auto simp: proper_line_def simp del: setting.simps)
    note at = apply_line_at [OF d(1,2) n d(3), of v m']
    show ?thesis
    proof (cases "names this key")
      case True
      have "apply_line variables key v m' (cp_vol this) = assign this v m (cp_vol this)"
        using at True assign_cong [of m' this "assign this s m" v] Cons.prems(2) assign_again [OF room] by simp
      then show ?thesis using Cons.IH [of "apply_line variables key v m'" v] Cons.prems(1) Some kv True by (simp del: setting.simps)
    next
      case False
      then show ?thesis using Cons.IH [of "apply_line variables key v m'" s] Cons.prems at Some kv by (simp del: setting.simps)
    qed
  qed
qed simp

section \<open>Properties\<close>

text \<open>
  C35 (configuration). For a file of lines shorter than 1023 characters and a table of variables at distinct locations, every
  variable ends up with the value of the last line whose key begins with the variable's name, ignoring case, and with
  its default when there is none; comments, empty lines and lines without an equals sign have no effect.
\<close>

theorem conf_parse_last_line:
  assumes "distinct (map cp_vol variables)" and "this \<in> set variables" and "NUL \<notin> set (cp_name this)" and "has_room this m"
    and "\<forall>l \<in> set ls. proper_line l" and "files (cf_file api) = Some (file_of ls)"
  shows "\<exists>m'. conf_parse files (Some api) variables m = (1, m') \<and>
           m' (cp_vol this) = assign this (last (cp_defvol this # values_for this ls)) m (cp_vol this)"
proof -
  have "set_defaults variables m (cp_vol this) = assign this (cp_defvol this) m (cp_vol this)"
    using fold_table_at [OF assms(1,2), of "\<lambda>_. True" cp_defvol m] by (simp add: set_defaults_def)
  from fold_lines_at [OF assms(1-5), where m' = "set_defaults variables m" and s = "cp_defvol this"] this show ?thesis
    using assms(6) by (simp add: conf_parse_def Let_def parse_lines_file [OF assms(5)])
qed

theorem conf_parse_last_line_witness:
  "\<exists>m'. conf_parse (\<lambda>_. Some (file_of [''# debug=1'', ''Debug=0'', ''debug_console=1''])) (Some \<lparr>cf_file = ''IPStat.conf''\<rparr>) main_variables (\<lambda>_. VInt 7) = (1, m') \<and>
     m' 0 = VInt 1"
proof -
  let ?ls = "[''# debug=1'', ''Debug=0'', ''debug_console=1'']" and ?dbg = "hd main_variables"
  have "\<forall>l \<in> set ?ls. proper_line l" by (simp add: proper_line_def newline_def NUL_def)
  moreover have "values_for ?dbg ?ls = [''0'', ''1'']"
    using char_of_char [of "CHR ''d''", where 'a = nat] by (simp add: main_variables_def names_def tolower_def char_code_def)
  moreover have "atoi ''1'' = 1" by (simp add: atoi_def signed_val_def isspace_def isdigit_def char_code_def saturate_def)
  moreover have "distinct (map cp_vol main_variables)" "?dbg \<in> set main_variables" "NUL \<notin> set (cp_name ?dbg)" "has_room ?dbg (\<lambda>_. VInt 7)"
    by (simp_all add: main_variables_def NUL_def has_room_def)
  ultimately show ?thesis
    using conf_parse_last_line [of main_variables ?dbg "\<lambda>_. VInt 7" ?ls "\<lambda>_. Some (file_of ?ls)" "\<lparr>cf_file = ''IPStat.conf''\<rparr>"]
    by (auto simp: main_variables_def assign_def conv_def)
qed

text \<open>The type of the value at the location of a variable, with the size of a character array.\<close>

fun typed :: "cf_type \<Rightarrow> nat \<Rightarrow> cf_value \<Rightarrow> bool" where
  "typed CF_TYPE_STRING n (VString s) = (length s = n)"
| "typed CF_TYPE_INT n (VInt i) = True"
| "typed CF_TYPE_LONG n (VLong i) = True"
| "typed _ _ _ = False"

definition well_typed :: "(addr \<Rightarrow> nat) \<Rightarrow> CONF_PARSER list \<Rightarrow> cf_memory \<Rightarrow> bool" where
  "well_typed room variables m \<longleftrightarrow>
     (\<forall>v \<in> set variables. typed (cp_type v) (room (cp_vol v)) (m (cp_vol v)) \<and> (cp_type v = CF_TYPE_STRING \<longrightarrow> cp_size v \<le> room (cp_vol v)))"

lemma assign_typed:
  assumes "distinct (map cp_vol variables)" and "v \<in> set variables" and "well_typed room variables m"
  shows "well_typed room variables (assign v s m)"
  unfolding well_typed_def
proof
  fix u assume u: "u \<in> set variables"
  show "typed (cp_type u) (room (cp_vol u)) (assign v s m (cp_vol u)) \<and> (cp_type u = CF_TYPE_STRING \<longrightarrow> cp_size u \<le> room (cp_vol u))"
  proof (cases "u = v")
    case True
    have "typed (cp_type v) (room (cp_vol v)) (m (cp_vol v))" "cp_type v = CF_TYPE_STRING \<Longrightarrow> cp_size v \<le> room (cp_vol v)"
      using assms(2,3) by (auto simp: well_typed_def)
    then show ?thesis using True by (cases "cp_type v"; cases "m (cp_vol v)") (auto simp: assign_def)
  next
    case False
    then have "cp_vol u \<noteq> cp_vol v" using assms(1,2) u by (auto simp: distinct_map inj_on_def)
    then show ?thesis using assms(3) u by (simp add: assign_other well_typed_def)
  qed
qed

lemma fold_typed:
  assumes "distinct (map cp_vol variables)"
  shows "set vs \<subseteq> set variables \<Longrightarrow> well_typed room variables m \<Longrightarrow>
    well_typed room variables (fold (\<lambda>v m. if P v then assign v (f v) m else m) vs m)"
  by (induction vs arbitrary: m) (auto intro: assign_typed [OF assms])

lemma parse_line_typed:
  assumes "distinct (map cp_vol variables)" and "well_typed room variables m"
  shows "well_typed room variables (parse_line variables buffer m)"
  using fold_typed [OF assms(1) subset_refl assms(2)] assms(2) by (simp add: parse_line_def apply_line_def Let_def)

lemma parse_lines_typed:
  "distinct (map cp_vol variables) \<Longrightarrow> well_typed room variables m \<Longrightarrow> well_typed room variables (parse_lines variables fd m)"
proof (induction variables fd m rule: parse_lines.induct)
  case (1 variables fd m)
  show ?case
  proof (cases "fgets 1023 fd")
    case None
    then show ?thesis using 1 by (subst parse_lines.simps) simp
  next
    case (Some p)
    then show ?thesis using 1 parse_line_typed [OF 1(2,3), of "fst p"] by (subst parse_lines.simps) (auto simp: case_prod_beta)
  qed
qed

text \<open>
  Types. Whatever the configuration file contains, reading it keeps the type of every variable of the table, and a
  character array keeps its size: no value is written past the end of its variable.
\<close>

theorem conf_parse_types:
  assumes "distinct (map cp_vol variables)" and "well_typed room variables m"
  shows "well_typed room variables (snd (conf_parse files conf variables m))"
proof -
  have "well_typed room variables (set_defaults variables m)"
    using fold_typed [OF assms(1) subset_refl assms(2), of "\<lambda>_. True" cp_defvol] by (simp add: set_defaults_def)
  then show ?thesis
    using assms parse_lines_typed [OF assms(1)] by (simp add: conf_parse_def Let_def split: option.splits)
qed

theorem conf_parse_types_witness:
  "well_typed (\<lambda>_. 0) main_variables (snd (conf_parse (\<lambda>_. Some ''debug=x'') (Some \<lparr>cf_file = ''IPStat.conf''\<rparr>) main_variables (\<lambda>_. VInt 7)))"
  using conf_parse_types [of main_variables "\<lambda>_. 0" "\<lambda>_. VInt 7"] by (simp add: main_variables_def well_typed_def)

end
