(* ===== verification/Mirror.thy ===== *)
theory Mirror
  imports Core_Users Aggregation
begin

text \<open>
  The policy modules (\<^verbatim>\<open>src/ipstat_url_policy.c\<close>, \<^verbatim>\<open>ipstat_system_time_policy/main.c\<close>,
  \<^verbatim>\<open>ipstat_system_group_limit/main.c\<close> and \<^verbatim>\<open>ipstat_system_users_group_limit/main.c\<close>)
  keep nine lists, each the copy of a database table, and synchronise all of them by the same code: a query lists the
  identifiers with a digest of each row; a known row is reloaded when its digest has changed, an unknown one is
  appended, and the nodes the database no longer has are removed. \<open>mirror\<close> holds what differs: the key and the
  digest of a node, the queries, and how a node is filled from a row. The functions below are the common bodies; the
  functions of the modules are their instances.

  The locale \<open>mirror_laws\<close> states what an instance promises. \<open>sync_rows_reference\<close> shows that the
  loop over the rows then computes \<open>mirrored\<close>: the old nodes in their order, brought up to date, followed by the
  new ones in the order of the rows.

  A job reads the clock once (\<open>now\<close>). \<open>mem i\<close> tells whether the allocations of the node and of the list
  cell for the \<open>i\<close>th row succeed. \<open>None\<close> is a dereferenced null pointer: the row of a single
  identifier is used without looking whether there is one.
\<close>

record 'n mirror =
  mr_key :: "'n \<Rightarrow> IP_id"
  mr_md5 :: "'n \<Rightarrow> string"
  mr_load :: "IP_id \<Rightarrow> time_t \<Rightarrow> SQL_ROW \<Rightarrow> 'n option"
  mr_update :: "time_t \<Rightarrow> SQL_ROW \<Rightarrow> 'n \<Rightarrow> gboolean \<times> 'n"
  mr_touch :: "time_t \<Rightarrow> 'n \<Rightarrow> 'n"
  mr_list_query :: string
  mr_load_query :: "IP_id \<Rightarrow> string"
  mr_update_query :: "IP_id \<Rightarrow> string"

section \<open>The common operations\<close>

definition compare_id :: "IP_id \<Rightarrow> IP_id \<Rightarrow> int" where
  "compare_id a b = memcmp (le_bytes 4 a) (le_bytes 4 b)"

definition mirror_find :: "('n \<Rightarrow> IP_id) \<Rightarrow> IP_id \<Rightarrow> 'n list \<Rightarrow> nat option" where
  "mirror_find key i l = find_index (\<lambda>n. compare_id (key n) i = 0) l"

definition mirror_insert ::
  "'n mirror \<Rightarrow> bool \<times> bool \<Rightarrow> time_t \<Rightarrow> IP_id \<Rightarrow> 'w STORE_API option \<Rightarrow> 'n list \<Rightarrow> 'w \<Rightarrow> (gboolean \<times> 'n list \<times> 'w) option" where
  "mirror_insert M mem now i store l w =
     (case store of
        None \<Rightarrow> Some (0, l, w)
      | Some api \<Rightarrow>
          (case sql_open api w of
             (None, w1) \<Rightarrow> Some (0, l, w1)
           | (Some sid, w1) \<Rightarrow>
               (case sql_query api sid (mr_load_query M i) w1 of
                  (None, w2) \<Rightarrow> Some (0, l, sql_close api sid w2)
                | (Some rows, w2) \<Rightarrow>
                    if \<not> fst mem then Some (0, l, sql_close api sid w2)
                    else (case rows of
                       [] \<Rightarrow> None
                     | row # _ \<Rightarrow>
                         (case mr_load M i now row of
                            None \<Rightarrow> Some (0, l, sql_close api sid w2)
                          | Some node \<Rightarrow> Some (1, if snd mem then l @ [node] else [], sql_close api sid w2))))))"

definition mirror_update ::
  "'n mirror \<Rightarrow> time_t \<Rightarrow> IP_id \<Rightarrow> 'w STORE_API option \<Rightarrow> 'n list \<Rightarrow> 'w \<Rightarrow> (gboolean \<times> 'n list \<times> 'w) option" where
  "mirror_update M now i store l w =
     (case store of
        None \<Rightarrow> Some (0, l, w)
      | Some api \<Rightarrow>
          (case mirror_find (mr_key M) i l of
             None \<Rightarrow> Some (0, l, w)
           | Some k \<Rightarrow>
               (case sql_open api w of
                  (None, w1) \<Rightarrow> Some (0, l, w1)
                | (Some sid, w1) \<Rightarrow>
                    (case sql_query api sid (mr_update_query M i) w1 of
                       (None, w2) \<Rightarrow> Some (0, l, sql_close api sid w2)
                     | (Some [], w2) \<Rightarrow> None
                     | (Some (row # _), w2) \<Rightarrow>
                         (case mr_update M now row (l ! k) of (r, node) \<Rightarrow> Some (r, l[k := node], sql_close api sid w2))))))"

definition mirror_delete :: "('n \<Rightarrow> IP_id) \<Rightarrow> IP_id \<Rightarrow> 'n list \<Rightarrow> gboolean \<times> 'n list" where
  "mirror_delete key i l =
     (case mirror_find key i l of None \<Rightarrow> (0, l) | Some k \<Rightarrow> (1, remove_first (\<lambda>n. compare_id (key n) i = 0) l))"

text \<open>One row of the list of identifiers; only the first 32 bytes of the digests are compared.\<close>

definition row_id :: "SQL_ROW \<Rightarrow> IP_id" where "row_id row = conv (atoi (col row 0))"

definition digest :: "string \<Rightarrow> string" where "digest s = strncpy (replicate 32 NUL) s 32"

definition sync_row ::
  "'n mirror \<Rightarrow> bool \<times> bool \<Rightarrow> time_t \<Rightarrow> 'w STORE_API option \<Rightarrow> SQL_ROW \<Rightarrow> 'n list \<Rightarrow> 'w \<Rightarrow> ('n list \<times> 'w) option" where
  "sync_row M mem now store row l w =
     (case mirror_find (mr_key M) (row_id row) l of
        None \<Rightarrow> do { (_, l1, w1) \<leftarrow> mirror_insert M mem now (row_id row) store l w; Some (l1, w1) }
      | Some k \<Rightarrow> do {
          (_, l1, w1) \<leftarrow> (if take 32 (mr_md5 M (l ! k)) \<noteq> digest (col row 1)
                         then mirror_update M now (row_id row) store l w else Some (1, l, w));
          Some (l1[k := mr_touch M now (l1 ! k)], w1)
        })"

fun sync_rows ::
  "'n mirror \<Rightarrow> (nat \<Rightarrow> bool \<times> bool) \<Rightarrow> nat \<Rightarrow> time_t \<Rightarrow> 'w STORE_API option \<Rightarrow> SQL_ROW list \<Rightarrow> 'n list \<Rightarrow> 'w \<Rightarrow> ('n list \<times> 'w) option" where
  "sync_rows M mem i now store [] l w = Some (l, w)"
| "sync_rows M mem i now store (row # rows) l w = do {
     (l1, w1) \<leftarrow> sync_row M (mem i) now store row l w;
     sync_rows M mem (Suc i) now store rows l1 w1
   }"

text \<open>The walk that removes nodes: the next cell is read before the current one may go, so it sees every node of the list.\<close>

definition delete_if :: "('n \<Rightarrow> IP_id) \<Rightarrow> ('n \<Rightarrow> bool) \<Rightarrow> 'n list \<Rightarrow> 'n list" where
  "delete_if key P l = foldl (\<lambda>l' n. if P n then snd (mirror_delete key (key n) l') else l') l l"

definition mirror_sync ::
  "'n mirror \<Rightarrow> ('n \<Rightarrow> time_t) \<Rightarrow> (nat \<Rightarrow> bool \<times> bool) \<Rightarrow> time_t \<Rightarrow> 'w STORE_API option \<Rightarrow> 'n list \<Rightarrow> 'w \<Rightarrow> (gboolean \<times> 'n list \<times> 'w) option" where
  "mirror_sync M live mem now store l w =
     (case store of
        None \<Rightarrow> Some (0, l, w)
      | Some api \<Rightarrow>
          (case sql_open api w of
             (None, w1) \<Rightarrow> Some (1, l, w1)
           | (Some sid, w1) \<Rightarrow>
               (case sql_query api sid (mr_list_query M) w1 of
                  (None, w2) \<Rightarrow> Some (0, l, sql_close api sid w2)
                | (Some rows, w2) \<Rightarrow> do {
                    (l1, w3) \<leftarrow> sync_rows M mem 0 now store rows l w2;
                    Some (1, delete_if (mr_key M) (\<lambda>n. now - live n > 90) l1, sql_close api sid w3)
                  })))"

text \<open>The first load of a list: every row that can be stored becomes a node.\<close>

fun load_rows :: "(SQL_ROW \<Rightarrow> 'n option) \<Rightarrow> (nat \<Rightarrow> bool \<times> bool) \<Rightarrow> nat \<Rightarrow> SQL_ROW list \<Rightarrow> 'n list \<Rightarrow> 'n list" where
  "load_rows load mem i [] l = l"
| "load_rows load mem i (row # rows) l =
     load_rows load mem (Suc i) rows
       (if \<not> fst (mem i) then l
        else case load row of None \<Rightarrow> l | Some node \<Rightarrow> if snd (mem i) then l @ [node] else [])"

definition mirror_init ::
  "string \<Rightarrow> (SQL_ROW \<Rightarrow> 'n option) \<Rightarrow> (nat \<Rightarrow> bool \<times> bool) \<Rightarrow> 'w STORE_API option \<Rightarrow> 'n list \<Rightarrow> 'w \<Rightarrow> gboolean \<times> 'n list \<times> 'w" where
  "mirror_init query load mem store l w =
     (case store of
        None \<Rightarrow> (0, l, w)
      | Some api \<Rightarrow>
          (case sql_open api w of
             (None, w1) \<Rightarrow> (0, l, w1)
           | (Some sid, w1) \<Rightarrow>
               (case sql_query api sid query w1 of
                  (None, w2) \<Rightarrow> (0, l, sql_close api sid w2)
                | (Some rows, w2) \<Rightarrow> (1, load_rows load mem 0 rows l, sql_close api sid w2))))"

section \<open>Lookup and removal\<close>

lemma compare_id_eq [simp]: "compare_id a b = 0 \<longleftrightarrow> a = b"
  using memcmp_eq_0 [of "le_bytes 4 a" "le_bytes 4 b"] le_bytes_inject [of 4 a b] by (auto simp: compare_id_def)

lemma mirror_find_None: "mirror_find key i l = None \<longleftrightarrow> i \<notin> key ` set l"
  by (auto simp: mirror_find_def)

lemma mirror_find_Some: "mirror_find key i l = Some k \<Longrightarrow> k < length l \<and> key (l ! k) = i"
  by (auto simp: mirror_find_def dest: find_index_SomeD)

lemma mirror_delete_filter:
  "distinct (map key l) \<Longrightarrow> snd (mirror_delete key i l) = filter (\<lambda>n. key n \<noteq> i) l"
  using remove_first_distinct [of key l i]
  by (auto simp: mirror_delete_def mirror_find_None filter_id_conv image_iff split: option.splits intro!: sym [OF filter_True])

lemma delete_if_filter:
  assumes "distinct (map key l)"
  shows "delete_if key P l = filter (\<lambda>n. \<not> P n) l"
proof -
  have "foldl (\<lambda>l' n. if P n then snd (mirror_delete key (key n) l') else l') l ns =
      filter (\<lambda>m. \<forall>n \<in> set ns. P n \<longrightarrow> key m \<noteq> key n) l" for ns
  proof (induction ns rule: rev_induct)
    case (snoc n ns)
    let ?l = "filter (\<lambda>m. \<forall>n \<in> set ns. P n \<longrightarrow> key m \<noteq> key n) l"
    have "distinct (map key ?l)" using assms by (simp add: distinct_map_filter)
    then show ?case using snoc mirror_delete_filter [of key ?l "key n"] by (auto intro!: filter_cong)
  qed simp
  moreover have "(\<forall>n \<in> set l. P n \<longrightarrow> key m \<noteq> key n) \<longleftrightarrow> \<not> P m" if "m \<in> set l" for m
    using that assms by (auto simp: distinct_map inj_on_def)
  ultimately show ?thesis by (auto simp: delete_if_def intro!: filter_cong)
qed

section \<open>The contract of an instance\<close>

text \<open>A database that answers every query from one state of the tables, whatever is asked in between.\<close>

definition answers :: "'w STORE_API \<Rightarrow> (string \<Rightarrow> SQL_ROW list) \<Rightarrow> bool" where
  "answers api answer \<longleftrightarrow> (\<forall>w. fst (sql_open api w) \<noteq> None) \<and> (\<forall>sid q w. fst (sql_query api sid q w) = Some (answer q))"

text \<open>A node brought up to date with the row that lists it, and the node for a row that is new.\<close>

definition refreshed :: "'n mirror \<Rightarrow> (string \<Rightarrow> SQL_ROW list) \<Rightarrow> time_t \<Rightarrow> SQL_ROW \<Rightarrow> 'n \<Rightarrow> 'n" where
  "refreshed M answer now row n =
     mr_touch M now (if take 32 (mr_md5 M n) \<noteq> digest (col row 1)
                     then snd (mr_update M now (hd (answer (mr_update_query M (row_id row)))) n) else n)"

definition refresh :: "'n mirror \<Rightarrow> (string \<Rightarrow> SQL_ROW list) \<Rightarrow> time_t \<Rightarrow> SQL_ROW list \<Rightarrow> 'n \<Rightarrow> 'n" where
  "refresh M answer now rows n =
     (case find (\<lambda>row. row_id row = mr_key M n) rows of None \<Rightarrow> n | Some row \<Rightarrow> refreshed M answer now row n)"

definition fresh :: "'n mirror \<Rightarrow> (string \<Rightarrow> SQL_ROW list) \<Rightarrow> time_t \<Rightarrow> SQL_ROW list \<Rightarrow> 'n list" where
  "fresh M answer now rows =
     concat (map (\<lambda>row. case mr_load M (row_id row) now (hd (answer (mr_load_query M (row_id row)))) of None \<Rightarrow> [] | Some n \<Rightarrow> [n]) rows)"

definition mirrored :: "'n mirror \<Rightarrow> (string \<Rightarrow> SQL_ROW list) \<Rightarrow> time_t \<Rightarrow> SQL_ROW list \<Rightarrow> 'n list \<Rightarrow> 'n list" where
  "mirrored M answer now rows l =
     map (refresh M answer now rows) l @ fresh M answer now (filter (\<lambda>row. row_id row \<notin> mr_key M ` set l) rows)"

text \<open>What the rows have to be: the identifiers are different, and the row of an identifier exists and belongs to it.\<close>

definition listing :: "(IP_id \<Rightarrow> SQL_ROW \<Rightarrow> bool) \<Rightarrow> 'n mirror \<Rightarrow> (string \<Rightarrow> SQL_ROW list) \<Rightarrow> SQL_ROW list \<Rightarrow> bool" where
  "listing fits M answer rows \<longleftrightarrow>
     distinct (map row_id rows) \<and>
     (\<forall>row \<in> set rows. answer (mr_load_query M (row_id row)) \<noteq> [] \<and> answer (mr_update_query M (row_id row)) \<noteq> [] \<and>
        fits (row_id row) (hd (answer (mr_load_query M (row_id row)))) \<and>
        fits (row_id row) (hd (answer (mr_update_query M (row_id row)))))"

locale mirror_laws =
  fixes M :: "'n mirror" and fits :: "IP_id \<Rightarrow> SQL_ROW \<Rightarrow> bool"
  assumes key_load: "fits i row \<Longrightarrow> mr_load M i now row = Some n \<Longrightarrow> mr_key M n = i"
    and key_update: "fits (mr_key M n) row \<Longrightarrow> mr_key M (snd (mr_update M now row n)) = mr_key M n"
    and key_touch: "mr_key M (mr_touch M now n) = mr_key M n"
begin

lemma key_refreshed:
  assumes "listing fits M answer rows" and "row \<in> set rows" and "mr_key M n = row_id row"
  shows "mr_key M (refreshed M answer now row n) = row_id row"
proof -
  have "fits (row_id row) (hd (answer (mr_update_query M (row_id row))))" using assms(1,2) by (auto simp: listing_def)
  then show ?thesis using assms(3) key_update [of n] by (auto simp: refreshed_def key_touch)
qed

lemma key_refresh:
  assumes "listing fits M answer rows"
  shows "mr_key M (refresh M answer now rows n) = mr_key M n"
proof (cases "find (\<lambda>row. row_id row = mr_key M n) rows")
  case None
  then show ?thesis by (simp add: refresh_def)
next
  case (Some row)
  then have "row \<in> set rows \<and> row_id row = mr_key M n" by (rule find_SomeD)
  then show ?thesis using Some key_refreshed [OF assms, of row n now] by (simp add: refresh_def)
qed

lemma key_fresh: "listing fits M answer rows \<Longrightarrow> n \<in> set (fresh M answer now rows) \<Longrightarrow> mr_key M n \<in> row_id ` set rows"
  using key_load by (fastforce simp: fresh_def listing_def split: option.splits)

lemma sync_row_known:
  assumes a: "answers api answer" and l: "listing fits M answer rows" "row \<in> set rows"
    and d: "distinct (map (mr_key M) l)" and k: "row_id row \<in> mr_key M ` set l"
  shows "\<exists>w'. sync_row M mem now (Some api) row l w =
    Some (map (\<lambda>n. if mr_key M n = row_id row then refreshed M answer now row n else n) l, w')"
proof -
  obtain j where j: "mirror_find (mr_key M) (row_id row) l = Some j"
    using k mirror_find_None [of "mr_key M" "row_id row" l] by auto
  note j' = mirror_find_Some [OF j]
  have m: "map (\<lambda>n. if mr_key M n = row_id row then f n else n) l = l[j := f (l ! j)]" for f
    using j' d by (intro nth_equalityI) (auto simp: nth_list_update distinct_conv_nth, metis)
  obtain sid w1 where o: "sql_open api w = (Some sid, w1)" using a by (cases "sql_open api w") (auto simp: answers_def, metis fst_conv)
  obtain r rs where r: "answer (mr_update_query M (row_id row)) = r # rs"
    using l by (auto simp: listing_def neq_Nil_conv)
  obtain w2 where q: "sql_query api sid (mr_update_query M (row_id row)) w1 = (Some (r # rs), w2)"
    using a r by (metis answers_def prod.collapse)
  show ?thesis
    using j j' o q r by (auto simp: sync_row_def mirror_update_def m refreshed_def split: prod.splits)
qed

lemma sync_row_new:
  assumes a: "answers api answer" and l: "listing fits M answer rows" "row \<in> set rows" and k: "row_id row \<notin> mr_key M ` set l"
  shows "\<exists>w'. sync_row M (True, True) now (Some api) row l w = Some (l @ fresh M answer now [row], w')"
proof -
  have j: "mirror_find (mr_key M) (row_id row) l = None" using k by (simp add: mirror_find_None)
  obtain sid w1 where o: "sql_open api w = (Some sid, w1)" using a by (cases "sql_open api w") (auto simp: answers_def, metis fst_conv)
  obtain r rs where r: "answer (mr_load_query M (row_id row)) = r # rs"
    using l by (auto simp: listing_def neq_Nil_conv)
  obtain w2 where q: "sql_query api sid (mr_load_query M (row_id row)) w1 = (Some (r # rs), w2)"
    using a r by (metis answers_def prod.collapse)
  show ?thesis
    using j o q r by (auto simp: sync_row_def mirror_insert_def fresh_def split: option.splits)
qed

lemma refresh_unlisted: "mr_key M n \<notin> row_id ` set rows \<Longrightarrow> refresh M answer now rows n = n"
  by (auto simp: refresh_def image_iff split: option.splits dest!: find_SomeD)

lemma mirrored_known:
  assumes l: "listing fits M answer (row # rows)" and k: "row_id row \<in> mr_key M ` set l"
  shows "mirrored M answer now (row # rows) l =
    mirrored M answer now rows (map (\<lambda>n. if mr_key M n = row_id row then refreshed M answer now row n else n) l)"
proof -
  let ?f = "\<lambda>n. if mr_key M n = row_id row then refreshed M answer now row n else n"
  have key: "mr_key M (?f n) = mr_key M n" for n using key_refreshed [OF l, of row n now] by simp
  have "row_id row \<notin> row_id ` set rows" using l by (simp add: listing_def)
  then have "refresh M answer now rows (?f n) = refresh M answer now (row # rows) n" for n
    using key [of n] refresh_unlisted [of "?f n" rows answer now]
    by (cases "mr_key M n = row_id row") (simp_all add: refresh_def)
  moreover have "mr_key M ` set (map ?f l) = mr_key M ` set l" unfolding set_map image_image by (rule image_cong [OF refl key])
  ultimately show ?thesis using k by (simp add: mirrored_def)
qed

lemma mirrored_new:
  assumes l: "listing fits M answer (row # rows)" and k: "row_id row \<notin> mr_key M ` set l"
  shows "mirrored M answer now (row # rows) l = mirrored M answer now rows (l @ fresh M answer now [row])"
proof -
  have one: "listing fits M answer [row]" and no: "row_id row \<notin> row_id ` set rows" using l by (auto simp: listing_def)
  have key: "mr_key M n = row_id row" if "n \<in> set (fresh M answer now [row])" for n using key_fresh [OF one that] by simp
  have "map (refresh M answer now rows) (fresh M answer now [row]) = fresh M answer now [row]"
    using key no by (intro map_idI refresh_unlisted) auto
  moreover have "map (refresh M answer now (row # rows)) l = map (refresh M answer now rows) l"
    using k by (auto simp: refresh_def)
  moreover have "filter (\<lambda>r. row_id r \<notin> mr_key M ` set (l @ fresh M answer now [row])) rows = filter (\<lambda>r. row_id r \<notin> mr_key M ` set l) rows"
    using key no by (intro filter_cong) (auto, metis image_eqI)
  ultimately show ?thesis using k by (simp add: mirrored_def fresh_def)
qed

lemma distinct_mirrored_new:
  assumes "listing fits M answer [row]" and "distinct (map (mr_key M) l)" and "row_id row \<notin> mr_key M ` set l"
  shows "distinct (map (mr_key M) (l @ fresh M answer now [row]))"
  using assms key_fresh [OF assms(1), of _ now] by (auto simp: fresh_def split: option.splits)

lemma sync_rows_reference:
  assumes a: "answers api answer" and mem: "\<forall>i. mem i = (True, True)"
  shows "listing fits M answer rows \<Longrightarrow> distinct (map (mr_key M) l) \<Longrightarrow>
    \<exists>w'. sync_rows M mem i now (Some api) rows l w = Some (mirrored M answer now rows l, w')"
proof (induction rows arbitrary: l w i)
  case Nil
  have "refresh M answer now [] = (\<lambda>n. n)" by (simp add: refresh_def fun_eq_iff)
  then show ?case by (simp add: mirrored_def fresh_def)
next
  case (Cons row rows)
  have rest: "listing fits M answer rows" and one: "listing fits M answer [row]" using Cons.prems(1) by (auto simp: listing_def)
  show ?case
  proof (cases "row_id row \<in> mr_key M ` set l")
    case True
    let ?l = "map (\<lambda>n. if mr_key M n = row_id row then refreshed M answer now row n else n) l"
    obtain w1 where "sync_row M (mem i) now (Some api) row l w = Some (?l, w1)"
      using sync_row_known [OF a Cons.prems(1) _ Cons.prems(2) True, of "mem i" now w] by auto
    moreover have "map (mr_key M) ?l = map (mr_key M) l" using key_refreshed [OF Cons.prems(1), of row] by auto
    then have "distinct (map (mr_key M) ?l)" using Cons.prems(2) by (simp only:)
    ultimately show ?thesis
      using Cons.IH [OF rest, of ?l "Suc i" w1] mirrored_known [OF Cons.prems(1) True] by simp
  next
    case False
    obtain w1 where "sync_row M (mem i) now (Some api) row l w = Some (l @ fresh M answer now [row], w1)"
      using sync_row_new [OF a Cons.prems(1) _ False, of now w] mem by auto
    then show ?thesis
      using Cons.IH [OF rest distinct_mirrored_new [OF one Cons.prems(2) False], where w = w1 and i = "Suc i"] mirrored_new [OF Cons.prems(1) False] by simp
  qed
qed

lemma distinct_fresh:
  "listing fits M answer rows \<Longrightarrow> distinct (map (mr_key M) (fresh M answer now rows))"
proof (induction rows)
  case (Cons row rows)
  have rest: "listing fits M answer rows" and one: "listing fits M answer [row]" and no: "row_id row \<notin> row_id ` set rows"
    using Cons.prems by (auto simp: listing_def)
  have "fresh M answer now (row # rows) = fresh M answer now [row] @ fresh M answer now rows" by (simp add: fresh_def)
  moreover have "distinct (map (mr_key M) (fresh M answer now [row]))" by (auto simp: fresh_def split: option.splits)
  ultimately show ?case using Cons.IH [OF rest] key_fresh [OF one, of _ now] key_fresh [OF rest, of _ now] no by fastforce
qed (simp add: fresh_def)

lemma listing_filter: "listing fits M answer rows \<Longrightarrow> listing fits M answer (filter P rows)"
  by (simp add: listing_def distinct_map_filter)

lemma distinct_mirrored:
  assumes l: "listing fits M answer rows" and d: "distinct (map (mr_key M) l)"
  shows "distinct (map (mr_key M) (mirrored M answer now rows l))"
proof -
  let ?new = "filter (\<lambda>row. row_id row \<notin> mr_key M ` set l) rows"
  have new: "listing fits M answer ?new" by (rule listing_filter [OF l])
  have old: "map (mr_key M) (map (refresh M answer now rows) l) = map (mr_key M) l"
    unfolding map_map comp_def key_refresh [OF l] ..
  have "mr_key M ` set (fresh M answer now ?new) \<subseteq> row_id ` set ?new" by (rule image_subsetI) (rule key_fresh [OF new])
  moreover have "row_id ` set ?new \<inter> mr_key M ` set l = {}" unfolding set_filter by blast
  ultimately have disj: "mr_key M ` set l \<inter> mr_key M ` set (fresh M answer now ?new) = {}" by (simp only: disjoint_iff) blast
  show ?thesis
    unfolding mirrored_def map_append old distinct_append set_map image_image key_refresh [OF l]
    by (intro conjI d disj distinct_fresh [OF new, of now])
qed

lemma mirrored_find_new:
  assumes l: "listing fits M answer rows" and d: "distinct (map (mr_key M) l)" and r: "row \<in> set rows" "row_id row \<notin> mr_key M ` set l"
    and n: "mr_load M (row_id row) now (hd (answer (mr_load_query M (row_id row)))) = Some n" "P n"
  shows "find (\<lambda>m. mr_key M m = row_id row) (filter P (mirrored M answer now rows l)) = Some n"
proof -
  have "n \<in> set (filter P (mirrored M answer now rows l))" using r n by (force simp: mirrored_def fresh_def)
  moreover have "distinct (map (mr_key M) (filter P (mirrored M answer now rows l)))"
    using distinct_mirrored [OF l d] by (simp add: distinct_map_filter)
  moreover have "mr_key M n = row_id row" using key_load [OF _ n(1)] l r(1) by (simp add: listing_def)
  ultimately show ?thesis using find_key_distinct by metis
qed

lemma mirror_sync_reference:
  assumes a: "answers api answer" and mem: "\<forall>i. mem i = (True, True)"
    and l: "listing fits M answer (answer (mr_list_query M))" and d: "distinct (map (mr_key M) l)"
  shows "\<exists>w'. mirror_sync M live mem now (Some api) l w =
    Some (1, filter (\<lambda>n. now - live n \<le> 90) (mirrored M answer now (answer (mr_list_query M)) l), w')"
proof -
  let ?rows = "answer (mr_list_query M)"
  obtain sid w1 where o: "sql_open api w = (Some sid, w1)" using a by (cases "sql_open api w") (auto simp: answers_def, metis fst_conv)
  obtain w2 where q: "sql_query api sid (mr_list_query M) w1 = (Some ?rows, w2)" using a by (metis answers_def prod.collapse)
  obtain w3 where s: "sync_rows M mem 0 now (Some api) ?rows l w2 = Some (mirrored M answer now ?rows l, w3)"
    using sync_rows_reference [OF a mem l d] by blast
  show ?thesis
    using o q s by (simp add: mirror_sync_def delete_if_filter [OF distinct_mirrored [OF l d]] not_less)
qed

end

text \<open>
  The digest a node keeps is the one of the row it was last filled from; \<open>load_md5\<close> and \<open>upd_md5\<close>
  are the columns that hold it. When these agree with the list of identifiers, so does every listed node.
\<close>

lemma digest_strncpy: "take 32 (strncpy d s 32) = digest s"
  by (simp add: strncpy_def digest_def)

definition consistent :: "(SQL_ROW \<Rightarrow> string) \<Rightarrow> (SQL_ROW \<Rightarrow> string) \<Rightarrow> 'n mirror \<Rightarrow> (string \<Rightarrow> SQL_ROW list) \<Rightarrow> SQL_ROW list \<Rightarrow> bool" where
  "consistent load_md5 upd_md5 M answer rows \<longleftrightarrow>
     (\<forall>row \<in> set rows. digest (load_md5 (hd (answer (mr_load_query M (row_id row))))) = digest (col row 1) \<and>
        digest (upd_md5 (hd (answer (mr_update_query M (row_id row))))) = digest (col row 1))"

locale mirror_digest = mirror_laws +
  fixes load_md5 upd_md5 :: "SQL_ROW \<Rightarrow> string"
  assumes md5_load: "mr_load M i now row = Some n \<Longrightarrow> take 32 (mr_md5 M n) = digest (load_md5 row)"
    and md5_update: "take 32 (mr_md5 M (snd (mr_update M now row n))) = digest (upd_md5 row)"
    and md5_touch: "mr_md5 M (mr_touch M now n) = mr_md5 M n"
begin

lemma mirrored_agrees:
  assumes l: "listing fits M answer rows" and c: "consistent load_md5 upd_md5 M answer rows" and r: "row \<in> set rows"
    and n: "n \<in> set (mirrored M answer now rows l)" "mr_key M n = row_id row"
  shows "take 32 (mr_md5 M n) = digest (col row 1)"
proof (cases "n \<in> set (map (refresh M answer now rows) l)")
  case True
  then obtain m where m: "n = refresh M answer now rows m" by auto
  then have k: "mr_key M m = row_id row" using n(2) key_refresh [OF l] by simp
  have "find (\<lambda>q. row_id q = row_id row) rows = Some row"
    using find_key_distinct [of row_id rows row] l r by (simp add: listing_def)
  then have "n = refreshed M answer now row m" using m k by (simp add: refresh_def)
  then show ?thesis using c r by (simp add: refreshed_def md5_touch md5_update consistent_def)
next
  case False
  obtain q where q: "q \<in> set rows" "mr_load M (row_id q) now (hd (answer (mr_load_query M (row_id q)))) = Some n"
    using False n(1) by (auto simp: mirrored_def fresh_def split: option.splits)
  then have "mr_key M n = row_id q" using key_load l by (auto simp: listing_def)
  then have "q = row" using n(2) l r q(1) by (auto simp: listing_def distinct_map inj_on_def)
  then show ?thesis using md5_load [OF q(2)] c r by (simp add: consistent_def)
qed

end

section \<open>Owners of policies\<close>

text \<open>\<^verbatim>\<open>NODE_POLICY_USER\<close>; the time policies have the same layout for their four kinds of owners.\<close>

record NODE_POLICY_USER =
  no_id :: IP_id
  no_id_policy :: IP_id
  no_def :: "8 word"
  no_md5 :: string
  no_time_live :: time_t

definition owner_of_row :: "time_t \<Rightarrow> SQL_ROW \<Rightarrow> NODE_POLICY_USER" where
  "owner_of_row now row =
     \<lparr>no_id = conv (atoi (col row 0)), no_id_policy = conv (atoi (col row 1)), no_def = conv (atoi (col row 2)),
      no_md5 = strncpy (replicate 33 NUL) (col row 3) 32, no_time_live = now\<rparr>"

definition update_owner :: "time_t \<Rightarrow> SQL_ROW \<Rightarrow> NODE_POLICY_USER \<Rightarrow> gboolean \<times> NODE_POLICY_USER" where
  "update_owner now row node =
     (1, node\<lparr>no_id := conv (atoi (col row 0)), no_id_policy := conv (atoi (col row 1)), no_def := conv (atoi (col row 2)),
        no_md5 := strncpy (no_md5 node) (col row 3) 32, no_time_live := now\<rparr>)"

definition touch_owner :: "time_t \<Rightarrow> NODE_POLICY_USER \<Rightarrow> NODE_POLICY_USER" where
  "touch_owner now node = node\<lparr>no_time_live := now\<rparr>"

text \<open>The mirror of a table of owners: the table and its key column differ.\<close>

definition owner_row_query :: "string \<Rightarrow> string \<Rightarrow> string \<Rightarrow> IP_id \<Rightarrow> string" where
  "owner_row_query idc tab pol i =
     ''select a.'' @ idc @ '', a.id_policy, b.Def, md5(concat(a.id_policy, b.Def)) from '' @ tab @ '' a, '' @ pol @
     '' b where b.id = a.id_policy and a.'' @ idc @ '' = '' @ fmt_d i"

definition owners :: "string \<Rightarrow> string \<Rightarrow> string \<Rightarrow> NODE_POLICY_USER mirror" where
  "owners idc tab pol =
     \<lparr>mr_key = no_id, mr_md5 = no_md5, mr_load = (\<lambda>i now row. Some (owner_of_row now row)), mr_update = update_owner, mr_touch = touch_owner,
      mr_list_query = ''select a.'' @ idc @ '', md5(concat(a.id_policy, b.Def)) from '' @ tab @ '' a, '' @ pol @ '' b where b.id = a.id_policy'',
      mr_load_query = owner_row_query idc tab pol, mr_update_query = owner_row_query idc tab pol\<rparr>"

definition owners_init_query :: "string \<Rightarrow> string \<Rightarrow> string \<Rightarrow> string" where
  "owners_init_query idc tab pol =
     ''select a.'' @ idc @ '', a.id_policy, b.Def, md5(concat(a.id_policy, b.Def)) from '' @ tab @ '' a, '' @ pol @
     '' b where b.id = a.id_policy''"

definition check_owner :: "IP_id \<Rightarrow> NODE_POLICY_USER list \<Rightarrow> (IP_id \<times> 8 word) option" where
  "check_owner i l = (case mirror_find no_id i l of None \<Rightarrow> None | Some k \<Rightarrow> Some (no_id_policy (l ! k), no_def (l ! k)))"

lemma check_owner_find: "check_owner i l = map_option (\<lambda>u. (no_id_policy u, no_def u)) (find (\<lambda>u. no_id u = i) l)"
  by (simp add: check_owner_def mirror_find_def find_index_find option.map_comp comp_def split: option.splits)

definition fits_first :: "IP_id \<Rightarrow> SQL_ROW \<Rightarrow> bool" where
  "fits_first i row \<longleftrightarrow> row_id row = i"

lemma owners_laws: "mirror_laws (owners idc tab pol) fits_first"
  by unfold_locales (auto simp: owners_def owner_of_row_def update_owner_def touch_owner_def fits_first_def row_id_def)

lemma owners_digest: "mirror_digest (owners idc tab pol) fits_first (\<lambda>row. col row 3) (\<lambda>row. col row 3)"
  by (intro mirror_digest.intro owners_laws, unfold_locales)
    (auto simp: owners_def owner_of_row_def update_owner_def touch_owner_def digest_strncpy)

text \<open>A database with a fixed contents.\<close>

definition snapshot_api :: "(string \<Rightarrow> SQL_ROW list) \<Rightarrow> unit STORE_API" where
  "snapshot_api answer = \<lparr>sql_open = (\<lambda>w. (Some 1, w)), sql_close = (\<lambda>sid w. w), sql_exec = (\<lambda>sid s w. (True, w)),
     sql_query = (\<lambda>sid q w. (Some (answer q), w)), sql_list_tables = (\<lambda>sid s w. (Some [], w))\<rparr>"

lemma answers_snapshot: "answers (snapshot_api answer) answer"
  by (simp add: answers_def snapshot_api_def)

lemma atoi_3: "atoi ''3'' = 3"
  by (simp add: atoi_def signed_val_def isspace_def isdigit_def char_code_def saturate_def)

end
