(* ===== verification/Tables.thy ===== *)
theory Tables
  imports Misc
begin

text \<open>
  The creation of missing tables at start-up (\<^verbatim>\<open>check_core_tables\<close>,
  \<^verbatim>\<open>check_netfilter_tables\<close>, \<^verbatim>\<open>check_squid_tables\<close> of \<^verbatim>\<open>src/misc.c\<close>). Each table is looked
  up and, if it is missing, created and filled by the statements below; their texts fit the 2048-byte buffer. An existing table
  \<^verbatim>\<open>Users\<close> without the column \<^verbatim>\<open>Login\<close> is upgraded, and \<open>None\<close> is the
  \<^verbatim>\<open>exit(1)\<close> after a failed upgrade. \<open>ok\<close> is the allocation of the buffer.

  \<open>schema\<close> states what SQL promises about the set of tables.
\<close>

section \<open>Statements\<close>

definition stmts_Users :: "string list" where
  "stmts_Users =
     [(''CREATE TABLE Users (id int(10) unsigned NOT NULL auto_increment, id_group int(10) unsigned NOT NULL default '' @ squote @
      ''0'' @ squote @ '', Login char(100) NOT NULL, Passwd char(100) NOT NULL, Name char(100) NOT NULL default '' @ squote @ squote @
      '', Comment char(255) NOT NULL default '' @ squote @ squote @ '', Addr char(18) NOT NULL default '' @ squote @ ''0.0.0.0'' @
      squote @ '', Mac char(18) NOT NULL default '' @ squote @ squote @ '', Type tinyint(3) unsigned NOT NULL default '' @ squote @
      ''0'' @ squote @ '', Limitation bigint(20) NOT NULL default '' @ squote @ ''-1'' @ squote @
      '', Traffic bigint(20) unsigned NOT NULL default '' @ squote @ ''0'' @ squote @ '', Balance double NOT NULL default '' @ squote @
      ''0'' @ squote @ '', YDay bigint(20) unsigned NOT NULL default '' @ squote @ ''0'' @ squote @
      '', TDay bigint(20) unsigned NOT NULL default '' @ squote @ ''0'' @ squote @ '', YMonth bigint(20) unsigned NOT NULL default '' @
      squote @ ''0'' @ squote @ '', TMonth bigint(20) unsigned NOT NULL default '' @ squote @ ''0'' @ squote @ '', onActive enum('' @
      squote @ ''0'' @ squote @ '','' @ squote @ ''1'' @ squote @ '') NOT NULL default '' @ squote @ ''1'' @ squote @
      '', onBlocked enum('' @ squote @ ''0'' @ squote @ '','' @ squote @ ''1'' @ squote @ '') NOT NULL default '' @ squote @ ''0'' @
      squote @ '', Date datetime NOT NULL default '' @ squote @ ''0000-00-00 00:00:00'' @ squote @
      '', PRIMARY KEY  (id), KEY key_limit_1 (Type,Limitation,Traffic,onActive,onBlocked), KEY key_limit_2 (Type,Balance), '' @
      ''KEY key_limit_3 (onBlocked), KEY key_limit_4 (Login, Passwd)) TYPE=InnoDB'')]"

definition stmts_Rules :: "string list" where
  "stmts_Rules =
     [(''CREATE TABLE Rules (id int(10) unsigned NOT NULL auto_increment,    id_user int(10) unsigned NOT NULL default '' @ squote @
      ''0'' @ squote @ '', id_type int(10) unsigned NOT NULL default '' @ squote @ ''0'' @ squote @
      '', Type tinyint(3) unsigned NOT NULL default '' @ squote @ ''0'' @ squote @ '', Limitation bigint(20) NOT NULL default '' @
      squote @ ''-1'' @ squote @ '', Traffic bigint(20) unsigned NOT NULL default '' @ squote @ ''0'' @ squote @
      '', YDay bigint(20) unsigned NOT NULL default '' @ squote @ ''0'' @ squote @ '', TDay bigint(20) unsigned NOT NULL default '' @
      squote @ ''0'' @ squote @ '', YMonth bigint(20) unsigned NOT NULL default '' @ squote @ ''0'' @ squote @
      '', TMonth bigint(20) unsigned NOT NULL default '' @ squote @ ''0'' @ squote @
      '', Action tinyint(3) unsigned NOT NULL default '' @ squote @ ''0'' @ squote @ '', onActive enum('' @ squote @ ''0'' @ squote @
      '','' @ squote @ ''1'' @ squote @ '') NOT NULL default '' @ squote @ ''1'' @ squote @ '', onBlocked enum('' @ squote @ ''0'' @
      squote @ '','' @ squote @ ''1'' @ squote @ '') NOT NULL default '' @ squote @ ''0'' @ squote @
      '', PRIMARY KEY  (id), KEY key1 (Type,Limitation,Traffic,onActive,onBlocked), KEY key_limit_1 (Limitation,Traffic), KEY '' @
      ''key_limit_2 (onBlocked), KEY key_limit_3 (Type), KEY key_limit_4 (id_user)) TYPE=InnoDB'')]"

definition stmts_Group_Traffic :: "string list" where
  "stmts_Group_Traffic =
     [(''CREATE TABLE Group_Traffic (id int(10) unsigned NOT NULL auto_increment, Name char(100) NOT NULL default '' @ squote @ squote @
      '', PRIMARY KEY  (id)) TYPE=InnoDB''),
      (''INSERT INTO Group_Traffic VALUES (1,'' @ squote @ ''Default type'' @ squote @ '')'')]"

definition stmts_Group_Users :: "string list" where
  "stmts_Group_Users =
     [(''CREATE TABLE Group_Users (id int(10) unsigned NOT NULL auto_increment, Name char(100) NOT NULL default '' @ squote @ squote @
      '', PRIMARY KEY (id)) TYPE=InnoDB''),
      (''INSERT INTO Group_Users VALUES (1,'' @ squote @ ''Default group users'' @ squote @ '')'')]"

definition stmts_System_Table :: "string list" where
  "stmts_System_Table =
     [(''CREATE TABLE System_Table (Name varchar(50) NOT NULL default '' @ squote @ squote @ '', Value varchar(100) NOT NULL default '' @
      squote @ squote @ '', PRIMARY KEY (Name)) TYPE=InnoDB'')]"

definition stmts_Type_Traffic :: "string list" where
  "stmts_Type_Traffic =
     [(''CREATE TABLE Type_Traffic (id int(10) unsigned NOT NULL auto_increment, id_group int(10) unsigned NOT NULL default '' @ squote @
      ''0'' @ squote @ '', Name char(100) NOT NULL default '' @ squote @ squote @ '', Direct tinyint(3) unsigned NOT NULL default '' @
      squote @ ''3'' @ squote @ '', Proto tinyint(3) unsigned NOT NULL default '' @ squote @ ''255'' @ squote @
      '', Net char(15) NOT NULL default '' @ squote @ ''0.0.0.0'' @ squote @ '', Mask tinyint(3) unsigned NOT NULL default '' @ squote @
      ''0'' @ squote @ '', Ports int(10) unsigned NOT NULL default '' @ squote @ ''0'' @ squote @
      '', Start_time time default NULL, End_time time default NULL, Price double NOT NULL default '' @ squote @ ''0'' @ squote @
      '', PRIMARY KEY  (id), KEY key_order (Direct,Mask,Proto,Ports)) TYPE=InnoDB''),
      (''INSERT INTO Type_Traffic VALUES (1,1,'' @ squote @ ''Input and Output traffic'' @ squote @ '',3,255,'' @ squote @ ''0.0.0.0'' @
      squote @ '',0,0,NULL,NULL,0)''),
      (''INSERT INTO Type_Traffic VALUES (2,1,'' @ squote @ ''Input traffic'' @ squote @ '',1,255,'' @ squote @ ''0.0.0.0'' @ squote @
      '',0,0,NULL,NULL,0)''),
      (''INSERT INTO Type_Traffic VALUES (3,1,'' @ squote @ ''Output traffic'' @ squote @ '',2,255,'' @ squote @ ''0.0.0.0'' @ squote @
      '',0,0,NULL,NULL,0)''),
      (''INSERT INTO Type_Traffic VALUES (4,1,'' @ squote @ ''Default SQUID traffic'' @ squote @ '',1,254,'' @ squote @ ''0.0.0.0'' @
      squote @ '',0,0,NULL,NULL,0)'')]"

definition stmts_System_Report :: "string list" where
  "stmts_System_Report =
     [(''CREATE TABLE System_Report (Date date NOT NULL, id_user int(10) unsigned NOT NULL default '' @ squote @ ''0'' @ squote @
      '',id_type int(10) unsigned NOT NULL default '' @ squote @ ''0'' @ squote @ '', Traffic bigint(20) unsigned NOT NULL default '' @
      squote @ ''0'' @ squote @ '', Action tinyint unsigned NOT NULL default '' @ squote @ ''0'' @ squote @
      '', KEY key1 (Action, id_user, Date, id_type))'')]"

definition stmts_log_interface :: "string list" where
  "stmts_log_interface =
     [(''CREATE TABLE log_interface (id int(11) NOT NULL auto_increment, date datetime NOT NULL, ip varchar(16) NOT NULL default '' @
      squote @ squote @ '', action varchar(255) NOT NULL default '' @ squote @ squote @ '', PRIMARY KEY  (id)) TYPE=MyISAM'')]"

definition stmts_Log_IP :: "string list" where
  "stmts_Log_IP =
     [(''CREATE TABLE Log_IP (id_user int(11) NOT NULL default '' @ squote @ ''0'' @ squote @
      '', Proto tinyint(3) unsigned NOT NULL default '' @ squote @ ''255'' @ squote @ '', Direct tinyint(4) NOT NULL default '' @
      squote @ ''0'' @ squote @ '', Addr int(10) unsigned NOT NULL default '' @ squote @ ''0'' @ squote @
      '', Port int(10) unsigned NOT NULL default '' @ squote @ ''0'' @ squote @ '', Traffic int(10) unsigned NOT NULL default '' @
      squote @ ''0'' @ squote @ '', Date date NOT NULL default '' @ squote @ ''0000-00-00'' @ squote @
      '', KEY key1 (id_user,Proto,Direct,Addr,Port,Date)) TYPE=MyISAM'')]"

definition stmts_Services :: "string list" where
  "stmts_Services =
     [(''CREATE TABLE Services (id int(11) NOT NULL auto_increment, Name varchar(100) NOT NULL default '' @ squote @ squote @
      '', Proto varchar(10) NOT NULL default '' @ squote @ squote @ '', Port int(11) NOT NULL default '' @ squote @ ''0'' @ squote @
      '', PRIMARY KEY  (id)) TYPE=InnoDB'')]"

definition stmts_Log_Temp :: "string list" where
  "stmts_Log_Temp =
     [(''CREATE TABLE Log_Temp (id int(11) NOT NULL default '' @ squote @ ''0'' @ squote @
      '', Traffic int(10) unsigned NOT NULL default '' @ squote @ ''0'' @ squote @
      '', KEY key1 (id), KEY key_group (Traffic)) TYPE=InnoDB'')]"

definition stmts_Log_Time :: "string list" where
  "stmts_Log_Time =
     [(''CREATE TABLE Log_Time (Time datetime NOT NULL default '' @ squote @ ''0000-00-00 00:00:00'' @ squote @
      '', id_user int(11) NOT NULL default '' @ squote @ ''0'' @ squote @ '', Traffic int(10) unsigned NOT NULL default '' @ squote @
      ''0'' @ squote @ '', KEY key1 (id_user,Time)) TYPE=InnoDB'')]"

definition stmts_Log_Squid :: "string list" where
  "stmts_Log_Squid =
     [(''CREATE TABLE Log_Squid (Time datetime NOT NULL default '' @ squote @ ''0000-00-00 00:00:00'' @ squote @
      '', id_user int(11) NOT NULL default '' @ squote @ ''0'' @ squote @ '', URL varchar(200) NOT NULL default '' @ squote @ squote @
      '', Traffic int(10) unsigned NOT NULL default '' @ squote @ ''0'' @ squote @
      '', KEY key1 (id_user,Time,URL), KEY key2 (Time,URL)) TYPE=MyISAM'')]"

section \<open>The checks\<close>

definition check_table :: "'w STORE_API \<Rightarrow> SQL_SESSION \<Rightarrow> string \<Rightarrow> string list \<Rightarrow> 'w \<Rightarrow> 'w" where
  "check_table api sid name stmts w =
     (case sql_list_tables api sid name w of
        (Some [], w1) \<Rightarrow> exec_each api sid stmts w1
      | (_, w1) \<Rightarrow> w1)"

definition alter_users :: "string list" where
  "alter_users =
     [''ALTER TABLE Users ADD Login char(100) NOT NULL default '' @ squote @ squote @ '' AFTER id_group'',
      ''ALTER TABLE Users ADD Passwd char(100) NOT NULL default '' @ squote @ squote @ '' AFTER Login'',
      ''ALTER TABLE Users ADD INDEX key_limit_4 (Login, Passwd)'']"

definition check_users_table :: "'w STORE_API \<Rightarrow> SQL_SESSION \<Rightarrow> 'w \<Rightarrow> 'w option" where
  "check_users_table api sid w =
     (case sql_list_tables api sid ''Users'' w of
        (None, w1) \<Rightarrow> Some w1
      | (Some [], w1) \<Rightarrow> Some (exec_each api sid stmts_Users w1)
      | (Some (_ # _), w1) \<Rightarrow>
          (case sql_query api sid ''select Login from Users'' w1 of
             (Some _, w2) \<Rightarrow> Some w2
           | (None, w2) \<Rightarrow> (case exec_all api sid alter_users w2 of (True, w3) \<Rightarrow> Some w3 | (False, _) \<Rightarrow> None)))"

text \<open>The tables each check looks after, in the order of the code.\<close>

definition core_tables :: "(string \<times> string list) list" where
  "core_tables = [(''Rules'', stmts_Rules),
     (''Group_Traffic'', stmts_Group_Traffic),
     (''Group_Users'', stmts_Group_Users),
     (''System_Table'', stmts_System_Table),
     (''Type_Traffic'', stmts_Type_Traffic),
     (''System_Report'', stmts_System_Report),
     (''log_interface'', stmts_log_interface)]"

definition netfilter_tables :: "(string \<times> string list) list" where
  "netfilter_tables = [(''Log_IP'', stmts_Log_IP),
     (''Services'', stmts_Services),
     (''Log_Temp'', stmts_Log_Temp),
     (''Log_Time'', stmts_Log_Time)]"

definition squid_tables :: "(string \<times> string list) list" where
  "squid_tables = [(''Log_Squid'', stmts_Log_Squid)]"

definition check_tables :: "'w STORE_API \<Rightarrow> SQL_SESSION \<Rightarrow> (string \<times> string list) list \<Rightarrow> 'w \<Rightarrow> 'w" where
  "check_tables api sid tabs w = fold (\<lambda>(name, stmts). check_table api sid name stmts) tabs w"

definition check_core_tables :: "bool \<Rightarrow> 'w STORE_API \<Rightarrow> 'w \<Rightarrow> (int \<times> 'w) option" where
  "check_core_tables ok api w =
     (case sql_open api w of
        (None, w1) \<Rightarrow> Some (1, w1)
      | (Some sid, w1) \<Rightarrow>
          if \<not> ok then Some (0, sql_close api sid w1)
          else do {
            w2 \<leftarrow> check_users_table api sid w1;
            Some (1, sql_close api sid (check_tables api sid core_tables w2))
          })"

definition check_netfilter_tables :: "bool \<Rightarrow> 'w STORE_API \<Rightarrow> 'w \<Rightarrow> int \<times> 'w" where
  "check_netfilter_tables ok api w =
     (case sql_open api w of
        (None, w1) \<Rightarrow> (1, w1)
      | (Some sid, w1) \<Rightarrow>
          if \<not> ok then (0, sql_close api sid w1)
          else (1, sql_close api sid (check_tables api sid netfilter_tables w1)))"

definition check_squid_tables :: "bool \<Rightarrow> 'w STORE_API \<Rightarrow> 'w \<Rightarrow> int \<times> 'w" where
  "check_squid_tables ok api w =
     (case sql_open api w of
        (None, w1) \<Rightarrow> (1, w1)
      | (Some sid, w1) \<Rightarrow>
          if \<not> ok then (0, sql_close api sid w1)
          else (1, sql_close api sid (check_tables api sid squid_tables w1)))"

section \<open>Schemas\<close>

text \<open>The table a statement creates.\<close>

definition created :: "string \<Rightarrow> string option" where
  "created s = (if take 13 s = ''CREATE TABLE '' then Some (takeWhile (\<lambda>c. c \<noteq> CHR '' '') (drop 13 s)) else None)"

definition schema :: "'w STORE_API \<Rightarrow> ('w \<Rightarrow> string set) \<Rightarrow> bool" where
  "schema api tables \<longleftrightarrow>
     (\<forall>w. tables (snd (sql_open api w)) = tables w) \<and> (\<forall>sid w. tables (sql_close api sid w) = tables w) \<and>
     (\<forall>sid s w. tables (snd (sql_query api sid s w)) = tables w) \<and>
     (\<forall>sid n w. tables (snd (sql_list_tables api sid n w)) = tables w \<and>
        fst (sql_list_tables api sid n w) \<in> {None, Some (if n \<in> tables w then [[n]] else [])}) \<and>
     (\<forall>sid s w. tables (snd (sql_exec api sid s w)) = tables w \<union> (if fst (sql_exec api sid s w) then set_option (created s) else {}))"

definition accepting :: "'w STORE_API \<Rightarrow> bool" where
  "accepting api \<longleftrightarrow> (\<forall>w. fst (sql_open api w) \<noteq> None) \<and> (\<forall>sid n w. fst (sql_list_tables api sid n w) \<noteq> None) \<and>
     (\<forall>sid s w. fst (sql_exec api sid s w))"

lemma exec_each_tables:
  assumes "schema api tables" and "accepting api"
  shows "tables (exec_each api sid ss w) = tables w \<union> (\<Union>s \<in> set ss. set_option (created s))"
proof (induction ss arbitrary: w)
  case (Cons s ss)
  have "tables (snd (sql_exec api sid s w)) = tables w \<union> set_option (created s)"
    using assms by (simp add: schema_def accepting_def)
  then show ?case using Cons.IH [of "snd (sql_exec api sid s w)"] by (auto simp: exec_each_def)
qed (simp add: exec_each_def)

lemma exec_all_tables:
  assumes "schema api tables" and "accepting api"
  shows "\<exists>w'. exec_all api sid ss w = (True, w') \<and> tables w \<subseteq> tables w'"
proof (induction ss arbitrary: w)
  case (Cons s ss)
  obtain w1 where 1: "sql_exec api sid s w = (True, w1)"
    using assms(2) unfolding accepting_def by (metis (full_types) prod.collapse)
  then have "tables w \<subseteq> tables w1"
    using assms(1) unfolding schema_def by (metis Un_upper1 snd_conv)
  then show ?case using Cons.IH [of w1] 1 by auto
qed simp

lemma list_tables_cases:
  assumes "schema api tables" and "accepting api"
  shows "\<exists>w1. sql_list_tables api sid n w = (Some (if n \<in> tables w then [[n]] else []), w1) \<and> tables w1 = tables w"
proof -
  have "fst (sql_list_tables api sid n w) \<in> {None, Some (if n \<in> tables w then [[n]] else [])}"
    using assms(1) unfolding schema_def by blast
  moreover have "fst (sql_list_tables api sid n w) \<noteq> None" using assms(2) unfolding accepting_def by blast
  ultimately have "fst (sql_list_tables api sid n w) = Some (if n \<in> tables w then [[n]] else [])" by simp
  moreover have "tables (snd (sql_list_tables api sid n w)) = tables w" using assms(1) unfolding schema_def by blast
  ultimately show ?thesis by (metis prod.collapse)
qed

lemma check_table_creates:
  assumes "schema api tables" and "accepting api" and c: "\<exists>s \<in> set stmts. created s = Some name"
  shows "name \<in> tables (check_table api sid name stmts w)" and "tables w \<subseteq> tables (check_table api sid name stmts w)"
proof -
  obtain w1 where 1: "sql_list_tables api sid name w = (Some (if name \<in> tables w then [[name]] else []), w1)" "tables w1 = tables w"
    using list_tables_cases [OF assms(1,2)] by blast
  then show "name \<in> tables (check_table api sid name stmts w)" "tables w \<subseteq> tables (check_table api sid name stmts w)"
    using exec_each_tables [OF assms(1,2), of sid stmts w1] c by (auto simp: check_table_def split: if_splits)
qed

lemma check_tables_creates:
  assumes "schema api tables" and "accepting api"
  shows "\<forall>(name, stmts) \<in> set tabs. \<exists>s \<in> set stmts. created s = Some name \<Longrightarrow>
    tables w \<union> fst ` set tabs \<subseteq> tables (check_tables api sid tabs w)"
proof (induction tabs arbitrary: w)
  case (Cons nt tabs)
  obtain name stmts where nt: "nt = (name, stmts)" by (cases nt)
  let ?w1 = "check_table api sid name stmts w"
  have "\<exists>s \<in> set stmts. created s = Some name" using Cons.prems nt by simp
  from check_table_creates [OF assms this]
  have "name \<in> tables ?w1" "tables w \<subseteq> tables ?w1" .
  moreover have "tables ?w1 \<union> fst ` set tabs \<subseteq> tables (check_tables api sid tabs ?w1)"
    using Cons.prems by (intro Cons.IH) auto
  ultimately show ?case using nt by (auto simp: check_tables_def)
qed (simp add: check_tables_def)

lemma created_prefix: "created (''CREATE TABLE '' @ t) = Some (takeWhile (\<lambda>c. c \<noteq> CHR '' '') t)"
  by (simp add: created_def)

lemma table_stmts:
  "\<forall>(name, stmts) \<in> set core_tables. \<exists>s \<in> set stmts. created s = Some name"
  "\<forall>(name, stmts) \<in> set netfilter_tables. \<exists>s \<in> set stmts. created s = Some name"
  "\<forall>(name, stmts) \<in> set squid_tables. \<exists>s \<in> set stmts. created s = Some name"
  "\<exists>s \<in> set stmts_Users. created s = Some ''Users''"
  by (simp_all add: core_tables_def netfilter_tables_def squid_tables_def stmts_Users_def stmts_Rules_def stmts_Group_Traffic_def
      stmts_Group_Users_def stmts_System_Table_def stmts_Type_Traffic_def stmts_System_Report_def stmts_log_interface_def
      stmts_Log_IP_def stmts_Services_def stmts_Log_Temp_def stmts_Log_Time_def stmts_Log_Squid_def created_def)

lemma check_users_creates:
  assumes s: "schema api tables" and a: "accepting api"
  shows "\<exists>w'. check_users_table api sid w = Some w' \<and> insert ''Users'' (tables w) \<subseteq> tables w'"
proof -
  obtain w1 where 1: "sql_list_tables api sid ''Users'' w = (Some (if ''Users'' \<in> tables w then [[''Users'']] else []), w1)" "tables w1 = tables w"
    using list_tables_cases [OF s a] by blast
  show ?thesis
  proof (cases "''Users'' \<in> tables w")
    case False
    then show ?thesis
      using 1 exec_each_tables [OF s a, of sid stmts_Users w1] table_stmts(4) by (auto simp: check_users_table_def)
  next
    case True
    obtain q w2 where 2: "sql_query api sid ''select Login from Users'' w1 = (q, w2)" by fastforce
    have "tables w2 = tables w1" using s 2 unfolding schema_def by (metis snd_conv)
    moreover obtain w3 where "exec_all api sid alter_users w2 = (True, w3)" "tables w2 \<subseteq> tables w3"
      using exec_all_tables [OF s a] by blast
    ultimately show ?thesis using True 1 2 by (cases q) (auto simp: check_users_table_def)
  qed
qed

section \<open>Properties\<close>

text \<open>A database that is nothing but its set of tables.\<close>

definition schema_api :: "string set STORE_API" where
  "schema_api =
     \<lparr>sql_open = (\<lambda>w. (Some 1, w)), sql_close = (\<lambda>sid w. w),
      sql_exec = (\<lambda>sid s w. (True, w \<union> set_option (created s))), sql_query = (\<lambda>sid s w. (None, w)),
      sql_list_tables = (\<lambda>sid n w. (Some (if n \<in> w then [[n]] else []), w))\<rparr>"

lemma schema_api_ok: "schema schema_api (\<lambda>w. w)" "accepting schema_api"
  by (auto simp: schema_def accepting_def schema_api_def)

text \<open>
  Start-up schema. On a database that accepts every statement, the three start-up checks succeed, drop no table and leave
  all thirteen tables of the program in place, whichever of them existed before.
\<close>

theorem check_tables_complete:
  assumes s: "schema api tables" and a: "accepting api"
  shows "\<exists>w1 w2 w3. check_core_tables True api w = Some (1, w1) \<and> check_netfilter_tables True api w1 = (1, w2) \<and>
           check_squid_tables True api w2 = (1, w3) \<and>
           tables w \<union> {''Users'', ''Rules'', ''Group_Traffic'', ''Group_Users'', ''System_Table'', ''Type_Traffic'', ''System_Report'',
             ''log_interface'', ''Log_IP'', ''Services'', ''Log_Temp'', ''Log_Time'', ''Log_Squid''} \<subseteq> tables w3"
proof -
  have op: "\<exists>sid v. sql_open api u = (Some sid, v) \<and> tables v = tables u" for u
  proof -
    have "fst (sql_open api u) \<noteq> None" using a by (simp add: accepting_def)
    moreover have "tables (snd (sql_open api u)) = tables u" using s by (simp add: schema_def)
    ultimately show ?thesis by (cases "sql_open api u") auto
  qed
  have cl: "tables (sql_close api sid u) = tables u" for sid u using s by (simp add: schema_def)
  obtain sid u where o1: "sql_open api w = (Some sid, u)" "tables u = tables w" using op by blast
  obtain u' where u': "check_users_table api sid u = Some u'" "insert ''Users'' (tables u) \<subseteq> tables u'"
    using check_users_creates [OF s a] by blast
  let ?w1 = "sql_close api sid (check_tables api sid core_tables u')"
  have 1: "check_core_tables True api w = Some (1, ?w1)" using o1 u' by (simp add: check_core_tables_def)
  have t1: "tables u' \<union> fst ` set core_tables \<subseteq> tables ?w1" unfolding cl by (rule check_tables_creates [OF s a table_stmts(1)])
  obtain sid2 v where o2: "sql_open api ?w1 = (Some sid2, v)" "tables v = tables ?w1" using op by blast
  let ?w2 = "sql_close api sid2 (check_tables api sid2 netfilter_tables v)"
  have 2: "check_netfilter_tables True api ?w1 = (1, ?w2)" using o2 by (simp add: check_netfilter_tables_def)
  have t2: "tables v \<union> fst ` set netfilter_tables \<subseteq> tables ?w2" unfolding cl by (rule check_tables_creates [OF s a table_stmts(2)])
  obtain sid3 x where o3: "sql_open api ?w2 = (Some sid3, x)" "tables x = tables ?w2" using op by blast
  let ?w3 = "sql_close api sid3 (check_tables api sid3 squid_tables x)"
  have 3: "check_squid_tables True api ?w2 = (1, ?w3)" using o3 by (simp add: check_squid_tables_def)
  have t3: "tables x \<union> fst ` set squid_tables \<subseteq> tables ?w3" unfolding cl by (rule check_tables_creates [OF s a table_stmts(3)])
  have names: "fst ` set core_tables = {''Rules'', ''Group_Traffic'', ''Group_Users'', ''System_Table'', ''Type_Traffic'', ''System_Report'', ''log_interface''}"
      "fst ` set netfilter_tables = {''Log_IP'', ''Services'', ''Log_Temp'', ''Log_Time''}" "fst ` set squid_tables = {''Log_Squid''}"
    by (simp_all only: core_tables_def netfilter_tables_def squid_tables_def list.set image_insert image_empty fst_conv)
  have "tables w \<union> insert ''Users'' (fst ` set core_tables \<union> fst ` set netfilter_tables \<union> fst ` set squid_tables) \<subseteq> tables ?w3"
  proof -
    have "insert ''Users'' (tables w) \<subseteq> tables u'" using u'(2) unfolding o1(2) .
    moreover have "tables ?w1 \<union> fst ` set netfilter_tables \<subseteq> tables ?w2" using t2 unfolding o2(2) .
    moreover have "tables ?w2 \<union> fst ` set squid_tables \<subseteq> tables ?w3" using t3 unfolding o3(2) .
    ultimately show ?thesis using t1 by (simp only: Un_subset_iff insert_subset) (meson subset_trans subsetD)
  qed
  then have "tables w \<union> {''Users'', ''Rules'', ''Group_Traffic'', ''Group_Users'', ''System_Table'', ''Type_Traffic'', ''System_Report'',
      ''log_interface'', ''Log_IP'', ''Services'', ''Log_Temp'', ''Log_Time'', ''Log_Squid''} \<subseteq> tables ?w3"
    unfolding names by (simp only: Un_insert_left Un_empty_left)
  with 1 2 3 show ?thesis by (intro exI conjI)
qed

theorem check_tables_complete_witness:
  "\<exists>w1 w2 w3. check_core_tables True schema_api {''Users''} = Some (1, w1) \<and> check_netfilter_tables True schema_api w1 = (1, w2) \<and>
     check_squid_tables True schema_api w2 = (1, w3) \<and> ''Log_IP'' \<in> w3"
  using check_tables_complete [OF schema_api_ok, of "{''Users''}"] by auto

end
