(* ===== verification/Url_Policy.thy ===== *)
theory Url_Policy
  imports Mirror Tables
begin

text \<open>
  The URL policies of the proxy (\<^verbatim>\<open>src/ipstat_url_policy.c\<close>): the two mirrored lists, users with their
  policy and patterns of a policy, and the decision \<^verbatim>\<open>autz_url_policy\<close>. The regular expressions of the C
  library are a parameter: \<open>re_comp\<close> tells whether \<^verbatim>\<open>regcomp\<close> accepts a pattern,
  \<open>re_match\<close> whether \<^verbatim>\<open>regexec\<close> matches. \<open>np_reg\<close> is the compiled pattern, and
  \<open>None\<close> after a failed compilation; executing that one is undefined. The logger is present, locks and the release of
  memory are not modelled.
\<close>

record regex_lib =
  re_comp :: "string \<Rightarrow> bool"
  re_match :: "string \<Rightarrow> string \<Rightarrow> bool"

record NODE_POLICY_PATTERN =
  np_id :: IP_id
  np_id_policy :: IP_id
  np_pattern :: string
  np_reg :: "string option"
  np_target :: "8 word"
  np_md5 :: string
  np_time_live :: time_t

record url_policy =
  st_policy_pattern :: "NODE_POLICY_PATTERN list"
  up_policy_users :: "NODE_POLICY_USER list"

section \<open>Nodes from rows\<close>

definition regcomp :: "regex_lib \<Rightarrow> string \<Rightarrow> string option" where
  "regcomp re pattern = (if re_comp re (cstr pattern) then Some (cstr pattern) else None)"

definition pattern_of_row :: "regex_lib \<Rightarrow> time_t \<Rightarrow> SQL_ROW \<Rightarrow> NODE_POLICY_PATTERN option" where
  "pattern_of_row re now row =
     (let pattern = strncpy (replicate 100 NUL) (col row 2) 99
      in case regcomp re pattern of
           None \<Rightarrow> None
         | Some reg \<Rightarrow> Some \<lparr>np_id = conv (atoi (col row 0)), np_id_policy = conv (atoi (col row 1)), np_pattern = pattern,
             np_reg = Some reg, np_target = conv (atoi (col row 3)), np_md5 = strncpy (replicate 33 NUL) (col row 4) 32, np_time_live = now\<rparr>)"

definition update_pattern :: "regex_lib \<Rightarrow> time_t \<Rightarrow> SQL_ROW \<Rightarrow> NODE_POLICY_PATTERN \<Rightarrow> gboolean \<times> NODE_POLICY_PATTERN" where
  "update_pattern re now row node =
     (let pattern = strncpy (np_pattern node) (col row 2) 99; reg = regcomp re pattern
      in (if reg = None then 0 else 1,
          node\<lparr>np_id := conv (atoi (col row 0)), np_id_policy := conv (atoi (col row 1)), np_pattern := pattern, np_reg := reg,
            np_target := conv (atoi (col row 3)), np_md5 := strncpy (np_md5 node) (col row 4) 32, np_time_live := now\<rparr>))"

definition touch_pattern :: "time_t \<Rightarrow> NODE_POLICY_PATTERN \<Rightarrow> NODE_POLICY_PATTERN" where
  "touch_pattern now node = node\<lparr>np_time_live := now\<rparr>"

section \<open>The two lists\<close>

definition pattern_query :: "IP_id \<Rightarrow> string" where
  "pattern_query i =
     ''select id, id_policy, Pattern, Target, md5(concat(id_policy, Pattern, Target)) from Policy_URL_Def where id = '' @ fmt_d i"

definition url_users :: "NODE_POLICY_USER mirror" where
  "url_users = owners ''id_user'' ''Policy_URL_Users'' ''Policy_URL''"

definition url_patterns :: "regex_lib \<Rightarrow> NODE_POLICY_PATTERN mirror" where
  "url_patterns re =
     \<lparr>mr_key = np_id, mr_md5 = np_md5, mr_load = (\<lambda>i now row. pattern_of_row re now row), mr_update = update_pattern re, mr_touch = touch_pattern,
      mr_list_query = ''select id, md5(concat(id_policy, Pattern, Target)) from Policy_URL_Def'',
      mr_load_query = pattern_query, mr_update_query = pattern_query\<rparr>"

definition policy_compare_users :: "NODE_POLICY_USER \<Rightarrow> NODE_POLICY_USER \<Rightarrow> int" where
  "policy_compare_users a b = compare_id (no_id a) (no_id b)"

definition policy_compare_pattern :: "NODE_POLICY_PATTERN \<Rightarrow> NODE_POLICY_PATTERN \<Rightarrow> int" where
  "policy_compare_pattern a b = compare_id (np_id a) (np_id b)"

definition user_find :: "IP_id \<Rightarrow> NODE_POLICY_USER list \<Rightarrow> nat option" where
  "user_find i l = mirror_find no_id i l"

definition pattern_find :: "IP_id \<Rightarrow> NODE_POLICY_PATTERN list \<Rightarrow> nat option" where
  "pattern_find i l = mirror_find np_id i l"

definition insert_policy_user ::
  "bool \<times> bool \<Rightarrow> time_t \<Rightarrow> IP_id \<Rightarrow> 'w STORE_API option \<Rightarrow> NODE_POLICY_USER list \<Rightarrow> 'w \<Rightarrow> (gboolean \<times> NODE_POLICY_USER list \<times> 'w) option" where
  "insert_policy_user mem now i store l w = mirror_insert url_users mem now i store l w"

definition insert_policy_pattern ::
  "regex_lib \<Rightarrow> bool \<times> bool \<Rightarrow> time_t \<Rightarrow> IP_id \<Rightarrow> 'w STORE_API option \<Rightarrow> NODE_POLICY_PATTERN list \<Rightarrow> 'w \<Rightarrow> (gboolean \<times> NODE_POLICY_PATTERN list \<times> 'w) option" where
  "insert_policy_pattern re mem now i store l w = mirror_insert (url_patterns re) mem now i store l w"

definition update_policy_user ::
  "time_t \<Rightarrow> IP_id \<Rightarrow> 'w STORE_API option \<Rightarrow> NODE_POLICY_USER list \<Rightarrow> 'w \<Rightarrow> (gboolean \<times> NODE_POLICY_USER list \<times> 'w) option" where
  "update_policy_user now i store l w = mirror_update url_users now i store l w"

definition update_policy_pattern ::
  "regex_lib \<Rightarrow> time_t \<Rightarrow> IP_id \<Rightarrow> 'w STORE_API option \<Rightarrow> NODE_POLICY_PATTERN list \<Rightarrow> 'w \<Rightarrow> (gboolean \<times> NODE_POLICY_PATTERN list \<times> 'w) option" where
  "update_policy_pattern re now i store l w = mirror_update (url_patterns re) now i store l w"

definition delete_policy_user :: "IP_id \<Rightarrow> NODE_POLICY_USER list \<Rightarrow> gboolean \<times> NODE_POLICY_USER list" where
  "delete_policy_user i l = mirror_delete no_id i l"

definition delete_policy_pattern :: "IP_id \<Rightarrow> NODE_POLICY_PATTERN list \<Rightarrow> gboolean \<times> NODE_POLICY_PATTERN list" where
  "delete_policy_pattern i l = mirror_delete np_id i l"

definition sync_users_list ::
  "(nat \<Rightarrow> bool \<times> bool) \<Rightarrow> time_t \<Rightarrow> 'w STORE_API option \<Rightarrow> url_policy \<Rightarrow> 'w \<Rightarrow> (gboolean \<times> url_policy \<times> 'w) option" where
  "sync_users_list mem now store st w = do {
     (r, l, w1) \<leftarrow> mirror_sync url_users no_time_live mem now store (up_policy_users st) w;
     Some (r, st\<lparr>up_policy_users := l\<rparr>, w1)
   }"

definition sync_pattern_list ::
  "regex_lib \<Rightarrow> (nat \<Rightarrow> bool \<times> bool) \<Rightarrow> time_t \<Rightarrow> 'w STORE_API option \<Rightarrow> url_policy \<Rightarrow> 'w \<Rightarrow> (gboolean \<times> url_policy \<times> 'w) option" where
  "sync_pattern_list re mem now store st w = do {
     (r, l, w1) \<leftarrow> mirror_sync (url_patterns re) np_time_live mem now store (st_policy_pattern st) w;
     Some (r, st\<lparr>st_policy_pattern := l\<rparr>, w1)
   }"

definition init_users_list ::
  "(nat \<Rightarrow> bool \<times> bool) \<Rightarrow> time_t \<Rightarrow> 'w STORE_API option \<Rightarrow> url_policy \<Rightarrow> 'w \<Rightarrow> gboolean \<times> url_policy \<times> 'w" where
  "init_users_list mem now store st w =
     (case mirror_init (owners_init_query ''id_user'' ''Policy_URL_Users'' ''Policy_URL'') (\<lambda>row. Some (owner_of_row now row)) mem store (up_policy_users st) w of
        (r, l, w1) \<Rightarrow> (r, st\<lparr>up_policy_users := l\<rparr>, w1))"

definition init_pattern_list ::
  "regex_lib \<Rightarrow> (nat \<Rightarrow> bool \<times> bool) \<Rightarrow> time_t \<Rightarrow> 'w STORE_API option \<Rightarrow> url_policy \<Rightarrow> 'w \<Rightarrow> gboolean \<times> url_policy \<times> 'w" where
  "init_pattern_list re mem now store st w =
     (case mirror_init ''select id, id_policy, Pattern, Target, md5(concat(id_policy, Pattern, Target)) from Policy_URL_Def order by id''
        (pattern_of_row re now) mem store (st_policy_pattern st) w of
        (r, l, w1) \<Rightarrow> (r, st\<lparr>st_policy_pattern := l\<rparr>, w1))"

definition free_users_list :: "url_policy \<Rightarrow> gboolean \<times> url_policy" where
  "free_users_list st = (1, st\<lparr>up_policy_users := []\<rparr>)"

definition free_pattern_list :: "url_policy \<Rightarrow> gboolean \<times> url_policy" where
  "free_pattern_list st = (1, st\<lparr>st_policy_pattern := []\<rparr>)"

section \<open>Starting and stopping\<close>

definition policy_url_tables :: "(string \<times> string list) list" where
  "policy_url_tables =
     [(''Policy_URL'', [(''CREATE TABLE Policy_URL (id int(11) NOT NULL auto_increment, Name varchar(50) NOT NULL default '' @ squote @ squote @
      '', Def enum('' @ squote @ ''0'' @ squote @ '','' @ squote @ ''1'' @ squote @ '') NOT NULL default '' @ squote @ ''0'' @ squote @
      '', PRIMARY KEY  (id)) TYPE=InnoDB'')]),
      (''Policy_URL_Users'', [(''CREATE TABLE Policy_URL_Users (id_user int(11) NOT NULL default '' @ squote @ ''0'' @ squote @
      '', id_policy int(11)  NOT NULL default '' @ squote @ ''0'' @ squote @ '', PRIMARY KEY  (id_user)) TYPE=InnoDB'')]),
      (''Policy_URL_Def'', [(''CREATE TABLE Policy_URL_Def (id int(11) NOT NULL auto_increment, id_policy int(11) NOT NULL default '' @ squote @ ''0'' @
      squote @ '', Pattern char(100) NOT NULL, Target enum('' @ squote @ ''0'' @ squote @ '','' @ squote @ ''1'' @ squote @
      '') NOT NULL default '' @ squote @ ''0'' @ squote @ '', PRIMARY KEY  (id), KEY id_policy (id_policy)) TYPE=InnoDB'')])]"

definition check_policy_url_tables :: "bool \<Rightarrow> 'w STORE_API \<Rightarrow> 'w \<Rightarrow> gboolean \<times> 'w" where
  "check_policy_url_tables ok api w =
     (case sql_open api w of
        (None, w1) \<Rightarrow> (1, w1)
      | (Some sid, w1) \<Rightarrow>
          if \<not> ok then (0, sql_close api sid w1)
          else (1, sql_close api sid (check_tables api sid policy_url_tables w1)))"

definition load_url_policy ::
  "regex_lib \<Rightarrow> bool \<Rightarrow> (nat \<Rightarrow> bool \<times> bool) \<Rightarrow> bool \<Rightarrow> int \<Rightarrow> time_t \<Rightarrow> 'w STORE_API option \<Rightarrow> url_policy \<Rightarrow> 'w \<Rightarrow> (gboolean \<times> url_policy \<times> registration list \<times> 'w) option" where
  "load_url_policy re ok mem sched timeout now store st w = do {
     api \<leftarrow> store;
     let (_, w1) = check_policy_url_tables ok api w;
     let (_, st1, w2) = init_users_list mem now store st w1;
     let (_, st2, w3) = init_pattern_list re mem now store st1 w2;
     str \<leftarrow> sprintf_buf 20 (every_minutes timeout);
     Some (1, st2, if sched then [SchedReg ''sync_url_policy_users'' str, SchedReg ''sync_url_policy_pattern'' str] else [], w3)
   }"

definition unload_url_policy :: "bool \<Rightarrow> url_policy \<Rightarrow> gboolean \<times> url_policy \<times> registration list" where
  "unload_url_policy sched st =
     (1, snd (free_users_list (snd (free_pattern_list st))),
      if sched then [SchedUnreg ''sync_url_policy_pattern'', SchedUnreg ''sync_url_policy_users''] else [])"

section \<open>The decision\<close>

definition check_user :: "IP_id \<Rightarrow> NODE_POLICY_USER list \<Rightarrow> (IP_id \<times> 8 word) option" where
  "check_user i l = check_owner i l"

fun check_policy_loop :: "regex_lib \<Rightarrow> IP_id \<Rightarrow> string \<Rightarrow> 8 word \<Rightarrow> NODE_POLICY_PATTERN list \<Rightarrow> 8 word option" where
  "check_policy_loop re id_policy url res [] = Some res"
| "check_policy_loop re id_policy url res (node # ns) =
     (if np_id_policy node = id_policy then
        (case np_reg node of
           None \<Rightarrow> None
         | Some reg \<Rightarrow> if re_match re reg url then Some (np_target node) else check_policy_loop re id_policy url res ns)
      else check_policy_loop re id_policy url res ns)"

definition check_policy :: "regex_lib \<Rightarrow> IP_id \<Rightarrow> string \<Rightarrow> 8 word \<Rightarrow> NODE_POLICY_PATTERN list \<Rightarrow> gboolean option" where
  "check_policy re id_policy url def l = do {
     res \<leftarrow> check_policy_loop re id_policy url def l;
     Some (if res = 0 then 0 else 1)
   }"

definition autz_url_policy :: "regex_lib \<Rightarrow> IP_id \<Rightarrow> string \<Rightarrow> url_policy \<Rightarrow> gboolean option" where
  "autz_url_policy re id_user url st =
     (case check_user id_user (up_policy_users st) of
        None \<Rightarrow> Some 1
      | Some (id_policy, def) \<Rightarrow> do {
          res \<leftarrow> check_policy re id_policy url def (st_policy_pattern st);
          Some (if res = 0 then 0 else 1)
        })"

section \<open>The contracts of the lists\<close>

interpretation url_users: mirror_digest url_users fits_first "\<lambda>row. col row 3" "\<lambda>row. col row 3"
  unfolding url_users_def by (rule owners_digest)

interpretation url_patterns: mirror_digest "url_patterns re" fits_first "\<lambda>row. col row 4" "\<lambda>row. col row 4" for re
  by unfold_locales
    (auto simp: url_patterns_def pattern_of_row_def update_pattern_def touch_pattern_def fits_first_def row_id_def Let_def digest_strncpy split: option.splits)

section \<open>Properties\<close>

lemma check_policy_first:
  "\<forall>p \<in> set l. np_id_policy p = id_policy \<longrightarrow> np_reg p = Some (cstr (np_pattern p)) \<Longrightarrow>
   check_policy_loop re id_policy url res l =
     Some (case find (\<lambda>p. np_id_policy p = id_policy \<and> re_match re (cstr (np_pattern p)) url) l of None \<Rightarrow> res | Some p \<Rightarrow> np_target p)"
  by (induction l) auto

text \<open>
  C10 (URL policy). When the patterns of the policies are compiled, a request is refused exactly if the user has a policy and
  the first pattern of that policy that matches the URL says so, or, when none matches, the default of the policy
  does. The decision is always reached.
\<close>

theorem autz_url_policy_decides:
  assumes "\<forall>p \<in> set (st_policy_pattern st). np_reg p = Some (cstr (np_pattern p))"
  shows "autz_url_policy re id_user url st = Some
    (case find (\<lambda>u. no_id u = id_user) (up_policy_users st) of
       None \<Rightarrow> 1
     | Some u \<Rightarrow>
         if (case find (\<lambda>p. np_id_policy p = no_id_policy u \<and> re_match re (cstr (np_pattern p)) url) (st_policy_pattern st) of
               None \<Rightarrow> no_def u | Some p \<Rightarrow> np_target p) = 0
         then 0 else 1)"
  using assms by (simp add: autz_url_policy_def check_user_def check_owner_find check_policy_def check_policy_first split: option.splits)

definition ex_regex :: regex_lib where
  "ex_regex = \<lparr>re_comp = (\<lambda>p. p \<noteq> ''(''), re_match = (\<lambda>p url. take (length p) url = p)\<rparr>"

definition ex_url_policy :: url_policy where
  "ex_url_policy =
     \<lparr>st_policy_pattern =
        [\<lparr>np_id = 1, np_id_policy = 5, np_pattern = ''http://a/x'', np_reg = Some ''http://a/x'', np_target = 1, np_md5 = [], np_time_live = 0\<rparr>,
         \<lparr>np_id = 2, np_id_policy = 5, np_pattern = ''http://a/'', np_reg = Some ''http://a/'', np_target = 0, np_md5 = [], np_time_live = 0\<rparr>],
      up_policy_users = [\<lparr>no_id = 7, no_id_policy = 5, no_def = 1, no_md5 = [], no_time_live = 0\<rparr>]\<rparr>"

theorem autz_url_policy_decides_witness:
  "autz_url_policy ex_regex 7 ''http://a/xy'' ex_url_policy = Some 1 \<and> autz_url_policy ex_regex 7 ''http://a/b'' ex_url_policy = Some 0 \<and>
   autz_url_policy ex_regex 7 ''http://b/'' ex_url_policy = Some 1"
proof -
  have c: "\<forall>p \<in> set (st_policy_pattern ex_url_policy). np_reg p = Some (cstr (np_pattern p))"
    by (simp add: ex_url_policy_def NUL_def)
  show ?thesis
    using autz_url_policy_decides [OF c, of ex_regex 7 "''http://a/xy''"] autz_url_policy_decides [OF c, of ex_regex 7 "''http://a/b''"]
      autz_url_policy_decides [OF c, of ex_regex 7 "''http://b/''"]
    by (simp add: ex_url_policy_def ex_regex_def NUL_def)
qed

text \<open>A pattern that no longer compiles after a change stays in the list; reaching it is undefined behaviour.\<close>

lemma update_pattern_bad:
  "\<not> re_comp re (cstr (strncpy (np_pattern node) (col row 2) 99)) \<Longrightarrow>
   fst (update_pattern re now row node) = 0 \<and> np_reg (snd (update_pattern re now row node)) = None"
  by (simp add: update_pattern_def regcomp_def Let_def)

lemma bad_pattern_undefined:
  assumes "find (\<lambda>u. no_id u = id_user) (up_policy_users st) = Some u" and "st_policy_pattern st = p # ps"
    and "np_id_policy p = no_id_policy u" and "np_reg p = None"
  shows "autz_url_policy re id_user url st = None"
  using assms by (simp add: autz_url_policy_def check_user_def check_owner_find check_policy_def)

text \<open>
  Pattern list. On a database that answers from one state of its tables, with successful allocations, the
  synchronisation turns the list of patterns into the mirror of the table: the known patterns in their order, reloaded when the
  digest differs, then the new ones, less the patterns not confirmed for more than 90 seconds. Identifiers stay distinct,
  and each listed pattern carries the digest of its row.
\<close>

theorem sync_pattern_list_mirrors:
  assumes "answers api answer" and "\<forall>i. mem i = (True, True)"
    and "listing fits_first (url_patterns re) answer (answer (mr_list_query (url_patterns re)))"
    and "consistent (\<lambda>row. col row 4) (\<lambda>row. col row 4) (url_patterns re) answer (answer (mr_list_query (url_patterns re)))"
    and "distinct (map np_id (st_policy_pattern st))"
  shows "\<exists>l w'. sync_pattern_list re mem now (Some api) st w = Some (1, st\<lparr>st_policy_pattern := l\<rparr>, w') \<and>
    l = filter (\<lambda>n. now - np_time_live n \<le> 90)
          (mirrored (url_patterns re) answer now (answer (mr_list_query (url_patterns re))) (st_policy_pattern st)) \<and>
    distinct (map np_id l) \<and>
    (\<forall>row n. row \<in> set (answer (mr_list_query (url_patterns re))) \<and> n \<in> set l \<and> np_id n = row_id row \<longrightarrow>
       take 32 (np_md5 n) = digest (col row 1))"
proof -
  let ?rows = "answer (mr_list_query (url_patterns re))"
  let ?m = "mirrored (url_patterns re) answer now ?rows (st_policy_pattern st)"
  have sel: "mr_key (url_patterns re) = np_id" "mr_md5 (url_patterns re) = np_md5" by (simp_all add: url_patterns_def)
  have d: "distinct (map (mr_key (url_patterns re)) (st_policy_pattern st))" using assms(5) by (simp add: sel)
  obtain w' where "sync_pattern_list re mem now (Some api) st w =
      Some (1, st\<lparr>st_policy_pattern := filter (\<lambda>n. now - np_time_live n \<le> 90) ?m\<rparr>, w')"
    using url_patterns.mirror_sync_reference [OF assms(1-3) d, of np_time_live now w] by (auto simp: sync_pattern_list_def)
  moreover have "distinct (map np_id (filter (\<lambda>n. now - np_time_live n \<le> 90) ?m))"
    using url_patterns.distinct_mirrored [OF assms(3) d, of now] by (simp add: sel distinct_map_filter)
  moreover have "take 32 (np_md5 n) = digest (col row 1)" if "row \<in> set ?rows" "n \<in> set ?m" "np_id n = row_id row" for row n
    using url_patterns.mirrored_agrees [OF assms(3,4) that(1,2)] that(3) by (simp add: sel)
  ultimately show ?thesis by auto
qed

definition ex_answer :: "string \<Rightarrow> SQL_ROW list" where
  "ex_answer q = (if q = mr_list_query (url_patterns ex_regex) then [[''3'', ''abc'']] else [[''3'', ''5'', ''http://c/'', ''0'', ''abc'']])"

theorem sync_pattern_list_mirrors_witness:
  "\<exists>l w'. sync_pattern_list ex_regex (\<lambda>i. (True, True)) 100 (Some (snapshot_api ex_answer)) ex_url_policy () =
     Some (1, ex_url_policy\<lparr>st_policy_pattern := l\<rparr>, w') \<and> map np_id l = [3]"
proof -
  let ?M = "url_patterns ex_regex"
  have q: "ex_answer (mr_list_query ?M) = [[''3'', ''abc'']]" "ex_answer (pattern_query i) = [[''3'', ''5'', ''http://c/'', ''0'', ''abc'']]" for i
    by (simp_all add: ex_answer_def url_patterns_def pattern_query_def)
  have r: "row_id [''3'', ''abc''] = 3" "row_id [''3'', ''5'', ''http://c/'', ''0'', ''abc''] = 3"
    by (simp_all add: row_id_def col_def atoi_3 conv_def)
  have m: "mr_load_query ?M = pattern_query" "mr_update_query ?M = pattern_query" "mr_key ?M = np_id"
      "mr_load ?M = (\<lambda>i now row. pattern_of_row ex_regex now row)"
    by (simp_all add: url_patterns_def)
  have h: "listing fits_first ?M ex_answer (ex_answer (mr_list_query ?M))"
      "consistent (\<lambda>row. col row 4) (\<lambda>row. col row 4) ?M ex_answer (ex_answer (mr_list_query ?M))"
      "distinct (map np_id (st_policy_pattern ex_url_policy))"
    by (simp_all add: listing_def consistent_def ex_url_policy_def q r m fits_first_def col_def)
  have "filter (\<lambda>n. 100 - np_time_live n \<le> 90) (mirrored ?M ex_answer 100 (ex_answer (mr_list_query ?M)) (st_policy_pattern ex_url_policy)) =
      fresh ?M ex_answer 100 [[''3'', ''abc'']]"
    by (simp add: mirrored_def refresh_def ex_url_policy_def q r m fresh_def pattern_of_row_def Let_def regcomp_def split: option.splits)
  moreover have "map np_id (fresh ?M ex_answer 100 [[''3'', ''abc'']]) = [3]"
    by (simp add: fresh_def q r m, simp add: pattern_of_row_def regcomp_def ex_regex_def col_def atoi_3 conv_def strncpy_def NUL_def Let_def)
  ultimately show ?thesis
    using sync_pattern_list_mirrors [OF answers_snapshot _ h, of "\<lambda>i. (True, True)" 100 "()"] by auto
qed

end
