(* ===== verification/Time_Policy.thy ===== *)
theory Time_Policy
  imports Mirror Tables Sched
begin

text \<open>
  The time policies (\<^verbatim>\<open>ipstat_system_time_policy/main.c\<close>): five mirrored lists, the authorization hook that
  asks the policies of the user, of his group, of the type and of the group of the traffic, and the control commands.
  \<^verbatim>\<open>localtime\<close> and \<^verbatim>\<open>mktime\<close> depend on the time zone and are arguments. The time of
  day is compared as an unsigned number, as C does for a \<^verbatim>\<open>time_t\<close> and a \<^verbatim>\<open>guint\<close>.
  A result of the wrong kind for the service is undefined behaviour. Locks and the release of memory are not modelled.
\<close>

record NODE_POLICY_TIME =
  nt_id :: IP_id
  nt_id_policy :: IP_id
  nt_week_day :: "8 word"
  nt_time_begin :: "32 word"
  nt_time_end :: "32 word"
  nt_target :: "8 word"
  nt_md5 :: string
  nt_time_live :: time_t

record time_policy =
  tp_policy_time :: "NODE_POLICY_TIME list"
  tp_policy_users :: "NODE_POLICY_USER list"
  tp_policy_group_users :: "NODE_POLICY_USER list"
  tp_policy_type_traffic :: "NODE_POLICY_USER list"
  tp_policy_group_traffic :: "NODE_POLICY_USER list"
  tp_begin_period :: time_t
  tp_week_day :: "8 word"

section \<open>The lists of owners\<close>

definition time_users :: "NODE_POLICY_USER mirror" where
  "time_users = owners ''id_user'' ''Policy_Time_Users'' ''Policy_Time''"

definition tp_compare_users :: "NODE_POLICY_USER \<Rightarrow> NODE_POLICY_USER \<Rightarrow> int" where
  "tp_compare_users a b = compare_id (no_id a) (no_id b)"

definition tp_user_find :: "IP_id \<Rightarrow> NODE_POLICY_USER list \<Rightarrow> nat option" where
  "tp_user_find i l = mirror_find no_id i l"

definition tp_insert_policy_user ::
  "bool \<times> bool \<Rightarrow> time_t \<Rightarrow> IP_id \<Rightarrow> 'w STORE_API option \<Rightarrow> NODE_POLICY_USER list \<Rightarrow> 'w \<Rightarrow> (gboolean \<times> NODE_POLICY_USER list \<times> 'w) option" where
  "tp_insert_policy_user mem now i store l w = mirror_insert time_users mem now i store l w"

definition tp_update_policy_user ::
  "time_t \<Rightarrow> IP_id \<Rightarrow> 'w STORE_API option \<Rightarrow> NODE_POLICY_USER list \<Rightarrow> 'w \<Rightarrow> (gboolean \<times> NODE_POLICY_USER list \<times> 'w) option" where
  "tp_update_policy_user now i store l w = mirror_update time_users now i store l w"

definition tp_delete_policy_user :: "IP_id \<Rightarrow> NODE_POLICY_USER list \<Rightarrow> gboolean \<times> NODE_POLICY_USER list" where
  "tp_delete_policy_user i l = mirror_delete no_id i l"

definition tp_sync_users_list ::
  "(nat \<Rightarrow> bool \<times> bool) \<Rightarrow> time_t \<Rightarrow> 'w STORE_API option \<Rightarrow> time_policy \<Rightarrow> 'w \<Rightarrow> (gboolean \<times> time_policy \<times> 'w) option" where
  "tp_sync_users_list mem now store st w = do {
     (r, l, w1) \<leftarrow> mirror_sync time_users no_time_live mem now store (tp_policy_users st) w;
     Some (r, st\<lparr>tp_policy_users := l\<rparr>, w1)
   }"

definition tp_init_users_list ::
  "(nat \<Rightarrow> bool \<times> bool) \<Rightarrow> time_t \<Rightarrow> 'w STORE_API option \<Rightarrow> time_policy \<Rightarrow> 'w \<Rightarrow> gboolean \<times> time_policy \<times> 'w" where
  "tp_init_users_list mem now store st w =
     (case mirror_init (owners_init_query ''id_user'' ''Policy_Time_Users'' ''Policy_Time'') (\<lambda>row. Some (owner_of_row now row)) mem store (tp_policy_users st) w of
        (r, l, w1) \<Rightarrow> (r, st\<lparr>tp_policy_users := l\<rparr>, w1))"

definition tp_free_users_list :: "time_policy \<Rightarrow> gboolean \<times> time_policy" where
  "tp_free_users_list st = (1, st\<lparr>tp_policy_users := []\<rparr>)"

definition tp_check_user :: "IP_id \<Rightarrow> time_policy \<Rightarrow> (IP_id \<times> 8 word) option" where
  "tp_check_user i st = check_owner i (tp_policy_users st)"

definition time_group_users :: "NODE_POLICY_USER mirror" where
  "time_group_users = owners ''id_group_user'' ''Policy_Time_GroupUsers'' ''Policy_Time''"

definition tp_compare_group_users :: "NODE_POLICY_USER \<Rightarrow> NODE_POLICY_USER \<Rightarrow> int" where
  "tp_compare_group_users a b = compare_id (no_id a) (no_id b)"

definition tp_group_user_find :: "IP_id \<Rightarrow> NODE_POLICY_USER list \<Rightarrow> nat option" where
  "tp_group_user_find i l = mirror_find no_id i l"

definition tp_insert_policy_group_user ::
  "bool \<times> bool \<Rightarrow> time_t \<Rightarrow> IP_id \<Rightarrow> 'w STORE_API option \<Rightarrow> NODE_POLICY_USER list \<Rightarrow> 'w \<Rightarrow> (gboolean \<times> NODE_POLICY_USER list \<times> 'w) option" where
  "tp_insert_policy_group_user mem now i store l w = mirror_insert time_group_users mem now i store l w"

definition tp_update_policy_group_user ::
  "time_t \<Rightarrow> IP_id \<Rightarrow> 'w STORE_API option \<Rightarrow> NODE_POLICY_USER list \<Rightarrow> 'w \<Rightarrow> (gboolean \<times> NODE_POLICY_USER list \<times> 'w) option" where
  "tp_update_policy_group_user now i store l w = mirror_update time_group_users now i store l w"

definition tp_delete_policy_group_user :: "IP_id \<Rightarrow> NODE_POLICY_USER list \<Rightarrow> gboolean \<times> NODE_POLICY_USER list" where
  "tp_delete_policy_group_user i l = mirror_delete no_id i l"

definition tp_sync_group_users_list ::
  "(nat \<Rightarrow> bool \<times> bool) \<Rightarrow> time_t \<Rightarrow> 'w STORE_API option \<Rightarrow> time_policy \<Rightarrow> 'w \<Rightarrow> (gboolean \<times> time_policy \<times> 'w) option" where
  "tp_sync_group_users_list mem now store st w = do {
     (r, l, w1) \<leftarrow> mirror_sync time_group_users no_time_live mem now store (tp_policy_group_users st) w;
     Some (r, st\<lparr>tp_policy_group_users := l\<rparr>, w1)
   }"

definition tp_init_group_users_list ::
  "(nat \<Rightarrow> bool \<times> bool) \<Rightarrow> time_t \<Rightarrow> 'w STORE_API option \<Rightarrow> time_policy \<Rightarrow> 'w \<Rightarrow> gboolean \<times> time_policy \<times> 'w" where
  "tp_init_group_users_list mem now store st w =
     (case mirror_init (owners_init_query ''id_group_user'' ''Policy_Time_GroupUsers'' ''Policy_Time'') (\<lambda>row. Some (owner_of_row now row)) mem store (tp_policy_group_users st) w of
        (r, l, w1) \<Rightarrow> (r, st\<lparr>tp_policy_group_users := l\<rparr>, w1))"

definition tp_free_group_users_list :: "time_policy \<Rightarrow> gboolean \<times> time_policy" where
  "tp_free_group_users_list st = (1, st\<lparr>tp_policy_group_users := []\<rparr>)"

definition tp_check_group_user :: "IP_id \<Rightarrow> time_policy \<Rightarrow> (IP_id \<times> 8 word) option" where
  "tp_check_group_user i st = check_owner i (tp_policy_group_users st)"

definition time_type_traffic :: "NODE_POLICY_USER mirror" where
  "time_type_traffic = owners ''id_type_traffic'' ''Policy_Time_TypeTraffic'' ''Policy_Time''"

definition tp_compare_type_traffic :: "NODE_POLICY_USER \<Rightarrow> NODE_POLICY_USER \<Rightarrow> int" where
  "tp_compare_type_traffic a b = compare_id (no_id a) (no_id b)"

definition tp_type_traffic_find :: "IP_id \<Rightarrow> NODE_POLICY_USER list \<Rightarrow> nat option" where
  "tp_type_traffic_find i l = mirror_find no_id i l"

definition tp_insert_policy_type_traffic ::
  "bool \<times> bool \<Rightarrow> time_t \<Rightarrow> IP_id \<Rightarrow> 'w STORE_API option \<Rightarrow> NODE_POLICY_USER list \<Rightarrow> 'w \<Rightarrow> (gboolean \<times> NODE_POLICY_USER list \<times> 'w) option" where
  "tp_insert_policy_type_traffic mem now i store l w = mirror_insert time_type_traffic mem now i store l w"

definition tp_update_policy_type_traffic ::
  "time_t \<Rightarrow> IP_id \<Rightarrow> 'w STORE_API option \<Rightarrow> NODE_POLICY_USER list \<Rightarrow> 'w \<Rightarrow> (gboolean \<times> NODE_POLICY_USER list \<times> 'w) option" where
  "tp_update_policy_type_traffic now i store l w = mirror_update time_type_traffic now i store l w"

definition tp_delete_policy_type_traffic :: "IP_id \<Rightarrow> NODE_POLICY_USER list \<Rightarrow> gboolean \<times> NODE_POLICY_USER list" where
  "tp_delete_policy_type_traffic i l = mirror_delete no_id i l"

definition tp_sync_type_traffic_list ::
  "(nat \<Rightarrow> bool \<times> bool) \<Rightarrow> time_t \<Rightarrow> 'w STORE_API option \<Rightarrow> time_policy \<Rightarrow> 'w \<Rightarrow> (gboolean \<times> time_policy \<times> 'w) option" where
  "tp_sync_type_traffic_list mem now store st w = do {
     (r, l, w1) \<leftarrow> mirror_sync time_type_traffic no_time_live mem now store (tp_policy_type_traffic st) w;
     Some (r, st\<lparr>tp_policy_type_traffic := l\<rparr>, w1)
   }"

definition tp_init_type_traffic_list ::
  "(nat \<Rightarrow> bool \<times> bool) \<Rightarrow> time_t \<Rightarrow> 'w STORE_API option \<Rightarrow> time_policy \<Rightarrow> 'w \<Rightarrow> gboolean \<times> time_policy \<times> 'w" where
  "tp_init_type_traffic_list mem now store st w =
     (case mirror_init (owners_init_query ''id_type_traffic'' ''Policy_Time_TypeTraffic'' ''Policy_Time'') (\<lambda>row. Some (owner_of_row now row)) mem store (tp_policy_type_traffic st) w of
        (r, l, w1) \<Rightarrow> (r, st\<lparr>tp_policy_type_traffic := l\<rparr>, w1))"

definition tp_free_type_traffic_list :: "time_policy \<Rightarrow> gboolean \<times> time_policy" where
  "tp_free_type_traffic_list st = (1, st\<lparr>tp_policy_type_traffic := []\<rparr>)"

definition tp_check_type_traffic :: "IP_id \<Rightarrow> time_policy \<Rightarrow> (IP_id \<times> 8 word) option" where
  "tp_check_type_traffic i st = check_owner i (tp_policy_type_traffic st)"

definition time_group_traffic :: "NODE_POLICY_USER mirror" where
  "time_group_traffic = owners ''id_group_traffic'' ''Policy_Time_GroupTraffic'' ''Policy_Time''"

definition tp_compare_group_traffic :: "NODE_POLICY_USER \<Rightarrow> NODE_POLICY_USER \<Rightarrow> int" where
  "tp_compare_group_traffic a b = compare_id (no_id a) (no_id b)"

definition tp_group_traffic_find :: "IP_id \<Rightarrow> NODE_POLICY_USER list \<Rightarrow> nat option" where
  "tp_group_traffic_find i l = mirror_find no_id i l"

definition tp_insert_policy_group_traffic ::
  "bool \<times> bool \<Rightarrow> time_t \<Rightarrow> IP_id \<Rightarrow> 'w STORE_API option \<Rightarrow> NODE_POLICY_USER list \<Rightarrow> 'w \<Rightarrow> (gboolean \<times> NODE_POLICY_USER list \<times> 'w) option" where
  "tp_insert_policy_group_traffic mem now i store l w = mirror_insert time_group_traffic mem now i store l w"

definition tp_update_policy_group_traffic ::
  "time_t \<Rightarrow> IP_id \<Rightarrow> 'w STORE_API option \<Rightarrow> NODE_POLICY_USER list \<Rightarrow> 'w \<Rightarrow> (gboolean \<times> NODE_POLICY_USER list \<times> 'w) option" where
  "tp_update_policy_group_traffic now i store l w = mirror_update time_group_traffic now i store l w"

definition tp_delete_policy_group_traffic :: "IP_id \<Rightarrow> NODE_POLICY_USER list \<Rightarrow> gboolean \<times> NODE_POLICY_USER list" where
  "tp_delete_policy_group_traffic i l = mirror_delete no_id i l"

definition tp_sync_group_traffic_list ::
  "(nat \<Rightarrow> bool \<times> bool) \<Rightarrow> time_t \<Rightarrow> 'w STORE_API option \<Rightarrow> time_policy \<Rightarrow> 'w \<Rightarrow> (gboolean \<times> time_policy \<times> 'w) option" where
  "tp_sync_group_traffic_list mem now store st w = do {
     (r, l, w1) \<leftarrow> mirror_sync time_group_traffic no_time_live mem now store (tp_policy_group_traffic st) w;
     Some (r, st\<lparr>tp_policy_group_traffic := l\<rparr>, w1)
   }"

definition tp_init_group_traffic_list ::
  "(nat \<Rightarrow> bool \<times> bool) \<Rightarrow> time_t \<Rightarrow> 'w STORE_API option \<Rightarrow> time_policy \<Rightarrow> 'w \<Rightarrow> gboolean \<times> time_policy \<times> 'w" where
  "tp_init_group_traffic_list mem now store st w =
     (case mirror_init (owners_init_query ''id_group_traffic'' ''Policy_Time_GroupTraffic'' ''Policy_Time'') (\<lambda>row. Some (owner_of_row now row)) mem store (tp_policy_group_traffic st) w of
        (r, l, w1) \<Rightarrow> (r, st\<lparr>tp_policy_group_traffic := l\<rparr>, w1))"

definition tp_free_group_traffic_list :: "time_policy \<Rightarrow> gboolean \<times> time_policy" where
  "tp_free_group_traffic_list st = (1, st\<lparr>tp_policy_group_traffic := []\<rparr>)"

definition tp_check_group_traffic :: "IP_id \<Rightarrow> time_policy \<Rightarrow> (IP_id \<times> 8 word) option" where
  "tp_check_group_traffic i st = check_owner i (tp_policy_group_traffic st)"

section \<open>The list of time windows\<close>

definition time_of_row :: "time_t \<Rightarrow> SQL_ROW \<Rightarrow> NODE_POLICY_TIME" where
  "time_of_row now row =
     \<lparr>nt_id = conv (atoi (col row 0)), nt_id_policy = conv (atoi (col row 1)), nt_week_day = conv (atoi (col row 2)),
      nt_time_begin = conv (atoi (col row 3)), nt_time_end = conv (atoi (col row 4)), nt_target = conv (atoi (col row 5)),
      nt_md5 = strncpy (replicate 33 NUL) (col row 6) 32, nt_time_live = now\<rparr>"

definition update_time :: "time_t \<Rightarrow> SQL_ROW \<Rightarrow> NODE_POLICY_TIME \<Rightarrow> gboolean \<times> NODE_POLICY_TIME" where
  "update_time now row node =
     (1, node\<lparr>nt_id := conv (atoi (col row 0)), nt_id_policy := conv (atoi (col row 1)), nt_week_day := conv (atoi (col row 2)),
        nt_time_begin := conv (atoi (col row 3)), nt_time_end := conv (atoi (col row 4)), nt_target := conv (atoi (col row 5)),
        nt_md5 := strncpy (nt_md5 node) (col row 6) 32, nt_time_live := now\<rparr>)"

definition time_columns :: string where
  "time_columns = ''id, id_policy, Week_Day, Time_Begin, Time_End, Target, md5(concat(id_policy, Week_Day, Time_Begin, Time_End, Target)) from Policy_Time_Def''"

definition time_query :: "IP_id \<Rightarrow> string" where
  "time_query i = ''select '' @ time_columns @ '' where id = '' @ fmt_d i"

definition time_windows :: "NODE_POLICY_TIME mirror" where
  "time_windows =
     \<lparr>mr_key = nt_id, mr_md5 = nt_md5, mr_load = (\<lambda>i now row. Some (time_of_row now row)), mr_update = update_time,
      mr_touch = (\<lambda>now node. node\<lparr>nt_time_live := now\<rparr>),
      mr_list_query = ''select id, md5(concat(id_policy, Week_Day, Time_Begin, Time_End, Target)) from Policy_Time_Def'',
      mr_load_query = time_query, mr_update_query = time_query\<rparr>"

definition policy_compare_time :: "NODE_POLICY_TIME \<Rightarrow> NODE_POLICY_TIME \<Rightarrow> int" where
  "policy_compare_time a b = compare_id (nt_id a) (nt_id b)"

definition time_find :: "IP_id \<Rightarrow> NODE_POLICY_TIME list \<Rightarrow> nat option" where
  "time_find i l = mirror_find nt_id i l"

definition insert_policy_time ::
  "bool \<times> bool \<Rightarrow> time_t \<Rightarrow> IP_id \<Rightarrow> 'w STORE_API option \<Rightarrow> NODE_POLICY_TIME list \<Rightarrow> 'w \<Rightarrow> (gboolean \<times> NODE_POLICY_TIME list \<times> 'w) option" where
  "insert_policy_time mem now i store l w = mirror_insert time_windows mem now i store l w"

definition update_policy_time ::
  "time_t \<Rightarrow> IP_id \<Rightarrow> 'w STORE_API option \<Rightarrow> NODE_POLICY_TIME list \<Rightarrow> 'w \<Rightarrow> (gboolean \<times> NODE_POLICY_TIME list \<times> 'w) option" where
  "update_policy_time now i store l w = mirror_update time_windows now i store l w"

definition delete_policy_time :: "IP_id \<Rightarrow> NODE_POLICY_TIME list \<Rightarrow> gboolean \<times> NODE_POLICY_TIME list" where
  "delete_policy_time i l = mirror_delete nt_id i l"

definition sync_time_list ::
  "(nat \<Rightarrow> bool \<times> bool) \<Rightarrow> time_t \<Rightarrow> 'w STORE_API option \<Rightarrow> time_policy \<Rightarrow> 'w \<Rightarrow> (gboolean \<times> time_policy \<times> 'w) option" where
  "sync_time_list mem now store st w = do {
     (r, l, w1) \<leftarrow> mirror_sync time_windows nt_time_live mem now store (tp_policy_time st) w;
     Some (r, st\<lparr>tp_policy_time := l\<rparr>, w1)
   }"

definition init_policy_list ::
  "(nat \<Rightarrow> bool \<times> bool) \<Rightarrow> time_t \<Rightarrow> 'w STORE_API option \<Rightarrow> time_policy \<Rightarrow> 'w \<Rightarrow> gboolean \<times> time_policy \<times> 'w" where
  "init_policy_list mem now store st w =
     (case mirror_init (''select '' @ time_columns @ '' order by id'') (\<lambda>row. Some (time_of_row now row)) mem store (tp_policy_time st) w of
        (r, l, w1) \<Rightarrow> (r, st\<lparr>tp_policy_time := l\<rparr>, w1))"

definition free_policy_list :: "time_policy \<Rightarrow> gboolean \<times> time_policy" where
  "free_policy_list st = (1, st\<lparr>tp_policy_time := []\<rparr>)"

section \<open>The decision\<close>

definition in_window :: "IP_id \<Rightarrow> 8 word \<Rightarrow> 32 word \<Rightarrow> NODE_POLICY_TIME \<Rightarrow> bool" where
  "in_window id_policy week_day tek_time node \<longleftrightarrow>
     nt_id_policy node = id_policy \<and> week_day = nt_week_day node \<and> tek_time \<ge> nt_time_begin node \<and> tek_time \<le> nt_time_end node"

fun tp_policy_loop :: "IP_id \<Rightarrow> 8 word \<Rightarrow> 32 word \<Rightarrow> 8 word \<Rightarrow> NODE_POLICY_TIME list \<Rightarrow> 8 word" where
  "tp_policy_loop id_policy week_day tek_time res [] = res"
| "tp_policy_loop id_policy week_day tek_time res (node # ns) =
     (if in_window id_policy week_day tek_time node then nt_target node else tp_policy_loop id_policy week_day tek_time res ns)"

definition tp_check_policy :: "time_t \<Rightarrow> IP_id \<Rightarrow> 8 word \<Rightarrow> time_policy \<Rightarrow> gboolean" where
  "tp_check_policy now id_policy def st =
     (if tp_policy_loop id_policy (tp_week_day st) (conv (now - tp_begin_period st)) def (tp_policy_time st) = 0 then 0 else 1)"

text \<open>Each of the four steps of the hook: no policy, or a policy that permits.\<close>

definition tp_step :: "time_t \<Rightarrow> (IP_id \<times> 8 word) option \<Rightarrow> time_policy \<Rightarrow> bool" where
  "tp_step now found st = (case found of None \<Rightarrow> True | Some (id_policy, def) \<Rightarrow> tp_check_policy now id_policy def st \<noteq> 0)"

definition tp_check_all :: "time_t \<Rightarrow> IP_id \<Rightarrow> IP_id \<Rightarrow> IP_id \<Rightarrow> IP_id \<Rightarrow> time_policy \<Rightarrow> gboolean" where
  "tp_check_all now id_user id_group_user id_type_traffic id_group_traffic st =
     (if \<not> tp_step now (tp_check_user id_user st) st then 0
      else if \<not> tp_step now (tp_check_group_user id_group_user st) st then 0
      else if \<not> tp_step now (tp_check_type_traffic id_type_traffic st) st then 0
      else if \<not> tp_step now (tp_check_group_traffic id_group_traffic st) st then 0
      else 1)"

definition tp_autz :: "time_t \<Rightarrow> IP_id \<Rightarrow> ret_info \<Rightarrow> time_policy \<Rightarrow> gboolean option" where
  "tp_autz now service ret st =
     (if service = SERVICE_TRAFFIC then
        (case ret of
           RPacket pd \<Rightarrow> Some (tp_check_all now (pd_id_user pd) (pd_id_group_user pd) (pd_id_traffic_type pd) (pd_id_traffic_group pd) st)
         | _ \<Rightarrow> None)
      else if service = SERVICE_SQUID then
        (case ret of
           RSquid sd \<Rightarrow> Some (tp_check_all now (sd_id_user sd) (sd_id_group_user sd) (sd_id_traffic_type sd) (sd_id_traffic_group sd) st)
         | _ \<Rightarrow> None)
      else Some 0)"

section \<open>The day\<close>

definition get_begin_period :: "(time_t \<Rightarrow> tm) \<Rightarrow> (tm \<Rightarrow> time_t) \<Rightarrow> time_t \<Rightarrow> time_policy \<Rightarrow> time_t \<times> time_policy" where
  "get_begin_period localtime mktime now st =
     (let t = (localtime now)\<lparr>tm_sec := 0, tm_min := 0, tm_hour := 0\<rparr>
      in (mktime t, st\<lparr>tp_week_day := conv (tm_wday t)\<rparr>))"

definition every_day :: "(time_t \<Rightarrow> tm) \<Rightarrow> (tm \<Rightarrow> time_t) \<Rightarrow> time_t \<Rightarrow> time_policy \<Rightarrow> gboolean \<times> time_policy" where
  "every_day localtime mktime now st =
     (case get_begin_period localtime mktime now st of (t, st1) \<Rightarrow> (1, st1\<lparr>tp_begin_period := t\<rparr>))"

section \<open>Starting and stopping\<close>

definition policy_time_tables :: "(string \<times> string list) list" where
  "policy_time_tables =
     [(''Policy_Time'', [(''CREATE TABLE Policy_Time (id int(11) NOT NULL auto_increment, Name varchar(50) NOT NULL default '' @ squote @ squote @
      '', Def enum('' @ squote @ ''0'' @ squote @ '','' @ squote @ ''1'' @ squote @ '') NOT NULL default '' @ squote @ ''0'' @ squote @
      '', PRIMARY KEY  (id)) TYPE=InnoDB'')]),
      (''Policy_Time_Users'', [(''CREATE TABLE Policy_Time_Users (id_user int(11) NOT NULL default '' @ squote @ ''0'' @ squote @
      '', id_policy int(11)  NOT NULL default '' @ squote @ ''0'' @ squote @ '', PRIMARY KEY  (id_user)) TYPE=InnoDB'')]),
      (''Policy_Time_GroupUsers'', [(''CREATE TABLE Policy_Time_GroupUsers (id_group_user int(11) NOT NULL default '' @ squote @ ''0'' @ squote @
      '', id_policy int(11)  NOT NULL default '' @ squote @ ''0'' @ squote @ '', PRIMARY KEY  (id_group_user)) TYPE=InnoDB'')]),
      (''Policy_Time_TypeTraffic'', [(''CREATE TABLE Policy_Time_TypeTraffic (id_type_traffic int(11) NOT NULL default '' @ squote @ ''0'' @ squote @
      '', id_policy int(11)  NOT NULL default '' @ squote @ ''0'' @ squote @ '', PRIMARY KEY  (id_type_traffic)) TYPE=InnoDB'')]),
      (''Policy_Time_GroupTraffic'', [(''CREATE TABLE Policy_Time_GroupTraffic (id_group_traffic int(11) NOT NULL default '' @ squote @ ''0'' @ squote @
      '', id_policy int(11)  NOT NULL default '' @ squote @ ''0'' @ squote @ '', PRIMARY KEY  (id_group_traffic)) TYPE=InnoDB'')]),
      (''Policy_Time_Def'', [(''CREATE TABLE Policy_Time_Def (id int(11) NOT NULL auto_increment, id_policy int(11) NOT NULL default '' @ squote @ ''0'' @
      squote @ '', Week_Day tinyint(3) unsigned NOT NULL default '' @ squote @ ''0'' @ squote @
      '', Time_Begin int(10) unsigned NOT NULL default '' @ squote @ ''0'' @ squote @
      '', Time_End int(10) unsigned NOT NULL default '' @ squote @ ''0'' @ squote @ '', Target enum('' @ squote @ ''0'' @ squote @
      '','' @ squote @ ''1'' @ squote @ '') NOT NULL default '' @ squote @ ''0'' @ squote @
      '', PRIMARY KEY  (id), KEY id_policy (id_policy)) TYPE=InnoDB'')])]"

definition check_policy_time_tables :: "bool \<Rightarrow> 'w STORE_API \<Rightarrow> 'w \<Rightarrow> gboolean \<times> 'w" where
  "check_policy_time_tables ok api w =
     (case sql_open api w of
        (None, w1) \<Rightarrow> (1, w1)
      | (Some sid, w1) \<Rightarrow>
          if \<not> ok then (0, sql_close api sid w1)
          else (1, sql_close api sid (check_tables api sid policy_time_tables w1)))"

definition tp_load ::
  "(time_t \<Rightarrow> tm) \<Rightarrow> (tm \<Rightarrow> time_t) \<Rightarrow> bool \<Rightarrow> (nat \<Rightarrow> bool \<times> bool) \<Rightarrow> bool \<Rightarrow> bool \<Rightarrow> int \<Rightarrow> time_t \<Rightarrow> 'w STORE_API option \<Rightarrow> time_policy \<Rightarrow> 'w \<Rightarrow>
   (gboolean \<times> time_policy \<times> registration list \<times> 'w) option" where
  "tp_load localtime mktime ok mem server sched timeout now store st w = do {
     let st1 = snd (every_day localtime mktime now st);
     api \<leftarrow> store;
     let (_, w1) = check_policy_time_tables ok api w;
     let (_, st2, w2) = tp_init_users_list mem now store st1 w1;
     let (_, st3, w3) = tp_init_group_users_list mem now store st2 w2;
     let (_, st4, w4) = tp_init_type_traffic_list mem now store st3 w3;
     let (_, st5, w5) = tp_init_group_traffic_list mem now store st4 w4;
     let (_, st6, w6) = init_policy_list mem now store st5 w5;
     str \<leftarrow> sprintf_buf 20 (every_minutes timeout);
     Some (1, st6,
       AutzHook #
       (if sched then [SchedReg ''sync_policy_users'' str, SchedReg ''sync_policy_group_users'' str, SchedReg ''sync_policy_type_traffic'' str,
          SchedReg ''sync_policy_group_traffic'' str, SchedReg ''sync_policy_time'' str] else []) @
       (if server then [ServerReg ''policy_time''] else []) @
       (if sched then [SchedReg ''policy_time_every_day'' ''0 0 * * *''] else []), w6)
   }"

definition tp_unload :: "bool \<Rightarrow> bool \<Rightarrow> time_policy \<Rightarrow> gboolean \<times> time_policy \<times> registration list" where
  "tp_unload server sched st =
     (1, snd (tp_free_users_list (snd (tp_free_group_users_list (snd (tp_free_type_traffic_list (snd (tp_free_group_traffic_list (snd (free_policy_list st))))))))),
      (if sched then [SchedUnreg ''policy_time_every_day''] else []) @
      (if server then [ServerUnreg ''policy_time''] else []) @
      (if sched then [SchedUnreg ''sync_policy_time'', SchedUnreg ''sync_policy_group_traffic'', SchedUnreg ''sync_policy_type_traffic'',
         SchedUnreg ''sync_policy_group_users'', SchedUnreg ''sync_policy_users''] else []) @ [AutzUnhook])"

section \<open>Control commands\<close>

definition owner_line :: "NODE_POLICY_USER \<Rightarrow> string list \<Rightarrow> string list" where
  "owner_line node sock =
     send_to_socket (''| '' @ fmt_pad 7 (fmt_d (no_id node)) @ '' | '' @ fmt_pad 10 (fmt_d (no_id_policy node)) @ '' | '' @
       fmt_pad 5 (fmt_u (no_def node)) @ '' |'' @ crlf) sock"

definition policy_traverse_users_print :: "NODE_POLICY_USER \<Rightarrow> string list \<Rightarrow> string list" where
  "policy_traverse_users_print node sock = owner_line node sock"

definition policy_time_users_print :: "time_policy \<Rightarrow> string list \<Rightarrow> gboolean \<times> string list" where
  "policy_time_users_print st sock =
     (1, send_to_socket (dashes 32) (fold policy_traverse_users_print (tp_policy_users st)
        (send_to_socket (dashes 32) (send_to_socket (''| '' @ fmt_pad 7 ''id_user'' @ '' | '' @ fmt_pad 10 ''id_policy'' @ '' | '' @ fmt_pad 5 ''Def'' @ '' |'' @ crlf)
           (send_to_socket (dashes 32) (send_to_socket (''Policy for Users:'' @ crlf) sock))))))"

definition policy_traverse_group_users_print :: "NODE_POLICY_USER \<Rightarrow> string list \<Rightarrow> string list" where
  "policy_traverse_group_users_print node sock = owner_line node sock"

definition policy_time_group_users_print :: "time_policy \<Rightarrow> string list \<Rightarrow> gboolean \<times> string list" where
  "policy_time_group_users_print st sock =
     (1, send_to_socket (dashes 32) (fold policy_traverse_group_users_print (tp_policy_group_users st)
        (send_to_socket (dashes 32) (send_to_socket (''| '' @ fmt_pad 7 ''id_group'' @ '' | '' @ fmt_pad 10 ''id_policy'' @ '' | '' @ fmt_pad 5 ''Def'' @ '' |'' @ crlf)
           (send_to_socket (dashes 32) (send_to_socket (''Policy for Group Users:'' @ crlf) sock))))))"

definition policy_traverse_type_traffic_print :: "NODE_POLICY_USER \<Rightarrow> string list \<Rightarrow> string list" where
  "policy_traverse_type_traffic_print node sock = owner_line node sock"

definition policy_time_type_traffic_print :: "time_policy \<Rightarrow> string list \<Rightarrow> gboolean \<times> string list" where
  "policy_time_type_traffic_print st sock =
     (1, send_to_socket (dashes 32) (fold policy_traverse_type_traffic_print (tp_policy_type_traffic st)
        (send_to_socket (dashes 32) (send_to_socket (''| '' @ fmt_pad 7 ''id_type'' @ '' | '' @ fmt_pad 10 ''id_policy'' @ '' | '' @ fmt_pad 5 ''Def'' @ '' |'' @ crlf)
           (send_to_socket (dashes 32) (send_to_socket (''Policy for Type Traffic:'' @ crlf) sock))))))"

definition policy_traverse_group_traffic_print :: "NODE_POLICY_USER \<Rightarrow> string list \<Rightarrow> string list" where
  "policy_traverse_group_traffic_print node sock = owner_line node sock"

definition policy_time_group_traffic_print :: "time_policy \<Rightarrow> string list \<Rightarrow> gboolean \<times> string list" where
  "policy_time_group_traffic_print st sock =
     (1, send_to_socket (dashes 32) (fold policy_traverse_group_traffic_print (tp_policy_group_traffic st)
        (send_to_socket (dashes 32) (send_to_socket (''| '' @ fmt_pad 7 ''id_group'' @ '' | '' @ fmt_pad 10 ''id_policy'' @ '' | '' @ fmt_pad 5 ''Def'' @ '' |'' @ crlf)
           (send_to_socket (dashes 32) (send_to_socket (''Policy for Group Traffic:'' @ crlf) sock))))))"

definition policy_id_traverse_print :: "NODE_POLICY_TIME \<Rightarrow> string list \<Rightarrow> string list" where
  "policy_id_traverse_print node sock =
     send_to_socket (''| '' @ fmt_pad 5 (fmt_d (nt_id node)) @ '' | '' @ fmt_pad 10 (fmt_d (nt_id_policy node)) @ '' | '' @
       fmt_pad 4 (fmt_u (nt_week_day node)) @ '' | '' @ fmt_pad 6 (fmt_d (nt_time_begin node)) @ '' | '' @
       fmt_pad 6 (fmt_d (nt_time_end node)) @ '' | '' @ fmt_pad 4 (fmt_u (nt_target node)) @ '' |'' @ crlf) sock"

definition policy_time_print :: "time_policy \<Rightarrow> string list \<Rightarrow> gboolean \<times> string list" where
  "policy_time_print st sock =
     (1, send_to_socket (dashes 54) (fold policy_id_traverse_print (tp_policy_time st)
        (send_to_socket (dashes 54) (send_to_socket (''| '' @ fmt_pad 5 ''id'' @ '' | '' @ fmt_pad 10 ''id_policy'' @ '' | '' @ fmt_pad 4 ''WD'' @ '' | '' @
             fmt_pad 6 ''TB'' @ '' | '' @ fmt_pad 6 ''TE'' @ '' | '' @ fmt_pad 4 ''T'' @ '' |'' @ crlf)
           (send_to_socket (dashes 54) (send_to_socket (''Policy Time:'' @ crlf) sock))))))"

definition policy_words :: "(string \<times> nat) list \<Rightarrow> string list \<Rightarrow> bool" where
  "policy_words ws argv \<longleftrightarrow> length argv = length ws \<and> list_all2 (\<lambda>a (s, n). strncmp a s n = 0) argv ws"

definition policy_time_job :: "string list \<Rightarrow> time_policy \<Rightarrow> string list \<Rightarrow> gboolean \<times> string list" where
  "policy_time_job argv st sock =
     (if policy_words [(''help'', 4)] argv then
        (0, fold send_to_socket
           [''*  - policy time users- Show policy for users *'' @ crlf,
            ''*  - policy time group users - Show policy for group users *'' @ crlf,
            ''*  - policy time type traffic - Show policy for type traffic *'' @ crlf,
            ''*  - policy time group traffic - Show policy for group traffic *'' @ crlf,
            ''*  - policy time list - Show policy list *'' @ crlf] sock)
      else if policy_words [(''policy'', 6), (''time'', 4), (''users'', 5)] argv
      then (1, snd (policy_time_users_print st sock))
      else if policy_words [(''policy'', 6), (''time'', 4), (''group'', 5), (''users'', 5)] argv
      then (1, snd (policy_time_group_users_print st sock))
      else if policy_words [(''policy'', 6), (''time'', 4), (''type'', 4), (''traffic'', 7)] argv
      then (1, snd (policy_time_type_traffic_print st sock))
      else if policy_words [(''policy'', 6), (''time'', 4), (''group'', 5), (''traffic'', 7)] argv
      then (1, snd (policy_time_group_traffic_print st sock))
      else if policy_words [(''policy'', 6), (''time'', 4), (''list'', 4)] argv
      then (1, snd (policy_time_print st sock))
      else (0, sock))"

section \<open>The contracts of the lists\<close>

interpretation time_users: mirror_digest time_users fits_first "\<lambda>row. col row 3" "\<lambda>row. col row 3"
  unfolding time_users_def by (rule owners_digest)

interpretation time_group_users: mirror_digest time_group_users fits_first "\<lambda>row. col row 3" "\<lambda>row. col row 3"
  unfolding time_group_users_def by (rule owners_digest)

interpretation time_type_traffic: mirror_digest time_type_traffic fits_first "\<lambda>row. col row 3" "\<lambda>row. col row 3"
  unfolding time_type_traffic_def by (rule owners_digest)

interpretation time_group_traffic: mirror_digest time_group_traffic fits_first "\<lambda>row. col row 3" "\<lambda>row. col row 3"
  unfolding time_group_traffic_def by (rule owners_digest)

interpretation time_windows: mirror_digest time_windows fits_first "\<lambda>row. col row 6" "\<lambda>row. col row 6"
  by unfold_locales (auto simp: time_windows_def time_of_row_def update_time_def fits_first_def row_id_def digest_strncpy)

section \<open>Properties\<close>

text \<open>The reference: the first open window of the policy decides, else its default.\<close>

definition window_open :: "IP_id \<Rightarrow> int \<Rightarrow> int \<Rightarrow> NODE_POLICY_TIME \<Rightarrow> bool" where
  "window_open id_policy wday secs p \<longleftrightarrow>
     nt_id_policy p = id_policy \<and> int (unat (nt_week_day p)) = wday \<and> int (unat (nt_time_begin p)) \<le> secs \<and> secs \<le> int (unat (nt_time_end p))"

definition time_permits :: "int \<Rightarrow> int \<Rightarrow> NODE_POLICY_TIME list \<Rightarrow> NODE_POLICY_USER list \<Rightarrow> IP_id \<Rightarrow> bool" where
  "time_permits wday secs windows l i \<longleftrightarrow>
     (case find (\<lambda>u. no_id u = i) l of
        None \<Rightarrow> True
      | Some u \<Rightarrow> (case find (window_open (no_id_policy u) wday secs) windows of None \<Rightarrow> no_def u | Some p \<Rightarrow> nt_target p) \<noteq> 0)"

definition day_start :: "(time_t \<Rightarrow> tm) \<Rightarrow> (tm \<Rightarrow> time_t) \<Rightarrow> time_t \<Rightarrow> time_t" where
  "day_start localtime mktime d = mktime ((localtime d)\<lparr>tm_sec := 0, tm_min := 0, tm_hour := 0\<rparr>)"

lemma tp_policy_loop_find:
  "tp_policy_loop i wd tek res l = (case find (in_window i wd tek) l of None \<Rightarrow> res | Some p \<Rightarrow> nt_target p)"
  by (induction l) auto

lemma in_window_open:
  assumes "0 \<le> wday" "wday < 256" "0 \<le> secs" "secs < 2 ^ 32"
  shows "in_window i (conv wday) (conv secs) = window_open i wday secs"
proof
  fix p :: NODE_POLICY_TIME
  have w: "unat (conv wday :: 8 word) = nat wday" "unat (conv secs :: 32 word) = nat secs"
    using assms by (simp_all add: conv_def unsigned_of_int take_bit_int_eq_self)
  have "(conv wday :: 8 word) = nt_week_day p \<longleftrightarrow> nat wday = unat (nt_week_day p)"
    unfolding w(1) [symmetric] by (rule word_unat_eq_iff)
  also have "\<dots> \<longleftrightarrow> int (unat (nt_week_day p)) = wday" using assms(1) by linarith
  finally have d: "(conv wday :: 8 word) = nt_week_day p \<longleftrightarrow> int (unat (nt_week_day p)) = wday" .
  have "nt_time_begin p \<le> conv secs \<longleftrightarrow> int (unat (nt_time_begin p)) \<le> secs" "conv secs \<le> nt_time_end p \<longleftrightarrow> secs \<le> int (unat (nt_time_end p))"
    unfolding word_le_nat_alt w(2) using assms(3) by linarith+
  then show "in_window i (conv wday) (conv secs) p = window_open i wday secs p"
    using d by (simp add: in_window_def window_open_def)
qed

lemma tp_step_permits:
  assumes "0 \<le> wday" "wday < 256" "tp_week_day st = conv wday" "0 \<le> now - tp_begin_period st" "now - tp_begin_period st < 2 ^ 32"
  shows "tp_step now (check_owner i l) st \<longleftrightarrow> time_permits wday (now - tp_begin_period st) (tp_policy_time st) l i"
  using assms
  by (simp add: tp_step_def tp_check_policy_def check_owner_find time_permits_def tp_policy_loop_find in_window_open split: option.splits)

lemma every_day_fields:
  "tp_week_day (snd (every_day localtime mktime d st)) = conv (tm_wday (localtime d))"
  "tp_begin_period (snd (every_day localtime mktime d st)) = day_start localtime mktime d"
  "tp_policy_time (snd (every_day localtime mktime d st)) = tp_policy_time st"
  "tp_policy_users (snd (every_day localtime mktime d st)) = tp_policy_users st"
  "tp_policy_group_users (snd (every_day localtime mktime d st)) = tp_policy_group_users st"
  "tp_policy_type_traffic (snd (every_day localtime mktime d st)) = tp_policy_type_traffic st"
  "tp_policy_group_traffic (snd (every_day localtime mktime d st)) = tp_policy_group_traffic st"
  by (simp_all add: every_day_def get_begin_period_def day_start_def Let_def)

text \<open>
  C9 (time policy). After the daily job has run on a day, and until the clock is set back before its midnight, a packet is
  authorized exactly if the policies of its user, of the user's group, of its traffic type and of its traffic group all
  permit it at that time of the day: by the first window of the policy for this weekday that contains the time, or by
  the default of the policy. An owner without a policy permits everything.
\<close>

theorem tp_autz_decides:
  assumes "0 \<le> tm_wday (localtime d)" and "tm_wday (localtime d) < 7"
    and "day_start localtime mktime d \<le> now" and "now < day_start localtime mktime d + 2 ^ 32"
  shows "tp_autz now SERVICE_TRAFFIC (RPacket pd) (snd (every_day localtime mktime d st)) =
    Some (if (\<forall>(l, i) \<in> {(tp_policy_users st, pd_id_user pd), (tp_policy_group_users st, pd_id_group_user pd),
                           (tp_policy_type_traffic st, pd_id_traffic_type pd), (tp_policy_group_traffic st, pd_id_traffic_group pd)}.
               time_permits (tm_wday (localtime d)) (now - day_start localtime mktime d) (tp_policy_time st) l i)
          then 1 else 0)"
proof -
  let ?st1 = "snd (every_day localtime mktime d st)"
  have step: "tp_step now (check_owner i l) ?st1 \<longleftrightarrow>
      time_permits (tm_wday (localtime d)) (now - day_start localtime mktime d) (tp_policy_time st) l i" for i l
    using tp_step_permits [of "tm_wday (localtime d)" ?st1 now i l] assms by (simp add: every_day_fields)
  show ?thesis
    by (simp add: tp_autz_def tp_check_all_def tp_check_user_def tp_check_group_user_def tp_check_type_traffic_def tp_check_group_traffic_def
        step every_day_fields)
qed

definition ex_time_policy :: time_policy where
  "ex_time_policy =
     \<lparr>tp_policy_time = [\<lparr>nt_id = 1, nt_id_policy = 5, nt_week_day = 1, nt_time_begin = 28800, nt_time_end = 64800, nt_target = 0, nt_md5 = [], nt_time_live = 0\<rparr>],
      tp_policy_users = [\<lparr>no_id = 7, no_id_policy = 5, no_def = 1, no_md5 = [], no_time_live = 0\<rparr>],
      tp_policy_group_users = [], tp_policy_type_traffic = [], tp_policy_group_traffic = [], tp_begin_period = 0, tp_week_day = 0\<rparr>"

definition ex_packet_data :: "IP_id \<Rightarrow> PACKET_DATA_INFO" where
  "ex_packet_data u = \<lparr>pd_service = SERVICE_TRAFFIC, pd_direct = 1, pd_id_user = u, pd_id_group_user = 1, pd_id_traffic_group = 1,
     pd_id_traffic_type = 1, pd_not_sum = 0, pd_len = 40\<rparr>"

theorem tp_autz_decides_witness:
  "tp_autz 36000 SERVICE_TRAFFIC (RPacket (ex_packet_data 7)) (snd (every_day (\<lambda>_. zero_tm\<lparr>tm_wday := 1\<rparr>) (\<lambda>_. 0) 3600 ex_time_policy)) = Some 0 \<and>
   tp_autz 72000 SERVICE_TRAFFIC (RPacket (ex_packet_data 7)) (snd (every_day (\<lambda>_. zero_tm\<lparr>tm_wday := 1\<rparr>) (\<lambda>_. 0) 3600 ex_time_policy)) = Some 1"
  using tp_autz_decides [of "\<lambda>_. zero_tm\<lparr>tm_wday := 1\<rparr>" 3600 "\<lambda>_. 0" 36000 "ex_packet_data 7" ex_time_policy]
    tp_autz_decides [of "\<lambda>_. zero_tm\<lparr>tm_wday := 1\<rparr>" 3600 "\<lambda>_. 0" 72000 "ex_packet_data 7" ex_time_policy]
  by (simp add: time_permits_def ex_time_policy_def ex_packet_data_def window_open_def day_start_def)

text \<open>
  C24 (new policy). A user who appears in the table of policies is subject to his policy as soon as the list has been
  synchronised: the hook finds the policy and the default of the row.
\<close>

theorem tp_sync_users_applies:
  assumes "answers api answer" and "\<forall>i. mem i = (True, True)"
    and "listing fits_first time_users answer (answer (mr_list_query time_users))" and "distinct (map no_id (tp_policy_users st))"
    and "row \<in> set (answer (mr_list_query time_users))" and "row_id row \<notin> no_id ` set (tp_policy_users st)"
  shows "\<exists>st' w'. tp_sync_users_list mem now (Some api) st w = Some (1, st', w') \<and>
    (let r = hd (answer (mr_load_query time_users (row_id row)))
     in tp_check_user (row_id row) st' = Some (conv (atoi (col r 1)), conv (atoi (col r 2))))"
proof -
  let ?rows = "answer (mr_list_query time_users)" and ?r = "hd (answer (mr_load_query time_users (row_id row)))"
  let ?l = "filter (\<lambda>n. now - no_time_live n \<le> 90) (mirrored time_users answer now ?rows (tp_policy_users st))"
  have sel: "mr_key time_users = no_id" "mr_load time_users = (\<lambda>i now row. Some (owner_of_row now row))"
    by (simp_all add: time_users_def owners_def)
  have d: "distinct (map (mr_key time_users) (tp_policy_users st))" using assms(4) by (simp add: sel)
  have "find (\<lambda>m. no_id m = row_id row) ?l = Some (owner_of_row now ?r)"
    using time_users.mirrored_find_new [OF assms(3) d assms(5), where P = "\<lambda>n. now - no_time_live n \<le> 90"] assms(6)
    by (simp add: sel owner_of_row_def)
  then show ?thesis
    using time_users.mirror_sync_reference [OF assms(1-3) d, of no_time_live now w]
    by (auto simp: tp_sync_users_list_def tp_check_user_def check_owner_find owner_of_row_def)
qed

definition ex_owner_answer :: "string \<Rightarrow> SQL_ROW list" where
  "ex_owner_answer q = (if q = mr_list_query time_users then [[''3'', ''abc'']] else [[''3'', ''5'', ''0'', ''abc'']])"

theorem tp_sync_users_applies_witness:
  "\<exists>st' w' p. tp_sync_users_list (\<lambda>i. (True, True)) 100 (Some (snapshot_api ex_owner_answer)) ex_time_policy () = Some (1, st', w') \<and>
     tp_check_user 3 st' = Some p"
proof -
  have q: "ex_owner_answer (mr_list_query time_users) = [[''3'', ''abc'']]"
      "ex_owner_answer (mr_load_query time_users i) = [[''3'', ''5'', ''0'', ''abc'']]"
      "ex_owner_answer (mr_update_query time_users i) = [[''3'', ''5'', ''0'', ''abc'']]" for i
    by (simp_all add: ex_owner_answer_def time_users_def owners_def owner_row_query_def)
  have r: "row_id [''3'', ''abc''] = 3" "row_id [''3'', ''5'', ''0'', ''abc''] = 3"
    by (simp_all add: row_id_def col_def atoi_3 conv_def)
  have "listing fits_first time_users ex_owner_answer (ex_owner_answer (mr_list_query time_users))"
    by (simp add: listing_def q r fits_first_def)
  from tp_sync_users_applies [OF answers_snapshot _ this, of "\<lambda>i. (True, True)" ex_time_policy "[''3'', ''abc'']" 100 "()"]
  show ?thesis by (auto simp: q r ex_time_policy_def Let_def)
qed

end
