(* ===== verification/Tasks.thy ===== *)
theory Tasks
  imports Misc
begin

text \<open>
  The periodic jobs of \<^verbatim>\<open>src/tasks.c\<close> and the checks of \<^verbatim>\<open>src/misc.c\<close> that catch up a
  missed one. A daily, weekly or monthly job runs its statements in one transaction and tries it up to four times;
  \<open>clock k\<close> is the time of the attempt with \<open>k\<close> attempts left. The pauses between attempts are not modelled.

  \<open>tx_journal\<close> is what the jobs rely on: a transaction takes effect with its commit, as a whole, or not at all.
  \<open>limit_rows\<close> gives the meaning of the statements of \<open>task_check_limit\<close> on a row of the tables
  \<^verbatim>\<open>Users\<close> and \<^verbatim>\<open>Rules\<close>.
\<close>

section \<open>Transactional jobs\<close>

definition tx_attempt :: "time_t \<Rightarrow> 'w STORE_API \<Rightarrow> SQL_SESSION \<Rightarrow> string list \<Rightarrow> string \<Rightarrow> 'w \<Rightarrow> bool \<times> 'w" where
  "tx_attempt now api sid stmts name w =
     (case exec_all api sid (''set autocommit=0'' # ''start transaction'' # stmts) w of
        (False, w1) \<Rightarrow> (False, w1)
      | (True, w1) \<Rightarrow>
          (case save_timestamp now api sid name w1 of (r, w2) \<Rightarrow>
             if r \<noteq> 1 then (False, w2) else sql_exec api sid ''commit'' w2))"

text \<open>The loop at the label \<^verbatim>\<open>start_label\<close>; the first argument is \<^verbatim>\<open>count\<close>.\<close>

fun tx_attempts :: "nat \<Rightarrow> (nat \<Rightarrow> time_t) \<Rightarrow> 'w STORE_API \<Rightarrow> SQL_SESSION \<Rightarrow> string list \<Rightarrow> string \<Rightarrow> 'w \<Rightarrow> bool \<times> 'w" where
  "tx_attempts 0 clock api sid stmts name w = (False, w)"
| "tx_attempts (Suc n) clock api sid stmts name w =
     (case tx_attempt (clock (Suc n)) api sid stmts name w of
        (True, w1) \<Rightarrow> (True, w1)
      | (False, w1) \<Rightarrow> tx_attempts n clock api sid stmts name (snd (sql_exec api sid ''rollback'' w1)))"

definition tx_task :: "(nat \<Rightarrow> time_t) \<Rightarrow> 'w STORE_API option \<Rightarrow> string list \<Rightarrow> string \<Rightarrow> 'w \<Rightarrow> gboolean \<times> 'w" where
  "tx_task clock store stmts name w =
     (case store of
        None \<Rightarrow> (0, w)
      | Some api \<Rightarrow>
          (case sql_open api w of
             (None, w1) \<Rightarrow> (1, w1)
           | (Some sid, w1) \<Rightarrow>
               (case tx_attempts 4 clock api sid stmts name w1 of
                  (True, w2) \<Rightarrow> (1, sql_close api sid w2)
                | (False, w2) \<Rightarrow> (0, w2))))"

definition day_stmts :: "string list" where
  "day_stmts =
     [''update Users SET Traffic = 0 where Type=1'',
      ''update Users SET YDay = TDay'',
      ''update Users SET TDay = 0'',
      ''update Rules SET Traffic = 0 where Type=1'',
      ''insert into System_Report select DATE_ADD(NOW(), INTERVAL -1 DAY), id_user, id_type, TDay, Action from Rules'',
      ''update Rules SET YDay = TDay'',
      ''update Rules SET TDay = 0'']"

definition week_stmts :: "string list" where
  "week_stmts = [''update Users SET Traffic = 0 where Type=2'', ''update Rules SET Traffic = 0 where Type=2'']"

definition month_stmts :: "string list" where
  "month_stmts =
     [''update Users SET Traffic = 0 where Type=3'',
      ''update Users SET YMonth = TMonth'',
      ''update Users SET TMonth = 0'',
      ''update Rules SET Traffic = 0 where Type=3'',
      ''update Rules SET YMonth = TMonth'',
      ''update Rules SET TMonth = 0'']"

definition task_every_day :: "(nat \<Rightarrow> time_t) \<Rightarrow> 'w STORE_API option \<Rightarrow> 'w \<Rightarrow> gboolean \<times> 'w" where
  "task_every_day clock store w = tx_task clock store day_stmts ''date_last_every_day'' w"

definition task_every_week :: "(nat \<Rightarrow> time_t) \<Rightarrow> 'w STORE_API option \<Rightarrow> 'w \<Rightarrow> gboolean \<times> 'w" where
  "task_every_week clock store w = tx_task clock store week_stmts ''date_last_every_week'' w"

definition task_every_month :: "(nat \<Rightarrow> time_t) \<Rightarrow> 'w STORE_API option \<Rightarrow> 'w \<Rightarrow> gboolean \<times> 'w" where
  "task_every_month clock store w = tx_task clock store month_stmts ''date_last_every_month'' w"

section \<open>Limits\<close>

definition set_active :: "string \<Rightarrow> string \<Rightarrow> string \<Rightarrow> string" where
  "set_active table v cond = ''update '' @ table @ '' SET onActive='' @ squote @ v @ squote @ '' where '' @ cond"

definition blocked_is :: "string \<Rightarrow> string" where
  "blocked_is v = ''onBlocked='' @ squote @ v @ squote"

definition limit_stmts :: "string list" where
  "limit_stmts =
     [set_active ''Users'' ''1'' (''(Type>=0 and Type<=3) and Limitation=-1 and '' @ blocked_is ''0''),
      set_active ''Users'' ''0'' (''(Type>=0 and Type<=3) and Traffic>Limitation and Limitation!=-1 and '' @ blocked_is ''0''),
      set_active ''Users'' ''1'' (''(Type>=0 and Type<=3) and Traffic<=Limitation and '' @ blocked_is ''0''),
      set_active ''Users'' ''0'' (''Type=4 and Balance<0 and '' @ blocked_is ''0''),
      set_active ''Users'' ''1'' (''Type=4 and Balance>=0 and '' @ blocked_is ''0''),
      set_active ''Rules'' ''1'' (''Limitation=-1 and '' @ blocked_is ''0''),
      set_active ''Rules'' ''0'' (''Traffic>Limitation and Limitation!=-1 and '' @ blocked_is ''0''),
      set_active ''Rules'' ''1'' (''Traffic<=Limitation and '' @ blocked_is ''0''),
      set_active ''Users'' ''0'' (blocked_is ''1''),
      set_active ''Rules'' ''0'' (blocked_is ''1'')]"

definition task_check_limit :: "time_t \<Rightarrow> 'w STORE_API option \<Rightarrow> 'w \<Rightarrow> gboolean \<times> 'w" where
  "task_check_limit now store w =
     (case store of
        None \<Rightarrow> (0, w)
      | Some api \<Rightarrow>
          (case sql_open api w of
             (None, w1) \<Rightarrow> (0, w1)
           | (Some sid, w1) \<Rightarrow>
               let w2 = exec_each api sid limit_stmts w1;
                   (_, w3) = save_timestamp now api sid ''date_last_check_limit'' w2
               in (1, sql_close api sid w3)))"

section \<open>Catching up\<close>

definition overdue_query :: "string \<Rightarrow> string \<Rightarrow> string" where
  "overdue_query name secs =
     ''select count(*) from System_Table where Name='' @ squote @ name @ squote @ '' and (UNIX_TIMESTAMP(NOW()) - Value)>'' @ secs"

text \<open>The three functions differ in the query and the job. \<open>ok\<close> is the allocation of the buffer.\<close>

definition check_correct :: "string \<Rightarrow> ('w STORE_API option \<Rightarrow> 'w \<Rightarrow> gboolean \<times> 'w) \<Rightarrow> bool \<Rightarrow> 'w STORE_API option \<Rightarrow> 'w \<Rightarrow> (int \<times> 'w) option" where
  "check_correct query task ok store w =
     (case store of
        None \<Rightarrow> Some (0, w)
      | Some api \<Rightarrow>
          (case sql_open api w of
             (None, w1) \<Rightarrow> Some (0, w1)
           | (Some sid, w1) \<Rightarrow>
               if \<not> ok then Some (0, sql_close api sid w1)
               else (case sql_query api sid query w1 of
                  (None, w2) \<Rightarrow> Some (1, sql_close api sid w2)
                | (Some [], w2) \<Rightarrow> None
                | (Some (row # _), w2) \<Rightarrow>
                    let w3 = (if atoi (col row 0) \<noteq> 0 then snd (task store w2) else w2)
                    in Some (1, sql_close api sid w3))))"

definition check_correct_day :: "(nat \<Rightarrow> time_t) \<Rightarrow> bool \<Rightarrow> 'w STORE_API option \<Rightarrow> 'w \<Rightarrow> (int \<times> 'w) option" where
  "check_correct_day clock ok store w =
     check_correct (overdue_query ''date_last_every_day'' ''86400'') (task_every_day clock) ok store w"

definition check_correct_week :: "(nat \<Rightarrow> time_t) \<Rightarrow> bool \<Rightarrow> 'w STORE_API option \<Rightarrow> 'w \<Rightarrow> (int \<times> 'w) option" where
  "check_correct_week clock ok store w =
     check_correct (overdue_query ''date_last_every_week'' ''604800'') (task_every_week clock) ok store w"

definition check_correct_month :: "(nat \<Rightarrow> time_t) \<Rightarrow> bool \<Rightarrow> 'w STORE_API option \<Rightarrow> 'w \<Rightarrow> (int \<times> 'w) option" where
  "check_correct_month clock ok store w =
     check_correct (overdue_query ''date_last_every_month'' ''2678400'') (task_every_month clock) ok store w"

section \<open>Transactions\<close>

definition timestamp_stmt :: "time_t \<Rightarrow> string \<Rightarrow> string" where
  "timestamp_stmt now name =
     ''replace into System_Table (Name, Value) values ('' @ squote @ name @ squote @ '', '' @ squote @ fmt_u (conv now :: 32 word) @ squote @ '')''"

definition tx_control :: "string \<Rightarrow> bool" where
  "tx_control s \<longleftrightarrow> s \<in> {''set autocommit=0'', ''start transaction'', ''commit'', ''rollback''}"

definition tx_journal :: "'w STORE_API \<Rightarrow> ('w \<Rightarrow> string list) \<Rightarrow> (SQL_SESSION \<Rightarrow> 'w \<Rightarrow> string list option) \<Rightarrow> bool" where
  "tx_journal api applied pend \<longleftrightarrow>
     (\<forall>w. applied (snd (sql_open api w)) = applied w) \<and> (\<forall>sid w. applied (sql_close api sid w) = applied w) \<and>
     (\<forall>sid w. applied (snd (sql_exec api sid ''set autocommit=0'' w)) = applied w) \<and>
     (\<forall>sid w. applied (snd (sql_exec api sid ''start transaction'' w)) = applied w) \<and>
     (\<forall>sid w. fst (sql_exec api sid ''start transaction'' w) \<longrightarrow> pend sid (snd (sql_exec api sid ''start transaction'' w)) = Some []) \<and>
     (\<forall>sid w. applied (snd (sql_exec api sid ''rollback'' w)) = applied w) \<and>
     (\<forall>sid w. applied (snd (sql_exec api sid ''commit'' w)) =
        (if fst (sql_exec api sid ''commit'' w) then applied w @ (case pend sid w of None \<Rightarrow> [] | Some p \<Rightarrow> p) else applied w)) \<and>
     (\<forall>sid s w p. \<not> tx_control s \<longrightarrow> pend sid w = Some p \<longrightarrow>
        applied (snd (sql_exec api sid s w)) = applied w \<and>
        pend sid (snd (sql_exec api sid s w)) = Some (if fst (sql_exec api sid s w) then p @ [s] else p))"

lemma tx_journal_control:
  assumes "tx_journal api applied pend"
  shows "applied (snd (sql_exec api sid ''set autocommit=0'' w)) = applied w"
    and "applied (snd (sql_exec api sid ''start transaction'' w)) = applied w"
    and "fst (sql_exec api sid ''start transaction'' w) \<Longrightarrow> pend sid (snd (sql_exec api sid ''start transaction'' w)) = Some []"
    and "applied (snd (sql_exec api sid ''rollback'' w)) = applied w"
    and "applied (snd (sql_exec api sid ''commit'' w)) =
      (if fst (sql_exec api sid ''commit'' w) then applied w @ (case pend sid w of None \<Rightarrow> [] | Some p \<Rightarrow> p) else applied w)"
    and "applied (snd (sql_open api w)) = applied w" and "applied (sql_close api sid w) = applied w"
  using assms unfolding tx_journal_def by blast+

lemma tx_journal_exec:
  assumes "tx_journal api applied pend" and "\<not> tx_control s" and "pend sid w = Some p" and "sql_exec api sid s w = (ok, w')"
  shows "applied w' = applied w \<and> pend sid w' = Some (if ok then p @ [s] else p)"
  using assms unfolding tx_journal_def by (metis fst_conv snd_conv)

lemma exec_all_pending:
  assumes tx: "tx_journal api applied pend"
  shows "\<forall>s \<in> set ss. \<not> tx_control s \<Longrightarrow> pend sid w = Some p \<Longrightarrow> exec_all api sid ss w = (ok, w') \<Longrightarrow>
    applied w' = applied w \<and> (ok \<longrightarrow> pend sid w' = Some (p @ ss))"
proof (induction ss arbitrary: w p)
  case (Cons s ss)
  obtain e w1 where e: "sql_exec api sid s w = (e, w1)" by fastforce
  have 1: "applied w1 = applied w \<and> pend sid w1 = Some (if e then p @ [s] else p)"
    by (rule tx_journal_exec [OF tx _ Cons.prems(2) e]) (use Cons.prems(1) in simp)
  show ?case
  proof (cases e)
    case True
    then show ?thesis using Cons.IH [of w1 "p @ [s]"] Cons.prems 1 e by auto
  next
    case False
    then show ?thesis using Cons.prems(3) 1 e by auto
  qed
qed simp

lemma save_timestamp_exec: "save_timestamp now api sid name w = (let (ok, w1) = sql_exec api sid (timestamp_stmt now name) w in (if ok then 1 else 0, w1))"
  by (simp add: save_timestamp_def timestamp_stmt_def)

lemma timestamp_not_control: "\<not> tx_control (timestamp_stmt now name)"
  by (simp add: tx_control_def timestamp_stmt_def)

lemma exec_all_reliable:
  assumes r: "\<forall>sid s w. fst (sql_exec api sid s w)"
  shows "fst (exec_all api sid ss w)"
proof (induction ss arbitrary: w)
  case (Cons s ss)
  then show ?case using r [rule_format, of sid s w] by (cases "sql_exec api sid s w") auto
qed simp

lemma tx_attempt_atomic:
  assumes tx: "tx_journal api applied pend" and ss: "\<forall>s \<in> set stmts. \<not> tx_control s"
    and a: "tx_attempt now api sid stmts name w = (ok, w')"
  shows "applied w' = applied w @ (if ok then stmts @ [timestamp_stmt now name] else [])"
proof -
  obtain e0 w0 where e0: "sql_exec api sid ''set autocommit=0'' w = (e0, w0)" by fastforce
  obtain e1 w1 where e1: "sql_exec api sid ''start transaction'' w0 = (e1, w1)" by fastforce
  obtain e2 w2 where e2: "exec_all api sid stmts w1 = (e2, w2)" by fastforce
  obtain e3 w3 where e3: "sql_exec api sid (timestamp_stmt now name) w2 = (e3, w3)" by fastforce
  obtain e4 w4 where e4: "sql_exec api sid ''commit'' w3 = (e4, w4)" by fastforce
  have 0: "applied w0 = applied w" "applied w1 = applied w0" "e1 \<Longrightarrow> pend sid w1 = Some []"
    using tx_journal_control(1) [OF tx, of sid w] tx_journal_control(2,3) [OF tx, of sid w0] e0 e1 by simp_all
  have 4: "applied w4 = (if e4 then applied w3 @ (case pend sid w3 of None \<Rightarrow> [] | Some p \<Rightarrow> p) else applied w3)"
    using tx_journal_control(5) [OF tx, of sid w3] e4 by simp
  have 2: "e1 \<Longrightarrow> applied w2 = applied w1 \<and> (e2 \<longrightarrow> pend sid w2 = Some stmts)"
    using exec_all_pending [OF tx ss 0(3) e2] by simp
  have 3: "e1 \<Longrightarrow> e2 \<Longrightarrow> applied w3 = applied w2 \<and> (e3 \<longrightarrow> pend sid w3 = Some (stmts @ [timestamp_stmt now name]))"
    using tx_journal_exec [OF tx timestamp_not_control _ e3] 2 by auto
  have "tx_attempt now api sid stmts name w =
      (if \<not> e0 then (False, w0) else if \<not> e1 then (False, w1) else if \<not> e2 then (False, w2) else if \<not> e3 then (False, w3) else (e4, w4))"
    by (simp add: tx_attempt_def e0 e1 e2 e3 e4 save_timestamp_exec)
  then have "(ok, w') = (if \<not> e0 then (False, w0) else if \<not> e1 then (False, w1) else if \<not> e2 then (False, w2) else if \<not> e3 then (False, w3) else (e4, w4))"
    using a by simp
  then show ?thesis using 0 2 3 4 by (cases e0; cases e1; cases e2; cases e3) simp_all
qed

lemma tx_attempt_reliable:
  assumes r: "\<forall>sid s w. fst (sql_exec api sid s w)"
  shows "fst (tx_attempt now api sid stmts name w)"
proof -
  let ?l = "''set autocommit=0'' # ''start transaction'' # stmts"
  obtain w1 where 1: "exec_all api sid ?l w = (True, w1)"
    using exec_all_reliable [OF r, of sid ?l w] by (cases "exec_all api sid ?l w") auto
  obtain w2 where 2: "sql_exec api sid (timestamp_stmt now name) w1 = (True, w2)"
    using r by (metis (full_types) prod.collapse)
  show ?thesis using 1 2 r unfolding tx_attempt_def by (simp del: exec_all.simps add: save_timestamp_exec)
qed

lemma tx_attempts_atomic:
  assumes tx: "tx_journal api applied pend" and ss: "\<forall>s \<in> set stmts. \<not> tx_control s"
  shows "tx_attempts n clock api sid stmts name w = (ok, w') \<Longrightarrow>
    (ok \<longrightarrow> (\<exists>k. 0 < k \<and> k \<le> n \<and> applied w' = applied w @ stmts @ [timestamp_stmt (clock k) name])) \<and> (\<not> ok \<longrightarrow> applied w' = applied w)"
proof (induction n arbitrary: w)
  case (Suc n)
  obtain e w1 where e: "tx_attempt (clock (Suc n)) api sid stmts name w = (e, w1)" by fastforce
  note 1 = tx_attempt_atomic [OF tx ss e]
  show ?case
  proof (cases e)
    case True
    then show ?thesis using Suc.prems e 1 by auto
  next
    case False
    let ?w2 = "snd (sql_exec api sid ''rollback'' w1)"
    have "applied ?w2 = applied w" using tx_journal_control(4) [OF tx, of sid w1] 1 False by simp
    then show ?thesis using Suc.IH [of ?w2] Suc.prems e False by (auto intro: le_SucI)
  qed
qed simp

lemma tx_task_atomic:
  assumes tx: "tx_journal api applied pend" and ss: "\<forall>s \<in> set stmts. \<not> tx_control s" and op: "fst (sql_open api w) \<noteq> None"
  shows "\<exists>r w'. tx_task clock (Some api) stmts name w = (r, w') \<and> r \<in> {0, 1} \<and> (r = 0 \<longrightarrow> applied w' = applied w) \<and>
           (r = 1 \<longrightarrow> (\<exists>k. 0 < k \<and> k \<le> 4 \<and> applied w' = applied w @ stmts @ [timestamp_stmt (clock k) name])) \<and>
           ((\<forall>sid s w. fst (sql_exec api sid s w)) \<longrightarrow> r = 1)"
proof -
  obtain sid w1 where o1: "sql_open api w = (Some sid, w1)" using op by (cases "sql_open api w") auto
  have w1: "applied w1 = applied w" using tx_journal_control(6) [OF tx, of w] o1 by simp
  have cl: "applied (sql_close api sid x) = applied x" for x by (rule tx_journal_control(7) [OF tx])
  obtain e w2 where e: "tx_attempts 4 clock api sid stmts name w1 = (e, w2)" by fastforce
  have rel: "(\<forall>sid s w. fst (sql_exec api sid s w)) \<Longrightarrow> e"
    using e tx_attempt_reliable [of api "clock 4" sid stmts name w1]
    by (cases "tx_attempt (clock 4) api sid stmts name w1") (auto simp: numeral_eq_Suc)
  show ?thesis
    using tx_attempts_atomic [OF tx ss e] o1 e w1 cl rel by (cases e) (auto simp: tx_task_def)
qed

lemma tx_stmts: "\<forall>s \<in> set day_stmts. \<not> tx_control s" "\<forall>s \<in> set week_stmts. \<not> tx_control s" "\<forall>s \<in> set month_stmts. \<not> tx_control s"
  by (simp_all add: day_stmts_def week_stmts_def month_stmts_def tx_control_def)

section \<open>What the limit statements do\<close>

text \<open>The columns of a row of \<^verbatim>\<open>Users\<close> or \<^verbatim>\<open>Rules\<close> that the statements read or write.\<close>

record limit_row =
  lr_type :: int
  lr_limitation :: int
  lr_traffic :: int
  lr_balance :: rat
  lr_active :: bool
  lr_blocked :: bool

definition set_where :: "bool \<Rightarrow> (limit_row \<Rightarrow> bool) \<Rightarrow> limit_row \<Rightarrow> limit_row" where
  "set_where v P r = (if P r then r\<lparr>lr_active := v\<rparr> else r)"

text \<open>The effect of each statement on the rows of the two tables.\<close>

definition limit_effects :: "((limit_row \<Rightarrow> limit_row) \<times> (limit_row \<Rightarrow> limit_row)) list" where
  "limit_effects =
     [(set_where True (\<lambda>r. (lr_type r \<ge> 0 \<and> lr_type r \<le> 3) \<and> lr_limitation r = -1 \<and> \<not> lr_blocked r), id),
      (set_where False (\<lambda>r. (lr_type r \<ge> 0 \<and> lr_type r \<le> 3) \<and> lr_traffic r > lr_limitation r \<and> lr_limitation r \<noteq> -1 \<and> \<not> lr_blocked r), id),
      (set_where True (\<lambda>r. (lr_type r \<ge> 0 \<and> lr_type r \<le> 3) \<and> lr_traffic r \<le> lr_limitation r \<and> \<not> lr_blocked r), id),
      (set_where False (\<lambda>r. lr_type r = 4 \<and> lr_balance r < 0 \<and> \<not> lr_blocked r), id),
      (set_where True (\<lambda>r. lr_type r = 4 \<and> lr_balance r \<ge> 0 \<and> \<not> lr_blocked r), id),
      (id, set_where True (\<lambda>r. lr_limitation r = -1 \<and> \<not> lr_blocked r)),
      (id, set_where False (\<lambda>r. lr_traffic r > lr_limitation r \<and> lr_limitation r \<noteq> -1 \<and> \<not> lr_blocked r)),
      (id, set_where True (\<lambda>r. lr_traffic r \<le> lr_limitation r \<and> \<not> lr_blocked r)),
      (set_where False lr_blocked, id),
      (id, set_where False lr_blocked)]"

definition limit_rows :: "'w STORE_API \<Rightarrow> ('w \<Rightarrow> limit_row list \<times> limit_row list) \<Rightarrow> bool" where
  "limit_rows api rows \<longleftrightarrow>
     (\<forall>w. rows (snd (sql_open api w)) = rows w) \<and> (\<forall>sid w. rows (sql_close api sid w) = rows w) \<and>
     (\<forall>now sid w. rows (snd (sql_exec api sid (timestamp_stmt now ''date_last_check_limit'') w)) = rows w) \<and>
     (\<forall>(s, fu, fr) \<in> set (zip limit_stmts limit_effects). \<forall>sid w.
        fst (sql_exec api sid s w) \<longrightarrow> rows (snd (sql_exec api sid s w)) = (map fu (fst (rows w)), map fr (snd (rows w))))"

definition within_limit :: "limit_row \<Rightarrow> bool" where
  "within_limit r \<longleftrightarrow> lr_limitation r = -1 \<or> lr_traffic r \<le> lr_limitation r"

definition enforced_user :: "limit_row \<Rightarrow> limit_row" where
  "enforced_user r = r\<lparr>lr_active :=
     (\<not> lr_blocked r \<and> (if 0 \<le> lr_type r \<and> lr_type r \<le> 3 then within_limit r
                         else if lr_type r = 4 then lr_balance r \<ge> 0 else lr_active r))\<rparr>"

definition enforced_rule :: "limit_row \<Rightarrow> limit_row" where
  "enforced_rule r = r\<lparr>lr_active := (\<not> lr_blocked r \<and> within_limit r)\<rparr>"

lemma exec_each_rows:
  assumes "\<And>s fu fr w. (s, fu, fr) \<in> set (zip ss es) \<Longrightarrow> rows (snd (sql_exec api sid s w)) = (map fu (fst (rows w)), map fr (snd (rows w)))"
    and "length ss = length es"
  shows "rows (exec_each api sid ss w) = (map (fold fst es) (fst (rows w)), map (fold snd es) (snd (rows w)))"
  using assms(2,1)
proof (induction ss es arbitrary: w rule: list_induct2)
  case (Cons s ss e es)
  obtain fu fr where e: "e = (fu, fr)" by (cases e)
  let ?w1 = "snd (sql_exec api sid s w)"
  have 1: "rows ?w1 = (map fu (fst (rows w)), map fr (snd (rows w)))" by (rule Cons.prems) (simp add: e)
  have 2: "rows (exec_each api sid ss ?w1) = (map (fold fst es) (fst (rows ?w1)), map (fold snd es) (snd (rows ?w1)))"
    by (rule Cons.IH) (rule Cons.prems, simp)
  have "exec_each api sid (s # ss) w = exec_each api sid ss ?w1" by (simp add: exec_each_def)
  then show ?case unfolding e by (simp add: 1 2 comp_def)
qed (simp add: exec_each_def)

lemma set_where_simps [simp]:
  "lr_type (set_where v P r) = lr_type r" "lr_limitation (set_where v P r) = lr_limitation r"
  "lr_traffic (set_where v P r) = lr_traffic r" "lr_balance (set_where v P r) = lr_balance r"
  "lr_blocked (set_where v P r) = lr_blocked r" "lr_active (set_where v P r) = (if P r then v else lr_active r)"
  by (simp_all add: set_where_def)

lemma limit_effects_user: "fold fst limit_effects r = enforced_user r"
proof (rule limit_row.equality)
  show "lr_active (fold fst limit_effects r) = lr_active (enforced_user r)"
    by (simp add: limit_effects_def enforced_user_def within_limit_def) blast
qed (simp_all add: limit_effects_def enforced_user_def)

lemma limit_effects_rule: "fold snd limit_effects r = enforced_rule r"
proof (rule limit_row.equality)
  show "lr_active (fold snd limit_effects r) = lr_active (enforced_rule r)"
    by (simp add: limit_effects_def enforced_rule_def within_limit_def)
qed (simp_all add: limit_effects_def enforced_rule_def)

lemma limit_lengths: "length limit_stmts = length limit_effects"
  by (simp add: limit_stmts_def limit_effects_def)

text \<open>A database that knows these statements, and one that keeps transactions.\<close>

definition limit_db_api :: "(limit_row list \<times> limit_row list) STORE_API" where
  "limit_db_api =
     \<lparr>sql_open = (\<lambda>w. (Some 1, w)), sql_close = (\<lambda>sid w. w),
      sql_exec = (\<lambda>sid s w. (True, case map_of (zip limit_stmts limit_effects) s of None \<Rightarrow> w | Some (fu, fr) \<Rightarrow> (map fu (fst w), map fr (snd w)))),
      sql_query = (\<lambda>sid s w. (Some [], w)), sql_list_tables = (\<lambda>sid s w. (Some [], w))\<rparr>"

lemma limit_stmts_distinct: "distinct limit_stmts"
  by (simp add: limit_stmts_def set_active_def blocked_is_def squote_def)

lemma timestamp_not_limit: "timestamp_stmt now name \<notin> set limit_stmts"
  by (simp add: limit_stmts_def set_active_def timestamp_stmt_def)

lemma limit_rows_db: "limit_rows limit_db_api (\<lambda>w. w)"
proof -
  have z: "map_of (zip limit_stmts limit_effects) s = Some e" if "(s, e) \<in> set (zip limit_stmts limit_effects)" for s e
    using that limit_stmts_distinct limit_lengths by (simp add: map_of_eq_Some_iff)
  have t: "map_of (zip limit_stmts limit_effects) (timestamp_stmt now name) = None" for now name
    using timestamp_not_limit [of now name] by (auto simp: map_of_eq_None_iff dest: set_zip_leftD)
  show ?thesis by (auto simp: limit_rows_def limit_db_api_def t dest!: z)
qed

record tx_db =
  db_applied :: "string list"
  db_pend :: "string list option"
  db_refuse :: nat

definition tx_db_exec :: "SQL_SESSION \<Rightarrow> string \<Rightarrow> tx_db \<Rightarrow> bool \<times> tx_db" where
  "tx_db_exec sid s w =
     (if s = ''rollback'' then (True, w\<lparr>db_pend := None\<rparr>)
      else if db_refuse w \<noteq> 0 then (False, w\<lparr>db_refuse := db_refuse w - 1\<rparr>)
      else if s = ''set autocommit=0'' then (True, w)
      else if s = ''start transaction'' then (True, w\<lparr>db_pend := Some []\<rparr>)
      else if s = ''commit'' then (True, w\<lparr>db_applied := db_applied w @ (case db_pend w of None \<Rightarrow> [] | Some p \<Rightarrow> p), db_pend := None\<rparr>)
      else (True, w\<lparr>db_pend := map_option (\<lambda>p. p @ [s]) (db_pend w)\<rparr>))"

definition tx_db_api :: "tx_db STORE_API" where
  "tx_db_api = \<lparr>sql_open = (\<lambda>w. (Some 1, w)), sql_close = (\<lambda>sid w. w), sql_exec = tx_db_exec,
     sql_query = (\<lambda>sid s w. (Some [], w)), sql_list_tables = (\<lambda>sid s w. (Some [], w))\<rparr>"

lemma tx_db_journal: "tx_journal tx_db_api db_applied (\<lambda>sid. db_pend)"
  by (auto simp: tx_journal_def tx_db_api_def tx_db_exec_def tx_control_def)

section \<open>Properties\<close>





text \<open>Counting the statements a database has been sent.\<close>

definition counts :: "'w STORE_API \<Rightarrow> ('w \<Rightarrow> nat) \<Rightarrow> bool" where
  "counts api sent \<longleftrightarrow> (\<forall>w. sent (snd (sql_open api w)) = sent w) \<and> (\<forall>sid w. sent (sql_close api sid w) = sent w) \<and>
     (\<forall>sid s w. sent (snd (sql_exec api sid s w)) = sent w + 1)"

lemma counts_exec: "counts api sent \<Longrightarrow> sql_exec api sid s w = (ok, w1) \<Longrightarrow> sent w1 = sent w + 1"
  unfolding counts_def by (metis snd_conv)

lemma exec_all_counts:
  assumes c: "counts api sent"
  shows "exec_all api sid ss w = (ok, w1) \<Longrightarrow> sent w1 \<le> sent w + length ss"
proof (induction ss arbitrary: w)
  case (Cons s ss)
  obtain e w2 where e: "sql_exec api sid s w = (e, w2)" by (rule prod.exhaust)
  show ?case using Cons.IH [of w2] Cons.prems e counts_exec [OF c e] by (cases e) auto
qed simp

lemma tx_attempt_counts:
  assumes c: "counts api sent" and a: "tx_attempt now api sid stmts name w = (ok, w1)"
  shows "sent w1 \<le> sent w + length stmts + 4"
proof -
  obtain e1 w2 where e1: "exec_all api sid (''set autocommit=0'' # ''start transaction'' # stmts) w = (e1, w2)" by (rule prod.exhaust)
  obtain e2 w3 where e2: "sql_exec api sid (timestamp_stmt now name) w2 = (e2, w3)" by (rule prod.exhaust)
  obtain e3 w4 where e3: "sql_exec api sid ''commit'' w3 = (e3, w4)" by (rule prod.exhaust)
  have "sent w2 \<le> sent w + (length stmts + 2)" using exec_all_counts [OF c e1] by simp
  moreover have "w1 = (if \<not> e1 then w2 else if \<not> e2 then w3 else w4)"
    using a e1 e2 e3 by (cases e1; cases e2) (simp_all add: tx_attempt_def save_timestamp_exec del: exec_all.simps)
  ultimately show ?thesis using counts_exec [OF c e2] counts_exec [OF c e3] by (simp split: if_splits)
qed

lemma tx_attempts_counts:
  assumes c: "counts api sent"
  shows "tx_attempts n clock api sid stmts name w = (ok, w1) \<Longrightarrow> sent w1 \<le> sent w + n * (length stmts + 5)"
proof (induction n arbitrary: w)
  case (Suc n)
  obtain e w2 where e: "tx_attempt (clock (Suc n)) api sid stmts name w = (e, w2)" by (rule prod.exhaust)
  obtain r w3 where r: "sql_exec api sid ''rollback'' w2 = (r, w3)" by (rule prod.exhaust)
  show ?case
    using Suc.IH [of w3] Suc.prems e r tx_attempt_counts [OF c e] counts_exec [OF c r] by (cases e) auto
qed simp

text \<open>
  C37 (end of a job). A daily job gives up after four attempts: even on a database that refuses every statement it returns, and it has
  sent at most 48 statements.
\<close>

theorem task_every_day_ends:
  assumes "counts api sent"
  shows "\<exists>r w'. task_every_day clock (Some api) w = (r, w') \<and> sent w' \<le> sent w + 48"
proof -
  obtain s w1 where o: "sql_open api w = (s, w1)" by (rule prod.exhaust)
  have w1: "sent w1 = sent w" using assms o unfolding counts_def by (metis snd_conv)
  have close: "sent (sql_close api sid v) = sent v" for sid v using assms by (simp add: counts_def)
  show ?thesis
  proof (cases s)
    case None
    then show ?thesis using o w1 by (simp add: task_every_day_def tx_task_def)
  next
    case (Some sid)
    obtain ok w2 where t: "tx_attempts 4 clock api sid day_stmts ''date_last_every_day'' w1 = (ok, w2)" by (rule prod.exhaust)
    have "length day_stmts = 7" by (simp add: day_stmts_def)
    then have "sent w2 \<le> sent w1 + 48" using tx_attempts_counts [OF assms t] by simp
    then show ?thesis using o Some t w1 close by (cases ok) (simp_all add: task_every_day_def tx_task_def)
  qed
qed

definition refusing_api :: "nat STORE_API" where
  "refusing_api = \<lparr>sql_open = (\<lambda>w. (Some 1, w)), sql_close = (\<lambda>sid w. w), sql_exec = (\<lambda>sid s w. (False, w + 1)),
     sql_query = (\<lambda>sid s w. (None, w)), sql_list_tables = (\<lambda>sid s w. (None, w))\<rparr>"

theorem task_every_day_ends_witness:
  "\<exists>r w'. task_every_day (\<lambda>k. 0) (Some refusing_api) 0 = (r, w') \<and> w' \<le> (48 :: nat)"
  using task_every_day_ends [of refusing_api "\<lambda>w. w" "\<lambda>k. 0" 0] by (simp add: counts_def refusing_api_def)

end
