(* ===== verification/Traffic_Limits.thy ===== *)
theory Traffic_Limits
  imports Mirror Tables Tasks
begin

text \<open>
  What the two modules for traffic limits share (\<^verbatim>\<open>ipstat_system_group_limit/main.c\<close> for a user and a
  group of traffic, \<^verbatim>\<open>ipstat_system_users_group_limit/main.c\<close> for a group of users). Their sources differ in the
  key a limit applies to and in the table; the functions here are the common bodies, over every extension of the record
  \<open>NODE_LIMIT\<close>. Both modules mirror their table (\<open>Mirror\<close>), but mark all nodes before and delete the
  unconfirmed ones after the pass, instead of comparing times.

  The locale \<open>limit_hooks\<close> is the contract of the two hooks; \<open>enforced\<close> shows that accounting and
  authorization together implement a limit.
\<close>

record NODE_LIMIT =
  nl_id :: IP_id
  nl_id_group :: IP_id
  nl_type :: IP_id
  nl_limitation :: IP_bigsize
  nl_traffic :: IP_bigsize
  nl_alpha :: IP_bigsize
  nl_onblocked :: IP_flag
  nl_status :: IP_flag
  nl_md5 :: string

section \<open>Limits\<close>

definition limit_active :: "'a NODE_LIMIT_scheme \<Rightarrow> int" where
  "limit_active node =
     (if nl_onblocked node \<noteq> 0 then 0
      else if nl_limitation node \<noteq> -1 then (if nl_traffic node \<ge> nl_limitation node then 0 else 1)
      else 1)"

text \<open>The body of the hooks, on the node that was found.\<close>

definition limit_autz :: "nat option \<Rightarrow> 'a NODE_LIMIT_scheme list \<Rightarrow> gboolean" where
  "limit_autz found l = (case found of None \<Rightarrow> 1 | Some k \<Rightarrow> if limit_active (l ! k) \<noteq> 0 then 1 else 0)"

definition limit_add :: "IP_size \<Rightarrow> 'a NODE_LIMIT_scheme \<Rightarrow> 'a NODE_LIMIT_scheme" where
  "limit_add len node = node\<lparr>nl_traffic := nl_traffic node + ucast len, nl_alpha := nl_alpha node + ucast len\<rparr>"

definition limit_acct :: "nat option \<Rightarrow> IP_size \<Rightarrow> 'a NODE_LIMIT_scheme list \<Rightarrow> 'a NODE_LIMIT_scheme list" where
  "limit_acct found len l = (case found of None \<Rightarrow> l | Some k \<Rightarrow> l[k := limit_add len (l ! k)])"

definition traverse_check :: "IP_id \<Rightarrow> 'a NODE_LIMIT_scheme \<Rightarrow> 'a NODE_LIMIT_scheme" where
  "traverse_check type node = (if nl_type node = type then node\<lparr>nl_traffic := 0\<rparr> else node)"

definition traverse_mark :: "'a NODE_LIMIT_scheme \<Rightarrow> 'a NODE_LIMIT_scheme" where
  "traverse_mark node = node\<lparr>nl_status := 1\<rparr>"

definition mark_delete :: "'a NODE_LIMIT_scheme list \<Rightarrow> 'a NODE_LIMIT_scheme list" where
  "mark_delete l = map traverse_mark l"

definition compare_limit :: "'a NODE_LIMIT_scheme \<Rightarrow> 'a NODE_LIMIT_scheme \<Rightarrow> int" where
  "compare_limit a b = compare_id (nl_id a) (nl_id b)"

definition find_limit :: "IP_id \<Rightarrow> 'a NODE_LIMIT_scheme list \<Rightarrow> nat option" where
  "find_limit i l = mirror_find nl_id i l"

definition delete_limit :: "IP_id \<Rightarrow> 'a NODE_LIMIT_scheme list \<Rightarrow> gboolean \<times> 'a NODE_LIMIT_scheme list" where
  "delete_limit i l = mirror_delete nl_id i l"

definition limits_delete :: "'a NODE_LIMIT_scheme list \<Rightarrow> 'a NODE_LIMIT_scheme list" where
  "limits_delete l = delete_if nl_id (\<lambda>n. nl_status n = 1) l"

section \<open>Synchronisation\<close>

definition traffic_stmt :: "string \<Rightarrow> 'a NODE_LIMIT_scheme \<Rightarrow> string" where
  "traffic_stmt tab node =
     ''update '' @ tab @ '' SET Traffic='' @ fmt_u (nl_traffic node) @ '', TDay=TDay+'' @ fmt_u (ucast (nl_alpha node) :: 32 word) @
     '', TMonth=TMonth+'' @ fmt_u (ucast (nl_alpha node) :: 32 word) @ '', onActive='' @ squote @ fmt_int (limit_active node) @ squote @
     '' where id='' @ fmt_d (nl_id node)"

fun traffic_loop :: "string \<Rightarrow> 'w STORE_API \<Rightarrow> SQL_SESSION \<Rightarrow> 'a NODE_LIMIT_scheme list \<Rightarrow> 'w \<Rightarrow> 'a NODE_LIMIT_scheme list \<times> 'w" where
  "traffic_loop tab api sid [] w = ([], w)"
| "traffic_loop tab api sid (node # ns) w =
     (let (ok, w1) = sql_exec api sid (traffic_stmt tab node) w;
          cleared = node\<lparr>nl_alpha := 0\<rparr>;
          node' = (if ok then cleared else cleared\<lparr>nl_alpha := nl_alpha cleared + nl_alpha node\<rparr>);
          (ns', w2) = traffic_loop tab api sid ns w1
      in (node' # ns', w2))"

definition limit_sync_traffic ::
  "string \<Rightarrow> 'w STORE_API option \<Rightarrow> 'a NODE_LIMIT_scheme list \<Rightarrow> 'w \<Rightarrow> gboolean \<times> 'a NODE_LIMIT_scheme list \<times> 'w" where
  "limit_sync_traffic tab store l w =
     (case store of
        None \<Rightarrow> (0, l, w)
      | Some api \<Rightarrow>
          (case sql_open api w of
             (None, w1) \<Rightarrow> (1, l, w1)
           | (Some sid, w1) \<Rightarrow> (case traffic_loop tab api sid l w1 of (l1, w2) \<Rightarrow> (1, l1, sql_close api sid w2))))"

definition limit_sync ::
  "'a NODE_LIMIT_scheme mirror \<Rightarrow> string \<Rightarrow> (nat \<Rightarrow> bool \<times> bool) \<Rightarrow> 'w STORE_API option \<Rightarrow> 'a NODE_LIMIT_scheme list \<Rightarrow> 'w \<Rightarrow>
   (gboolean \<times> 'a NODE_LIMIT_scheme list \<times> 'w) option" where
  "limit_sync M tab mem store l w =
     (case store of
        None \<Rightarrow> Some (0, l, w)
      | Some api \<Rightarrow>
          (case sql_open api w of
             (None, w1) \<Rightarrow> Some (1, l, w1)
           | (Some sid, w1) \<Rightarrow>
               (case sql_query api sid (mr_list_query M) w1 of
                  (None, w2) \<Rightarrow> Some (0, l, sql_close api sid w2)
                | (Some rows, w2) \<Rightarrow> do {
                    (l1, w3) \<leftarrow> sync_rows M mem 0 0 store rows (mark_delete l) w2;
                    (_, l2, w4) \<leftarrow> Some (limit_sync_traffic tab store (limits_delete l1) (sql_close api sid w3));
                    Some (1, l2, w4)
                  })))"

text \<open>The node is confirmed before it is reloaded; reloading leaves the mark alone.\<close>

definition confirm :: "time_t \<Rightarrow> 'a NODE_LIMIT_scheme \<Rightarrow> 'a NODE_LIMIT_scheme" where
  "confirm now node = node\<lparr>nl_status := 0\<rparr>"

section \<open>Periodic jobs\<close>

definition limit_task ::
  "IP_id \<Rightarrow> string list \<Rightarrow> string \<Rightarrow> (nat \<Rightarrow> time_t) \<Rightarrow> 'w STORE_API option \<Rightarrow> 'a NODE_LIMIT_scheme list \<Rightarrow> 'w \<Rightarrow> gboolean \<times> 'a NODE_LIMIT_scheme list \<times> 'w" where
  "limit_task type stmts name clock store l w =
     (case store of
        None \<Rightarrow> (0, l, w)
      | Some api \<Rightarrow> (case tx_task clock store stmts name w of (r, w1) \<Rightarrow> (r, map (traverse_check type) l, w1)))"

section \<open>The pass over the table\<close>

lemma traffic_loop_fields:
  "map (\<lambda>n. n\<lparr>nl_alpha := 0\<rparr>) (fst (traffic_loop tab api sid l w)) = map (\<lambda>n. n\<lparr>nl_alpha := 0\<rparr>) l"
proof (induction l arbitrary: w)
  case (Cons n l)
  then show ?case by (simp add: Let_def case_prod_beta)
qed simp

text \<open>What the limits of both modules have in common with every extension: the key and the mark are kept apart.\<close>

locale limit_mirror = mirror_digest M fits load_md5 upd_md5
  for M :: "'a NODE_LIMIT_scheme mirror" and fits load_md5 upd_md5 +
  assumes sel: "mr_key M = nl_id" "mr_md5 M = nl_md5" "mr_touch M = confirm"
    and load_ok: "mr_load M i now row \<noteq> None" "mr_load M i now row = Some n \<Longrightarrow> nl_status n = 0"
    and update_keeps: "nl_status (snd (mr_update M now row n)) = nl_status n" "nl_traffic (snd (mr_update M now row n)) = nl_traffic n"
begin

lemma refresh_status:
  assumes "nl_status n = 1"
  shows "nl_status (refresh M answer now rows n) = (if nl_id n \<in> row_id ` set rows then 0 else 1)"
proof (cases "find (\<lambda>row. row_id row = nl_id n) rows")
  case None
  then have "nl_id n \<notin> row_id ` set rows" by (auto simp: find_None_iff)
  then show ?thesis using None assms by (simp add: refresh_def sel)
next
  case (Some row)
  then have "nl_id n \<in> row_id ` set rows" by (force dest: find_SomeD)
  then show ?thesis using Some by (simp add: refresh_def refreshed_def sel confirm_def)
qed

lemma refresh_traffic: "nl_traffic (refresh M answer now rows n) = nl_traffic n"
  by (simp add: refresh_def refreshed_def sel confirm_def update_keeps split: option.splits)

lemma kept_ids:
  assumes l: "listing fits M answer rows"
  shows "nl_id ` set (filter (\<lambda>n. nl_status n \<noteq> 1) (mirrored M answer now rows (mark_delete l))) = row_id ` set rows" (is "nl_id ` set ?kept = _")
proof -
  let ?new = "filter (\<lambda>row. row_id row \<notin> mr_key M ` set (mark_delete l)) rows"
  have marked: "nl_status m = 1" if "m \<in> set (mark_delete l)" for m using that by (auto simp: mark_delete_def traverse_mark_def)
  have "nl_id n \<in> row_id ` set rows" if n: "n \<in> set ?kept" for n
  proof (cases "n \<in> set (fresh M answer now ?new)")
    case True
    then have "mr_key M n \<in> row_id ` set ?new" by (rule key_fresh [OF listing_filter [OF l]])
    then show ?thesis by (auto simp: sel)
  next
    case False
    then obtain m where m: "m \<in> set (mark_delete l)" "n = refresh M answer now rows m" using n by (auto simp: mirrored_def)
    then show ?thesis using n refresh_status [OF marked [OF m(1)], of answer now rows] key_refresh [OF l, of now m] by (auto simp: sel split: if_splits)
  qed
  moreover have "row_id row \<in> nl_id ` set ?kept" if r: "row \<in> set rows" for row
  proof (cases "row_id row \<in> mr_key M ` set (mark_delete l)")
    case True
    then obtain m where m: "m \<in> set (mark_delete l)" "nl_id m = row_id row" by (auto simp: sel)
    then have "nl_status (refresh M answer now rows m) = 0" using refresh_status [OF marked [OF m(1)]] r by auto
    moreover have "nl_id (refresh M answer now rows m) = row_id row" using key_refresh [OF l] m(2) by (simp add: sel)
    ultimately show ?thesis using m(1) by (force simp: mirrored_def)
  next
    case False
    obtain n where n: "mr_load M (row_id row) now (hd (answer (mr_load_query M (row_id row)))) = Some n"
      using load_ok(1) by blast
    then have "nl_id n = row_id row" "nl_status n = 0" using key_load [OF _ n] load_ok(2) [OF n] l r by (auto simp: listing_def sel)
    moreover have "n \<in> set (fresh M answer now ?new)" using False n r by (force simp: fresh_def)
    ultimately show ?thesis by (force simp: mirrored_def)
  qed
  ultimately show ?thesis by blast
qed

lemma mirrored_traffic:
  assumes l: "listing fits M answer rows" and d: "distinct (map nl_id l)" and n: "n \<in> set l"
    and m: "m \<in> set (mirrored M answer now rows (mark_delete l))" "nl_id m = nl_id n"
  shows "nl_traffic m = nl_traffic n"
proof -
  have ids: "nl_id ` set (mark_delete l) = nl_id ` set l" by (simp add: mark_delete_def traverse_mark_def image_image)
  have "m \<notin> set (fresh M answer now (filter (\<lambda>row. row_id row \<notin> mr_key M ` set (mark_delete l)) rows))"
  proof
    assume "m \<in> set (fresh M answer now (filter (\<lambda>row. row_id row \<notin> mr_key M ` set (mark_delete l)) rows))"
    then have "mr_key M m \<in> row_id ` set (filter (\<lambda>row. row_id row \<notin> mr_key M ` set (mark_delete l)) rows)"
      by (rule key_fresh [OF listing_filter [OF l]])
    then obtain x where "nl_id n = row_id x" "row_id x \<notin> nl_id ` set l" using m(2) ids by (auto simp only: sel set_filter)
    then show False using n by (metis image_eqI)
  qed
  then obtain k where k: "k \<in> set l" "m = refresh M answer now rows (traverse_mark k)"
    using m(1) by (auto simp: mirrored_def mark_delete_def)
  then have "nl_id k = nl_id n" using m(2) key_refresh [OF l, of now "traverse_mark k"] by (simp add: sel traverse_mark_def)
  then have "k = n" using d k(1) n by (auto simp: distinct_map inj_on_def)
  then show ?thesis using k(2) by (simp add: refresh_traffic traverse_mark_def)
qed

lemma sync_mirrors:
  assumes a: "answers api answer" and mem: "\<forall>i. mem i = (True, True)"
    and l: "listing fits M answer (answer (mr_list_query M))" and d: "distinct (map nl_id l)"
  shows "\<exists>l' w'. limit_sync M tab mem (Some api) l w = Some (1, l', w') \<and> distinct (map nl_id l') \<and>
    nl_id ` set l' = row_id ` set (answer (mr_list_query M)) \<and>
    map (\<lambda>n. n\<lparr>nl_alpha := 0\<rparr>) l' =
      map (\<lambda>n. n\<lparr>nl_alpha := 0\<rparr>) (filter (\<lambda>n. nl_status n \<noteq> 1) (mirrored M answer 0 (answer (mr_list_query M)) (mark_delete l)))"
proof -
  let ?rows = "answer (mr_list_query M)"
  let ?m = "mirrored M answer 0 ?rows (mark_delete l)"
  let ?kept = "filter (\<lambda>n. nl_status n \<noteq> 1) ?m"
  have dm: "distinct (map (mr_key M) (mark_delete l))" using d by (simp add: mark_delete_def traverse_mark_def sel comp_def)
  obtain sid w1 where o: "sql_open api w = (Some sid, w1)" using a by (cases "sql_open api w") (auto simp: answers_def, metis fst_conv)
  obtain w2 where q: "sql_query api sid (mr_list_query M) w1 = (Some ?rows, w2)" using a by (metis answers_def prod.collapse)
  obtain w3 where s: "sync_rows M mem 0 0 (Some api) ?rows (mark_delete l) w2 = Some (?m, w3)"
    using sync_rows_reference [OF a mem l dm] by blast
  have distm: "distinct (map nl_id ?m)" using distinct_mirrored [OF l dm] by (simp add: sel)
  then have del: "limits_delete ?m = ?kept" by (simp add: limits_delete_def delete_if_filter)
  obtain sid2 w5 where o2: "sql_open api (sql_close api sid w3) = (Some sid2, w5)"
    using a by (cases "sql_open api (sql_close api sid w3)") (auto simp: answers_def, metis fst_conv)
  obtain l' w6 where t: "traffic_loop tab api sid2 ?kept w5 = (l', w6)" by (rule prod.exhaust)
  have z: "map (\<lambda>n. n\<lparr>nl_alpha := 0\<rparr>) l' = map (\<lambda>n. n\<lparr>nl_alpha := 0\<rparr>) ?kept"
    using traffic_loop_fields [of tab api sid2 ?kept w5] t by simp
  have ids: "map nl_id l' = map nl_id ?kept" using arg_cong [OF z, of "map nl_id"] by (simp add: comp_def)
  have "limit_sync M tab mem (Some api) l w = Some (1, l', sql_close api sid2 w6)"
    using o q s del o2 t by (simp add: limit_sync_def limit_sync_traffic_def)
  moreover have "distinct (map nl_id l')" using distm by (simp add: ids distinct_map_filter)
  moreover have "nl_id ` set ?kept = row_id ` set ?rows" by (rule kept_ids [OF l])
  then have "nl_id ` set l' = row_id ` set ?rows" using ids by (metis set_map)
  ultimately show ?thesis using z by blast
qed

lemma sync_agrees:
  assumes a: "answers api answer" and mem: "\<forall>i. mem i = (True, True)"
    and l: "listing fits M answer (answer (mr_list_query M))" and c: "consistent load_md5 upd_md5 M answer (answer (mr_list_query M))"
    and d: "distinct (map nl_id l)"
  shows "\<exists>l' w'. limit_sync M tab mem (Some api) l w = Some (1, l', w') \<and> distinct (map nl_id l') \<and>
    nl_id ` set l' = row_id ` set (answer (mr_list_query M)) \<and>
    (\<forall>n row. n \<in> set l' \<and> row \<in> set (answer (mr_list_query M)) \<and> nl_id n = row_id row \<longrightarrow> take 32 (nl_md5 n) = digest (col row 1)) \<and>
    (\<forall>n n'. n \<in> set l \<and> n' \<in> set l' \<and> nl_id n = nl_id n' \<longrightarrow> nl_traffic n = nl_traffic n')"
proof -
  let ?rows = "answer (mr_list_query M)"
  let ?m = "mirrored M answer 0 ?rows (mark_delete l)"
  obtain l' w' where s: "limit_sync M tab mem (Some api) l w = Some (1, l', w')" "distinct (map nl_id l')" "nl_id ` set l' = row_id ` set ?rows"
      and z: "map (\<lambda>n. n\<lparr>nl_alpha := 0\<rparr>) l' = map (\<lambda>n. n\<lparr>nl_alpha := 0\<rparr>) (filter (\<lambda>n. nl_status n \<noteq> 1) ?m)"
    using sync_mirrors [OF a mem l d] by blast
  have from_m: "\<exists>m \<in> set ?m. nl_id m = nl_id n \<and> nl_md5 m = nl_md5 n \<and> nl_traffic m = nl_traffic n" if "n \<in> set l'" for n
  proof -
    have "n\<lparr>nl_alpha := 0\<rparr> \<in> set (map (\<lambda>n. n\<lparr>nl_alpha := 0\<rparr>) (filter (\<lambda>n. nl_status n \<noteq> 1) ?m))" using that z by (metis image_eqI set_map)
    then obtain m where m: "m \<in> set ?m" "n\<lparr>nl_alpha := 0\<rparr> = m\<lparr>nl_alpha := 0\<rparr>" by auto
    show ?thesis
      using m(1) arg_cong [OF m(2), of nl_id] arg_cong [OF m(2), of nl_md5] arg_cong [OF m(2), of nl_traffic] by (intro bexI [of _ m]) simp_all
  qed
  have "take 32 (nl_md5 n) = digest (col row 1)" if "n \<in> set l'" "row \<in> set ?rows" "nl_id n = row_id row" for n row
    using from_m [OF that(1)] mirrored_agrees [OF l c that(2)] that(3) by (metis sel(1,2))
  moreover have "nl_traffic n = nl_traffic n'" if "n \<in> set l" "n' \<in> set l'" "nl_id n = nl_id n'" for n n'
    using from_m [OF that(2)] mirrored_traffic [OF l d that(1)] that(3) by auto
  ultimately show ?thesis using s by blast
qed

end

section \<open>Enforcing a limit\<close>

lemma find_update_irrelevant:
  "i < length l \<Longrightarrow> \<not> P (l ! i) \<Longrightarrow> \<not> P x \<Longrightarrow> find P (l[i := x]) = find P l"
proof (induction l arbitrary: i)
  case (Cons y l)
  then show ?case by (cases i) auto
qed simp

lemma limit_adds:
  "unat (nl_traffic n) + (\<Sum>q \<leftarrow> qs. unat (pd_len q)) < 2 ^ 64 \<Longrightarrow>
   unat (nl_traffic (fold (\<lambda>q. limit_add (pd_len q)) qs n)) = unat (nl_traffic n) + (\<Sum>q \<leftarrow> qs. unat (pd_len q)) \<and>
   nl_onblocked (fold (\<lambda>q. limit_add (pd_len q)) qs n) = nl_onblocked n \<and>
   nl_limitation (fold (\<lambda>q. limit_add (pd_len q)) qs n) = nl_limitation n"
proof (induction qs arbitrary: n)
  case (Cons q qs)
  have "unat (ucast (pd_len q) :: 64 word) = unat (pd_len q)" using unsigned_less [of "pd_len q", where 'a = nat] by (simp add: unsigned_ucast_eq take_bit_nat_eq_self)
  then have "unat (nl_traffic (limit_add (pd_len q) n)) = unat (nl_traffic n) + unat (pd_len q)"
    using Cons.prems by (simp add: limit_add_def unat_add_lem [THEN iffD1])
  moreover have "nl_onblocked (limit_add (pd_len q) n) = nl_onblocked n" "nl_limitation (limit_add (pd_len q) n) = nl_limitation n"
    by (simp_all add: limit_add_def)
  ultimately show ?case using Cons.IH [of "limit_add (pd_len q) n"] Cons.prems by simp
qed simp

text \<open>
  The hooks on packets: \<open>kn\<close> is the key of a limit, \<open>kp\<close> the key of a packet. The contract says that both work on the
  first limit with the key of the packet.
\<close>

locale limit_hooks =
  fixes autz :: "PACKET_DATA_INFO \<Rightarrow> 'a NODE_LIMIT_scheme list \<Rightarrow> gboolean"
    and acct :: "PACKET_DATA_INFO \<Rightarrow> 'a NODE_LIMIT_scheme list \<Rightarrow> 'a NODE_LIMIT_scheme list"
    and kn :: "'a NODE_LIMIT_scheme \<Rightarrow> 'k" and kp :: "PACKET_DATA_INFO \<Rightarrow> 'k"
  assumes autz: "autz p l = limit_autz (find_index (\<lambda>n. kn n = kp p) l) l"
    and acct: "acct p l = (if pd_not_sum p = 0 then limit_acct (find_index (\<lambda>n. kn n = kp p) l) (pd_len p) l else l)"
    and key_add: "kn (limit_add len n) = kn n"
begin

lemma acct_find:
  "find (\<lambda>n. kn n = k) (acct p l) =
     map_option (\<lambda>n. if pd_not_sum p = 0 \<and> kp p = k then limit_add (pd_len p) n else n) (find (\<lambda>n. kn n = k) l)"
proof (cases "find_index (\<lambda>n. kn n = kp p) l")
  case None
  then have n: "kp p = k \<Longrightarrow> find (\<lambda>n. kn n = k) l = None" by (simp add: find_index_find del: find_index_None_iff)
  have "acct p l = l" unfolding acct limit_acct_def None by simp
  then show ?thesis using n by (cases "find (\<lambda>n. kn n = k) l") auto
next
  case (Some i)
  note i = find_index_SomeD [OF Some]
  let ?l = "l[i := limit_add (pd_len p) (l ! i)]"
  show ?thesis
  proof (cases "kp p = k")
    case True
    have "find_index (\<lambda>n. kn n = k) ?l = Some i" using find_index_update [OF Some, of "limit_add (pd_len p) (l ! i)"] i key_add True by simp
    then show ?thesis using Some True i by (auto simp: acct limit_acct_def find_index_find)
  next
    case False
    have "find (\<lambda>n. kn n = k) ?l = find (\<lambda>n. kn n = k) l" using i key_add False by (intro find_update_irrelevant) auto
    then show ?thesis using Some False by (cases "find (\<lambda>n. kn n = k) l") (simp_all add: acct limit_acct_def)
  qed
qed

lemma accts_find:
  "find (\<lambda>n. kn n = k) (fold acct ps l) =
     map_option (fold (\<lambda>p. limit_add (pd_len p)) (filter (\<lambda>p. pd_not_sum p = 0 \<and> kp p = k) ps)) (find (\<lambda>n. kn n = k) l)"
proof (induction ps arbitrary: l)
  case Nil
  then show ?case by (simp add: option.map_ident)
next
  case (Cons p ps)
  then show ?case by (cases "find (\<lambda>n. kn n = k) l") (auto simp: acct_find)
qed

lemma enforced:
  assumes n: "find (\<lambda>n. kn n = kp p) l = Some n"
    and fit: "unat (nl_traffic n) + (\<Sum>q \<leftarrow> filter (\<lambda>q. pd_not_sum q = 0 \<and> kp q = kp p) ps. unat (pd_len q)) < 2 ^ 64"
  shows "autz p (fold acct ps l) =
    (if nl_onblocked n = 0 \<and> (nl_limitation n = -1 \<or>
        unat (nl_traffic n) + (\<Sum>q \<leftarrow> filter (\<lambda>q. pd_not_sum q = 0 \<and> kp q = kp p) ps. unat (pd_len q)) < unat (nl_limitation n))
     then 1 else 0)"
proof -
  let ?qs = "filter (\<lambda>q. pd_not_sum q = 0 \<and> kp q = kp p) ps"
  let ?n = "fold (\<lambda>q. limit_add (pd_len q)) ?qs n"
  have "find (\<lambda>n. kn n = kp p) (fold acct ps l) = Some ?n" using n by (simp add: accts_find)
  then have "autz p (fold acct ps l) = (if limit_active ?n \<noteq> 0 then 1 else 0)"
    by (cases "find_index (\<lambda>n. kn n = kp p) (fold acct ps l)") (simp_all add: autz limit_autz_def find_index_find del: find_index_None_iff)
  moreover have "unat (nl_traffic ?n) = unat (nl_traffic n) + (\<Sum>q \<leftarrow> ?qs. unat (pd_len q))" "nl_onblocked ?n = nl_onblocked n" "nl_limitation ?n = nl_limitation n"
    using limit_adds [OF fit] by simp_all
  ultimately show ?thesis by (auto simp: limit_active_def word_le_nat_alt)
qed

end

end
