(* ===== verification/Group_Limit.thy ===== *)
theory Group_Limit
  imports Traffic_Limits
begin

text \<open>
  The limits of a user for a group of traffic (\<^verbatim>\<open>ipstat_system_group_limit/main.c\<close>).
  The hooks of the core, the synchronisation with the table \<^verbatim>\<open>Rules_GroupTraffic\<close>, the periodic jobs and the
  control command, on the common bodies of \<open>Traffic_Limits\<close>. A result of the wrong kind for the service is undefined behaviour.
  Locks and the release of memory are not modelled; \<open>timeout\<close> and \<open>secondary\<close> are the two
  configured values.
\<close>

record NODE_GROUP_LIMIT = NODE_LIMIT +
  gl_id_user :: IP_id

section \<open>Lookup\<close>

definition compare_group_traffic :: "NODE_GROUP_LIMIT \<Rightarrow> IP_id \<Rightarrow> IP_id \<Rightarrow> int" where
  "compare_group_traffic node id_user id_group =
     (if compare_id (gl_id_user node) id_user \<noteq> 0 \<or> compare_id (nl_id_group node) id_group \<noteq> 0 then 1 else 0)"

definition find_group_traffic :: "IP_id \<Rightarrow> IP_id \<Rightarrow> NODE_GROUP_LIMIT list \<Rightarrow> nat option" where
  "find_group_traffic id_user id_group l = find_index (\<lambda>n. compare_group_traffic n id_user id_group = 0) l"

section \<open>The hooks\<close>

definition gl_my_autz :: "IP_id \<Rightarrow> ret_info \<Rightarrow> NODE_GROUP_LIMIT list \<Rightarrow> gboolean option" where
  "gl_my_autz service ret l =
     (if service = SERVICE_TRAFFIC then
        (case ret of RPacket pd \<Rightarrow> Some (limit_autz (find_group_traffic (pd_id_user pd) (pd_id_traffic_group pd) l) l) | _ \<Rightarrow> None)
      else if service = SERVICE_SQUID then
        (case ret of RSquid sd \<Rightarrow> Some (limit_autz (find_group_traffic (sd_id_user sd) (sd_id_traffic_group sd) l) l) | _ \<Rightarrow> None)
      else Some 0)"

definition gl_my_acct :: "IP_id \<Rightarrow> ret_info \<Rightarrow> NODE_GROUP_LIMIT list \<Rightarrow> (gboolean \<times> NODE_GROUP_LIMIT list) option" where
  "gl_my_acct service ret l =
     (if service = SERVICE_TRAFFIC then
        (case ret of
           RPacket pd \<Rightarrow> Some (1, if pd_not_sum pd = 0 then limit_acct (find_group_traffic (pd_id_user pd) (pd_id_traffic_group pd) l) (pd_len pd) l else l)
         | _ \<Rightarrow> None)
      else if service = SERVICE_SQUID then
        (case ret of
           RSquid sd \<Rightarrow> Some (1, if sd_not_sum sd = 0 then limit_acct (find_group_traffic (sd_id_user sd) (sd_id_traffic_group sd) l) (sd_len sd) l else l)
         | _ \<Rightarrow> None)
      else Some (0, l))"

section \<open>Synchronisation\<close>

definition gl_of_row :: "IP_id \<Rightarrow> SQL_ROW \<Rightarrow> NODE_GROUP_LIMIT" where
  "gl_of_row i row =
     \<lparr>nl_id = i, nl_id_group = conv (atoi (col row 0)), nl_type = conv (atoi (col row 1)), nl_limitation = conv (atoll (col row 2)),
      nl_traffic = conv (atoll (col row 3)), nl_alpha = 0, nl_onblocked = conv (atoi (col row 4)), nl_status = 0,
      nl_md5 = strncpy (replicate 33 NUL) (col row 6) 32, gl_id_user = conv (atoi (col row 5))\<rparr>"

definition gl_update_row :: "SQL_ROW \<Rightarrow> NODE_GROUP_LIMIT \<Rightarrow> gboolean \<times> NODE_GROUP_LIMIT" where
  "gl_update_row row node =
     (1, node\<lparr>gl_id_user := conv (atoi (col row 4)), nl_id_group := conv (atoi (col row 0)), nl_type := conv (atoi (col row 1)),
        nl_limitation := conv (atoll (col row 2)), nl_onblocked := conv (atoi (col row 3)), nl_md5 := strncpy (nl_md5 node) (col row 5) 32\<rparr>)"

definition gl_mirror :: "NODE_GROUP_LIMIT mirror" where
  "gl_mirror =
     \<lparr>mr_key = nl_id, mr_md5 = nl_md5, mr_load = (\<lambda>i now row. Some (gl_of_row i row)), mr_update = (\<lambda>now. gl_update_row), mr_touch = confirm,
      mr_list_query = ''select id, md5(concat(id_user, id_group, Type, Limitation, onBlocked)) from Rules_GroupTraffic'',
      mr_load_query = (\<lambda>i. ''select id_group, Type, Limitation, Traffic, onBlocked, id_user, md5(concat(id_user, id_group, Type, Limitation, onBlocked)) from Rules_GroupTraffic where id = '' @ fmt_d i),
      mr_update_query = (\<lambda>i. ''select id_group, Type, Limitation, onBlocked, id_user, md5(concat(id_user, id_group, Type, Limitation, onBlocked)) from Rules_GroupTraffic where id = '' @ fmt_d i)\<rparr>"

definition gl_insert_limit ::
  "bool \<times> bool \<Rightarrow> IP_id \<Rightarrow> 'w STORE_API option \<Rightarrow> NODE_GROUP_LIMIT list \<Rightarrow> 'w \<Rightarrow> (gboolean \<times> NODE_GROUP_LIMIT list \<times> 'w) option" where
  "gl_insert_limit mem i store l w = mirror_insert gl_mirror mem 0 i store l w"

definition gl_update_limit ::
  "IP_id \<Rightarrow> 'w STORE_API option \<Rightarrow> NODE_GROUP_LIMIT list \<Rightarrow> 'w \<Rightarrow> (gboolean \<times> NODE_GROUP_LIMIT list \<times> 'w) option" where
  "gl_update_limit i store l w = mirror_update gl_mirror 0 i store l w"

definition gl_sync_traffic :: "'w STORE_API option \<Rightarrow> NODE_GROUP_LIMIT list \<Rightarrow> 'w \<Rightarrow> gboolean \<times> NODE_GROUP_LIMIT list \<times> 'w" where
  "gl_sync_traffic store l w = limit_sync_traffic ''Rules_GroupTraffic'' store l w"

definition gl_sync_limits ::
  "(nat \<Rightarrow> bool \<times> bool) \<Rightarrow> 'w STORE_API option \<Rightarrow> NODE_GROUP_LIMIT list \<Rightarrow> 'w \<Rightarrow> (gboolean \<times> NODE_GROUP_LIMIT list \<times> 'w) option" where
  "gl_sync_limits mem store l w = limit_sync gl_mirror ''Rules_GroupTraffic'' mem store l w"

definition gl_init_limits ::
  "(nat \<Rightarrow> bool \<times> bool) \<Rightarrow> 'w STORE_API option \<Rightarrow> NODE_GROUP_LIMIT list \<Rightarrow> 'w \<Rightarrow> (gboolean \<times> NODE_GROUP_LIMIT list \<times> 'w) option" where
  "gl_init_limits mem store l w = do { (_, l1, w1) \<leftarrow> gl_sync_limits mem store l w; Some (1, l1, w1) }"

definition gl_free_limits :: "NODE_GROUP_LIMIT list \<Rightarrow> gboolean \<times> NODE_GROUP_LIMIT list" where
  "gl_free_limits l = (1, [])"

section \<open>Periodic jobs\<close>

definition gl_task_every_day ::
  "(nat \<Rightarrow> time_t) \<Rightarrow> 'w STORE_API option \<Rightarrow> NODE_GROUP_LIMIT list \<Rightarrow> 'w \<Rightarrow> gboolean \<times> NODE_GROUP_LIMIT list \<times> 'w" where
  "gl_task_every_day clock store l w =
     limit_task 1 [''update Rules_GroupTraffic SET YDay = TDay'', ''update Rules_GroupTraffic SET TDay = 0''] ''gl_date_last_every_day'' clock store l w"

definition gl_task_every_week :: "NODE_GROUP_LIMIT list \<Rightarrow> gboolean \<times> NODE_GROUP_LIMIT list" where
  "gl_task_every_week l = (1, map (traverse_check 2) l)"

definition gl_task_every_month ::
  "(nat \<Rightarrow> time_t) \<Rightarrow> 'w STORE_API option \<Rightarrow> NODE_GROUP_LIMIT list \<Rightarrow> 'w \<Rightarrow> gboolean \<times> NODE_GROUP_LIMIT list \<times> 'w" where
  "gl_task_every_month clock store l w =
     limit_task 3 [''update Rules_GroupTraffic SET YMonth = TMonth'', ''update Rules_GroupTraffic SET TMonth = 0''] ''gl_date_last_every_month'' clock store l w"

section \<open>Starting, stopping and the control command\<close>

definition gl_tables :: "(string \<times> string list) list" where
  "gl_tables =
     [(''Rules_GroupTraffic'', [(''CREATE TABLE Rules_GroupTraffic (id int(11) NOT NULL auto_increment, id_user int(11) NOT NULL default '' @ squote @ ''0'' @
      squote @ '', id_group int(11) NOT NULL default '' @ squote @ ''0'' @ squote @ '', Type tinyint(3) default '' @ squote @ ''0'' @
      squote @ '', Limitation bigint(20) default '' @ squote @ ''-1'' @ squote @ '', Traffic bigint(20) unsigned NOT NULL default '' @
      squote @ ''0'' @ squote @ '', YDay bigint(20) unsigned NOT NULL default '' @ squote @ ''0'' @ squote @
      '', TDay bigint(20) unsigned NOT NULL default '' @ squote @ ''0'' @ squote @ '', YMonth bigint(20) unsigned NOT NULL default '' @
      squote @ ''0'' @ squote @ '', TMonth bigint(20) unsigned NOT NULL default '' @ squote @ ''0'' @ squote @ '', onActive enum('' @
      squote @ ''0'' @ squote @ '','' @ squote @ ''1'' @ squote @ '') NOT NULL default '' @ squote @ ''1'' @ squote @
      '', onBlocked enum('' @ squote @ ''0'' @ squote @ '','' @ squote @ ''1'' @ squote @ '') NOT NULL default '' @ squote @ ''0'' @
      squote @
      '', PRIMARY KEY  (id), KEY key0 (id_user, id_group), KEY `key1` (`Type`,`Limitation`,`Traffic`,`onActive`,`onBlocked`)) '' @
      ''TYPE=InnoDB'')])]"

definition check_group_limit_tables :: "bool \<Rightarrow> 'w STORE_API \<Rightarrow> 'w \<Rightarrow> gboolean \<times> 'w" where
  "check_group_limit_tables ok api w =
     (case sql_open api w of
        (None, w1) \<Rightarrow> (1, w1)
      | (Some sid, w1) \<Rightarrow>
          if \<not> ok then (0, sql_close api sid w1)
          else (1, sql_close api sid (check_tables api sid gl_tables w1)))"

definition gl_load ::
  "bool \<Rightarrow> (nat \<Rightarrow> bool \<times> bool) \<Rightarrow> bool \<Rightarrow> bool \<Rightarrow> int \<Rightarrow> int \<Rightarrow> 'w STORE_API option \<Rightarrow> NODE_GROUP_LIMIT list \<Rightarrow> 'w \<Rightarrow>
   (gboolean \<times> NODE_GROUP_LIMIT list \<times> registration list \<times> 'w) option" where
  "gl_load ok mem server sched timeout secondary store l w = do {
     api \<leftarrow> store;
     let (_, w1) = check_group_limit_tables ok api w;
     (_, l1, w2) \<leftarrow> gl_init_limits mem store l w1;
     str \<leftarrow> sprintf_buf 20 (every_minutes timeout);
     Some (1, l1,
       [AutzHook, AcctHook] @ (if server then [ServerReg ''group_limits''] else []) @
       (if secondary = 0 \<and> sched
        then [SchedReg ''sync_group_limit'' str, SchedReg ''gl_every_day'' ''0 0 * * *'', SchedReg ''gl_every_week'' ''0 0 * * 1'',
              SchedReg ''gl_every_month'' ''0 0 1 * *''] else []), w2)
   }"

definition gl_unload :: "bool \<Rightarrow> bool \<Rightarrow> int \<Rightarrow> NODE_GROUP_LIMIT list \<Rightarrow> gboolean \<times> NODE_GROUP_LIMIT list \<times> registration list" where
  "gl_unload server sched secondary l =
     (1, snd (gl_free_limits l),
      (if secondary = 0 \<and> sched
       then [SchedUnreg ''sync_group_limit'', SchedUnreg ''gl_every_day'', SchedUnreg ''gl_every_week'', SchedUnreg ''gl_every_month''] else []) @
      (if server then [ServerUnreg ''group_limit''] else []) @ [AcctUnhook, AutzUnhook])"

definition gl_traverse_print :: "NODE_GROUP_LIMIT \<Rightarrow> string list \<Rightarrow> string list" where
  "gl_traverse_print node sock =
     send_to_socket (''| '' @ fmt_pad 3 (fmt_d (gl_id_user node)) @ '' | '' @ fmt_pad 3 (fmt_d (nl_id_group node)) @ '' | '' @ fmt_pad 3 (fmt_int (limit_active node)) @ '' | '' @
       fmt_pad 3 (fmt_d (nl_type node)) @ '' | '' @ fmt_pad 10 (fmt_d (nl_limitation node)) @ '' | '' @ fmt_pad 10 (fmt_u (nl_traffic node)) @ '' |'' @ crlf) sock"

definition gl_limits_print :: "NODE_GROUP_LIMIT list \<Rightarrow> string list \<Rightarrow> gboolean \<times> string list" where
  "gl_limits_print l sock =
     (1, send_to_socket (dashes 51) (fold gl_traverse_print l
        (send_to_socket (dashes 51) (send_to_socket (''| '' @ fmt_pad 3 ''U'' @ '' | '' @ fmt_pad 3 ''G'' @ '' | '' @ fmt_pad 3 ''S'' @ '' | '' @ fmt_pad 3 ''T'' @ '' | '' @
             fmt_pad 10 ''Limit'' @ '' | '' @ fmt_pad 10 ''Traffic'' @ '' |'' @ crlf)
           (send_to_socket (dashes 51) (send_to_socket (''Limit to Group Traffic:'' @ crlf) sock))))))"

definition gl_server_job :: "string list \<Rightarrow> NODE_GROUP_LIMIT list \<Rightarrow> string list \<Rightarrow> gboolean \<times> string list" where
  "gl_server_job argv l sock =
     (if length argv = 1 \<and> strncmp (argv ! 0) ''help'' 4 = 0
      then (0, send_to_socket (''*  - show group limit- Show policy for users *'' @ crlf) sock)
      else if length argv = 3 \<and> strncmp (argv ! 0) ''show'' 4 = 0 \<and> strncmp (argv ! 1) ''group'' 5 = 0 \<and> strncmp (argv ! 2) ''limit'' 5 = 0
      then (1, snd (gl_limits_print l sock))
      else (0, sock))"

section \<open>The contracts\<close>

interpretation gl_mirror: limit_mirror gl_mirror "\<lambda>i row. True" "\<lambda>row. col row 6" "\<lambda>row. col row 5"
  by unfold_locales
    (auto simp: gl_mirror_def gl_of_row_def gl_update_row_def confirm_def digest_strncpy)

text \<open>The two hooks on a packet, as functions of the list.\<close>

definition gl_autz_packet :: "PACKET_DATA_INFO \<Rightarrow> NODE_GROUP_LIMIT list \<Rightarrow> gboolean" where
  "gl_autz_packet pd l = the (gl_my_autz SERVICE_TRAFFIC (RPacket pd) l)"

definition gl_acct_packet :: "PACKET_DATA_INFO \<Rightarrow> NODE_GROUP_LIMIT list \<Rightarrow> NODE_GROUP_LIMIT list" where
  "gl_acct_packet pd l = snd (the (gl_my_acct SERVICE_TRAFFIC (RPacket pd) l))"

interpretation gl_hooks: limit_hooks gl_autz_packet gl_acct_packet "\<lambda>n. (gl_id_user n, nl_id_group n)" "\<lambda>p. (pd_id_user p, pd_id_traffic_group p)"
  by unfold_locales
    (simp_all add: gl_autz_packet_def gl_acct_packet_def gl_my_autz_def gl_my_acct_def find_group_traffic_def compare_group_traffic_def limit_add_def)

section \<open>Properties\<close>

definition gl_acct_all :: "PACKET_DATA_INFO list \<Rightarrow> NODE_GROUP_LIMIT list \<Rightarrow> NODE_GROUP_LIMIT list option" where
  "gl_acct_all ps l = fold (\<lambda>p acc. do { l1 \<leftarrow> acc; (_, l2) \<leftarrow> gl_my_acct SERVICE_TRAFFIC (RPacket p) l1; Some l2 }) ps (Some l)"

lemma gl_acct_all_fold: "gl_acct_all ps l = Some (fold gl_acct_packet ps l)"
  unfolding gl_acct_all_def by (induction ps arbitrary: l) (simp_all add: gl_acct_packet_def gl_my_acct_def)

text \<open>
  C8 (limits of a traffic group). Account any sequence of packets, then ask for a packet of a user and a traffic group for which a limit
  exists. As long as the 64-bit counter does not overflow, the answer is yes exactly when the limit is not blocked
  and is either unlimited or larger than its traffic before plus the lengths of the accounted packets of this user and
  group, those marked as not counted excepted.
\<close>

theorem gl_limit_enforced:
  assumes "find (\<lambda>n. (gl_id_user n, nl_id_group n) = (pd_id_user p, pd_id_traffic_group p)) l = Some n"
    and "unat (nl_traffic n) + (\<Sum>q \<leftarrow> filter (\<lambda>q. pd_not_sum q = 0 \<and>
          (pd_id_user q, pd_id_traffic_group q) = (pd_id_user p, pd_id_traffic_group p)) ps. unat (pd_len q)) < 2 ^ 64"
  shows "\<exists>l'. gl_acct_all ps l = Some l' \<and> gl_my_autz SERVICE_TRAFFIC (RPacket p) l' =
    Some (if nl_onblocked n = 0 \<and> (nl_limitation n = -1 \<or>
        unat (nl_traffic n) + (\<Sum>q \<leftarrow> filter (\<lambda>q. pd_not_sum q = 0 \<and>
          (pd_id_user q, pd_id_traffic_group q) = (pd_id_user p, pd_id_traffic_group p)) ps. unat (pd_len q)) < unat (nl_limitation n))
     then 1 else 0)"
proof -
  have "gl_my_autz SERVICE_TRAFFIC (RPacket p) l' = Some (gl_autz_packet p l')" for l'
    by (simp add: gl_autz_packet_def gl_my_autz_def)
  then show ?thesis using gl_hooks.enforced [of p l n ps] assms by (simp add: gl_acct_all_fold)
qed

definition ex_group_limit :: NODE_GROUP_LIMIT where
  "ex_group_limit = (gl_of_row 1 [''3'', ''0'', ''100'', ''0'', ''0'', ''7'', []])\<lparr>gl_id_user := 7, nl_id_group := 3, nl_limitation := 100,
     nl_traffic := 60, nl_onblocked := 0\<rparr>"

definition ex_pkt :: "IP_size \<Rightarrow> PACKET_DATA_INFO" where
  "ex_pkt len = \<lparr>pd_service = SERVICE_TRAFFIC, pd_direct = 1, pd_id_user = 7, pd_id_group_user = 1, pd_id_traffic_group = 3,
     pd_id_traffic_type = 1, pd_not_sum = 0, pd_len = len\<rparr>"

theorem gl_limit_enforced_witness:
  "\<exists>l'. gl_acct_all [ex_pkt 30, ex_pkt 10] [ex_group_limit] = Some l' \<and> gl_my_autz SERVICE_TRAFFIC (RPacket (ex_pkt 1)) l' = Some 0"
  using gl_limit_enforced [of "ex_pkt 1" "[ex_group_limit]" ex_group_limit "[ex_pkt 30, ex_pkt 10]"]
  by (simp add: ex_group_limit_def ex_pkt_def)


definition gl_ex_answer :: "string \<Rightarrow> SQL_ROW list" where
  "gl_ex_answer q = (if q = mr_list_query gl_mirror then [[''3'', ''abc'']]
     else [[''1'', ''0'', ''5'', ''0'', ''0'', ''abc'', ''abc'']])"


end
