(* ===== verification/Users_Group_Limit.thy ===== *)
theory Users_Group_Limit
  imports Traffic_Limits
begin

text \<open>
  The limits of a group of users (\<^verbatim>\<open>ipstat_system_users_group_limit/main.c\<close>); its \<^verbatim>\<open>NODE_GROUP_LIMIT\<close> has the fields of \<open>NODE_LIMIT\<close>.
  The hooks of the core, the synchronisation with the table \<^verbatim>\<open>Rules_UsersGroup\<close>, the periodic jobs and the
  control command, on the common bodies of \<open>Traffic_Limits\<close>. A result of the wrong kind for the service is undefined behaviour.
  Locks and the release of memory are not modelled; \<open>timeout\<close> and \<open>secondary\<close> are the two
  configured values.
\<close>


section \<open>Lookup\<close>

definition compare_group :: "NODE_LIMIT \<Rightarrow> IP_id \<Rightarrow> int" where
  "compare_group node id_group = compare_id (nl_id_group node) id_group"

definition find_group :: "IP_id \<Rightarrow> NODE_LIMIT list \<Rightarrow> nat option" where
  "find_group id_group l = find_index (\<lambda>n. compare_group n id_group = 0) l"

section \<open>The hooks\<close>

definition ugl_my_autz :: "IP_id \<Rightarrow> ret_info \<Rightarrow> NODE_LIMIT list \<Rightarrow> gboolean option" where
  "ugl_my_autz service ret l =
     (if service = SERVICE_TRAFFIC then
        (case ret of RPacket pd \<Rightarrow> Some (limit_autz (find_group (pd_id_group_user pd) l) l) | _ \<Rightarrow> None)
      else if service = SERVICE_SQUID then
        (case ret of RSquid sd \<Rightarrow> Some (limit_autz (find_group (sd_id_group_user sd) l) l) | _ \<Rightarrow> None)
      else Some 0)"

definition ugl_my_acct :: "IP_id \<Rightarrow> ret_info \<Rightarrow> NODE_LIMIT list \<Rightarrow> (gboolean \<times> NODE_LIMIT list) option" where
  "ugl_my_acct service ret l =
     (if service = SERVICE_TRAFFIC then
        (case ret of
           RPacket pd \<Rightarrow> Some (1, if pd_not_sum pd = 0 then limit_acct (find_group (pd_id_group_user pd) l) (pd_len pd) l else l)
         | _ \<Rightarrow> None)
      else if service = SERVICE_SQUID then
        (case ret of
           RSquid sd \<Rightarrow> Some (1, if sd_not_sum sd = 0 then limit_acct (find_group (sd_id_group_user sd) l) (sd_len sd) l else l)
         | _ \<Rightarrow> None)
      else Some (0, l))"

section \<open>Synchronisation\<close>

definition ugl_of_row :: "IP_id \<Rightarrow> SQL_ROW \<Rightarrow> NODE_LIMIT" where
  "ugl_of_row i row =
     \<lparr>nl_id = i, nl_id_group = conv (atoi (col row 0)), nl_type = conv (atoi (col row 1)), nl_limitation = conv (atoll (col row 2)),
      nl_traffic = conv (atoll (col row 3)), nl_alpha = 0, nl_onblocked = conv (atoi (col row 4)), nl_status = 0,
      nl_md5 = strncpy (replicate 33 NUL) (col row 5) 32\<rparr>"

definition ugl_update_row :: "SQL_ROW \<Rightarrow> NODE_LIMIT \<Rightarrow> gboolean \<times> NODE_LIMIT" where
  "ugl_update_row row node =
     (1, node\<lparr>nl_id_group := conv (atoi (col row 0)), nl_type := conv (atoi (col row 1)),
        nl_limitation := conv (atoll (col row 2)), nl_onblocked := conv (atoi (col row 3)), nl_md5 := strncpy (nl_md5 node) (col row 4) 32\<rparr>)"

definition ugl_mirror :: "NODE_LIMIT mirror" where
  "ugl_mirror =
     \<lparr>mr_key = nl_id, mr_md5 = nl_md5, mr_load = (\<lambda>i now row. Some (ugl_of_row i row)), mr_update = (\<lambda>now. ugl_update_row), mr_touch = confirm,
      mr_list_query = ''select id, md5(concat(id_group, Type, Limitation, onBlocked)) from Rules_UsersGroup'',
      mr_load_query = (\<lambda>i. ''select id_group, Type, Limitation, Traffic, onBlocked, md5(concat(id_group, Type, Limitation, onBlocked)) from Rules_UsersGroup where id = '' @ fmt_d i),
      mr_update_query = (\<lambda>i. ''select id_group, Type, Limitation, onBlocked, md5(concat(id_group, Type, Limitation, onBlocked)) from Rules_UsersGroup where id = '' @ fmt_d i)\<rparr>"

definition ugl_insert_limit ::
  "bool \<times> bool \<Rightarrow> IP_id \<Rightarrow> 'w STORE_API option \<Rightarrow> NODE_LIMIT list \<Rightarrow> 'w \<Rightarrow> (gboolean \<times> NODE_LIMIT list \<times> 'w) option" where
  "ugl_insert_limit mem i store l w = mirror_insert ugl_mirror mem 0 i store l w"

definition ugl_update_limit ::
  "IP_id \<Rightarrow> 'w STORE_API option \<Rightarrow> NODE_LIMIT list \<Rightarrow> 'w \<Rightarrow> (gboolean \<times> NODE_LIMIT list \<times> 'w) option" where
  "ugl_update_limit i store l w = mirror_update ugl_mirror 0 i store l w"

definition ugl_find_limit :: "IP_id \<Rightarrow> NODE_LIMIT list \<Rightarrow> nat option" where
  "ugl_find_limit i l = find_limit i l"

definition ugl_delete_limit :: "IP_id \<Rightarrow> NODE_LIMIT list \<Rightarrow> gboolean \<times> NODE_LIMIT list" where
  "ugl_delete_limit i l = delete_limit i l"

definition ugl_limits_delete :: "NODE_LIMIT list \<Rightarrow> NODE_LIMIT list" where
  "ugl_limits_delete l = limits_delete l"

definition ugl_mark_delete :: "NODE_LIMIT list \<Rightarrow> NODE_LIMIT list" where
  "ugl_mark_delete l = mark_delete l"

definition ugl_traverse_check :: "IP_id \<Rightarrow> NODE_LIMIT \<Rightarrow> NODE_LIMIT" where
  "ugl_traverse_check type node = traverse_check type node"

definition ugl_sync_traffic :: "'w STORE_API option \<Rightarrow> NODE_LIMIT list \<Rightarrow> 'w \<Rightarrow> gboolean \<times> NODE_LIMIT list \<times> 'w" where
  "ugl_sync_traffic store l w = limit_sync_traffic ''Rules_UsersGroup'' store l w"

definition ugl_sync_limits ::
  "(nat \<Rightarrow> bool \<times> bool) \<Rightarrow> 'w STORE_API option \<Rightarrow> NODE_LIMIT list \<Rightarrow> 'w \<Rightarrow> (gboolean \<times> NODE_LIMIT list \<times> 'w) option" where
  "ugl_sync_limits mem store l w = limit_sync ugl_mirror ''Rules_UsersGroup'' mem store l w"

definition ugl_init_limits ::
  "(nat \<Rightarrow> bool \<times> bool) \<Rightarrow> 'w STORE_API option \<Rightarrow> NODE_LIMIT list \<Rightarrow> 'w \<Rightarrow> (gboolean \<times> NODE_LIMIT list \<times> 'w) option" where
  "ugl_init_limits mem store l w = do { (_, l1, w1) \<leftarrow> ugl_sync_limits mem store l w; Some (1, l1, w1) }"

definition ugl_free_limits :: "NODE_LIMIT list \<Rightarrow> gboolean \<times> NODE_LIMIT list" where
  "ugl_free_limits l = (1, [])"

section \<open>Periodic jobs\<close>

definition ugl_task_every_day ::
  "(nat \<Rightarrow> time_t) \<Rightarrow> 'w STORE_API option \<Rightarrow> NODE_LIMIT list \<Rightarrow> 'w \<Rightarrow> gboolean \<times> NODE_LIMIT list \<times> 'w" where
  "ugl_task_every_day clock store l w =
     limit_task 1 [''update Rules_UsersGroup SET YDay = TDay'', ''update Rules_UsersGroup SET TDay = 0''] ''ugl_date_last_every_day'' clock store l w"

definition ugl_task_every_week :: "NODE_LIMIT list \<Rightarrow> gboolean \<times> NODE_LIMIT list" where
  "ugl_task_every_week l = (1, map (traverse_check 2) l)"

definition ugl_task_every_month ::
  "(nat \<Rightarrow> time_t) \<Rightarrow> 'w STORE_API option \<Rightarrow> NODE_LIMIT list \<Rightarrow> 'w \<Rightarrow> gboolean \<times> NODE_LIMIT list \<times> 'w" where
  "ugl_task_every_month clock store l w =
     limit_task 3 [''update Rules_UsersGroup SET YMonth = TMonth'', ''update Rules_UsersGroup SET TMonth = 0''] ''ugl_date_last_every_month'' clock store l w"

section \<open>Starting, stopping and the control command\<close>

definition ugl_tables :: "(string \<times> string list) list" where
  "ugl_tables =
     [(''Rules_UsersGroup'', [(''CREATE TABLE Rules_UsersGroup (id int(11) NOT NULL auto_increment, id_group int(11) NOT NULL default '' @ squote @ ''0'' @
      squote @ '', Type tinyint(3) default '' @ squote @ ''0'' @ squote @ '', Limitation bigint(20) default '' @ squote @ ''-1'' @
      squote @ '', Traffic bigint(20) unsigned NOT NULL default '' @ squote @ ''0'' @ squote @
      '', YDay bigint(20) unsigned NOT NULL default '' @ squote @ ''0'' @ squote @ '', TDay bigint(20) unsigned NOT NULL default '' @
      squote @ ''0'' @ squote @ '', YMonth bigint(20) unsigned NOT NULL default '' @ squote @ ''0'' @ squote @
      '', TMonth bigint(20) unsigned NOT NULL default '' @ squote @ ''0'' @ squote @ '', onActive enum('' @ squote @ ''0'' @ squote @
      '','' @ squote @ ''1'' @ squote @ '') NOT NULL default '' @ squote @ ''1'' @ squote @ '', onBlocked enum('' @ squote @ ''0'' @
      squote @ '','' @ squote @ ''1'' @ squote @ '') NOT NULL default '' @ squote @ ''0'' @ squote @
      '', PRIMARY KEY  (id), KEY key0 (id_group), KEY `key1` (`Type`,`Limitation`,`Traffic`,`onActive`,`onBlocked`)) TYPE=InnoDB'')])]"

definition check_users_group_limit_tables :: "bool \<Rightarrow> 'w STORE_API \<Rightarrow> 'w \<Rightarrow> gboolean \<times> 'w" where
  "check_users_group_limit_tables ok api w =
     (case sql_open api w of
        (None, w1) \<Rightarrow> (1, w1)
      | (Some sid, w1) \<Rightarrow>
          if \<not> ok then (0, sql_close api sid w1)
          else (1, sql_close api sid (check_tables api sid ugl_tables w1)))"

definition ugl_load ::
  "bool \<Rightarrow> (nat \<Rightarrow> bool \<times> bool) \<Rightarrow> bool \<Rightarrow> bool \<Rightarrow> int \<Rightarrow> int \<Rightarrow> 'w STORE_API option \<Rightarrow> NODE_LIMIT list \<Rightarrow> 'w \<Rightarrow>
   (gboolean \<times> NODE_LIMIT list \<times> registration list \<times> 'w) option" where
  "ugl_load ok mem server sched timeout secondary store l w = do {
     api \<leftarrow> store;
     let (_, w1) = check_users_group_limit_tables ok api w;
     (_, l1, w2) \<leftarrow> ugl_init_limits mem store l w1;
     str \<leftarrow> sprintf_buf 20 (every_minutes timeout);
     Some (1, l1,
       [AutzHook, AcctHook] @ (if server then [ServerReg ''users_group_limits''] else []) @
       (if secondary = 0 \<and> sched
        then [SchedReg ''sync_users_group_limit'' str, SchedReg ''ugl_every_day'' ''0 0 * * *'', SchedReg ''ugl_every_week'' ''0 0 * * 1'',
              SchedReg ''ugl_every_month'' ''0 0 1 * *''] else []), w2)
   }"

definition ugl_unload :: "bool \<Rightarrow> bool \<Rightarrow> int \<Rightarrow> NODE_LIMIT list \<Rightarrow> gboolean \<times> NODE_LIMIT list \<times> registration list" where
  "ugl_unload server sched secondary l =
     (1, snd (ugl_free_limits l),
      (if secondary = 0 \<and> sched
       then [SchedUnreg ''sync_users_group_limit'', SchedUnreg ''ugl_every_day'', SchedUnreg ''ugl_every_week'', SchedUnreg ''ugl_every_month''] else []) @
      (if server then [ServerUnreg ''users_group_limit''] else []) @ [AcctUnhook, AutzUnhook])"

definition ugl_traverse_print :: "NODE_LIMIT \<Rightarrow> string list \<Rightarrow> string list" where
  "ugl_traverse_print node sock =
     send_to_socket (''| '' @ fmt_pad 3 (fmt_d (nl_id_group node)) @ '' | '' @ fmt_pad 3 (fmt_int (limit_active node)) @ '' | '' @
       fmt_pad 3 (fmt_d (nl_type node)) @ '' | '' @ fmt_pad 10 (fmt_d (nl_limitation node)) @ '' | '' @ fmt_pad 10 (fmt_u (nl_traffic node)) @ '' |'' @ crlf) sock"

definition ugl_limits_print :: "NODE_LIMIT list \<Rightarrow> string list \<Rightarrow> gboolean \<times> string list" where
  "ugl_limits_print l sock =
     (1, send_to_socket (dashes 51) (fold ugl_traverse_print l
        (send_to_socket (dashes 51) (send_to_socket (''| '' @ fmt_pad 3 ''G'' @ '' | '' @ fmt_pad 3 ''S'' @ '' | '' @ fmt_pad 3 ''T'' @ '' | '' @
             fmt_pad 10 ''Limit'' @ '' | '' @ fmt_pad 10 ''Traffic'' @ '' |'' @ crlf)
           (send_to_socket (dashes 51) (send_to_socket (''Limit to Group Traffic:'' @ crlf) sock))))))"

definition ugl_server_job :: "string list \<Rightarrow> NODE_LIMIT list \<Rightarrow> string list \<Rightarrow> gboolean \<times> string list" where
  "ugl_server_job argv l sock =
     (if length argv = 1 \<and> strncmp (argv ! 0) ''help'' 4 = 0
      then (0, send_to_socket (''*  - show ugroup limit- Show policy for users *'' @ crlf) sock)
      else if length argv = 3 \<and> strncmp (argv ! 0) ''show'' 4 = 0 \<and> strncmp (argv ! 1) ''ugroup'' 6 = 0 \<and> strncmp (argv ! 2) ''limit'' 5 = 0
      then (1, snd (ugl_limits_print l sock))
      else (0, sock))"

section \<open>The contracts\<close>

interpretation ugl_mirror: limit_mirror ugl_mirror "\<lambda>i row. True" "\<lambda>row. col row 5" "\<lambda>row. col row 4"
  by unfold_locales
    (auto simp: ugl_mirror_def ugl_of_row_def ugl_update_row_def confirm_def digest_strncpy)

text \<open>The two hooks on a packet, as functions of the list.\<close>

definition ugl_autz_packet :: "PACKET_DATA_INFO \<Rightarrow> NODE_LIMIT list \<Rightarrow> gboolean" where
  "ugl_autz_packet pd l = the (ugl_my_autz SERVICE_TRAFFIC (RPacket pd) l)"

definition ugl_acct_packet :: "PACKET_DATA_INFO \<Rightarrow> NODE_LIMIT list \<Rightarrow> NODE_LIMIT list" where
  "ugl_acct_packet pd l = snd (the (ugl_my_acct SERVICE_TRAFFIC (RPacket pd) l))"

interpretation ugl_hooks: limit_hooks ugl_autz_packet ugl_acct_packet nl_id_group pd_id_group_user
  by unfold_locales
    (simp_all add: ugl_autz_packet_def ugl_acct_packet_def ugl_my_autz_def ugl_my_acct_def find_group_def compare_group_def limit_add_def)

section \<open>Properties\<close>

definition ugl_acct_all :: "PACKET_DATA_INFO list \<Rightarrow> NODE_LIMIT list \<Rightarrow> NODE_LIMIT list option" where
  "ugl_acct_all ps l = fold (\<lambda>p acc. do { l1 \<leftarrow> acc; (_, l2) \<leftarrow> ugl_my_acct SERVICE_TRAFFIC (RPacket p) l1; Some l2 }) ps (Some l)"

lemma ugl_acct_all_fold: "ugl_acct_all ps l = Some (fold ugl_acct_packet ps l)"
  unfolding ugl_acct_all_def by (induction ps arbitrary: l) (simp_all add: ugl_acct_packet_def ugl_my_acct_def)

text \<open>
  The limit of a group of users is shared by its members: after accounting any sequence of packets, a packet of a member is permitted
  exactly when the limit is not blocked and is either unlimited or larger than its traffic before plus the counted
  lengths of all members.
\<close>

theorem ugl_limit_enforced:
  assumes "find (\<lambda>n. nl_id_group n = pd_id_group_user p) l = Some n"
    and "unat (nl_traffic n) + (\<Sum>q \<leftarrow> filter (\<lambda>q. pd_not_sum q = 0 \<and> pd_id_group_user q = pd_id_group_user p) ps. unat (pd_len q)) < 2 ^ 64"
  shows "\<exists>l'. ugl_acct_all ps l = Some l' \<and> ugl_my_autz SERVICE_TRAFFIC (RPacket p) l' =
    Some (if nl_onblocked n = 0 \<and> (nl_limitation n = -1 \<or>
        unat (nl_traffic n) + (\<Sum>q \<leftarrow> filter (\<lambda>q. pd_not_sum q = 0 \<and> pd_id_group_user q = pd_id_group_user p) ps. unat (pd_len q)) < unat (nl_limitation n))
     then 1 else 0)"
proof -
  have "ugl_my_autz SERVICE_TRAFFIC (RPacket p) l' = Some (ugl_autz_packet p l')" for l'
    by (simp add: ugl_autz_packet_def ugl_my_autz_def)
  then show ?thesis using ugl_hooks.enforced [OF assms] by (simp add: ugl_acct_all_fold)
qed

text \<open>The synchronisation leaves exactly one limit for each row of the table.\<close>

theorem ugl_sync_limits_ids:
  assumes "answers api answer" and "\<forall>i. mem i = (True, True)"
    and "listing (\<lambda>i row. True) ugl_mirror answer (answer (mr_list_query ugl_mirror))" and "distinct (map nl_id l)"
  shows "\<exists>l' w'. ugl_sync_limits mem (Some api) l w = Some (1, l', w') \<and> distinct (map nl_id l') \<and>
    nl_id ` set l' = row_id ` set (answer (mr_list_query ugl_mirror))"
  unfolding ugl_sync_limits_def using ugl_mirror.sync_mirrors [OF assms] by blast

end
