(* ===== verification/Packet_Collectors.thy ===== *)
theory Packet_Collectors
  imports Func_Time Func_Ip Tables
begin

unbundle bit_operations_syntax

text \<open>
  The two collectors of packets: \<^verbatim>\<open>ipstat_collect_netfilter_time_ip/main.c\<close>, which decides on the
  packets the kernel queues, and \<^verbatim>\<open>ipstat_collect_pcap_time_ip/main.c\<close>, which listens on a network
  device. Both pass every packet through authentication, authorization and accounting of the core and through the
  two aggregations.

  The packet libraries are not part of the program: what \<^verbatim>\<open>ipq_read\<close> and \<^verbatim>\<open>pcap_next\<close> deliver
  is a list of events, what \<^verbatim>\<open>ipq_set_verdict\<close> does is the argument \<open>lib\<close>. The list ends when
  \<^verbatim>\<open>do_exit\<close> is set. \<open>mem\<close> holds the allocation results of the aggregations, \<open>pad\<close> the
  padding bytes of the key \<^verbatim>\<open>ip_acct\<close> builds.
\<close>

section \<open>State\<close>

record 'w packet_collector =
  pc_core :: core_users
  pc_time :: func_time
  pc_ip :: func_ip
  pc_hooks :: 'w

record packet_env =
  mem_time :: "bool \<times> bool \<times> bool"
  mem_ip :: "bool \<times> bool \<times> bool"
  key_pad :: "16 word \<times> 16 word"

text \<open>The result structure of a packet; a hook that leaves another kind of structure behind the pointer has corrupted it.\<close>

fun packet_data_of :: "ret_info \<Rightarrow> PACKET_DATA_INFO option" where
  "packet_data_of (RPacket pd) = Some pd"
| "packet_data_of _ = None"

section \<open>One packet\<close>

text \<open>
  The calls both collectors make for a packet: whether it passed authentication and authorization, the structure
  \<^verbatim>\<open>packet_data\<close> they keep across iterations, and the new state.
\<close>

definition account_packet ::
  "'w hook_call \<Rightarrow> packet_env \<Rightarrow> PACKET_INFO \<Rightarrow> IP_size \<Rightarrow> PACKET_DATA_INFO \<Rightarrow> 'w packet_collector \<Rightarrow>
   (bool \<times> PACKET_DATA_INFO \<times> 'w packet_collector) option" where
  "account_packet call env packet_info e_len packet_data pc = do {
     (auth, ret1, w1) \<leftarrow> users_auth call SERVICE_TRAFFIC (APacket packet_info) 1 (RPacket packet_data) (pc_core pc) (pc_hooks pc);
     pd1 \<leftarrow> packet_data_of ret1;
     if auth \<noteq> 1 then Some (False, pd1, pc\<lparr>pc_hooks := w1\<rparr>)
     else do {
       (autz, ret2, w2) \<leftarrow> users_autz call SERVICE_TRAFFIC (APacket packet_info) 1 (RPacket (pd1\<lparr>pd_len := e_len\<rparr>)) (pc_core pc) w1;
       pd2 \<leftarrow> packet_data_of ret2;
       if autz \<noteq> 1 then Some (False, pd2, pc\<lparr>pc_hooks := w2\<rparr>)
       else do {
         (_, ret3, core, w3) \<leftarrow> users_acct call SERVICE_TRAFFIC (APacket packet_info) 1 (RPacket pd2) (pc_core pc) w2;
         pd3 \<leftarrow> packet_data_of ret3;
         (_, time) \<leftarrow> time_acct (mem_time env) pd3 (pc_time pc);
         (_, ip) \<leftarrow> ip_acct (mem_ip env) (key_pad env) packet_info pd3 (pc_ip pc);
         Some (True, pd3, \<lparr>pc_core = core, pc_time = time, pc_ip = ip, pc_hooks = w3\<rparr>)
       }
     }
   }"

section \<open>The netfilter collector\<close>

datatype verdict = NF_DROP | NF_ACCEPT

text \<open>What \<^verbatim>\<open>ipq_read\<close> delivers: nothing (a timeout or an interrupted call), an error, a packet with its number, or another message.\<close>

datatype ipq_event = IPQ_NONE | IPQ_ERROR | IPQM_PACKET nat ipq_packet_msg packet_env | IPQM_OTHER

record 'q ipq_lib =
  ipq_set_verdict :: "nat \<Rightarrow> verdict \<Rightarrow> 'q \<Rightarrow> int \<times> 'q"

record ('w, 'q) ipq_state =
  iq_collector :: "'w packet_collector"
  iq_data :: PACKET_DATA_INFO
  iq_queue :: 'q

text \<open>Opening the queue: \<^verbatim>\<open>modprobe\<close> is tried once when the mode cannot be set.\<close>

definition thr_ipq_open :: "bool \<Rightarrow> int \<Rightarrow> int \<Rightarrow> int \<Rightarrow> bool" where
  "thr_ipq_open handle mode1 modprobe mode2 =
     (if \<not> handle then False
      else if mode1 < 0 then (if modprobe = 0 then \<not> mode2 < 0 else False)
      else True)"

text \<open>One iteration of the loop; the flag tells whether the thread goes on.\<close>

definition thr_ipq_step ::
  "'w hook_call \<Rightarrow> 'q ipq_lib \<Rightarrow> ipq_event \<Rightarrow> ('w, 'q) ipq_state \<Rightarrow> (bool \<times> ('w, 'q) ipq_state) option" where
  "thr_ipq_step call lib event st =
     (case event of
        IPQ_NONE \<Rightarrow> Some (True, st)
      | IPQ_ERROR \<Rightarrow> Some (True, st)
      | IPQM_OTHER \<Rightarrow> Some (True, st)
      | IPQM_PACKET packet_id message_ipq env \<Rightarrow> do {
          (e_len, packet_info) \<leftarrow> ipq_grep_packet message_ipq;
          (passed, packet_data, pc) \<leftarrow> account_packet call env packet_info e_len (iq_data st) (iq_collector st);
          let (_, q1) = ipq_set_verdict lib packet_id (if passed then NF_ACCEPT else NF_DROP) (iq_queue st);
          let (status, q2) = ipq_set_verdict lib packet_id NF_ACCEPT q1;
          Some (\<not> status < 0, \<lparr>iq_collector = pc, iq_data = packet_data, iq_queue = q2\<rparr>)
        })"

fun thr_ipq_loop ::
  "'w hook_call \<Rightarrow> 'q ipq_lib \<Rightarrow> ipq_event list \<Rightarrow> ('w, 'q) ipq_state \<Rightarrow> ('w, 'q) ipq_state option" where
  "thr_ipq_loop call lib [] st = Some st"
| "thr_ipq_loop call lib (event # es) st = do {
     (go, st1) \<leftarrow> thr_ipq_step call lib event st;
     if go then thr_ipq_loop call lib es st1 else Some st1
   }"

definition thr_ipq ::
  "'w hook_call \<Rightarrow> 'q ipq_lib \<Rightarrow> bool \<Rightarrow> int \<Rightarrow> int \<Rightarrow> int \<Rightarrow> ipq_event list \<Rightarrow> ('w, 'q) ipq_state \<Rightarrow> ('w, 'q) ipq_state option" where
  "thr_ipq call lib handle mode1 modprobe mode2 es st =
     (if thr_ipq_open handle mode1 modprobe mode2 then thr_ipq_loop call lib es st else Some st)"

text \<open>
  Loading the module. \<open>oks\<close>: whether the attributes of the thread are initialised, its stack size is set, the
  thread is created, the tables of \<^verbatim>\<open>time_init\<close> and \<^verbatim>\<open>ip_init\<close> are allocated. The result
  tells also whether the thread runs.
\<close>

record load_oks =
  attr_ok :: bool
  stack_ok :: bool
  thread_ok :: bool
  time_ok :: bool
  ip_ok :: bool

record aggregation_conf =
  server_api :: bool
  sched_api :: bool
  time_timeout :: int
  time_group_timeout :: int
  ip_timeout :: int

definition load_packet_collector ::
  "bool \<Rightarrow> load_oks \<Rightarrow> aggregation_conf \<Rightarrow> 's STORE_API \<Rightarrow> 'w packet_collector \<Rightarrow> 's \<Rightarrow>
   (gboolean \<times> bool \<times> 'w packet_collector \<times> registration list \<times> 's) option" where
  "load_packet_collector ok oks conf store pc w =
     (let (_, w1) = check_netfilter_tables ok store w
      in if \<not> attr_ok oks \<or> \<not> stack_ok oks \<or> \<not> thread_ok oks then Some (0, False, pc, [], w1)
         else do {
           (_, time, regs1) \<leftarrow> time_init (time_ok oks) (server_api conf) (sched_api conf) (time_timeout conf) (time_group_timeout conf) (pc_time pc);
           (_, ip, regs2) \<leftarrow> ip_init (ip_ok oks) (server_api conf) (sched_api conf) (ip_timeout conf) (pc_ip pc);
           Some (1, True, pc\<lparr>pc_time := time, pc_ip := ip\<rparr>, regs1 @ regs2, w1)
         })"

section \<open>The pcap collector\<close>

record pcap_packet =
  pcap_bytes :: "byte list"
  pcap_len :: IP_size
  pcap_env :: packet_env

text \<open>
  The fields taken from a captured frame; \<open>pcap_bytes\<close> are the bytes captured, \<open>pcap_len\<close> is
  the length of the frame on the wire. The MAC address is not assigned, so it is that of the structure before. The
  transport header is expected right behind an IP header of 20 bytes.
\<close>

definition pcap_grep_packet :: "pcap_packet \<Rightarrow> PACKET_INFO \<Rightarrow> (IP_size \<times> PACKET_INFO) option" where
  "pcap_grep_packet pk packet_info = do {
     let buffer = pcap_bytes pk;
     ip_off \<leftarrow> get_be16 buffer (14 + 6);
     ip_p \<leftarrow> get_u8 buffer (14 + 9);
     (src_port, dest_port) \<leftarrow>
       (if ip_off AND (IP_MF OR IP_OFFMASK) \<noteq> 0 then Some (0, 0)
        else if ip_p = IPPROTO_TCP then do {
          th_sport \<leftarrow> get_be16 buffer (14 + 20);
          th_dport \<leftarrow> get_be16 buffer (14 + 20 + 2);
          Some (th_sport, th_dport)
        }
        else if ip_p = IPPROTO_UDP then do {
          uh_sport \<leftarrow> get_be16 buffer (14 + 20);
          uh_dport \<leftarrow> get_be16 buffer (14 + 20 + 2);
          Some (uh_sport, uh_dport)
        }
        else Some (0, 0));
     src \<leftarrow> get_addr buffer (14 + 12);
     dst \<leftarrow> get_addr buffer (14 + 16);
     Some (pcap_len pk - 14,
           packet_info\<lparr>pi_proto := ip_p, pi_src := src, pi_dest := dst, pi_src_port := src_port, pi_dest_port := dest_port\<rparr>)
   }"

record 'w pcap_state =
  pp_collector :: "'w packet_collector"
  pp_info :: PACKET_INFO
  pp_data :: PACKET_DATA_INFO

text \<open>\<open>None\<close> as an event is a call of \<^verbatim>\<open>pcap_next\<close> without a packet.\<close>

definition thr_pcap_step :: "'w hook_call \<Rightarrow> pcap_packet option \<Rightarrow> 'w pcap_state \<Rightarrow> 'w pcap_state option" where
  "thr_pcap_step call event st =
     (case event of
        None \<Rightarrow> Some st
      | Some pk \<Rightarrow> do {
          (e_len, packet_info) \<leftarrow> pcap_grep_packet pk (pp_info st);
          (_, packet_data, pc) \<leftarrow> account_packet call (pcap_env pk) packet_info e_len (pp_data st) (pp_collector st);
          Some \<lparr>pp_collector = pc, pp_info = packet_info, pp_data = packet_data\<rparr>
        })"

fun thr_pcap_loop :: "'w hook_call \<Rightarrow> pcap_packet option list \<Rightarrow> 'w pcap_state \<Rightarrow> 'w pcap_state option" where
  "thr_pcap_loop call [] st = Some st"
| "thr_pcap_loop call (event # es) st = do { st1 \<leftarrow> thr_pcap_step call event st; thr_pcap_loop call es st1 }"

text \<open>
  The thread: the results of looking up the network, opening the device, compiling and setting the filter. A device that
  cannot be opened leads to \<^verbatim>\<open>pcap_close(NULL)\<close>.
\<close>

definition thr_pcap ::
  "'w hook_call \<Rightarrow> int \<Rightarrow> bool \<Rightarrow> int \<Rightarrow> int \<Rightarrow> pcap_packet option list \<Rightarrow> 'w pcap_state \<Rightarrow> 'w pcap_state option" where
  "thr_pcap call lookupnet handle compile setfilter es st =
     (if lookupnet = -1 then Some st
      else if \<not> handle then None
      else if compile = -1 \<or> setfilter = -1 then Some st
      else thr_pcap_loop call es st)"

text \<open>The loading function is a copy of the one of the netfilter collector, but for the thread it starts.\<close>

definition load_pcap ::
  "bool \<Rightarrow> load_oks \<Rightarrow> aggregation_conf \<Rightarrow> 's STORE_API \<Rightarrow> 'w packet_collector \<Rightarrow> 's \<Rightarrow>
   (gboolean \<times> bool \<times> 'w packet_collector \<times> registration list \<times> 's) option" where
  "load_pcap = load_packet_collector"

text \<open>
  Unloading the netfilter collector stops its thread; signalling and joining a thread that was never created is undefined. \<open>thread\<close>
  tells whether it was.
\<close>

definition unload_ipq :: "bool \<Rightarrow> bool \<Rightarrow> gboolean option" where
  "unload_ipq api thread = (if \<not> api \<or> \<not> thread then None else Some 1)"

text \<open>Unloading the pcap collector ends the aggregations; the netfilter collector leaves its aggregations as they are.\<close>

definition unload_pcap ::
  "'s STORE_API option \<Rightarrow> aggregation_conf \<Rightarrow> bool \<Rightarrow> bool \<Rightarrow> 'w packet_collector \<Rightarrow> 's \<Rightarrow>
   (gboolean \<times> 'w packet_collector \<times> registration list \<times> 's) option" where
  "unload_pcap store conf ok bok pc w = do {
     (_, ip, regs1, w1) \<leftarrow> ip_free store (server_api conf) (sched_api conf) ok bok (pc_ip pc) w;
     (_, time, regs2, w2) \<leftarrow> time_free store (server_api conf) (sched_api conf) (time_group_timeout conf) bok (pc_time pc) w1;
     Some (1, pc\<lparr>pc_ip := ip, pc_time := time\<rparr>, regs1 @ regs2, w2)
   }"

section \<open>The policy of a table\<close>

text \<open>The part of the user table the decisions depend on: everything but the counters.\<close>

definition uncounted_rule :: "NODE_RULE \<Rightarrow> NODE_RULE" where
  "uncounted_rule r = r\<lparr>nr_traffic := 0\<rparr>"

definition uncounted :: "NODE_USER \<Rightarrow> NODE_USER" where
  "uncounted u = u\<lparr>nu_traffic := 0, nu_id_rules := map uncounted_rule (nu_id_rules u)\<rparr>"

lemma uncounted_rule_simps [simp]:
  "nr_action (uncounted_rule r) = nr_action r" "nr_status (uncounted_rule r) = nr_status r" "nr_mask (uncounted_rule r) = nr_mask r"
  "covers_packet p d (uncounted_rule r) = covers_packet p d r"
  by (simp_all add: uncounted_rule_def covers_packet_def rule_covers_def split: prod.splits)

lemma uncounted_simps [simp]:
  "nu_id (uncounted u) = nu_id u" "nu_addr (uncounted u) = nu_addr u" "nu_status (uncounted u) = nu_status u"
  "nu_mac (uncounted u) = nu_mac u" "nu_id_rules (uncounted u) = map uncounted_rule (nu_id_rules u)"
  "mac_agrees (uncounted u) p = mac_agrees u p" "masks_ok (map uncounted_rule rs) = masks_ok rs"
  by (simp_all add: uncounted_def mac_agrees_def masks_ok_def list.pred_map comp_def)

lemma find_map: "find P (map f xs) = map_option f (find (\<lambda>x. P (f x)) xs)"
  by (induction xs) auto

lemma find_index_map: "find_index P (map f xs) = find_index (\<lambda>x. P (f x)) xs"
  by (induction xs) auto

lemma applied_uncounted:
  "applied (covers_packet p d) (map uncounted_rule rs) = map uncounted_rule (applied (covers_packet p d) rs)"
  by (induction rs) auto

text \<open>Whom a packet is attributed to and in which direction, and whether it may pass.\<close>

definition attributed :: "NODE_USER list \<Rightarrow> PACKET_INFO \<Rightarrow> (IP_flag \<times> IP_id) option" where
  "attributed us p =
     (case (find (\<lambda>u. nu_addr u = pi_src p \<and> nu_addr u \<noteq> 0) us, find (\<lambda>u. nu_addr u = pi_dest p \<and> nu_addr u \<noteq> 0) us) of
        (Some u, None) \<Rightarrow> Some (TRAFFIC_OUT, nu_id u)
      | (None, Some u) \<Rightarrow> Some (TRAFFIC_IN, nu_id u)
      | _ \<Rightarrow> None)"

definition booking :: "IP_flag \<times> IP_id \<Rightarrow> IP_size \<Rightarrow> PACKET_DATA_INFO" where
  "booking a len = \<lparr>pd_service = SERVICE_TRAFFIC, pd_direct = fst a, pd_id_user = snd a, pd_id_group_user = 0,
     pd_id_traffic_group = 0, pd_id_traffic_type = 0, pd_not_sum = 0, pd_len = len\<rparr>"

definition permitted :: "NODE_USER list \<Rightarrow> PACKET_INFO \<Rightarrow> bool" where
  "permitted us p = (case attributed us p of None \<Rightarrow> False | Some a \<Rightarrow> autz_allowed us p (booking a 0))"

text \<open>The user table after a packet has been charged to its user.\<close>

definition charge_table :: "PACKET_INFO \<Rightarrow> IP_size \<Rightarrow> NODE_USER list \<Rightarrow> NODE_USER list" where
  "charge_table p len us =
     (case attributed us p of None \<Rightarrow> us
      | Some (d, uid) \<Rightarrow>
          (case find_index (\<lambda>u. nu_id u = uid) us of None \<Rightarrow> us
           | Some i \<Rightarrow> us[i := charge_user (covers_packet p d) len (us ! i)]))"

lemma attributed_uncounted: "attributed (map uncounted us) p = attributed us p"
  by (auto simp: attributed_def find_map split: option.splits)

lemma permitted_uncounted: "permitted (map uncounted us) p = permitted us p"
  by (auto simp: permitted_def attributed_uncounted autz_allowed_def find_map applied_uncounted split: option.splits)

lemma uncounted_charge_user: "uncounted (charge_user P len u) = uncounted u"
proof -
  let ?c = "\<lambda>r. if P r then r\<lparr>nr_traffic := nr_traffic r + len\<rparr> else r" and ?n = "reach P (nu_id_rules u)"
  have c: "uncounted_rule (?c r) = uncounted_rule r" for r by (simp add: uncounted_rule_def)
  have "map uncounted_rule (map ?c (take ?n (nu_id_rules u)) @ drop ?n (nu_id_rules u)) =
      map uncounted_rule (take ?n (nu_id_rules u) @ drop ?n (nu_id_rules u))"
    unfolding map_append map_map comp_def c ..
  then show ?thesis by (simp add: uncounted_def charge_user_def)
qed

lemma uncounted_charge_table: "map uncounted (charge_table p len us) = map uncounted us"
proof -
  have "map uncounted (us[i := charge_user P len (us ! i)]) = map uncounted us" for i P
    unfolding map_update uncounted_charge_user by (metis list_update_beyond list_update_id map_update not_le)
  then show ?thesis by (auto simp: charge_table_def split: option.splits)
qed

lemma policy_kept:
  assumes "map uncounted us' = map uncounted us"
  shows "attributed us' = attributed us" "permitted us' = permitted us"
    "(\<forall>u \<in> set us'. masks_ok (nu_id_rules u)) = (\<forall>u \<in> set us. masks_ok (nu_id_rules u))"
proof -
  show "attributed us' = attributed us"
    using assms attributed_uncounted [of us] attributed_uncounted [of us'] by (simp add: fun_eq_iff)
  show "permitted us' = permitted us"
    using assms permitted_uncounted [of us] permitted_uncounted [of us'] by (simp add: fun_eq_iff)
  have "(\<forall>u \<in> set (map uncounted vs). masks_ok (nu_id_rules u)) = (\<forall>u \<in> set vs. masks_ok (nu_id_rules u))" for vs by simp
  then show "(\<forall>u \<in> set us'. masks_ok (nu_id_rules u)) = (\<forall>u \<in> set us. masks_ok (nu_id_rules u))"
    using assms by metis
qed

section \<open>One packet through the collector\<close>

definition env_ok :: "packet_env \<Rightarrow> bool" where
  "env_ok env \<longleftrightarrow> mem_time env = (True, True, True) \<and> mem_ip env = (True, True, True)"

definition collector_inv :: "'w packet_collector \<Rightarrow> bool" where
  "collector_inv pc \<longleftrightarrow> (\<exists>us. st_users (pc_core pc) = Some us \<and> (\<forall>u \<in> set us. masks_ok (nu_id_rules u))) \<and>
     extern_auth (pc_core pc) = [] \<and> time_inv (pc_time pc) \<and>
     (\<exists>t. ag_ip (pc_ip pc) = Some t \<and> tree_inv ip_compare t) \<and> \<not> ip_locked (pc_ip pc)"

definition collector_users :: "'w packet_collector \<Rightarrow> NODE_USER list" where
  "collector_users pc = the (st_users (pc_core pc))"

definition ip_entries :: "'w packet_collector \<Rightarrow> st_key \<Rightarrow> st_value option" where
  "ip_entries pc = tree_map (the (ag_ip (pc_ip pc)))"

lemma users_auth_attributed:
  assumes "st_users cu = Some us" and "extern_auth cu = []"
  shows "\<exists>pd'. users_auth call SERVICE_TRAFFIC (APacket p) 1 (RPacket pd) cu w = Some (if attributed us p = None then 0 else 1, RPacket pd', w) \<and>
           (\<forall>d uid. attributed us p = Some (d, uid) \<longrightarrow> pd_direct pd' = d \<and> pd_id_user pd' = uid)"
  using assms unfolding attributed_def find_owner [OF assms(1)]
  by (cases "addr_find cu (pi_src p)"; cases "addr_find cu (pi_dest p)") (auto simp: users_auth_def Let_def)

lemma autz_allowed_cong:
  "pd_direct pd = pd_direct pd' \<Longrightarrow> pd_id_user pd = pd_id_user pd' \<Longrightarrow> autz_allowed us p pd = autz_allowed us p pd'"
  unfolding autz_allowed_def by presburger

lemma users_autz_keeps:
  assumes "st_users cu = Some us" and "\<forall>u \<in> set us. masks_ok (nu_id_rules u)" and "hooks_keep call"
  shows "\<exists>flag pd' w'. users_autz call SERVICE_TRAFFIC (APacket p) 1 (RPacket pd) cu w = Some (flag, RPacket pd', w') \<and>
           (flag = 1 \<longrightarrow> autz_allowed us p pd) \<and> (extern_autz cu = [] \<longrightarrow> flag = (if autz_allowed us p pd then 1 else 0)) \<and>
           pd_direct pd' = pd_direct pd \<and> pd_id_user pd' = pd_id_user pd \<and> pd_len pd' = pd_len pd"
proof -
  obtain pd' where b: "autz_builtin SERVICE_TRAFFIC (APacket p) (RPacket pd) cu = Some (if autz_allowed us p pd then 1 else 0, RPacket pd')"
      and k: "pd_direct pd' = pd_direct pd" "pd_id_user pd' = pd_id_user pd" "pd_len pd' = pd_len pd"
    using autz_builtin_traffic [OF assms(1)] assms(2) by blast
  obtain flag r w' where h: "run_and_hooks call SERVICE_TRAFFIC (APacket p) 1 (RPacket pd') w (extern_autz cu) = (flag, r, w')"
    by (rule prod_cases3)
  then have "r = RPacket pd'" using run_and_hooks_keep [OF assms(3)] by (metis fst_conv snd_conv)
  with b k h assms(1) show ?thesis by (auto simp: users_autz_def)
qed

lemma users_acct_keeps:
  assumes us: "st_users cu = Some us" and i: "find_index (\<lambda>u. nu_id u = pd_id_user pd) us = Some i"
    and m: "masks_ok (nu_id_rules (us ! i))" and h: "hooks_keep call"
  shows "\<exists>rc w'. users_acct call SERVICE_TRAFFIC (APacket p) 1 (RPacket pd) cu w =
     Some (rc, RPacket pd, cu\<lparr>st_users := Some (us[i := charge_user (covers_packet p (pd_direct pd)) (pd_len pd) (us ! i)])\<rparr>, w')"
proof -
  obtain flag r w' where h': "run_and_hooks call SERVICE_TRAFFIC (APacket p) 1 (RPacket pd) w (extern_acct cu) = (flag, r, w')"
    by (rule prod_cases3)
  then have "r = RPacket pd" using run_and_hooks_keep [OF h] by (metis fst_conv snd_conv)
  with h' us acct_builtin_charges [OF us i m] show ?thesis by (auto simp: users_acct_def)
qed

lemma allowed_index: "autz_allowed us p pd \<Longrightarrow> \<exists>i. find_index (\<lambda>u. nu_id u = pd_id_user pd) us = Some i \<and> i < length us"
  by (auto simp: autz_allowed_def find_index_find dest: find_index_SomeD split: option.splits simp del: find_index_None_iff)

text \<open>What the three accounting calls do to a packet that passed.\<close>

lemma account_books:
  assumes inv: "collector_inv pc" and h: "hooks_keep call" and al: "autz_allowed (collector_users pc) p pd"
    and a: "attributed (collector_users pc) p = Some a" and k: "pd_direct pd = fst a" "pd_id_user pd = snd a"
  shows "\<exists>rc w3 core time ip. users_acct call SERVICE_TRAFFIC (APacket p) 1 (RPacket pd) (pc_core pc) w2 = Some (rc, RPacket pd, core, w3) \<and>
     time_acct (True, True, True) pd (pc_time pc) = Some (1, time) \<and> ip_acct (True, True, True) pad p pd (pc_ip pc) = Some (1, ip) \<and>
     collector_inv \<lparr>pc_core = core, pc_time = time, pc_ip = ip, pc_hooks = w3\<rparr> \<and> extern_autz core = extern_autz (pc_core pc) \<and>
     the (st_users core) = charge_table p (pd_len pd) (collector_users pc) \<and>
     (\<forall>u. time_pending time u = time_pending (pc_time pc) u + (if u = snd a then pd_len pd else 0)) \<and>
     (\<forall>k. tree_map (the (ag_ip ip)) k = add_packets (ip_entries pc k) (key_packets k [(pad, p, booking a (pd_len pd))]))"
proof -
  obtain us t where us: "st_users (pc_core pc) = Some us" "\<forall>u \<in> set us. masks_ok (nu_id_rules u)" "extern_auth (pc_core pc) = []"
      and ti: "time_inv (pc_time pc)" and t: "ag_ip (pc_ip pc) = Some t" "tree_inv ip_compare t" "\<not> ip_locked (pc_ip pc)"
    using inv by (auto simp: collector_inv_def)
  have cu: "collector_users pc = us" using us(1) by (simp add: collector_users_def)
  obtain i where i: "find_index (\<lambda>u. nu_id u = snd a) us = Some i" "i < length us" using allowed_index [OF al] k cu by auto
  let ?us = "us[i := charge_user (covers_packet p (fst a)) (pd_len pd) (us ! i)]"
  obtain rc w3 where a3: "users_acct call SERVICE_TRAFFIC (APacket p) 1 (RPacket pd) (pc_core pc) w2 =
      Some (rc, RPacket pd, (pc_core pc)\<lparr>st_users := Some ?us\<rparr>, w3)"
    using users_acct_keeps [OF us(1) _ _ h, of pd i p w2] i us(2) k by auto
  obtain ti' where a4: "time_acct (True, True, True) pd (pc_time pc) = Some (1, ti')" "time_inv ti'"
      "\<forall>u. time_pending ti' u = time_pending (pc_time pc) u + (if u = pd_id_user pd then pd_len pd else 0)"
    using time_acct_pending [OF ti] by blast
  let ?k = "acct_key pad p (booking a (pd_len pd))"
  have key: "acct_key pad p pd = ?k" using k by (simp add: acct_key_def booking_def)
  obtain t' where a5: "ip_acct (True, True, True) pad p pd (pc_ip pc) = Some (1, (pc_ip pc)\<lparr>ag_ip := Some t'\<rparr>)"
      "tree_inv ip_compare t'" "tree_map t' = (tree_map t)(?k \<mapsto> the (add_packets (tree_map t ?k) [(pad, p, pd)]))"
    using ip_acct_step [OF t(2,1,3), of pad p pd] unfolding key by blast
  have ct: "charge_table p (pd_len pd) us = ?us" using a i cu by (cases a) (simp add: charge_table_def)
  then have "collector_inv \<lparr>pc_core = (pc_core pc)\<lparr>st_users := Some ?us\<rparr>, pc_time = ti', pc_ip = (pc_ip pc)\<lparr>ag_ip := Some t'\<rparr>, pc_hooks = w3\<rparr>"
    using us t(3) a4(2) a5(2) policy_kept(3) [OF uncounted_charge_table [of p "pd_len pd" us]] by (auto simp: collector_inv_def)
  moreover have "\<forall>k. tree_map t' k = add_packets (ip_entries pc k) (key_packets k [(pad, p, booking a (pd_len pd))])"
    using a5(3) t(1) by (auto simp: ip_entries_def key_packets_def add_packets_def booking_def split: option.splits)
  ultimately show ?thesis using a3 a4(1,3) a5(1) ct cu k(2) by auto
qed

text \<open>What a packet that passed adds to the books.\<close>

definition packet_booked :: "packet_env \<Rightarrow> PACKET_INFO \<Rightarrow> IP_size \<Rightarrow> 'w packet_collector \<Rightarrow> 'w packet_collector \<Rightarrow> bool" where
  "packet_booked env p len pc pc' \<longleftrightarrow> collector_users pc' = charge_table p len (collector_users pc) \<and>
     (\<exists>a. attributed (collector_users pc) p = Some a \<and>
        (\<forall>u. time_pending (pc_time pc') u = time_pending (pc_time pc) u + (if u = snd a then len else 0)) \<and>
        (\<forall>k. ip_entries pc' k = add_packets (ip_entries pc k) (key_packets k [(key_pad env, p, booking a len)])))"

lemma account_packet_step:
  assumes inv: "collector_inv pc" and h: "hooks_keep call" and e: "env_ok env"
  shows "\<exists>passed pd' pc'. account_packet call env p len pd pc = Some (passed, pd', pc') \<and> collector_inv pc' \<and>
     extern_autz (pc_core pc') = extern_autz (pc_core pc) \<and>
     (passed \<longrightarrow> permitted (collector_users pc) p) \<and> (extern_autz (pc_core pc) = [] \<longrightarrow> passed = permitted (collector_users pc) p) \<and>
     (if passed then packet_booked env p len pc pc'
      else pc_core pc' = pc_core pc \<and> pc_time pc' = pc_time pc \<and> pc_ip pc' = pc_ip pc)"
proof -
  obtain us where us: "st_users (pc_core pc) = Some us" "\<forall>u \<in> set us. masks_ok (nu_id_rules u)" "extern_auth (pc_core pc) = []"
    using inv by (auto simp: collector_inv_def)
  have cu: "collector_users pc = us" using us(1) by (simp add: collector_users_def)
  obtain pd1 where a1: "users_auth call SERVICE_TRAFFIC (APacket p) 1 (RPacket pd) (pc_core pc) (pc_hooks pc) =
        Some (if attributed us p = None then 0 else 1, RPacket pd1, pc_hooks pc)"
      "\<forall>d uid. attributed us p = Some (d, uid) \<longrightarrow> pd_direct pd1 = d \<and> pd_id_user pd1 = uid"
    using users_auth_attributed [OF us(1,3), of call p pd "pc_hooks pc"] by (elim exE conjE)
  show ?thesis
  proof (cases "attributed us p")
    case None
    then have "account_packet call env p len pd pc = Some (False, pd1, pc)"
      using a1(1) by (simp add: account_packet_def)
    with None show ?thesis using inv by (auto simp: cu permitted_def)
  next
    case (Some a)
    let ?pd = "pd1\<lparr>pd_len := len\<rparr>"
    have k: "pd_direct ?pd = fst a" "pd_id_user ?pd = snd a" using a1(2) Some by (cases a; simp)+
    obtain flag pd2 w2 where a2: "users_autz call SERVICE_TRAFFIC (APacket p) 1 (RPacket ?pd) (pc_core pc) (pc_hooks pc) = Some (flag, RPacket pd2, w2)"
        "flag = 1 \<longrightarrow> autz_allowed us p ?pd" "extern_autz (pc_core pc) = [] \<longrightarrow> flag = (if autz_allowed us p ?pd then 1 else 0)"
        "pd_direct pd2 = pd_direct ?pd" "pd_id_user pd2 = pd_id_user ?pd" "pd_len pd2 = pd_len ?pd"
      using users_autz_keeps [OF us(1,2) h, of p ?pd "pc_hooks pc"] by (elim exE conjE)
    have perm: "permitted us p = autz_allowed us p ?pd"
      using Some k autz_allowed_cong [of ?pd "booking a 0" us p] by (simp add: permitted_def booking_def)
    show ?thesis
    proof (cases "flag = 1")
      case False
      then have "account_packet call env p len pd pc = Some (False, pd2, pc\<lparr>pc_hooks := w2\<rparr>)"
        using a1(1) a2(1) Some by (simp add: account_packet_def)
      with False a2(3) inv show ?thesis by (auto simp: cu perm collector_inv_def split: if_splits)
    next
      case True
      have al: "autz_allowed us p pd2" using True a2(2) autz_allowed_cong [OF a2(4,5)] by simp
      have k2: "pd_direct pd2 = fst a" "pd_id_user pd2 = snd a" "pd_len pd2 = len" using a2(4-6) k by auto
      obtain rc w3 core time ip where b:
          "users_acct call SERVICE_TRAFFIC (APacket p) 1 (RPacket pd2) (pc_core pc) w2 = Some (rc, RPacket pd2, core, w3)"
          "time_acct (True, True, True) pd2 (pc_time pc) = Some (1, time)"
          "ip_acct (True, True, True) (key_pad env) p pd2 (pc_ip pc) = Some (1, ip)"
          "collector_inv \<lparr>pc_core = core, pc_time = time, pc_ip = ip, pc_hooks = w3\<rparr>" "extern_autz core = extern_autz (pc_core pc)"
          "the (st_users core) = charge_table p (pd_len pd2) (collector_users pc)"
          "\<forall>u. time_pending time u = time_pending (pc_time pc) u + (if u = snd a then pd_len pd2 else 0)"
          "\<forall>k. tree_map (the (ag_ip ip)) k = add_packets (ip_entries pc k) (key_packets k [(key_pad env, p, booking a (pd_len pd2))])"
        using account_books [OF inv h _ _ k2(1,2), of p w2 "key_pad env"] al Some cu by (auto elim: exE conjE)
      have "account_packet call env p len pd pc = Some (True, pd2, \<lparr>pc_core = core, pc_time = time, pc_ip = ip, pc_hooks = w3\<rparr>)"
        using True Some a1(1) a2(1) b(1-3) e by (simp add: account_packet_def env_ok_def)
      moreover have "packet_booked env p len pc \<lparr>pc_core = core, pc_time = time, pc_ip = ip, pc_hooks = w3\<rparr>"
        using b(6-8) Some k2(3) cu by (auto simp: packet_booked_def collector_users_def ip_entries_def)
      ultimately show ?thesis using b(4,5) True a2(2) perm cu by auto
    qed
  qed
qed

section \<open>A sequence of packets\<close>

type_synonym seen_packet = "PACKET_INFO \<times> IP_size \<times> packet_env"

fun account_all ::
  "'w hook_call \<Rightarrow> seen_packet list \<Rightarrow> PACKET_DATA_INFO \<Rightarrow> 'w packet_collector \<Rightarrow> (bool list \<times> PACKET_DATA_INFO \<times> 'w packet_collector) option" where
  "account_all call [] pd pc = Some ([], pd, pc)"
| "account_all call ((p, len, env) # ps) pd pc = do {
     (passed, pd1, pc1) \<leftarrow> account_packet call env p len pd pc;
     (oks, pd2, pc2) \<leftarrow> account_all call ps pd1 pc1;
     Some (passed # oks, pd2, pc2)
   }"

text \<open>
  The books after the packets \<open>ps\<close> have been accounted: the user table is charged packet by packet, the traffic
  pending for a user has grown by the lengths of his packets, and the entries of the other aggregation group the packets.
\<close>

definition owned_bytes :: "NODE_USER list \<Rightarrow> IP_id \<Rightarrow> seen_packet list \<Rightarrow> IP_size" where
  "owned_bytes us u ps = sum_list (map (\<lambda>(p, len, env). if map_option snd (attributed us p) = Some u then len else 0) ps)"

definition flow_packets :: "NODE_USER list \<Rightarrow> seen_packet list \<Rightarrow> ip_packet list" where
  "flow_packets us ps = map (\<lambda>(p, len, env). (key_pad env, p, booking (the (attributed us p)) len)) ps"

definition books :: "seen_packet list \<Rightarrow> 'w packet_collector \<Rightarrow> 'w packet_collector \<Rightarrow> bool" where
  "books ps pc pc' \<longleftrightarrow>
     collector_users pc' = fold (\<lambda>(p, len, env). charge_table p len) ps (collector_users pc) \<and>
     (\<forall>u. time_pending (pc_time pc') u = time_pending (pc_time pc) u + owned_bytes (collector_users pc) u ps) \<and>
     (\<forall>k. ip_entries pc' k = add_packets (ip_entries pc k) (key_packets k (flow_packets (collector_users pc) ps)))"

lemma add_packets_append: "add_packets (add_packets v xs) ys = add_packets v (xs @ ys)"
  by (auto simp: add_packets_def algebra_simps split: option.splits)

lemma add_packets_Nil: "add_packets v [] = v"
  by (simp add: add_packets_def split: option.splits)

lemma books_unchanged: "pc_core pc' = pc_core pc \<Longrightarrow> pc_time pc' = pc_time pc \<Longrightarrow> pc_ip pc' = pc_ip pc \<Longrightarrow> books [] pc pc'"
  by (simp add: books_def owned_bytes_def flow_packets_def key_packets_def add_packets_Nil collector_users_def ip_entries_def)

lemma books_one: "packet_booked env p len pc pc' \<Longrightarrow> books [(p, len, env)] pc pc'"
  by (auto simp: packet_booked_def books_def owned_bytes_def flow_packets_def)

lemma uncounted_fold: "map uncounted (fold (\<lambda>(p, len, env). charge_table p len) ps us) = map uncounted us"
  by (induction ps arbitrary: us) (auto simp: uncounted_charge_table)

lemma books_append:
  assumes "books xs pc pc1" and "books ys pc1 pc2"
  shows "books (xs @ ys) pc pc2"
proof -
  have "map uncounted (collector_users pc1) = map uncounted (collector_users pc)"
    using assms(1) by (simp add: books_def uncounted_fold)
  from policy_kept(1) [OF this] have "owned_bytes (collector_users pc1) u ys = owned_bytes (collector_users pc) u ys"
      "flow_packets (collector_users pc1) ys = flow_packets (collector_users pc) ys" for u
    by (simp_all add: owned_bytes_def flow_packets_def)
  moreover have "owned_bytes us u (xs @ ys) = owned_bytes us u xs + owned_bytes us u ys"
      "key_packets k (flow_packets us (xs @ ys)) = key_packets k (flow_packets us xs) @ key_packets k (flow_packets us ys)" for us u k
    by (simp_all add: owned_bytes_def flow_packets_def key_packets_def)
  ultimately show ?thesis
    using assms by (simp add: books_def add_packets_append algebra_simps)
qed

lemma books_permitted: "books ps pc pc' \<Longrightarrow> permitted (collector_users pc') = permitted (collector_users pc)"
  by (rule policy_kept(2)) (simp add: books_def uncounted_fold)

text \<open>A packet passes only if the table permits it; it does pass if in addition no hook of another module is asked.\<close>

definition sound_decision :: "NODE_USER list \<Rightarrow> bool \<Rightarrow> seen_packet \<Rightarrow> bool \<Rightarrow> bool" where
  "sound_decision us no_hooks pk ok \<longleftrightarrow> (ok \<longrightarrow> permitted us (fst pk)) \<and> (no_hooks \<longrightarrow> ok = permitted us (fst pk))"

lemma account_all_books:
  assumes "collector_inv pc" and h: "hooks_keep call" and "\<forall>pk \<in> set ps. env_ok (snd (snd pk))"
  shows "\<exists>oks pd' pc'. account_all call ps pd pc = Some (oks, pd', pc') \<and> collector_inv pc' \<and>
     books (map fst (filter snd (zip ps oks))) pc pc' \<and>
     list_all2 (sound_decision (collector_users pc) (extern_autz (pc_core pc) = [])) ps oks"
  using assms(1,3)
proof (induction ps arbitrary: pd pc)
  case Nil
  then show ?case by (simp add: books_unchanged)
next
  case (Cons x ps)
  obtain p len env where x: "x = (p, len, env)" by (rule prod_cases3)
  have e: "env_ok env" using Cons.prems(2) x by simp
  obtain ok pd1 pc1 where 1: "account_packet call env p len pd pc = Some (ok, pd1, pc1)" "collector_inv pc1"
      "extern_autz (pc_core pc1) = extern_autz (pc_core pc)" "ok \<longrightarrow> permitted (collector_users pc) p"
      "extern_autz (pc_core pc) = [] \<longrightarrow> ok = permitted (collector_users pc) p"
      "if ok then packet_booked env p len pc pc1 else pc_core pc1 = pc_core pc \<and> pc_time pc1 = pc_time pc \<and> pc_ip pc1 = pc_ip pc"
    using account_packet_step [OF Cons.prems(1) h e, of p len pd] by (elim exE conjE)
  have b: "books (if ok then [x] else []) pc pc1" using 1(6) x books_one [of env p len pc pc1] books_unchanged [of pc1 pc] by (cases ok) simp_all
  have s: "sound_decision (collector_users pc1) n = sound_decision (collector_users pc) n" for n
    by (simp add: sound_decision_def books_permitted [OF b] fun_eq_iff)
  obtain oks pd' pc' where 2: "account_all call ps pd1 pc1 = Some (oks, pd', pc')" "collector_inv pc'"
      "books (map fst (filter snd (zip ps oks))) pc1 pc'"
      "list_all2 (sound_decision (collector_users pc) (extern_autz (pc_core pc) = [])) ps oks"
    using Cons.IH [OF 1(2), of pd1] Cons.prems(2) unfolding 1(3) s by (auto elim!: exE conjE)
  have "books (map fst (filter snd (zip (x # ps) (ok # oks)))) pc pc'"
    using books_append [OF b 2(3)] by (cases ok) simp_all
  moreover have "sound_decision (collector_users pc) (extern_autz (pc_core pc) = []) x ok"
    using 1(4,5) x by (simp add: sound_decision_def)
  moreover have "account_all call (x # ps) pd pc = Some (ok # oks, pd', pc')" using x 1(1) 2(1) by simp
  ultimately show ?case using 2(2,4) by (intro exI [of _ "ok # oks"] exI [of _ pd'] exI [of _ pc']) simp
qed

section \<open>The threads\<close>

fun ipq_packets :: "ipq_event list \<Rightarrow> (nat \<times> seen_packet) list" where
  "ipq_packets [] = []"
| "ipq_packets (IPQM_PACKET i msg env # es) =
     (case ipq_grep_packet msg of None \<Rightarrow> [] | Some (len, p) \<Rightarrow> [(i, p, len, env)]) @ ipq_packets es"
| "ipq_packets (IPQ_NONE # es) = ipq_packets es"
| "ipq_packets (IPQ_ERROR # es) = ipq_packets es"
| "ipq_packets (IPQM_OTHER # es) = ipq_packets es"

fun readable_event :: "ipq_event \<Rightarrow> bool" where
  "readable_event (IPQM_PACKET i msg env) = (ipq_grep_packet msg \<noteq> None \<and> env_ok env)"
| "readable_event _ = True"

text \<open>The contract of the queue library: a verdict is handed to the kernel, which keeps them in order.\<close>

definition verdict_queue :: "'q ipq_lib \<Rightarrow> ('q \<Rightarrow> (nat \<times> verdict) list) \<Rightarrow> bool" where
  "verdict_queue lib sent \<longleftrightarrow>
     (\<forall>i v q. 0 \<le> fst (ipq_set_verdict lib i v q) \<and> sent (snd (ipq_set_verdict lib i v q)) = sent q @ [(i, v)])"

definition verdict_pair :: "nat \<Rightarrow> bool \<Rightarrow> (nat \<times> verdict) list" where
  "verdict_pair i ok = [(i, if ok then NF_ACCEPT else NF_DROP), (i, NF_ACCEPT)]"

lemma thr_ipq_step_account:
  assumes q: "verdict_queue lib sent" and g: "ipq_grep_packet msg = Some (len, p)"
    and a: "account_packet call env p len (iq_data st) (iq_collector st) = Some (ok, pd, pc)"
  shows "\<exists>st'. thr_ipq_step call lib (IPQM_PACKET i msg env) st = Some (True, st') \<and> iq_collector st' = pc \<and> iq_data st' = pd \<and>
           sent (iq_queue st') = sent (iq_queue st) @ verdict_pair i ok"
proof -
  let ?v = "if ok then NF_ACCEPT else NF_DROP"
  obtain s1 q1 where 1: "ipq_set_verdict lib i ?v (iq_queue st) = (s1, q1)" by (rule prod.exhaust)
  obtain s2 q2 where 2: "ipq_set_verdict lib i NF_ACCEPT q1 = (s2, q2)" by (rule prod.exhaust)
  have "sent q1 = sent (iq_queue st) @ [(i, ?v)]" "0 \<le> s2" "sent q2 = sent q1 @ [(i, NF_ACCEPT)]"
    using q 1 2 unfolding verdict_queue_def by (metis fst_conv snd_conv)+
  then show ?thesis using g a 1 2 by (simp add: thr_ipq_step_def verdict_pair_def)
qed

lemma thr_ipq_loop_account:
  assumes q: "verdict_queue lib sent" and "\<forall>e \<in> set es. readable_event e"
    and "account_all call (map snd (ipq_packets es)) (iq_data st) (iq_collector st) = Some (oks, pd', pc')"
  shows "\<exists>st'. thr_ipq_loop call lib es st = Some st' \<and> iq_collector st' = pc' \<and>
           sent (iq_queue st') = sent (iq_queue st) @ concat (map2 verdict_pair (map fst (ipq_packets es)) oks)"
  using assms(2,3)
proof (induction es arbitrary: st oks)
  case (Cons e es)
  show ?case
  proof (cases e)
    case (IPQM_PACKET i msg env)
    then obtain len p where g: "ipq_grep_packet msg = Some (len, p)" using Cons.prems(1) by auto
    with Cons.prems(2) IPQM_PACKET obtain ok pd1 pc1 oks1 where
        a: "account_packet call env p len (iq_data st) (iq_collector st) = Some (ok, pd1, pc1)"
        "account_all call (map snd (ipq_packets es)) pd1 pc1 = Some (oks1, pd', pc')" "oks = ok # oks1"
      by (auto simp: bind_eq_Some_conv)
    obtain st1 where s: "thr_ipq_step call lib e st = Some (True, st1)" "iq_collector st1 = pc1" "iq_data st1 = pd1"
        "sent (iq_queue st1) = sent (iq_queue st) @ verdict_pair i ok"
      using thr_ipq_step_account [OF q g a(1)] IPQM_PACKET by auto
    show ?thesis using Cons.IH [of st1 oks1] Cons.prems(1) a(2,3) s g IPQM_PACKET by auto
  qed (use Cons in \<open>auto simp: thr_ipq_step_def\<close>)
qed simp

text \<open>The frames the pcap collector takes apart; the structure it fills keeps its MAC address.\<close>

fun pcap_packets :: "pcap_packet option list \<Rightarrow> PACKET_INFO \<Rightarrow> seen_packet list option" where
  "pcap_packets [] info = Some []"
| "pcap_packets (None # es) info = pcap_packets es info"
| "pcap_packets (Some pk # es) info = do {
     (len, p) \<leftarrow> pcap_grep_packet pk info;
     ps \<leftarrow> pcap_packets es p;
     Some ((p, len, pcap_env pk) # ps)
   }"

lemma thr_pcap_loop_account:
  assumes "pcap_packets es (pp_info st) = Some ps" and "account_all call ps (pp_data st) (pp_collector st) = Some (oks, pd', pc')"
  shows "\<exists>info. thr_pcap_loop call es st = Some \<lparr>pp_collector = pc', pp_info = info, pp_data = pd'\<rparr>"
  using assms
proof (induction es arbitrary: st ps oks)
  case Nil
  then show ?case by (cases st) simp
next
  case (Cons e es)
  show ?case
  proof (cases e)
    case (Some pk)
    obtain len p ps1 where g: "pcap_grep_packet pk (pp_info st) = Some (len, p)" "pcap_packets es p = Some ps1" "ps = (p, len, pcap_env pk) # ps1"
      using Cons.prems(1) Some by (auto simp: bind_eq_Some_conv)
    obtain ok pd1 pc1 oks1 where a: "account_packet call (pcap_env pk) p len (pp_data st) (pp_collector st) = Some (ok, pd1, pc1)"
        "account_all call ps1 pd1 pc1 = Some (oks1, pd', pc')"
      using Cons.prems(2) g(3) by (auto simp: bind_eq_Some_conv)
    show ?thesis
      using Cons.IH [of "\<lparr>pp_collector = pc1, pp_info = p, pp_data = pd1\<rparr>" ps1 oks1] Some g(1,2) a by (simp add: thr_pcap_step_def)
  qed (use Cons in \<open>simp add: thr_pcap_step_def\<close>)
qed

lemma get_shift:
  "length eth = k \<Longrightarrow> get_be16 (eth @ ip) (k + i) = get_be16 ip i"
  "length eth = k \<Longrightarrow> get_u8 (eth @ ip) (k + i) = get_u8 ip i"
  "length eth = k \<Longrightarrow> get_addr (eth @ ip) (k + i) = get_addr ip i"
  by (auto simp: get_be16_def get_u8_def get_addr_def nth_append)

lemma pcap_ipq_fields:
  assumes "length eth = 14" and "ip \<noteq> []" and "unat (ip ! 0 AND 0x0F) = 5"
  shows "pcap_grep_packet \<lparr>pcap_bytes = eth @ ip, pcap_len = n, pcap_env = env\<rparr> info =
     map_option (\<lambda>(len, p). (n - 14, p\<lparr>pi_mac := pi_mac info\<rparr>)) (ipq_grep_packet \<lparr>ipq_hw_addr = hw, ipq_data_len = m, ipq_payload = ip\<rparr>)"
proof -
  have hl: "get_u8 ip 0 = Some (ip ! 0)" using assms(2) by (simp add: get_u8_def)
  have p: "14 + 20 + 2 = 14 + (20 + 2 :: nat)" by simp
  show ?thesis
    unfolding pcap_grep_packet_def ipq_grep_packet_def Let_def pcap_packet.simps ipq_packet_msg.simps p get_shift [OF assms(1)]
    by (cases "get_be16 ip 6"; cases "get_u8 ip 9"; cases "get_be16 ip 20"; cases "get_be16 ip 22"; cases "get_addr ip 12"; cases "get_addr ip 16")
      (simp_all add: hl assms(3))
qed

section \<open>Properties\<close>

text \<open>
  C3 (netfilter collector). While the queue library delivers verdicts in order, the hooks of other modules leave the packet
  structures alone and the allocations succeed, the thread decides on every complete packet the queue delivers without
  a fault. A packet is first answered with \<open>NF_ACCEPT\<close> only if the user table permits it, and without hooks exactly
  then; it is accounted in the user table, in the time and in the flow aggregation exactly when it was accepted. Every packet is
  answered a second time with \<open>NF_ACCEPT\<close>.
\<close>

theorem thr_ipq_books:
  assumes "verdict_queue lib sent" and "\<forall>e \<in> set es. readable_event e" and "collector_inv (iq_collector st)" and "hooks_keep call"
  shows "\<exists>oks st'. thr_ipq_loop call lib es st = Some st' \<and> collector_inv (iq_collector st') \<and>
     list_all2 (sound_decision (collector_users (iq_collector st)) (extern_autz (pc_core (iq_collector st)) = [])) (map snd (ipq_packets es)) oks \<and>
     sent (iq_queue st') = sent (iq_queue st) @ concat (map2 verdict_pair (map fst (ipq_packets es)) oks) \<and>
     books (map fst (filter snd (zip (map snd (ipq_packets es)) oks))) (iq_collector st) (iq_collector st')"
proof -
  have "\<forall>pk \<in> set (map snd (ipq_packets es)). env_ok (snd (snd pk))"
    using assms(2) by (induction es rule: ipq_packets.induct) (auto split: option.splits)
  from account_all_books [OF assms(3,4) this, of "iq_data st"] show ?thesis
    using thr_ipq_loop_account [OF assms(1,2)] by blast
qed

text \<open>An example: a packet of user 7 to the network he may reach, and one between strangers.\<close>

definition ex_msg :: "byte list \<Rightarrow> ipq_packet_msg" where
  "ex_msg src = \<lparr>ipq_hw_addr = [0, 1, 2, 3, 4, 5, 0, 0], ipq_data_len = 60,
     ipq_payload = [0x45, 0, 0, 60, 0, 0, 0x40, 0, 64, 6, 0, 0] @ src @ [192, 168, 0, 1, 0x9C, 0x40, 0, 80]\<rparr>"

definition ex_env :: packet_env where
  "ex_env = \<lparr>mem_time = (True, True, True), mem_ip = (True, True, True), key_pad = (0, 0)\<rparr>"

definition ex_collector :: "unit packet_collector" where
  "ex_collector = \<lparr>pc_core = ex_core, pc_time = empty_time, pc_ip = empty_ip, pc_hooks = ()\<rparr>"

definition ex_ipq :: "(nat \<times> verdict) list ipq_lib" where
  "ex_ipq = \<lparr>ipq_set_verdict = (\<lambda>i v q. (0, q @ [(i, v)]))\<rparr>"

lemma ex_msg_packet:
  "ipq_grep_packet (ex_msg [10, 0, 0, 7]) = Some (60, ex_packet\<lparr>pi_mac := ''00:01:02:03:04:05'' @ [NUL]\<rparr>)"
  "ipq_grep_packet (ex_msg [10, 9, 9, 9]) = Some (60, ex_packet\<lparr>pi_mac := ''00:01:02:03:04:05'' @ [NUL], pi_src := 0x0909090A\<rparr>)"
  by code_simp+

lemma ex_collector_inv: "collector_inv ex_collector" "collector_users ex_collector = ex_users" "extern_autz (pc_core ex_collector) = []"
  using empty_ip_inv ex_masks empty_time_inv(1)
  by (auto simp: collector_inv_def collector_users_def ex_collector_def ex_core_def empty_ip_def)

lemma ex_attributed:
  "attributed ex_users (ex_packet\<lparr>pi_mac := m\<rparr>) = Some (TRAFFIC_OUT, 7)"
  "attributed ex_users (ex_packet\<lparr>pi_mac := m, pi_src := 0x0909090A\<rparr>) = None"
  by (simp_all add: attributed_def ex_users_def ex_packet_def zero_user_def)

lemma ex_permitted:
  "permitted ex_users (ex_packet\<lparr>pi_mac := m\<rparr>)" "\<not> permitted ex_users (ex_packet\<lparr>pi_mac := m, pi_src := 0x0909090A\<rparr>)"
proof -
  have "covers_packet (ex_packet\<lparr>pi_mac := m\<rparr>) TRAFFIC_OUT ex_rule"
    using ex_covers by (simp add: covers_packet_def peer_def ex_pd_def types_h_defs)
  moreover have "find (\<lambda>u. nu_id u = 7) ex_users = Some (zero_user\<lparr>nu_id := 7, nu_addr := 0x0700000A, nu_status := 1, nu_id_rules := [ex_rule]\<rparr>)"
    by (simp add: ex_users_def zero_user_def)
  ultimately show "permitted ex_users (ex_packet\<lparr>pi_mac := m\<rparr>)"
    using ex_flags by (simp add: permitted_def ex_attributed autz_allowed_def booking_def mac_agrees_def zero_user_def ex_rule_def numeral_eq_Suc)
qed (simp add: permitted_def ex_attributed)

theorem thr_ipq_books_witness:
  "\<exists>st'. thr_ipq_loop (\<lambda>f s d r w. (1, r, w)) ex_ipq
       [IPQM_PACKET 1 (ex_msg [10, 0, 0, 7]) ex_env, IPQ_NONE, IPQM_PACKET 2 (ex_msg [10, 9, 9, 9]) ex_env]
       \<lparr>iq_collector = ex_collector, iq_data = ex_pd, iq_queue = []\<rparr> = Some st' \<and>
     iq_queue st' = [(1, NF_ACCEPT), (1, NF_ACCEPT), (2, NF_DROP), (2, NF_ACCEPT)] \<and>
     time_pending (pc_time (iq_collector st')) 7 = 60"
proof -
  let ?es = "[IPQM_PACKET 1 (ex_msg [10, 0, 0, 7]) ex_env, IPQ_NONE, IPQM_PACKET 2 (ex_msg [10, 9, 9, 9]) ex_env]"
  let ?st = "\<lparr>iq_collector = ex_collector, iq_data = ex_pd, iq_queue = []\<rparr>"
  have 1: "verdict_queue ex_ipq (\<lambda>q. q)" by (simp add: verdict_queue_def ex_ipq_def)
  have 2: "\<forall>e \<in> set ?es. readable_event e" by (simp add: ex_msg_packet env_ok_def ex_env_def)
  have 3: "collector_inv (iq_collector ?st)" "hooks_keep (\<lambda>f s d r w. (1, r, w :: unit))" using ex_collector_inv by (simp_all add: hooks_keep_def)
  from thr_ipq_books [OF 1 2 3] obtain oks st' where
      r: "thr_ipq_loop (\<lambda>f s d r w. (1, r, w)) ex_ipq ?es ?st = Some st'"
      "list_all2 (sound_decision ex_users True) (map snd (ipq_packets ?es)) oks"
      "iq_queue st' = concat (map2 verdict_pair (map fst (ipq_packets ?es)) oks)"
      "books (map fst (filter snd (zip (map snd (ipq_packets ?es)) oks))) ex_collector (iq_collector st')"
    by (auto simp: ex_collector_inv simp del: ipq_packets.simps)
  have oks: "oks = [True, False]"
    using r(2) ex_permitted by (auto simp: ex_msg_packet list_all2_Cons1 sound_decision_def)
  have "time_pending (pc_time ex_collector) 7 = 0" using empty_time_inv by (simp add: ex_collector_def)
  then show ?thesis
    using r(1,3,4) by (auto simp: oks ex_msg_packet verdict_pair_def books_def owned_bytes_def ex_collector_inv ex_attributed)
qed

text \<open>The kernel acts on the first verdict it receives for a packet, so a packet the table refuses is dropped.\<close>

lemma first_verdict: "map_of (verdict_pair i ok) i = Some (if ok then NF_ACCEPT else NF_DROP)"
  by (simp add: verdict_pair_def)

text \<open>
  C38 (the two collectors). On a frame that carries an IP packet whose header has no options, the pcap collector reads the same
  addresses, protocol and ports as the netfilter collector reads from the packet, and the length without the link header;
  it does not read the MAC address.
\<close>

theorem pcap_equals_ipq:
  assumes "length eth = 14" and "ip \<noteq> []" and "unat (ip ! 0 AND 0x0F) = 5"
  shows "pcap_grep_packet \<lparr>pcap_bytes = eth @ ip, pcap_len = n + 14, pcap_env = env\<rparr> info =
     map_option (\<lambda>(len, p). (len, p\<lparr>pi_mac := pi_mac info\<rparr>)) (ipq_grep_packet \<lparr>ipq_hw_addr = hw, ipq_data_len = n, ipq_payload = ip\<rparr>)"
proof -
  have "fst lp = n" if "ipq_grep_packet \<lparr>ipq_hw_addr = hw, ipq_data_len = n, ipq_payload = ip\<rparr> = Some lp" for lp
    using that by (auto simp: ipq_grep_packet_def Let_def bind_eq_Some_conv)
  then show ?thesis
    unfolding pcap_ipq_fields [OF assms, of "n + 14" env info hw n]
    by (cases "ipq_grep_packet \<lparr>ipq_hw_addr = hw, ipq_data_len = n, ipq_payload = ip\<rparr>") auto
qed

theorem pcap_equals_ipq_witness:
  "pcap_grep_packet \<lparr>pcap_bytes = replicate 14 0 @ ipq_payload (ex_msg [10, 0, 0, 7]), pcap_len = 74, pcap_env = ex_env\<rparr> ex_packet =
     Some (60, ex_packet)"
proof -
  let ?ip = "ipq_payload (ex_msg [10, 0, 0, 7])" and ?hw = "[0, 1, 2, 3, 4, 5, 0, 0 :: byte]"
  have "ipq_grep_packet \<lparr>ipq_hw_addr = ?hw, ipq_data_len = 60, ipq_payload = ?ip\<rparr> = Some (60, ex_packet\<lparr>pi_mac := ''00:01:02:03:04:05'' @ [NUL]\<rparr>)"
    using ex_msg_packet(1) by (simp add: ex_msg_def)
  moreover have "?ip \<noteq> []" "unat (?ip ! 0 AND 0x0F) = 5" by (simp_all add: ex_msg_def)
  ultimately show ?thesis
    using pcap_equals_ipq [of "replicate 14 0" ?ip 60 ex_env ex_packet ?hw] by simp
qed

text \<open>With options in the header the pcap collector takes the ports from the options.\<close>

lemma pcap_options_ports:
  "map_option (\<lambda>(_, p). (pi_src_port p, pi_dest_port p)) (ipq_grep_packet \<lparr>ipq_hw_addr = replicate 8 0, ipq_data_len = 64, ipq_payload = ip\<rparr>) =
     Some (8080, 80) \<and>
   map_option (\<lambda>(_, p). (pi_src_port p, pi_dest_port p)) (pcap_grep_packet \<lparr>pcap_bytes = replicate 14 0 @ ip, pcap_len = 78, pcap_env = ex_env\<rparr> ex_packet) =
     Some (0x0101, 0x0101)"
  if "ip = [0x46, 0, 0, 64, 0, 0, 0x40, 0, 64, 6, 0, 0, 10, 0, 0, 7, 192, 168, 0, 1, 1, 1, 1, 1, 0x1F, 0x90, 0, 80]" for ip
  unfolding that by code_simp

text \<open>The thread that listens on the device keeps the same books for the packets it takes apart.\<close>

lemma thr_pcap_books:
  assumes "pcap_packets es (pp_info st) = Some ps" and "\<forall>pk \<in> set ps. env_ok (snd (snd pk))"
    and "collector_inv (pp_collector st)" and "hooks_keep call"
  shows "\<exists>oks st'. thr_pcap call 0 True 0 0 es st = Some st' \<and> collector_inv (pp_collector st') \<and>
     list_all2 (sound_decision (collector_users (pp_collector st)) (extern_autz (pc_core (pp_collector st)) = [])) ps oks \<and>
     books (map fst (filter snd (zip ps oks))) (pp_collector st) (pp_collector st')"
  using account_all_books [OF assms(3,4,2), of "pp_data st"] thr_pcap_loop_account [OF assms(1)]
  by (fastforce simp: thr_pcap_def)

text \<open>A device that cannot be opened and a frame shorter than the headers are faults.\<close>

lemma thr_pcap_faults:
  "lookupnet \<noteq> -1 \<Longrightarrow> thr_pcap call lookupnet False c f es st = None"
  "length (pcap_bytes pk) < 34 \<Longrightarrow> thr_pcap_step call (Some pk) st = None"
proof -
  assume "length (pcap_bytes pk) < 34"
  then have "get_addr (pcap_bytes pk) 30 = None" by (simp add: get_addr_def)
  then have "pcap_grep_packet pk info = None" for info
    by (cases "pcap_grep_packet pk info") (auto simp: pcap_grep_packet_def Let_def bind_eq_Some_conv)
  then show "thr_pcap_step call (Some pk) st = None" by (simp add: thr_pcap_step_def)
qed (simp add: thr_pcap_def)

end
