(* ===== verification/Squid_Collector.thy ===== *)
theory Squid_Collector
  imports Func_Squid Url_Policy
begin

text \<open>
  The collector of proxy requests (\<^verbatim>\<open>ipstat_collect_squid/main.c\<close>). One thread reads the access log of the
  proxy line by line from a named pipe, accounts the requests that were fetched from outside and remembers their URLs; a
  pool of threads answers the redirector of the proxy, which asks before a request is served. Both authenticate and
  authorize the request with the core and with the policies on URLs.

  What the pipe and the sockets deliver is an argument. \<open>None\<close> is undefined behaviour. Setting up the
  listening socket and the copy of the log (\<^verbatim>\<open>save_copy\<close>) are operating system work and not modelled.
\<close>

section \<open>State\<close>

record 'w squid_collector =
  sc_core :: core_users
  sc_url :: url_policy
  sc_squid :: func_squid
  sc_hooks :: 'w
  total_auth_query :: IP_size
  success_auth_query :: IP_size
  failed_auth_query :: IP_size
  status_fifo :: gboolean

fun squid_data_of :: "ret_info \<Rightarrow> SQUID_DATA_INFO option" where
  "squid_data_of (RSquid sd) = Some sd"
| "squid_data_of _ = None"

text \<open>Authentication, authorization and the policy on the URL: whether a request may be served.\<close>

definition squid_check ::
  "'w hook_call \<Rightarrow> regex_lib \<Rightarrow> SQUID_INFO \<Rightarrow> SQUID_DATA_INFO \<Rightarrow> string \<Rightarrow> 'w squid_collector \<Rightarrow>
   (bool \<times> SQUID_DATA_INFO \<times> 'w squid_collector) option" where
  "squid_check call re squid_info squid_data url st = do {
     (auth, ret1, w1) \<leftarrow> users_auth call SERVICE_SQUID (ASquid squid_info) 1 (RSquid squid_data) (sc_core st) (sc_hooks st);
     sd1 \<leftarrow> squid_data_of ret1;
     if auth \<noteq> 1 then Some (False, sd1, st\<lparr>sc_hooks := w1\<rparr>)
     else do {
       (autz, ret2, w2) \<leftarrow> users_autz call SERVICE_SQUID (ASquid squid_info) 1 ret1 (sc_core st) w1;
       sd2 \<leftarrow> squid_data_of ret2;
       if autz \<noteq> 1 then Some (False, sd2, st\<lparr>sc_hooks := w2\<rparr>)
       else do {
         res \<leftarrow> autz_url_policy re (sd_id_user sd2) url (sc_url st);
         Some (res = 1, sd2, st\<lparr>sc_hooks := w2\<rparr>)
       }
     }
   }"

section \<open>The access log\<close>

record squid_env =
  dup_ok :: bool
  host_ok :: bool
  node_ok :: "bool \<times> bool"

text \<open>
  One line of the log. \<open>argv\<close> has room for 20 tokens, but the parser is told to store one more. The
  structures \<^verbatim>\<open>squid_info\<close> and \<^verbatim>\<open>squid_data\<close> keep their values from line to line.
\<close>

definition acct_squid_line ::
  "'w hook_call \<Rightarrow> regex_lib \<Rightarrow> squid_env \<Rightarrow> string \<Rightarrow> SQUID_INFO \<Rightarrow> SQUID_DATA_INFO \<Rightarrow> 'w squid_collector \<Rightarrow>
   (SQUID_INFO \<times> SQUID_DATA_INFO \<times> 'w squid_collector) option" where
  "acct_squid_line call re env buffer squid_info squid_data st =
     (if \<not> dup_ok env then Some (squid_info, squid_data, st)
      else let (argc, argv) = ip_parse_arg (cstr buffer) 20 '' ''
        in if argc > 20 then None
           else if argc < 7 then Some (squid_info, squid_data, st)
           else if \<not> sublist ''MISS'' (argv ! 3) then Some (squid_info, squid_data, st)
           else let info = squid_info\<lparr>si_ip := snd (hostbyip (host_ok env) (argv ! 2) (si_ip squid_info))\<rparr>;
                    data = squid_data\<lparr>sd_len := word_of_int (atoi (argv ! 4))\<rparr>
             in do {
               (passed, data1, st1) \<leftarrow> squid_check call re info data (argv ! 6) st;
               if \<not> passed then Some (info, data1, st1)
               else do {
                 (_, ret, core, w) \<leftarrow> users_acct call SERVICE_SQUID (ASquid info) 1 (RSquid data1) (sc_core st1) (sc_hooks st1);
                 data2 \<leftarrow> squid_data_of ret;
                 Some (info, data2,
                   st1\<lparr>sc_core := core, sc_hooks := w, sc_squid := snd (squid_acct (node_ok env) (argv ! 6) data2 (sc_squid st1))\<rparr>)
               }
             })"

text \<open>What \<^verbatim>\<open>fifo_read\<close> returns: a timeout, the end of the pipe or an error, or a line.\<close>

datatype fifo_event = FIFO_TIMEOUT | FIFO_END | FIFO_LINE squid_env string

fun acct_squid_read ::
  "'w hook_call \<Rightarrow> regex_lib \<Rightarrow> fifo_event list \<Rightarrow> SQUID_INFO \<Rightarrow> SQUID_DATA_INFO \<Rightarrow> 'w squid_collector \<Rightarrow>
   (SQUID_INFO \<times> SQUID_DATA_INFO \<times> 'w squid_collector) option" where
  "acct_squid_read call re [] info data st = Some (info, data, st)"
| "acct_squid_read call re (FIFO_TIMEOUT # es) info data st = acct_squid_read call re es info data st"
| "acct_squid_read call re (FIFO_END # es) info data st = Some (info, data, st)"
| "acct_squid_read call re (FIFO_LINE env buffer # es) info data st = do {
     (info1, data1, st1) \<leftarrow> acct_squid_line call re env buffer info data st;
     acct_squid_read call re es info1 data1 st1
   }"

text \<open>
  The thread opens the pipe again and again; \<open>None\<close> as a connection is a failure to open it. The list of
  connections ends when \<^verbatim>\<open>do_exit\<close> is set.
\<close>

fun thr_acct_squid ::
  "'w hook_call \<Rightarrow> regex_lib \<Rightarrow> fifo_event list option list \<Rightarrow> SQUID_INFO \<Rightarrow> SQUID_DATA_INFO \<Rightarrow> 'w squid_collector \<Rightarrow> 'w squid_collector option" where
  "thr_acct_squid call re [] info data st = Some (st\<lparr>status_fifo := 0\<rparr>)"
| "thr_acct_squid call re (None # cs) info data st = thr_acct_squid call re cs info data (st\<lparr>status_fifo := 0\<rparr>)"
| "thr_acct_squid call re (Some es # cs) info data st = do {
     (info1, data1, st1) \<leftarrow> acct_squid_read call re es info data (st\<lparr>status_fifo := 1\<rparr>);
     thr_acct_squid call re cs info1 data1 st1
   }"

section \<open>The redirector\<close>

text \<open>The splitter of this file, a copy of the one of \<^verbatim>\<open>server.c\<close>: a line of spaces only is copied from a null pointer.\<close>

definition squid_parse_arg :: "string \<Rightarrow> int \<Rightarrow> string list option" where
  "squid_parse_arg buffer max_tok =
     (if buffer = [] then Some []
      else case ip_strtok_r (Some buffer) '' '' [] of
        (None, _) \<Rightarrow> None
      | (Some ptr, save) \<Rightarrow> Some (parse_arg_loop [ptr] max_tok '' '' save))"

text \<open>
  \<open>rq_recv\<close> is what \<^verbatim>\<open>recv\<close> stores, \<open>None\<close> an error. The other fields are the results of
  the allocations and of \<^verbatim>\<open>shutdown\<close> and \<^verbatim>\<open>send\<close>.
\<close>

record redirect_request =
  rq_buffer_ok :: bool
  rq_recv :: "string option"
  rq_shutdown_ok :: bool
  rq_dup_ok :: bool
  rq_host_ok :: bool
  rq_send_ok :: bool

text \<open>The return value, what is sent to the client, and the state. The local structures are uninitialised.\<close>

definition thr_squid_clientredirector ::
  "'w hook_call \<Rightarrow> regex_lib \<Rightarrow> string \<Rightarrow> redirect_request \<Rightarrow> SQUID_INFO \<Rightarrow> SQUID_DATA_INFO \<Rightarrow> 'w squid_collector \<Rightarrow>
   (gboolean \<times> string list \<times> 'w squid_collector) option" where
  "thr_squid_clientredirector call re deny_url rq squid_info squid_data st =
     (if \<not> rq_buffer_ok rq then None
      else case rq_recv rq of
        None \<Rightarrow> Some (1, [], st)
      | Some msg \<Rightarrow>
          if \<not> rq_shutdown_ok rq then Some (1, [], st)
          else if 2048 \<le> length (cstr msg) then None
          else if \<not> rq_dup_ok rq then Some (0, [], st)
          else do {
            argv \<leftarrow> squid_parse_arg (cstr msg) 5;
            if length argv < 2 then Some (1, [], st)
            else do {
              let host = takeWhile (\<lambda>c. c \<noteq> CHR ''/'') (argv ! 1);
              let info = squid_info\<lparr>si_ip := snd (hostbyip (rq_host_ok rq) host (si_ip squid_info))\<rparr>;
              (passed, _, st1) \<leftarrow> squid_check call re info squid_data (argv ! 0) st;
              if passed then
                (if \<not> rq_send_ok rq then Some (1, [], st1)
                 else Some (1, [cstr msg], st1\<lparr>total_auth_query := total_auth_query st1 + 1, success_auth_query := success_auth_query st1 + 1\<rparr>))
              else
                (let st2 = st1\<lparr>total_auth_query := total_auth_query st1 + 1, failed_auth_query := failed_auth_query st1 + 1\<rparr>
                 in Some (1, if rq_send_ok rq then [cstr deny_url @ [CHR 0x0A]] else [], st2))
            }
          })"

section \<open>Loading and unloading\<close>

text \<open>
  The results of the calls that may fail: the buffer of the table check, the thread attributes, the stack size and
  the two threads. The policies are loaded and the threads started before the list of requests is initialised.
\<close>

record squid_load_oks =
  tables_ok :: bool
  url_tables_ok :: bool
  attr_init_ok :: bool
  stacksize_ok :: bool
  auth_thread_ok :: bool
  acct_thread_ok :: bool

definition load_squid ::
  "regex_lib \<Rightarrow> squid_load_oks \<Rightarrow> (nat \<Rightarrow> bool \<times> bool) \<Rightarrow> bool \<Rightarrow> bool \<Rightarrow> int \<Rightarrow> int \<Rightarrow> time_t \<Rightarrow> 's STORE_API \<Rightarrow> 'w squid_collector \<Rightarrow> 's \<Rightarrow>
   (gboolean \<times> 'w squid_collector \<times> registration list \<times> 's) option" where
  "load_squid re oks mem server sched url_timeout squid_timeout now store st w =
     (let (checked, w1) = check_squid_tables (tables_ok oks) store w
      in if checked \<noteq> 1 then Some (0, st, [], w1)
         else do {
           (_, url, regs1, w2) \<leftarrow> load_url_policy re (url_tables_ok oks) mem sched url_timeout now (Some store) (sc_url st) w1;
           let st1 = st\<lparr>sc_url := url\<rparr>;
           if \<not> attr_init_ok oks \<or> \<not> stacksize_ok oks \<or> \<not> auth_thread_ok oks \<or> \<not> acct_thread_ok oks then Some (0, st1, regs1, w2)
           else do {
             (done, sq, regs2) \<leftarrow> squid_init server sched squid_timeout (sc_squid st1);
             Some (if done \<noteq> 1 then 0 else 1, st1\<lparr>sc_squid := sq\<rparr>, regs1 @ regs2, w2)
           }
         })"

definition unload_squid ::
  "bool \<Rightarrow> bool \<Rightarrow> bool \<Rightarrow> 's STORE_API option \<Rightarrow> 'w squid_collector \<Rightarrow> 's \<Rightarrow> (gboolean \<times> 'w squid_collector \<times> registration list \<times> 's) option" where
  "unload_squid server sched bok store st w =
     (let (_, url, regs1) = unload_url_policy sched (sc_url st)
      in do {
        (_, sq, regs2, w1) \<leftarrow> squid_free store server sched bok (sc_squid st) w;
        Some (1, st\<lparr>sc_url := url, sc_squid := sq\<rparr>, regs1 @ regs2, w1)
      })"

section \<open>Who may request what\<close>

definition owner :: "NODE_USER list \<Rightarrow> IP_addr \<Rightarrow> NODE_USER option" where
  "owner us ip = find (\<lambda>u. nu_addr u = ip \<and> nu_addr u \<noteq> 0) us"

definition squid_allowed :: "NODE_USER list \<Rightarrow> IP_id \<Rightarrow> bool" where
  "squid_allowed us i =
     (case find (\<lambda>u. nu_id u = i) us of None \<Rightarrow> False
      | Some u \<Rightarrow> nu_status u \<noteq> 0 \<and> (\<exists>r \<in> set (nu_id_rules u). nr_service r = SERVICE_SQUID \<and> nr_status r = 1))"

definition squid_permitted :: "regex_lib \<Rightarrow> url_policy \<Rightarrow> NODE_USER list \<Rightarrow> IP_addr \<Rightarrow> string \<Rightarrow> bool" where
  "squid_permitted re up us ip url =
     (case owner us ip of None \<Rightarrow> False
      | Some u \<Rightarrow> squid_allowed us (nu_id u) \<and> autz_url_policy re (nu_id u) url up = Some 1)"

definition patterns_compiled :: "url_policy \<Rightarrow> bool" where
  "patterns_compiled up \<longleftrightarrow> (\<forall>p \<in> set (st_policy_pattern up). np_reg p = Some (cstr (np_pattern p)))"

lemma autz_url_policy_answers: "patterns_compiled up \<Longrightarrow> \<exists>r. autz_url_policy re i url up = Some r"
  by (simp add: patterns_compiled_def autz_url_policy_def check_policy_def check_policy_first split: option.split)

lemma users_auth_owner:
  assumes "st_users cu = Some us" and "extern_auth cu = []"
  shows "\<exists>sd'. users_auth call SERVICE_SQUID (ASquid si) 1 (RSquid sd) cu w =
           Some (if owner us (si_ip si) = None then 0 else 1, RSquid sd', w) \<and> sd_len sd' = sd_len sd \<and>
           (\<forall>u. owner us (si_ip si) = Some u \<longrightarrow> sd_id_user sd' = nu_id u)"
  using assms unfolding owner_def find_owner [OF assms(1)]
  by (cases "addr_find cu (si_ip si)") (auto simp: users_auth_def Let_def types_h_defs)

lemma autz_squid_rules_any:
  "\<exists>sd'. autz_squid_rules flag sd rs =
     (if \<exists>r \<in> set rs. nr_service r = SERVICE_SQUID \<and> nr_status r = 1 then 1 else flag, sd') \<and>
     sd_id_user sd' = sd_id_user sd \<and> sd_len sd' = sd_len sd"
  by (induction rs) auto

lemma users_autz_squid:
  assumes us: "st_users cu = Some us" and h: "hooks_keep call"
  shows "\<exists>flag sd' w'. users_autz call SERVICE_SQUID (ASquid si) 1 (RSquid sd) cu w = Some (flag, RSquid sd', w') \<and>
           (flag = 1 \<longrightarrow> squid_allowed us (sd_id_user sd)) \<and>
           (extern_autz cu = [] \<longrightarrow> flag = (if squid_allowed us (sd_id_user sd) then 1 else 0)) \<and>
           sd_id_user sd' = sd_id_user sd \<and> sd_len sd' = sd_len sd"
proof -
  have "\<exists>sd'. autz_builtin SERVICE_SQUID (ASquid si) (RSquid sd) cu = Some (if squid_allowed us (sd_id_user sd) then 1 else 0, RSquid sd') \<and>
      sd_id_user sd' = sd_id_user sd \<and> sd_len sd' = sd_len sd"
  proof (cases "find_index (\<lambda>u. nu_id u = sd_id_user sd) us")
    case None
    then show ?thesis using us
      by (simp add: autz_builtin_def users_find_Some squid_allowed_def find_index_find types_h_defs del: find_index_None_iff)
  next
    case (Some i)
    obtain sd' where "autz_squid_rules 0 sd (nu_id_rules (us ! i)) =
        (if \<exists>r \<in> set (nu_id_rules (us ! i)). nr_service r = SERVICE_SQUID \<and> nr_status r = 1 then 1 else 0, sd')"
        "sd_id_user sd' = sd_id_user sd" "sd_len sd' = sd_len sd"
      using autz_squid_rules_any [of 0 sd "nu_id_rules (us ! i)"] by blast
    then show ?thesis using us Some
      by (cases "nu_status (us ! i) = 0")
        (auto simp: autz_builtin_def users_find_Some user_at_def squid_allowed_def find_index_find types_h_defs Let_def)
  qed
  then obtain sd' where b: "autz_builtin SERVICE_SQUID (ASquid si) (RSquid sd) cu = Some (if squid_allowed us (sd_id_user sd) then 1 else 0, RSquid sd')"
      "sd_id_user sd' = sd_id_user sd" "sd_len sd' = sd_len sd" by blast
  obtain flag r w' where k: "run_and_hooks call SERVICE_SQUID (ASquid si) 1 (RSquid sd') w (extern_autz cu) = (flag, r, w')"
    by (rule prod_cases3)
  then have "r = RSquid sd'" using run_and_hooks_keep [OF h] by (metis fst_conv snd_conv)
  with b k us show ?thesis by (auto simp: users_autz_def)
qed

lemma squid_check_decides:
  assumes us: "st_users (sc_core st) = Some us" and "extern_auth (sc_core st) = []" and h: "hooks_keep call"
    and "patterns_compiled (sc_url st)"
  shows "\<exists>passed sd' w'. squid_check call re si sd url st = Some (passed, sd', st\<lparr>sc_hooks := w'\<rparr>) \<and> sd_len sd' = sd_len sd \<and>
     (passed \<longrightarrow> squid_permitted re (sc_url st) us (si_ip si) url \<and> sd_id_user sd' = nu_id (the (owner us (si_ip si)))) \<and>
     (extern_autz (sc_core st) = [] \<longrightarrow> passed = squid_permitted re (sc_url st) us (si_ip si) url)"
proof -
  obtain sd1 where 1: "users_auth call SERVICE_SQUID (ASquid si) 1 (RSquid sd) (sc_core st) (sc_hooks st) =
      Some (if owner us (si_ip si) = None then 0 else 1, RSquid sd1, sc_hooks st)" "sd_len sd1 = sd_len sd"
      "\<forall>u. owner us (si_ip si) = Some u \<longrightarrow> sd_id_user sd1 = nu_id u"
    using users_auth_owner [OF assms(1,2), of call si sd "sc_hooks st"] by (elim exE conjE)
  show ?thesis
  proof (cases "owner us (si_ip si)")
    case None
    then show ?thesis using 1 by (intro exI [of _ False] exI [of _ sd1] exI [of _ "sc_hooks st"]) (simp add: squid_check_def squid_permitted_def)
  next
    case (Some u)
    then have id: "sd_id_user sd1 = nu_id u" using 1(3) by simp
    obtain flag sd2 w2 where 2: "users_autz call SERVICE_SQUID (ASquid si) 1 (RSquid sd1) (sc_core st) (sc_hooks st) = Some (flag, RSquid sd2, w2)"
        "flag = 1 \<longrightarrow> squid_allowed us (sd_id_user sd1)"
        "extern_autz (sc_core st) = [] \<longrightarrow> flag = (if squid_allowed us (sd_id_user sd1) then 1 else 0)"
        "sd_id_user sd2 = sd_id_user sd1" "sd_len sd2 = sd_len sd1"
      using users_autz_squid [OF us h, of si sd1 "sc_hooks st"] by (elim exE conjE)
    obtain res where r: "autz_url_policy re (nu_id u) url (sc_url st) = Some res" using autz_url_policy_answers [OF assms(4)] by blast
    have "squid_check call re si sd url st = Some (flag = 1 \<and> res = 1, sd2, st\<lparr>sc_hooks := w2\<rparr>)"
      using Some 1(1) 2(1,4) id r by (simp add: squid_check_def)
    moreover have "squid_permitted re (sc_url st) us (si_ip si) url \<longleftrightarrow> squid_allowed us (sd_id_user sd1) \<and> res = 1"
      using Some id r by (simp add: squid_permitted_def)
    moreover have "sd_len sd2 = sd_len sd" "sd_id_user sd2 = nu_id (the (owner us (si_ip si)))" using 1(2) 2(4,5) id Some by simp_all
    moreover have "extern_autz (sc_core st) = [] \<longrightarrow> (flag = 1 \<longleftrightarrow> squid_allowed us (sd_id_user sd1))" using 2(3) by simp
    ultimately show ?thesis using 2(2) by blast
  qed
qed

section \<open>Charging a request\<close>

text \<open>A request is charged to the first rule of the service, active or not.\<close>

definition charge_squid :: "IP_size \<Rightarrow> NODE_USER \<Rightarrow> NODE_USER" where
  "charge_squid len u =
     (case find_index (\<lambda>r. nr_service r = SERVICE_SQUID) (nu_id_rules u) of None \<Rightarrow> u
      | Some j \<Rightarrow> let r = nu_id_rules u ! j
          in u\<lparr>nu_traffic := (if has_flag (nr_action r) CONST_SUM then nu_traffic u else nu_traffic u + len),
               nu_id_rules := (nu_id_rules u)[j := r\<lparr>nr_traffic := nr_traffic r + len\<rparr>]\<rparr>)"

definition charge_request :: "IP_id \<Rightarrow> IP_size \<Rightarrow> NODE_USER list \<Rightarrow> NODE_USER list" where
  "charge_request uid len us =
     (case find_index (\<lambda>u. nu_id u = uid) us of None \<Rightarrow> us | Some i \<Rightarrow> us[i := charge_squid len (us ! i)])"

lemma acct_squid_rules_first:
  "acct_squid_rules len tot rs =
     (case find_index (\<lambda>r. nr_service r = SERVICE_SQUID) rs of None \<Rightarrow> (tot, rs)
      | Some j \<Rightarrow> (if has_flag (nr_action (rs ! j)) CONST_SUM then tot else tot + len,
                   rs[j := (rs ! j)\<lparr>nr_traffic := nr_traffic (rs ! j) + len\<rparr>]))"
  by (induction rs) (auto simp del: find_index_None_iff split: option.splits)

lemma users_acct_squid:
  assumes us: "st_users cu = Some us" and h: "hooks_keep call" and al: "squid_allowed us (sd_id_user sd)"
  shows "\<exists>rc w'. users_acct call SERVICE_SQUID (ASquid si) 1 (RSquid sd) cu w =
     Some (rc, RSquid sd, cu\<lparr>st_users := Some (charge_request (sd_id_user sd) (sd_len sd) us)\<rparr>, w')"
proof -
  obtain i where i: "find_index (\<lambda>u. nu_id u = sd_id_user sd) us = Some i"
    using al by (auto simp: squid_allowed_def find_index_find split: option.splits simp del: find_index_None_iff)
  have u: "(us ! i)\<lparr>nu_traffic := nu_traffic (us ! i), nu_id_rules := nu_id_rules (us ! i)\<rparr> = us ! i" by simp
  have b: "acct_builtin SERVICE_SQUID (ASquid si) (RSquid sd) cu = Some (Inr (cu\<lparr>st_users := Some (charge_request (sd_id_user sd) (sd_len sd) us)\<rparr>))"
    using us i
    by (auto simp: acct_builtin_def users_find_Some user_at_def set_user_def charge_request_def charge_squid_def acct_squid_rules_first Let_def types_h_defs
        simp del: find_index_None_iff split: option.split)
  obtain flag r w' where k: "run_and_hooks call SERVICE_SQUID (ASquid si) 1 (RSquid sd) w (extern_acct cu) = (flag, r, w')"
    by (rule prod_cases3)
  then have "r = RSquid sd" using run_and_hooks_keep [OF h] by (metis fst_conv snd_conv)
  with b k us show ?thesis by (auto simp: users_acct_def)
qed

section \<open>Properties\<close>

text \<open>What the fields of a line mean, and whether the line stands for a request to account.\<close>

definition line_addr :: "string list \<Rightarrow> IP_addr" where
  "line_addr argv = snd (hostbyip True (argv ! 2) 0)"

definition line_len :: "string list \<Rightarrow> IP_size" where
  "line_len argv = word_of_int (atoi (argv ! 4))"

definition line_accounted :: "regex_lib \<Rightarrow> url_policy \<Rightarrow> NODE_USER list \<Rightarrow> string list \<Rightarrow> bool" where
  "line_accounted re up us argv \<longleftrightarrow>
     7 \<le> length argv \<and> sublist ''MISS'' (argv ! 3) \<and> squid_permitted re up us (line_addr argv) (argv ! 6)"

definition url_node :: "IP_id \<Rightarrow> IP_size \<Rightarrow> string \<Rightarrow> ACCT_SQUID_NODE" where
  "url_node uid len url = \<lparr>sn_id_user = uid, sn_url = strncpy (replicate 1024 NUL) url 1023, sn_traffic = len\<rparr>"

lemma hostbyip_fresh: "snd (hostbyip True host a) = snd (hostbyip True host b)"
  by (simp add: hostbyip_def Let_def split: option.split)

definition all_ok :: squid_env where
  "all_ok = \<lparr>dup_ok = True, host_ok = True, node_ok = (True, True)\<rparr>"

text \<open>A line that stands for a request to account.\<close>

lemma acct_squid_line_miss:
  assumes us: "st_users (sc_core st) = Some us" "extern_auth (sc_core st) = []" "hooks_keep call" "patterns_compiled (sc_url st)"
    and line: "tokens '' '' (cstr buffer) = argv" "length argv \<le> 20" "7 \<le> length argv" "sublist ''MISS'' (argv ! 3)"
  shows "\<exists>info' data' st' passed. acct_squid_line call re all_ok buffer info data st = Some (info', data', st') \<and>
     (passed \<longrightarrow> squid_permitted re (sc_url st) us (line_addr argv) (argv ! 6)) \<and>
     (extern_autz (sc_core st) = [] \<longrightarrow> passed = squid_permitted re (sc_url st) us (line_addr argv) (argv ! 6)) \<and>
     (let uid = nu_id (the (owner us (line_addr argv))); len = line_len argv
      in st_users (sc_core st') = Some (if passed then charge_request uid len us else us) \<and>
         ag_squid (sc_squid st') = (if passed then [url_node uid len (argv ! 6)] else []) @ ag_squid (sc_squid st))"
proof -
  let ?info = "info\<lparr>si_ip := line_addr argv\<rparr>" and ?data = "data\<lparr>sd_len := line_len argv\<rparr>"
  have ip: "snd (hostbyip True (argv ! 2) (si_ip info)) = line_addr argv" unfolding line_addr_def by (rule hostbyip_fresh)
  have parse: "ip_parse_arg (cstr buffer) 20 '' '' = (int (length argv), argv)" using line(1,2) by (simp add: ip_parse_arg_tokens)
  obtain passed sd' w' where c: "squid_check call re ?info ?data (argv ! 6) st = Some (passed, sd', st\<lparr>sc_hooks := w'\<rparr>)" "sd_len sd' = line_len argv"
      "passed \<longrightarrow> squid_permitted re (sc_url st) us (line_addr argv) (argv ! 6) \<and> sd_id_user sd' = nu_id (the (owner us (line_addr argv)))"
      "extern_autz (sc_core st) = [] \<longrightarrow> passed = squid_permitted re (sc_url st) us (line_addr argv) (argv ! 6)"
    using squid_check_decides [OF us, of re ?info ?data "argv ! 6"] by auto
  show ?thesis
  proof (cases passed)
    case False
    then have "acct_squid_line call re all_ok buffer info data st = Some (?info, sd', st\<lparr>sc_hooks := w'\<rparr>)"
      using parse line(2-4) c(1) ip by (auto simp: acct_squid_line_def all_ok_def line_len_def)
    with False c(4) us(1) show ?thesis
      by (intro exI [of _ ?info] exI [of _ sd'] exI [of _ "st\<lparr>sc_hooks := w'\<rparr>"] exI [of _ False]) (auto simp: Let_def)
  next
    case True
    then have al: "squid_allowed us (sd_id_user sd')" using c(3) by (auto simp: squid_permitted_def split: option.splits)
    obtain rc w2 where a: "users_acct call SERVICE_SQUID (ASquid ?info) 1 (RSquid sd') (sc_core st) w' =
        Some (rc, RSquid sd', (sc_core st)\<lparr>st_users := Some (charge_request (sd_id_user sd') (sd_len sd') us)\<rparr>, w2)"
      using users_acct_squid [OF us(1,3) al] by blast
    let ?st = "st\<lparr>sc_core := (sc_core st)\<lparr>st_users := Some (charge_request (sd_id_user sd') (sd_len sd') us)\<rparr>, sc_hooks := w2,
        sc_squid := snd (squid_acct (True, True) (argv ! 6) sd' (sc_squid st))\<rparr>"
    have "acct_squid_line call re all_ok buffer info data st = Some (?info, sd', ?st)"
      using parse True line(2-4) c(1) a ip by (auto simp: acct_squid_line_def all_ok_def line_len_def)
    with True c(2-4) show ?thesis
      by (intro exI [of _ ?info] exI [of _ sd'] exI [of _ ?st] exI [of _ True]) (auto simp: Let_def squid_acct_def url_node_def)
  qed
qed

lemma acct_squid_line_skipped:
  assumes "tokens '' '' (cstr buffer) = argv" "length argv \<le> 20" "\<not> (7 \<le> length argv \<and> sublist ''MISS'' (argv ! 3))"
  shows "acct_squid_line call re env buffer info data st = Some (info, data, st)"
  using assms by (auto simp: acct_squid_line_def ip_parse_arg_tokens)

text \<open>A line of more than 20 fields is stored beyond the end of the array.\<close>

lemma acct_squid_line_overflow:
  "dup_ok env \<Longrightarrow> 20 < length (tokens '' '' (cstr buffer)) \<Longrightarrow> acct_squid_line call re env buffer info data st = None"
  by (simp add: acct_squid_line_def ip_parse_arg_tokens)

text \<open>
  C11 (proxy log). A line of at most 20 fields never faults while the patterns of the policies are compiled. It is accounted only if it
  has seven fields, stands for a miss, the client is an active user with an active rule for the proxy, and the policy on
  URLs lets the URL pass, and without hooks exactly then. Then the user who owns the address is charged, and the URL
  with the length heads the list of requests; otherwise neither the users nor the list change.
\<close>

theorem acct_squid_line_books:
  assumes "st_users (sc_core st) = Some us" and "extern_auth (sc_core st) = []" and "hooks_keep call" and "patterns_compiled (sc_url st)"
    and "tokens '' '' (cstr buffer) = argv" and "length argv \<le> 20"
  shows "\<exists>info' data' st' passed. acct_squid_line call re all_ok buffer info data st = Some (info', data', st') \<and>
     (passed \<longrightarrow> line_accounted re (sc_url st) us argv) \<and> (extern_autz (sc_core st) = [] \<longrightarrow> passed = line_accounted re (sc_url st) us argv) \<and>
     (let uid = nu_id (the (owner us (line_addr argv))); len = line_len argv
      in st_users (sc_core st') = Some (if passed then charge_request uid len us else us) \<and>
         ag_squid (sc_squid st') = (if passed then [url_node uid len (argv ! 6)] else []) @ ag_squid (sc_squid st))"
proof (cases "7 \<le> length argv \<and> sublist ''MISS'' (argv ! 3)")
  case False
  show ?thesis unfolding acct_squid_line_skipped [OF assms(5,6) False]
    using False assms(1) by (intro exI [of _ info] exI [of _ data] exI [of _ st] exI [of _ False]) (auto simp: line_accounted_def Let_def)
next
  case True
  then have "line_accounted re (sc_url st) us argv = squid_permitted re (sc_url st) us (line_addr argv) (argv ! 6)"
    by (simp add: line_accounted_def)
  then show ?thesis using acct_squid_line_miss [OF assms, of re info data] True by metis
qed

text \<open>An example: user 7 with a rule for the proxy.\<close>

definition ex_proxy :: "unit squid_collector" where
  "ex_proxy = \<lparr>sc_core = \<lparr>st_users = Some [zero_user\<lparr>nu_id := 7, nu_addr := 0x0700000A, nu_status := 1,
        nu_id_rules := [zero_rule\<lparr>nr_id := 1, nr_service := SERVICE_SQUID, nr_status := 1\<rparr>]\<rparr>],
        clean_list = [], cur_users = 1, extern_auth = [], extern_autz = [], extern_acct = []\<rparr>,
     sc_url = ex_url_policy, sc_squid = empty_squid, sc_hooks = (), total_auth_query = 0, success_auth_query = 0,
     failed_auth_query = 0, status_fifo = 1\<rparr>"

lemma ex_proxy_inv:
  "st_users (sc_core ex_proxy) = Some (the (st_users (sc_core ex_proxy)))" "extern_auth (sc_core ex_proxy) = []"
  "patterns_compiled (sc_url ex_proxy)"
  by (simp_all add: ex_proxy_def patterns_compiled_def ex_url_policy_def NUL_def)

lemma ex_proxy_permits:
  "squid_permitted ex_regex (sc_url ex_proxy) (the (st_users (sc_core ex_proxy))) 0x0700000A ''http://a/xy''"
  "\<not> squid_permitted ex_regex (sc_url ex_proxy) (the (st_users (sc_core ex_proxy))) 0x0700000A ''http://a/b''"
  by code_simp+

definition ex_line :: string where
  "ex_line = ''1.0 5 10.0.0.7 TCP_MISS/200 512 GET http://a/xy''"

lemma ex_line_fields:
  "tokens '' '' (cstr ex_line) = [''1.0'', ''5'', ''10.0.0.7'', ''TCP_MISS/200'', ''512'', ''GET'', ''http://a/xy'']"
  "line_addr [''1.0'', ''5'', ''10.0.0.7'', ''TCP_MISS/200'', ''512'', ''GET'', ''http://a/xy''] = 0x0700000A"
  "line_len [''1.0'', ''5'', ''10.0.0.7'', ''TCP_MISS/200'', ''512'', ''GET'', ''http://a/xy''] = 512"
  "sublist ''MISS'' ''TCP_MISS/200''"
  using sublist_appendI [of "''MISS''" "''TCP_''" "''/200''"]
  by (simp_all add: tokens_def ex_line_def line_addr_def line_len_def parse_simps)

theorem acct_squid_line_books_witness:
  "\<exists>info' data' st'. acct_squid_line (\<lambda>f s d r w. (1, r, w)) ex_regex all_ok ex_line \<lparr>si_mac = [], si_ip = 0\<rparr> ex_sdata ex_proxy = Some (info', data', st') \<and>
     ag_squid (sc_squid st') = [url_node 7 512 ''http://a/xy''] \<and> map nu_traffic (the (st_users (sc_core st'))) = [512]"
proof -
  let ?us = "the (st_users (sc_core ex_proxy))"
  let ?argv = "[''1.0'', ''5'', ''10.0.0.7'', ''TCP_MISS/200'', ''512'', ''GET'', ''http://a/xy'']"
  have k: "hooks_keep (\<lambda>f s d r w. (1, r, w :: unit))" by (simp add: hooks_keep_def)
  have acc: "line_accounted ex_regex (sc_url ex_proxy) ?us ?argv"
    using ex_proxy_permits(1) ex_line_fields(4) by (simp add: line_accounted_def ex_line_fields(2))
  have own: "nu_id (the (owner ?us 0x0700000A)) = 7" and tr: "map nu_traffic (charge_request 7 512 ?us) = [512]"
    by (simp_all add: owner_def ex_proxy_def charge_request_def charge_squid_def zero_rule_def zero_user_def has_flag_def types_h_defs)
  have e: "extern_autz (sc_core ex_proxy) = []" "ag_squid (sc_squid ex_proxy) = []" by (simp_all add: ex_proxy_def empty_squid_def)
  from acct_squid_line_books [OF ex_proxy_inv(1,2) k ex_proxy_inv(3) ex_line_fields(1), of ex_regex "\<lparr>si_mac = [], si_ip = 0\<rparr>" ex_sdata]
  show ?thesis using acc own tr e by (auto simp: ex_line_fields(2,3) Let_def)
qed

lemma squid_parse_arg_tokens:
  assumes "tokens '' '' s = t # ts" and "0 \<le> m"
  shows "squid_parse_arg s m = Some (take (nat m + 1) (t # ts))"
proof -
  obtain save where "ip_strtok_r (Some s) '' '' [] = (Some t, save)" "tokens '' '' save = ts"
    using strtok_tokens [of s "'' ''" "[]"] assms(1) by (metis list.distinct(1) list.sel(3) list.simps(5) prod.collapse snd_conv)
  then show ?thesis using assms by (auto simp: squid_parse_arg_def parse_arg_loop_tokens tokens_def)
qed

lemma redirector_decides:
  assumes "st_users (sc_core st) = Some us" and "extern_auth (sc_core st) = []" and "hooks_keep call" and "patterns_compiled (sc_url st)"
    and "length (cstr msg) < 2048" and "tokens '' '' (cstr msg) = url # client # rest"
  shows "\<exists>st' passed. thr_squid_clientredirector call re deny_url
       \<lparr>rq_buffer_ok = True, rq_recv = Some msg, rq_shutdown_ok = True, rq_dup_ok = True, rq_host_ok = True, rq_send_ok = True\<rparr> info data st =
       Some (1, [if passed then cstr msg else cstr deny_url @ [CHR 0x0A]], st') \<and>
     (let ip = snd (hostbyip True (takeWhile (\<lambda>c. c \<noteq> CHR ''/'') client) 0)
      in (passed \<longrightarrow> squid_permitted re (sc_url st) us ip url) \<and> (extern_autz (sc_core st) = [] \<longrightarrow> passed = squid_permitted re (sc_url st) us ip url)) \<and>
     total_auth_query st' = total_auth_query st + 1 \<and>
     success_auth_query st' = success_auth_query st + (if passed then 1 else 0) \<and>
     failed_auth_query st' = failed_auth_query st + (if passed then 0 else 1) \<and>
     sc_core st' = sc_core st \<and> sc_squid st' = sc_squid st \<and> sc_url st' = sc_url st"
proof -
  let ?host = "takeWhile (\<lambda>c. c \<noteq> CHR ''/'') client"
  let ?ip = "snd (hostbyip True ?host 0)"
  have ip: "snd (hostbyip True ?host (si_ip info)) = ?ip" by (rule hostbyip_fresh)
  have a: "squid_parse_arg (cstr msg) 5 = Some (url # client # take 4 rest)"
    using squid_parse_arg_tokens [OF assms(6), of 5] by simp
  obtain passed sd' w' where c: "squid_check call re (info\<lparr>si_ip := ?ip\<rparr>) data url st = Some (passed, sd', st\<lparr>sc_hooks := w'\<rparr>)"
      "passed \<longrightarrow> squid_permitted re (sc_url st) us ?ip url" "extern_autz (sc_core st) = [] \<longrightarrow> passed = squid_permitted re (sc_url st) us ?ip url"
    using squid_check_decides [OF assms(1-4), of re "info\<lparr>si_ip := ?ip\<rparr>" data url] by auto
  show ?thesis
    using assms(5) a c ip by (cases passed) (auto simp: thr_squid_clientredirector_def Let_def)
qed

text \<open>
  Redirector. A request of at least two fields and less than 2048 characters is answered while the patterns are compiled: with
  the request itself only if the table and the policy on URLs permit it for the address before the slash, and without
  hooks exactly then; with the URL of the refusal otherwise. Every answer counts as one query, accepted or
  rejected.
\<close>

theorem redirector_answers:
  assumes "st_users (sc_core st) = Some us" and "extern_auth (sc_core st) = []" and "hooks_keep call" and "patterns_compiled (sc_url st)"
    and "length (cstr msg) < 2048" and "tokens '' '' (cstr msg) = url # client # rest"
  shows "\<exists>st' passed. thr_squid_clientredirector call re deny_url
       \<lparr>rq_buffer_ok = True, rq_recv = Some msg, rq_shutdown_ok = True, rq_dup_ok = True, rq_host_ok = True, rq_send_ok = True\<rparr> info data st =
       Some (1, [if passed then cstr msg else cstr deny_url @ [CHR 0x0A]], st') \<and>
     (let ip = snd (hostbyip True (takeWhile (\<lambda>c. c \<noteq> CHR ''/'') client) 0)
      in (passed \<longrightarrow> squid_permitted re (sc_url st) us ip url) \<and> (extern_autz (sc_core st) = [] \<longrightarrow> passed = squid_permitted re (sc_url st) us ip url)) \<and>
     total_auth_query st' = total_auth_query st + 1 \<and>
     success_auth_query st' = success_auth_query st + (if passed then 1 else 0) \<and>
     failed_auth_query st' = failed_auth_query st + (if passed then 0 else 1) \<and>
     sc_core st' = sc_core st \<and> sc_squid st' = sc_squid st \<and> sc_url st' = sc_url st"
  by (rule redirector_decides [OF assms])

theorem redirector_answers_witness:
  "\<exists>st'. thr_squid_clientredirector (\<lambda>f s d r w. (1, r, w)) ex_regex ''http://deny/''
       \<lparr>rq_buffer_ok = True, rq_recv = Some ''http://a/b 10.0.0.7/- - GET'', rq_shutdown_ok = True, rq_dup_ok = True, rq_host_ok = True, rq_send_ok = True\<rparr>
       \<lparr>si_mac = [], si_ip = 0\<rparr> ex_sdata ex_proxy = Some (1, [''http://deny/'' @ [CHR 0x0A]], st') \<and>
     (total_auth_query st', success_auth_query st', failed_auth_query st') = (1, 0, 1)"
proof -
  let ?msg = "''http://a/b 10.0.0.7/- - GET''"
  have k: "hooks_keep (\<lambda>f s d r w. (1, r, w :: unit))" by (simp add: hooks_keep_def)
  have m: "length (cstr ?msg) < 2048" "cstr ''http://deny/'' = ''http://deny/''" by (simp_all add: NUL_def)
  have t: "tokens '' '' (cstr ?msg) = ''http://a/b'' # ''10.0.0.7/-'' # [''-'', ''GET'']" by (simp add: tokens_def NUL_def)
  have "takeWhile (\<lambda>c. c \<noteq> CHR ''/'') ''10.0.0.7/-'' = ''10.0.0.7''" by simp
  moreover have "snd (hostbyip True ''10.0.0.7'' 0) = 0x0700000A" by (simp add: parse_simps)
  ultimately have ip: "snd (hostbyip True (takeWhile (\<lambda>c. c \<noteq> CHR ''/'') ''10.0.0.7/-'') 0) = 0x0700000A" by simp
  have e: "extern_autz (sc_core ex_proxy) = []" "total_auth_query ex_proxy = 0" "success_auth_query ex_proxy = 0" "failed_auth_query ex_proxy = 0"
    by (simp_all add: ex_proxy_def)
  from redirector_answers [OF ex_proxy_inv(1,2) k ex_proxy_inv(3) m(1) t, of ex_regex "''http://deny/''" "\<lparr>si_mac = [], si_ip = 0\<rparr>" ex_sdata]
  show ?thesis using ex_proxy_permits(2) e ip m(2) by (auto simp: Let_def)
qed

text \<open>Whatever happens to a request, the queries in total stay the accepted and the rejected ones.\<close>

definition balanced :: "'w squid_collector \<Rightarrow> bool" where
  "balanced st \<longleftrightarrow> total_auth_query st = success_auth_query st + failed_auth_query st"

lemma balanced_query:
  "balanced (st\<lparr>total_auth_query := total_auth_query st + 1, success_auth_query := success_auth_query st + 1\<rparr>) = balanced st"
  "balanced (st\<lparr>total_auth_query := total_auth_query st + 1, failed_auth_query := failed_auth_query st + 1\<rparr>) = balanced st"
  "balanced (st\<lparr>sc_hooks := w\<rparr>) = balanced st"
  by (simp_all add: balanced_def algebra_simps)

lemma squid_check_balanced: "squid_check call re si sd url st = Some (p, sd', st') \<Longrightarrow> balanced st' = balanced st"
  by (auto simp: squid_check_def bind_eq_Some_conv balanced_query split: if_splits)

lemma redirector_balanced:
  assumes "thr_squid_clientredirector call re deny_url rq info data st = Some (rc, out, st')"
  shows "balanced st' = balanced st"
  using assms unfolding thr_squid_clientredirector_def
  by (auto simp: Let_def bind_eq_Some_conv balanced_query dest!: squid_check_balanced split: if_splits option.splits)

text \<open>The faults of the redirector: no memory for the buffer, a request that fills it, and a line of spaces only.\<close>

lemma redirector_faults:
  "\<not> rq_buffer_ok rq \<Longrightarrow> thr_squid_clientredirector call re deny_url rq info data st = None"
  "rq_recv rq = Some msg \<Longrightarrow> rq_shutdown_ok rq \<Longrightarrow> 2048 \<le> length (cstr msg) \<Longrightarrow> thr_squid_clientredirector call re deny_url rq info data st = None"
  "rq_recv rq = Some '' '' \<Longrightarrow> rq_shutdown_ok rq \<Longrightarrow> rq_dup_ok rq \<Longrightarrow> thr_squid_clientredirector call re deny_url rq info data st = None"
  by (simp_all add: thr_squid_clientredirector_def squid_parse_arg_def ip_strtok_r_def NUL_def split: option.split)

text \<open>Authorization looks for an active rule, accounting charges the first rule: a request may be charged to a rule that is switched off.\<close>

lemma charged_rule_inactive:
  assumes "u = zero_user\<lparr>nu_status := 1, nu_id_rules := [zero_rule\<lparr>nr_service := SERVICE_SQUID, nr_status := 0\<rparr>, zero_rule\<lparr>nr_service := SERVICE_SQUID, nr_status := 1\<rparr>]\<rparr>"
  shows "squid_allowed [u] 0" "map nr_traffic (nu_id_rules (charge_squid 100 u)) = [100, 0]"
  unfolding assms by code_simp+

end
