(* ===== verification/Libxml.thy ===== *)
theory Libxml
  imports Misc Aggregation
begin

text \<open>
  The messages of the pppd collector (\<^verbatim>\<open>src/libxml.c\<close>). In spite of the names a message is no XML but a
  sequence of lines \<open>key=value\<close>; it is taken apart into a list of fixed-size nodes and put together from one.
  The file contains copies of \<^verbatim>\<open>ip_strtok_r\<close> and \<^verbatim>\<open>ip_parse_arg\<close> of
  \<^verbatim>\<open>misc.c\<close>, for which the models of those stand.

  Memory that \<^verbatim>\<open>malloc\<close> or the stack delivers is uninitialised: \<open>junk\<close> is the byte it is
  filled with, the allocation results are arguments. \<open>None\<close> is a read beyond a buffer or a write beyond it.
\<close>

section \<open>Sessions\<close>

record XML_NODE =
  xn_key :: string
  xn_value :: string

type_synonym XML_SESSION = "XML_NODE list"

definition XML_LENGTH_KEY :: nat where "XML_LENGTH_KEY = 50"
definition XML_LENGTH_VALUE :: nat where "XML_LENGTH_VALUE = 255"
definition XML_LENGTH :: nat where "XML_LENGTH = 2048"

definition xml_node :: "char \<Rightarrow> string \<Rightarrow> string \<Rightarrow> XML_NODE" where
  "xml_node junk key val =
     \<lparr>xn_key = strncpy (replicate XML_LENGTH_KEY junk) key (XML_LENGTH_KEY - 1),
      xn_value = strncpy (replicate XML_LENGTH_VALUE junk) val (XML_LENGTH_VALUE - 1)\<rparr>"

text \<open>
  One line of a message: \<^verbatim>\<open>tmp\<close> holds at most 2047 bytes of it. The first fault is the search for
  \<^verbatim>\<open>=\<close> in a buffer without a terminator, the second a value that runs to its end.
\<close>

definition xpath_line :: "char \<Rightarrow> bool \<times> bool \<Rightarrow> string \<Rightarrow> XML_SESSION \<Rightarrow> XML_SESSION option" where
  "xpath_line junk mem arg l =
     (let tmp = strncpy (replicate XML_LENGTH junk) arg (XML_LENGTH - 1)
      in if CHR ''='' \<in> set (cstr tmp) then
           let key = takeWhile (\<lambda>c. c \<noteq> CHR ''='') (cstr tmp);
               t = drop (length key + 1) tmp
           in if \<not> fst mem then Some l
              else if NUL \<notin> set t \<and> length t < XML_LENGTH_VALUE - 1 then None
              else Some (if snd mem then l @ [xml_node junk key t] else [])
         else if NUL \<in> set tmp then Some l else None)"

fun xpath_lines :: "char \<Rightarrow> (nat \<Rightarrow> bool \<times> bool) \<Rightarrow> nat \<Rightarrow> string list \<Rightarrow> XML_SESSION \<Rightarrow> XML_SESSION option" where
  "xpath_lines junk mem i [] l = Some l"
| "xpath_lines junk mem i (arg # args) l = do { l1 \<leftarrow> xpath_line junk (mem i) arg l; xpath_lines junk mem (Suc i) args l1 }"

text \<open>
  \<open>oks\<close>: the allocation of the session and of the copy of the message. The copy is made without its terminator, so the byte
  behind it, \<open>behind\<close>, has to be a null byte by chance. The outer \<open>None\<close> is the fault, the inner one a null session.
\<close>

definition xpath_init :: "char \<Rightarrow> char \<Rightarrow> bool \<times> bool \<Rightarrow> (nat \<Rightarrow> bool \<times> bool) \<Rightarrow> string \<Rightarrow> XML_SESSION option option" where
  "xpath_init junk behind oks mem buffer =
     (if \<not> fst oks \<or> \<not> snd oks then Some None
      else if behind \<noteq> NUL then None
      else map_option Some (xpath_lines junk mem 0 (snd (ip_parse_arg (cstr buffer) 49 [CHR 0x0A])) []))"

text \<open>The buffer for the value is cleared first. The result tells whether the key was found.\<close>

definition xml_compare :: "XML_NODE \<Rightarrow> XML_NODE \<Rightarrow> int" where
  "xml_compare a b = strncmp (xn_key a) (xn_key b) (XML_LENGTH_KEY - 1)"

definition xpath_get_param :: "XML_SESSION \<Rightarrow> string \<Rightarrow> nat \<Rightarrow> gboolean \<times> string" where
  "xpath_get_param sid key size_value =
     (let value = replicate size_value NUL
      in case find (\<lambda>n. xml_compare n (xml_node NUL key []) = 0) sid of
           None \<Rightarrow> (0, value)
         | Some n \<Rightarrow> (1, strncpy value (xn_value n) (size_value - 1)))"

definition tree_addnode :: "char \<Rightarrow> bool \<times> bool \<Rightarrow> string \<Rightarrow> string \<Rightarrow> XML_SESSION \<Rightarrow> gboolean \<times> XML_SESSION" where
  "tree_addnode junk mem name val sid =
     (if \<not> fst mem then (0, sid) else (1, if snd mem then sid @ [xml_node junk name val] else []))"

text \<open>The line of a node is printed into 1024 bytes and appended to the message.\<close>

definition xml_traverse :: "nat \<Rightarrow> XML_NODE \<Rightarrow> string \<Rightarrow> string option" where
  "xml_traverse sz node ptr =
     (if NUL \<notin> set (xn_key node) \<or> NUL \<notin> set (xn_value node) then None
      else do {
        buffer \<leftarrow> sprintf_buf 1024 (cstr (xn_key node) @ ''='' @ cstr (xn_value node) @ [CHR 0x0A]);
        sprintf_buf sz (ptr @ buffer)
      })"

fun tree_foreach :: "nat \<Rightarrow> XML_SESSION \<Rightarrow> string \<Rightarrow> string option" where
  "tree_foreach sz [] ptr = Some ptr"
| "tree_foreach sz (n # ns) ptr = do { ptr1 \<leftarrow> xml_traverse sz n ptr; tree_foreach sz ns ptr1 }"

definition tree_getxml :: "XML_SESSION \<Rightarrow> nat \<Rightarrow> string option" where
  "tree_getxml sid sz = tree_foreach sz sid []"

section \<open>Building and reading messages\<close>

text \<open>A message as a list of pairs, and the pairs that fit.\<close>

type_synonym message = "(string \<times> string) list"

definition xml_line :: "string \<times> string \<Rightarrow> string" where
  "xml_line kv = fst kv @ ''='' @ snd kv"

definition xml_text :: "message \<Rightarrow> string" where
  "xml_text m = concat (map (\<lambda>kv. xml_line kv @ [CHR 0x0A]) m)"

definition plain_text :: "string \<Rightarrow> bool" where
  "plain_text s \<longleftrightarrow> NUL \<notin> set s \<and> CHR 0x0A \<notin> set s"

definition pair_fits :: "string \<times> string \<Rightarrow> bool" where
  "pair_fits kv \<longleftrightarrow> plain_text (fst kv) \<and> plain_text (snd kv) \<and> CHR ''='' \<notin> set (fst kv) \<and>
     length (fst kv) < XML_LENGTH_KEY - 1 \<and> length (snd kv) < XML_LENGTH_VALUE - 1"

fun tree_addall :: "char \<Rightarrow> message \<Rightarrow> XML_SESSION \<Rightarrow> XML_SESSION" where
  "tree_addall junk [] sid = sid"
| "tree_addall junk ((k, v) # m) sid = tree_addall junk m (snd (tree_addnode junk (True, True) k v sid))"

lemma tree_addall_nodes: "tree_addall junk m sid = sid @ map (\<lambda>(k, v). xml_node junk k v) m"
  by (induction m arbitrary: sid) (auto simp: tree_addnode_def)

lemma NUL_strncpy: "length (cstr src) < n \<Longrightarrow> NUL \<in> set (strncpy dst src n)"
  by (auto simp: strncpy_def)

lemma xml_node_strings:
  assumes "pair_fits (k, v)"
  shows "cstr (xn_key (xml_node junk k v)) = k" "cstr (xn_value (xml_node junk k v)) = v"
    "NUL \<in> set (xn_key (xml_node junk k v))" "NUL \<in> set (xn_value (xml_node junk k v))"
  using assms by (simp_all add: pair_fits_def plain_text_def xml_node_def cstr_strncpy cstr_ident NUL_strncpy)

lemma tree_foreach_text:
  assumes "\<forall>kv \<in> set m. pair_fits kv" and "length ptr + length (xml_text m) < sz"
  shows "tree_foreach sz (map (\<lambda>(k, v). xml_node junk k v) m) ptr = Some (ptr @ xml_text m)"
  using assms
proof (induction m arbitrary: ptr)
  case (Cons kv m)
  obtain k v where kv: "kv = (k, v)" by (cases kv)
  have f: "pair_fits (k, v)" using Cons.prems(1) kv by simp
  have "xml_traverse sz (xml_node junk k v) ptr = Some (ptr @ xml_line kv @ [CHR 0x0A])"
    using f Cons.prems(2) kv
    by (simp add: xml_traverse_def xml_node_strings [OF f] sprintf_buf_def xml_line_def xml_text_def)
      (simp add: pair_fits_def XML_LENGTH_KEY_def XML_LENGTH_VALUE_def)
  then show ?case
    using Cons.IH [of "ptr @ xml_line kv @ [CHR 0x0A]"] Cons.prems kv by (simp add: xml_text_def)
qed (simp add: xml_text_def)

lemma tokens_from_line:
  "set s \<inter> set delim = {} \<Longrightarrow> d \<in> set delim \<Longrightarrow> tokens_from delim acc (s @ d # rest) = add_tok (acc @ s) (tokens_from delim [] rest)"
  by (induction s arbitrary: acc) auto

lemma tokens_xml_text:
  "\<forall>kv \<in> set m. pair_fits kv \<Longrightarrow> tokens [CHR 0x0A] (xml_text m) = map xml_line m"
proof (induction m)
  case (Cons kv m)
  have "set (xml_line kv) \<inter> set [CHR 0x0A] = {}" "xml_line kv \<noteq> []"
    using Cons.prems by (auto simp: xml_line_def pair_fits_def plain_text_def)
  then show ?case
    using Cons tokens_from_line [of "xml_line kv" "[CHR 0x0A]" "CHR 0x0A" "[]" "xml_text m"]
    by (simp add: tokens_def xml_text_def)
qed (simp add: tokens_def xml_text_def)

lemma xpath_line_pair:
  assumes "pair_fits (k, v)"
  shows "xpath_line junk (True, True) (xml_line (k, v)) l = Some (l @ [xml_node junk k v])"
proof -
  let ?s = "k @ ''='' @ v" and ?tmp = "strncpy (replicate XML_LENGTH junk) (xml_line (k, v)) (XML_LENGTH - 1)"
  have len: "length ?s < XML_LENGTH - 1" and nn: "NUL \<notin> set ?s" and e: "CHR ''='' \<notin> set k"
    using assms by (auto simp: pair_fits_def plain_text_def XML_LENGTH_def XML_LENGTH_KEY_def XML_LENGTH_VALUE_def NUL_def)
  have cs: "cstr (xml_line (k, v)) = ?s" using nn by (simp add: xml_line_def cstr_ident del: cstr_simps)
  have c: "cstr ?tmp = ?s" using len cs by (simp add: cstr_strncpy)
  have key: "takeWhile (\<lambda>c. c \<noteq> CHR ''='') ?s = k" using e by (simp add: takeWhile_append)
  have tmp: "?tmp = ?s @ replicate (XML_LENGTH - 1 - length ?s) NUL @ drop (XML_LENGTH - 1) (replicate XML_LENGTH junk)"
    unfolding strncpy_def cs using len by (simp only: take_append take_all) simp
  let ?t = "v @ replicate (XML_LENGTH - 1 - length ?s) NUL @ drop (XML_LENGTH - 1) (replicate XML_LENGTH junk)"
  have t: "drop (length k + 1) ?tmp = ?t" unfolding tmp by simp
  have pos: "0 < XML_LENGTH - 1 - length ?s" using len by linarith
  have v: "NUL \<notin> set v" using nn by simp
  have ct: "cstr ?t = v" by (rule cstr_append_replicate [OF v pos])
  then have node: "xml_node junk k ?t = xml_node junk k v" by (simp only: xml_node_def strncpy_def ct cstr_ident [OF v])
  have "NUL \<in> set ?t" using pos by simp
  then show ?thesis
    unfolding xpath_line_def Let_def c key t node fst_conv snd_conv by simp
qed

lemma xpath_lines_pairs:
  "\<forall>kv \<in> set m. pair_fits kv \<Longrightarrow>
   xpath_lines junk (\<lambda>i. (True, True)) i (map xml_line m) l = Some (l @ map (\<lambda>(k, v). xml_node junk k v) m)"
proof (induction m arbitrary: i l)
  case (Cons kv m)
  then show ?case using xpath_line_pair [of "fst kv" "snd kv" junk l] by (cases kv) simp
qed simp

lemma xml_compare_key:
  assumes "pair_fits (k, v)" and "length (cstr key) < XML_LENGTH_KEY - 1"
  shows "xml_compare (xml_node junk k v) (xml_node NUL key []) = 0 \<longleftrightarrow> k = cstr key"
proof -
  have "cstr (xn_key (xml_node NUL key [])) = cstr key" using assms(2) by (simp add: xml_node_def cstr_strncpy)
  then show ?thesis
    using assms by (simp add: xml_compare_def strncmp_eq_0 xml_node_strings [OF assms(1)] pair_fits_def)
qed

lemma find_pairs:
  "\<forall>kv \<in> set m. pair_fits kv \<Longrightarrow> length (cstr key) < XML_LENGTH_KEY - 1 \<Longrightarrow>
   find (\<lambda>n. xml_compare n (xml_node NUL key []) = 0) (map (\<lambda>(k, v). xml_node junk k v) m) =
     map_option (\<lambda>v. xml_node junk (cstr key) v) (map_of m (cstr key))"
  by (induction m) (auto simp: xml_compare_key)

lemma cstr_strncpy_cut: "0 < n \<Longrightarrow> cstr (strncpy (replicate n NUL) s (n - 1)) = take (n - 1) (cstr s)"
proof -
  assume n: "0 < n"
  have NULs: "cstr (a @ replicate j NUL) = cstr a" for a j by (induction a) (auto, cases j, simp_all)
  have "drop (n - 1) (replicate n NUL) = replicate 1 NUL" using n by simp
  then have "cstr (strncpy (replicate n NUL) s (n - 1)) = cstr (take (n - 1) (cstr s @ replicate (n - 1) NUL))"
    unfolding strncpy_def by (simp only: NULs)
  also have "\<dots> = take (n - 1) (cstr (cstr s))" unfolding cstr_take NULs ..
  finally show ?thesis by (simp add: cstr_ident)
qed

lemma xpath_init_pairs:
  assumes "\<forall>kv \<in> set m. pair_fits kv" and "length m \<le> 50"
  shows "xpath_init junk NUL (True, True) (\<lambda>i. (True, True)) (xml_text m) = Some (Some (map (\<lambda>(k, v). xml_node junk k v) m))"
proof -
  have "NUL \<notin> set (xml_text m)"
    using assms(1) by (auto simp: xml_text_def xml_line_def pair_fits_def plain_text_def NUL_def)
  then show ?thesis
    using assms(2) by (simp add: xpath_init_def cstr_ident ip_parse_arg_tokens tokens_xml_text [OF assms(1)] xpath_lines_pairs [OF assms(1)])
qed

lemma xpath_get_pairs:
  assumes m: "\<forall>kv \<in> set m. pair_fits kv" and k: "length (cstr key) < XML_LENGTH_KEY - 1" and n: "0 < n"
  shows "(fst (xpath_get_param (map (\<lambda>(k, v). xml_node junk k v) m) key n), cstr (snd (xpath_get_param (map (\<lambda>(k, v). xml_node junk k v) m) key n))) =
     (case map_of m (cstr key) of None \<Rightarrow> (0, []) | Some v \<Rightarrow> (1, take (n - 1) v))"
proof (cases "map_of m (cstr key)")
  case None
  then show ?thesis using n by (simp add: xpath_get_param_def find_pairs [OF m k]) (cases n; simp)
next
  case (Some v)
  then have "pair_fits (cstr key, v)" using m map_of_SomeD by fast
  from xml_node_strings(2) [OF this] Some show ?thesis
    by (simp add: xpath_get_param_def find_pairs [OF m k] cstr_strncpy_cut [OF n, simplified])
qed

lemma tree_getxml_pairs:
  assumes "\<forall>kv \<in> set m. pair_fits kv" and "length (xml_text m) < sz"
  shows "tree_getxml (map (\<lambda>(k, v). xml_node junk k v) m) sz = Some (xml_text m)"
  using tree_foreach_text [OF assms(1), of "[]" sz junk] assms(2) by (simp add: tree_getxml_def)

section \<open>Properties\<close>



text \<open>When the byte behind the copy is not a null byte, every message is read beyond the allocation.\<close>

lemma xpath_init_overread: "behind \<noteq> NUL \<Longrightarrow> xpath_init junk behind (True, True) mem buffer = None"
  by (simp add: xpath_init_def)

end
