(* ===== verification/Pppd_Collector.thy ===== *)
theory Pppd_Collector
  imports Libxml Inet
begin

text \<open>
  The collector of dial-in sessions (\<^verbatim>\<open>ipstat_collect_pppd/main.c\<close>). A thread of the pool serves one
  request of \<^verbatim>\<open>pppd\<close>: it reads a message, looks up the password or the address of the login in the
  database and answers with a message. The sockets and the pool are operating system work; what they deliver is an
  argument. \<open>None\<close> is undefined behaviour.
\<close>

section \<open>The socket\<close>

text \<open>\<^verbatim>\<open>host:port\<close> or the path of a local socket; both go into arrays of 100 bytes. The triple is path, host and port.\<close>

definition parse_socket :: "string \<Rightarrow> (string \<times> string \<times> int) option" where
  "parse_socket buffer =
     (let b = cstr buffer
      in if CHR '':'' \<in> set b then do {
           host \<leftarrow> sprintf_buf 100 (takeWhile (\<lambda>c. c \<noteq> CHR '':'') b);
           Some ([], host, atoi (tl (dropWhile (\<lambda>c. c \<noteq> CHR '':'') b)))
         }
         else do { path \<leftarrow> sprintf_buf 100 b; Some (path, [], 0) })"

text \<open>The results of \<^verbatim>\<open>send\<close> and \<^verbatim>\<open>recv\<close>; a received message must not contain null bytes.\<close>

definition send_msg :: "int \<Rightarrow> string \<Rightarrow> int" where
  "send_msg ret msg = (if ret = -1 then -1 else if ret \<noteq> int (length (cstr msg)) then -1 else ret)"

definition recive_msg :: "string option \<Rightarrow> int" where
  "recive_msg res = (case res of None \<Rightarrow> 0 | Some msg \<Rightarrow> if length msg = length (cstr msg) then 1 else 0)"

section \<open>A request\<close>

text \<open>
  What the environment decides: the allocation of the buffer, the received bytes, \<^verbatim>\<open>shutdown\<close>, the
  uninitialised bytes and allocations of the message reader, the allocations of the answer and of \<^verbatim>\<open>hostbyip\<close>,
  and the result of \<^verbatim>\<open>send\<close>.
\<close>

record pppd_env =
  pe_buffer_ok :: bool
  pe_recv :: "string option"
  pe_shutdown_ok :: bool
  pe_junk :: char
  pe_behind :: char
  pe_init_ok :: "bool \<times> bool"
  pe_node_ok :: "nat \<Rightarrow> bool \<times> bool"
  pe_tree_ok :: bool
  pe_answer_ok :: "nat \<Rightarrow> bool \<times> bool"
  pe_host_ok :: bool
  pe_send :: "string \<Rightarrow> int"

fun pppd_nodes :: "pppd_env \<Rightarrow> nat \<Rightarrow> message \<Rightarrow> XML_SESSION \<Rightarrow> XML_SESSION" where
  "pppd_nodes env i [] sid = sid"
| "pppd_nodes env i ((k, v) # m) sid = pppd_nodes env (Suc i) m (snd (tree_addnode (pe_junk env) (pe_answer_ok env i) k v sid))"

text \<open>The answer is built, printed into the buffer and sent; what reached the client completely is returned.\<close>

definition pppd_answer :: "pppd_env \<Rightarrow> message \<Rightarrow> string list option" where
  "pppd_answer env m = do {
     buffer \<leftarrow> tree_getxml (pppd_nodes env 0 m []) 2048;
     Some (if send_msg (pe_send env buffer) buffer = -1 then [] else [buffer])
   }"

definition pppd_query :: "string \<Rightarrow> string \<Rightarrow> string" where
  "pppd_query field login = ''select '' @ field @ '' from Users where Login = '' @ squote @ login @ squote"

text \<open>The first column of the first row, if the query delivers one.\<close>

definition pppd_lookup :: "'w STORE_API \<Rightarrow> string \<Rightarrow> string \<Rightarrow> 'w \<Rightarrow> (string option \<times> 'w) option" where
  "pppd_lookup api field login w =
     (case sql_open api w of
        (None, w1) \<Rightarrow> Some (None, w1)
      | (Some ssid, w1) \<Rightarrow> do {
          buffer1 \<leftarrow> sprintf_buf 2048 (pppd_query field login);
          let (rows, w2) = sql_query api ssid buffer1 w1;
          let w3 = sql_close api ssid w2;
          Some (case rows of None \<Rightarrow> None | Some [] \<Rightarrow> None | Some (row # _) \<Rightarrow> Some (col row 0), w3)
        })"

definition pppd_auth :: "'w STORE_API \<Rightarrow> pppd_env \<Rightarrow> string \<Rightarrow> 'w \<Rightarrow> (string list \<times> 'w) option" where
  "pppd_auth api env login w = do {
     (row, w1) \<leftarrow> pppd_lookup api ''Passwd'' login w;
     let passwd = (case row of None \<Rightarrow> [] | Some r \<Rightarrow> cstr (strncpy (replicate 50 NUL) r 49));
     out \<leftarrow> pppd_answer env
       (if passwd = [] then [(''error_code'', ''ERR''), (''message'', ''error login'')]
        else [(''error_code'', ''OK''), (''password'', passwd), (''message'', ''Permission accept'')]);
     Some (out, w1)
   }"

text \<open>The address is printed as a number into an array of 10 bytes.\<close>

definition pppd_autz :: "'w STORE_API \<Rightarrow> pppd_env \<Rightarrow> string \<Rightarrow> 'w \<Rightarrow> (string list \<times> 'w) option" where
  "pppd_autz api env login w = do {
     (row, w1) \<leftarrow> pppd_lookup api ''Addr'' login w;
     let ip = (case row of None \<Rightarrow> 0 | Some r \<Rightarrow> snd (hostbyip (pe_host_ok env) r 0));
     framed \<leftarrow> (if ip \<noteq> 0 then do { tmp \<leftarrow> sprintf_buf 10 (fmt_u ip); Some [(''framed_address'', tmp)] } else Some []);
     out \<leftarrow> pppd_answer env ([(''error_code'', ''OK''), (''session_id'', ''1111''), (''message'', ''Permission accept'')] @ framed);
     Some (out, w1)
   }"

definition pppd_session :: "pppd_env \<Rightarrow> string list option" where
  "pppd_session env =
     pppd_answer env [(''error_code'', ''OK''), (''session_id'', ''111111111''), (''message'', ''Permission accept'')]"

text \<open>The command of a message whose parameters have been read.\<close>

definition pppd_command :: "'w STORE_API \<Rightarrow> pppd_env \<Rightarrow> string \<Rightarrow> string \<Rightarrow> 'w \<Rightarrow> (string list \<times> 'w) option" where
  "pppd_command api env cmd login w =
     (if strncmp cmd ''auth'' 4 = 0 then (if \<not> pe_tree_ok env then Some ([], w) else pppd_auth api env login w)
      else if strncmp cmd ''autz'' 4 = 0 then (if \<not> pe_tree_ok env then Some ([], w) else pppd_autz api env login w)
      else if strncmp cmd ''start'' 5 = 0 \<or> strncmp cmd ''stop'' 4 = 0 \<or> strncmp cmd ''interim'' 7 = 0 then
        (if \<not> pe_tree_ok env then Some ([], w) else map_option (\<lambda>out. (out, w)) (pppd_session env))
      else Some ([], w))"

definition thr_pppd_client :: "'w STORE_API \<Rightarrow> pppd_env \<Rightarrow> 'w \<Rightarrow> (gboolean \<times> string list \<times> 'w) option" where
  "thr_pppd_client api env w =
     (if \<not> pe_buffer_ok env then Some (0, [], w)
      else if recive_msg (pe_recv env) = 0 then Some (0, [], w)
      else if \<not> pe_shutdown_ok env then Some (1, [], w)
      else do {
        session \<leftarrow> xpath_init (pe_junk env) (pe_behind env) (pe_init_ok env) (pe_node_ok env) (the (pe_recv env));
        case session of None \<Rightarrow> Some (1, [], w)
        | Some sid \<Rightarrow>
            let (found, cmd) = xpath_get_param sid ''cmd'' 50;
                (_, login) = xpath_get_param sid ''login'' 50
            in if found = 0 then Some (1, [], w)
               else do { (out, w1) \<leftarrow> pppd_command api env (cstr cmd) (cstr login) w; Some (1, out, w1) }
      })"

section \<open>Requests in an environment without failures\<close>

definition sound_env :: "char \<Rightarrow> message \<Rightarrow> pppd_env" where
  "sound_env junk m = \<lparr>pe_buffer_ok = True, pe_recv = Some (xml_text m), pe_shutdown_ok = True, pe_junk = junk, pe_behind = NUL,
     pe_init_ok = (True, True), pe_node_ok = (\<lambda>i. (True, True)), pe_tree_ok = True, pe_answer_ok = (\<lambda>i. (True, True)),
     pe_host_ok = True, pe_send = (\<lambda>msg. int (length msg))\<rparr>"

definition request_fits :: "message \<Rightarrow> bool" where
  "request_fits m \<longleftrightarrow> (\<forall>kv \<in> set m. pair_fits kv) \<and> length m \<le> 50"

definition pppd_param :: "message \<Rightarrow> string \<Rightarrow> string" where
  "pppd_param m key = (case map_of m key of None \<Rightarrow> [] | Some v \<Rightarrow> take 49 v)"

lemma NUL_xml_text: "\<forall>kv \<in> set m. pair_fits kv \<Longrightarrow> cstr (xml_text m) = xml_text m"
  by (rule cstr_ident) (auto simp: xml_text_def xml_line_def pair_fits_def plain_text_def NUL_def)

lemma pppd_nodes_sound: "pppd_nodes (sound_env junk r) i m sid = sid @ map (\<lambda>(k, v). xml_node junk k v) m"
  by (induction m arbitrary: i sid) (auto simp: tree_addnode_def sound_env_def)

lemma pppd_answer_sound:
  assumes "\<forall>kv \<in> set m. pair_fits kv" and "length (xml_text m) < 2048"
  shows "pppd_answer (sound_env junk r) m = Some [xml_text m]"
  using tree_getxml_pairs [OF assms, of junk] NUL_xml_text [OF assms(1)]
  by (simp add: pppd_answer_def pppd_nodes_sound send_msg_def) (simp add: sound_env_def)

lemma thr_pppd_client_sound:
  assumes "request_fits m"
  shows "thr_pppd_client api (sound_env junk m) w =
     (if map_of m ''cmd'' = None then Some (1, [], w)
      else do { (out, w1) \<leftarrow> pppd_command api (sound_env junk m) (pppd_param m ''cmd'') (pppd_param m ''login'') w; Some (1, out, w1) })"
proof -
  have m: "\<forall>kv \<in> set m. pair_fits kv" "length m \<le> 50" using assms by (simp_all add: request_fits_def)
  have key: "cstr ''cmd'' = ''cmd''" "cstr ''login'' = ''login''" by (simp_all add: NUL_def)
  let ?sid = "map (\<lambda>(k, v). xml_node junk k v) m"
  have g: "(fst (xpath_get_param ?sid ''cmd'' 50), cstr (snd (xpath_get_param ?sid ''cmd'' 50))) =
        (case map_of m ''cmd'' of None \<Rightarrow> (0, []) | Some v \<Rightarrow> (1, take 49 v))"
      "cstr (snd (xpath_get_param ?sid ''login'' 50)) = pppd_param m ''login''"
    using xpath_get_pairs [OF m(1), of "''cmd''" 50 junk] xpath_get_pairs [OF m(1), of "''login''" 50 junk]
    by (auto simp: key XML_LENGTH_KEY_def pppd_param_def simp del: cstr_simps split: option.splits)
  have r: "recive_msg (Some (xml_text m)) = 1" by (simp add: recive_msg_def NUL_xml_text [OF m(1)])
  show ?thesis
    using g xpath_init_pairs [OF m, of junk]
    by (simp add: thr_pppd_client_def sound_env_def r case_prod_beta pppd_param_def split: option.splits)
qed

section \<open>Properties\<close>

text \<open>What the query for a login delivers, and the answers.\<close>

definition first_column :: "SQL_ROW list option \<Rightarrow> string option" where
  "first_column rows = (case rows of None \<Rightarrow> None | Some [] \<Rightarrow> None | Some (row # _) \<Rightarrow> Some (col row 0))"

definition auth_message :: "string \<Rightarrow> message" where
  "auth_message passwd =
     (if passwd = [] then [(''error_code'', ''ERR''), (''message'', ''error login'')]
      else [(''error_code'', ''OK''), (''password'', passwd), (''message'', ''Permission accept'')])"

definition autz_message :: "IP_addr \<Rightarrow> message" where
  "autz_message ip = [(''error_code'', ''OK''), (''session_id'', ''1111''), (''message'', ''Permission accept'')] @
     (if ip = 0 then [] else [(''framed_address'', fmt_u ip)])"

lemma pppd_lookup_first:
  assumes "sql_open api w = (Some sid, w1)" and "sql_query api sid (pppd_query field login) w1 = (rows, w2)"
    and "length field \<le> 10" and "length login \<le> 49"
  shows "pppd_lookup api field login w = Some (first_column rows, sql_close api sid w2)"
  using assms by (simp add: pppd_lookup_def sprintf_buf_def pppd_query_def squote_def first_column_def)

lemma pair_fits_consts:
  "pair_fits (''error_code'', ''ERR'')" "pair_fits (''message'', ''error login'')" "pair_fits (''error_code'', ''OK'')"
  "pair_fits (''message'', ''Permission accept'')" "pair_fits (''session_id'', ''1111'')"
  by (simp_all add: pair_fits_def plain_text_def NUL_def XML_LENGTH_KEY_def XML_LENGTH_VALUE_def)

lemma pair_fits_passwd: "plain_text passwd \<Longrightarrow> length passwd \<le> 49 \<Longrightarrow> pair_fits (''password'', passwd)"
  by (simp add: pair_fits_def plain_text_def NUL_def XML_LENGTH_KEY_def XML_LENGTH_VALUE_def)

lemma pair_fits_address: "pair_fits (''framed_address'', fmt_u (ip :: IP_addr))"
proof -
  have "\<not> isdigit NUL" "\<not> isdigit CHR 0x0A" by (simp_all add: isdigit_def char_code_def NUL_def)
  then have "NUL \<notin> set (fmt_u ip)" "CHR 0x0A \<notin> set (fmt_u ip)" using show_nat_digits by (auto simp: fmt_u_def)
  then show ?thesis using length_fmt_u(1) [of ip]
    by (simp add: pair_fits_def plain_text_def NUL_def XML_LENGTH_KEY_def XML_LENGTH_VALUE_def)
qed

lemma auth_message_fits: "plain_text passwd \<Longrightarrow> length passwd \<le> 49 \<Longrightarrow> \<forall>kv \<in> set (auth_message passwd). pair_fits kv"
  using pair_fits_consts pair_fits_passwd by (simp add: auth_message_def)

lemma autz_message_fits: "\<forall>kv \<in> set (autz_message ip). pair_fits kv"
  using pair_fits_consts pair_fits_address by (simp add: autz_message_def)

lemma message_lengths:
  "length passwd \<le> 49 \<Longrightarrow> length (xml_text (auth_message passwd)) < 2048" "length (xml_text (autz_message ip)) < 2048"
  using length_fmt_u(1) [of ip] by (auto simp: auth_message_def autz_message_def xml_text_def xml_line_def)

lemma show_nat_longer: "10 ^ k \<le> n \<Longrightarrow> k < length (show_nat n)"
proof (induction k arbitrary: n)
  case (Suc k)
  have "(1 :: nat) \<le> 10 ^ k" by (rule one_le_power) simp
  with Suc.prems have "10 ^ k \<le> n div 10" "10 \<le> n" by (auto intro: order_trans [of _ "10 * 10 ^ k"])
  then show ?case using Suc.IH [of "n div 10"] by (simp add: show_nat.simps [of n])
qed simp

lemma fmt_u_fits: "length (fmt_u (ip :: IP_addr)) < 10 \<longleftrightarrow> unat ip < 10 ^ 9"
  using length_show_nat [of "unat ip" 9] show_nat_longer [of 9 "unat ip"] by (cases "unat ip < 10 ^ 9") (simp_all add: fmt_u_def)



text \<open>
  Dial-in addresses. A request \<open>autz\<close> whose parts fit is answered with the address of the login as a decimal
  number; it faults exactly when that number has ten digits, as for every address whose last part is at least 60: the
  number is printed into an array of 10 bytes.
\<close>

theorem pppd_autz_faults:
  assumes "request_fits m" and "map_of m ''cmd'' = Some ''autz''" and "sql_open api w = (Some sid, w1)"
    and "sql_query api sid (pppd_query ''Addr'' (pppd_param m ''login'')) w1 = (rows, w2)"
    and "ip = (case first_column rows of None \<Rightarrow> 0 | Some r \<Rightarrow> snd (hostbyip True r 0))"
  shows "thr_pppd_client api (sound_env junk m) w =
     (if 10 ^ 9 \<le> unat ip then None else Some (1, [xml_text (autz_message ip)], sql_close api sid w2))"
proof -
  have l: "length (pppd_param m ''login'') \<le> 49" by (simp add: pppd_param_def split: option.split)
  have c: "pppd_param m ''cmd'' = ''autz''" using assms(2) by (simp add: pppd_param_def)
  have h: "pe_host_ok (sound_env junk m)" "pe_tree_ok (sound_env junk m)" by (simp_all add: sound_env_def)
  have a: "pppd_answer (sound_env junk m) (autz_message ip) = Some [xml_text (autz_message ip)]"
    by (rule pppd_answer_sound [OF autz_message_fits message_lengths(2)])
  have e: "(case first_column rows of None \<Rightarrow> 0 | Some r \<Rightarrow> snd (hostbyip (pe_host_ok (sound_env junk m)) r 0)) = ip"
    using assms(5) h(1) by (simp split: option.split)
  have "pppd_autz api (sound_env junk m) (pppd_param m ''login'') w =
      (if 10 ^ 9 \<le> unat ip then None else Some ([xml_text (autz_message ip)], sql_close api sid w2))"
    using pppd_lookup_first [OF assms(3,4) _ l] a fmt_u_fits [of ip]
    by (cases "ip = 0") (simp_all add: pppd_autz_def e Let_def autz_message_def sprintf_buf_def not_less)
  moreover have "strncmp ''autz'' ''auth'' 4 \<noteq> 0" by (simp add: strncmp_eq_0 NUL_def)
  ultimately show ?thesis
    using assms(2) c h(2) by (simp add: thr_pppd_client_sound [OF assms(1)] pppd_command_def)
qed

definition ex_addr_api :: "string \<Rightarrow> unit STORE_API" where
  "ex_addr_api addr = \<lparr>sql_open = (\<lambda>w. (Some 1, w)), sql_close = (\<lambda>sid w. w), sql_exec = (\<lambda>sid s w. (False, w)),
     sql_query = (\<lambda>sid s w. (Some [[addr]], w)), sql_list_tables = (\<lambda>sid s w. (None, w))\<rparr>"

theorem pppd_autz_faults_witness:
  "thr_pppd_client (ex_addr_api ''10.0.0.80'') (sound_env CHR ''x'' [(''cmd'', ''autz''), (''login'', ''bob'')]) () = None \<and>
   thr_pppd_client (ex_addr_api ''10.0.0.7'') (sound_env CHR ''x'' [(''cmd'', ''autz''), (''login'', ''bob'')]) () =
     Some (1, [xml_text (autz_message 0x0700000A)], ())"
proof -
  let ?m = "[(''cmd'', ''autz''), (''login'', ''bob'')]"
  have f: "request_fits ?m"
    by (simp add: request_fits_def pair_fits_def plain_text_def NUL_def XML_LENGTH_KEY_def XML_LENGTH_VALUE_def)
  have c: "map_of ?m ''cmd'' = Some ''autz''" by simp
  have o: "sql_open (ex_addr_api a) () = (Some 1, ())" "sql_query (ex_addr_api a) 1 q () = (Some [[a]], ())" for a q by (simp_all add: ex_addr_api_def)
  have ip: "0x5000000A = (case first_column (Some [[''10.0.0.80'']]) of None \<Rightarrow> 0 | Some r \<Rightarrow> snd (hostbyip True r 0))"
    "0x0700000A = (case first_column (Some [[''10.0.0.7'']]) of None \<Rightarrow> 0 | Some r \<Rightarrow> snd (hostbyip True r 0))"
    by (simp_all add: first_column_def col_def parse_simps)
  show ?thesis
    using pppd_autz_faults [OF f c o(1) o(2) ip(1), of "CHR ''x''"] pppd_autz_faults [OF f c o(1) o(2) ip(2), of "CHR ''x''"] by simp
qed

text \<open>A login is not escaped: this one makes the query deliver the first user's password.\<close>

lemma pppd_injection:
  "pppd_query ''Passwd'' (''x'' @ squote @ '' or '' @ squote @ ''1'' @ squote @ ''='' @ squote @ ''1'') =
     ''select Passwd from Users where Login = '' @ squote @ ''x'' @ squote @ '' or '' @ squote @ ''1'' @ squote @ ''='' @ squote @ ''1'' @ squote"
  by (simp add: pppd_query_def)

text \<open>The socket configuration may hold 4095 characters; from 100 on the copy leaves the array.\<close>

lemma parse_socket_overflow:
  "CHR '':'' \<notin> set (cstr b) \<Longrightarrow> parse_socket b = None \<longleftrightarrow> 100 \<le> length (cstr b)"
  by (auto simp: parse_socket_def sprintf_buf_def Let_def)

end
