(* ===== verification/Core_Control.thy ===== *)
theory Core_Control
  imports Core_Sync Aggregation Server
begin

text \<open>
  The core towards the rest of the program (\<^verbatim>\<open>src/core.c\<close> and the last part of
  \<^verbatim>\<open>src/core_users.c\<close>): the interfaces it is connected to, its registrations with the
  scheduler and the control server, and the commands \<^verbatim>\<open>show users\<close> and
  \<^verbatim>\<open>show user N\<close>. The table of function pointers \<^verbatim>\<open>CORE_API\<close> that
  \<^verbatim>\<open>core_init\<close> fills in is the set of operations of \<^verbatim>\<open>Core_Users\<close> and
  \<^verbatim>\<open>Core_Sync\<close> themselves.

  The lemmas show that a table is printed with one line per node, which commands answer, and that the job registered
  under the configured period is due in exactly the minutes the period divides.
\<close>

section \<open>Printing\<close>

text \<open>The C string in an array; \<open>None\<close> when it has no terminator and the read goes on behind the array.\<close>

definition array_str :: "string \<Rightarrow> string option" where
  "array_str buf = (if NUL \<in> set buf then Some (cstr buf) else None)"

definition users_traverse :: "NODE_USER \<Rightarrow> string list \<Rightarrow> string list option" where
  "users_traverse node sock = do {
     mac \<leftarrow> array_str (nu_mac node);
     Some (send_to_socket (''| '' @ fmt_pad 4 (fmt_d (nu_id node)) @ '' | '' @ fmt_pad 18 (inet_ntoa (nu_addr node)) @ '' | '' @
       fmt_pad 18 mac @ '' | '' @ fmt_pad 10 (fmt_u (nu_traffic node)) @ '' | '' @ fmt_pad 1 (fmt_u (nu_status node)) @ '' |'' @ crlf) sock)
   }"

text \<open>\<open>fmt_price\<close> is the conversion \<^verbatim>\<open>%5.2f\<close> of a price.\<close>

definition rules_traverse :: "(rat \<Rightarrow> string) \<Rightarrow> NODE_RULE \<Rightarrow> string list \<Rightarrow> string list" where
  "rules_traverse fmt_price node sock =
     send_to_socket (''| '' @ fmt_pad 4 (fmt_d (nr_id node)) @ '' | '' @ fmt_pad 4 (fmt_u (nr_status node)) @ '' | '' @
       fmt_pad 1 (fmt_u (nr_direct node)) @ '' | '' @ fmt_pad 18 (inet_ntoa (nr_net node)) @ '' | '' @
       fmt_pad 5 (fmt_u (nr_mask node)) @ '' | '' @ fmt_pad 10 (fmt_d (nr_traffic node)) @ '' | '' @
       fmt_price (nr_price node) @ '' |'' @ crlf) sock"

text \<open>The two walks of \<^verbatim>\<open>g_list_foreach\<close>.\<close>

fun users_foreach :: "NODE_USER list \<Rightarrow> string list \<Rightarrow> string list option" where
  "users_foreach [] sock = Some sock"
| "users_foreach (u # us) sock = do { sock' \<leftarrow> users_traverse u sock; users_foreach us sock' }"

definition users_print :: "(rat \<Rightarrow> string) \<Rightarrow> int \<Rightarrow> core_users \<Rightarrow> string list \<Rightarrow> (gboolean \<times> string list) option" where
  "users_print fmt_price s_id cu sock =
     (case st_users cu of
        None \<Rightarrow> Some (0, sock)
      | Some us \<Rightarrow>
          if s_id = 0 then do {
            let s1 = send_to_socket (''Users statistic`s:'' @ crlf) sock;
            let s2 = send_to_socket (dashes 67) s1;
            let s3 = send_to_socket (''| '' @ fmt_pad 4 ''id'' @ '' | '' @ fmt_pad 18 ''Addr'' @ '' | '' @ fmt_pad 18 ''Mac'' @ '' | '' @
                       fmt_pad 10 ''S_Traffic'' @ '' | '' @ fmt_pad 1 ''S'' @ '' |'' @ crlf) s2;
            s4 \<leftarrow> users_foreach us (send_to_socket (dashes 67) s3);
            Some (1, send_to_socket (dashes 67) s4)
          }
          else case users_find cu (word_of_int s_id) of
            None \<Rightarrow> Some (0, sock)
          | Some i \<Rightarrow>
              let s1 = send_to_socket (dashes 69) sock;
                  s2 = send_to_socket (''| '' @ fmt_pad 4 ''id_r'' @ '' | '' @ fmt_pad 4 ''S'' @ '' | '' @ fmt_pad 1 ''D'' @ '' | '' @
                         fmt_pad 18 ''Net'' @ '' | '' @ fmt_pad 5 ''Mask'' @ '' | '' @ fmt_pad 10 ''Traffic'' @ '' | '' @
                         fmt_pad 5 ''Price'' @ '' |'' @ crlf) s1;
                  s3 = send_to_socket (dashes 69) s2;
                  s4 = fold (rules_traverse fmt_price) (nu_id_rules (user_at cu i)) s3
              in Some (1, send_to_socket (dashes 69) s4))"

definition core_job :: "(rat \<Rightarrow> string) \<Rightarrow> string list \<Rightarrow> core_users \<Rightarrow> string list \<Rightarrow> (gboolean \<times> string list) option" where
  "core_job fmt_price argv cu sock =
     (if length argv = 1 \<and> strncmp (argv ! 0) ''help'' 4 = 0
      then Some (0, send_all [''*  - show users    - Print users tables       *'' @ crlf,
                              ''*  - show user N   - Print rules for N user   *'' @ crlf,
                              ''*  - show core     - Show CORE information    *'' @ crlf,
                              ''*                                             *'' @ crlf] sock)
      else if length argv = 2 \<and> strncmp (argv ! 0) ''show'' 4 = 0 \<and> strncmp (argv ! 1) ''users'' 5 = 0
      then do { (_, sock') \<leftarrow> users_print fmt_price 0 cu sock; Some (1, sock') }
      else if length argv = 3 \<and> strncmp (argv ! 0) ''show'' 4 = 0 \<and> strncmp (argv ! 1) ''user'' 4 = 0
      then do { (_, sock') \<leftarrow> users_print fmt_price (atoi (argv ! 2)) cu sock; Some (1, sock') }
      else Some (0, sock))"

section \<open>Connections to the other modules\<close>

text \<open>The static pointers; only the presence of scheduler and server matters.\<close>

record 'w core_links =
  cl_store :: "'w STORE_API option"
  cl_server :: bool
  cl_sched :: bool

definition core_set_store :: "'w STORE_API option \<Rightarrow> 'w core_links \<Rightarrow> gboolean \<times> 'w core_links" where
  "core_set_store data cl = (1, cl\<lparr>cl_store := data\<rparr>)"

definition core_set_server :: "bool \<Rightarrow> 'w core_links \<Rightarrow> gboolean \<times> 'w core_links \<times> registration list" where
  "core_set_server data cl = (1, cl\<lparr>cl_server := data\<rparr>, if data then [ServerReg ''core''] else [])"

text \<open>The schedule goes into an array of 20 bytes.\<close>

definition core_set_sched :: "int \<Rightarrow> bool \<Rightarrow> 'w core_links \<Rightarrow> (gboolean \<times> 'w core_links \<times> registration list) option" where
  "core_set_sched core_sync_timeout data cl = do {
     str \<leftarrow> sprintf_buf 20 (every_minutes core_sync_timeout);
     Some (1, cl\<lparr>cl_sched := data\<rparr>, if data then [SchedReg ''core'' str] else [])
   }"

text \<open>
  \<open>mem\<close> lists the allocations of the interface and of the user table; the result tells whether an interface is
  returned.
\<close>

definition core_init :: "bool \<times> bool \<Rightarrow> core_users \<Rightarrow> bool \<times> core_users" where
  "core_init mem cu =
     (if \<not> fst mem then (False, cu)
      else let (res, cu1) = users_init (snd mem) cu in (res = 1, cu1))"

text \<open>
  \<^verbatim>\<open>core_free\<close>. The removal of the registrations is part of \<^verbatim>\<open>users_free\<close>; without a
  store the first user that is released reads through a null pointer.
\<close>

definition core_free ::
  "floats \<Rightarrow> 'w core_links \<Rightarrow> core_users \<Rightarrow> 'w \<Rightarrow> (gboolean \<times> core_users \<times> registration list \<times> 'w) option" where
  "core_free fl cl cu w =
     (case st_users cu of
        None \<Rightarrow> Some (1, cu, [], w)
      | Some us \<Rightarrow>
          let regs = (if cl_server cl then [ServerUnreg ''core''] else []) @ (if cl_sched cl then [SchedUnreg ''core''] else [])
          in case cl_store cl of
            None \<Rightarrow> if us = [] \<and> clean_list cu = [] then Some (1, cu\<lparr>st_users := None\<rparr>, regs, w) else None
          | Some api \<Rightarrow> do { (_, cu1, w1) \<leftarrow> users_free fl api cu w; Some (1, cu1, regs, w1) })"

section \<open>What is printed\<close>

definition user_line :: "NODE_USER \<Rightarrow> string" where
  "user_line u = ''| '' @ fmt_pad 4 (fmt_d (nu_id u)) @ '' | '' @ fmt_pad 18 (inet_ntoa (nu_addr u)) @ '' | '' @
     fmt_pad 18 (cstr (nu_mac u)) @ '' | '' @ fmt_pad 10 (fmt_u (nu_traffic u)) @ '' | '' @ fmt_pad 1 (fmt_u (nu_status u)) @ '' |'' @ crlf"

definition rule_line :: "(rat \<Rightarrow> string) \<Rightarrow> NODE_RULE \<Rightarrow> string" where
  "rule_line fmt_price r = (case rules_traverse fmt_price r [] of m # _ \<Rightarrow> m | [] \<Rightarrow> [])"

lemma rules_traverse_line: "rules_traverse fmt_price r sock = sock @ [rule_line fmt_price r]"
  by (simp add: rule_line_def rules_traverse_def send_to_socket_def)

lemma rules_fold: "fold (rules_traverse fmt_price) rs sock = sock @ map (rule_line fmt_price) rs"
  by (induction rs arbitrary: sock) (simp_all add: rules_traverse_line)

lemma users_foreach_lines:
  "users_foreach us sock =
     (if \<forall>u \<in> set us. NUL \<in> set (nu_mac u) then Some (sock @ map (\<lambda>u. take 8190 (user_line u)) us) else None)"
  by (induction us arbitrary: sock) (auto simp: users_traverse_def array_str_def send_to_socket_def user_line_def)

text \<open>
  Control output. With terminated MAC addresses the command \<^verbatim>\<open>show users\<close> answers, changes nothing and prints four
  lines of frame, one line for each user in the order of the table and a closing line; \<^verbatim>\<open>show user N\<close> prints the
  rules of the user with that number, and nothing when there is none or when \<open>N\<close> does not read as a number other than
  0, in which case all users are printed.
\<close>

lemma users_print_lines:
  assumes "st_users cu = Some us" and "\<forall>u \<in> set us. NUL \<in> set (nu_mac u)"
  shows "\<exists>head tail. users_print fmt_price s_id cu sock =
           (if s_id = 0 then Some (1, sock @ head @ map (\<lambda>u. take 8190 (user_line u)) us @ tail)
            else case users_find cu (word_of_int s_id) of
              None \<Rightarrow> Some (0, sock)
            | Some i \<Rightarrow> Some (1, sock @ head @ map (rule_line fmt_price) (nu_id_rules (us ! i)) @ tail)) \<and>
           length head = (if s_id = 0 then 4 else 3) \<and> length tail = 1"
proof (cases "s_id = 0")
  case True
  let ?h = "send_to_socket (''| '' @ fmt_pad 4 ''id'' @ '' | '' @ fmt_pad 18 ''Addr'' @ '' | '' @ fmt_pad 18 ''Mac'' @ '' | '' @
      fmt_pad 10 ''S_Traffic'' @ '' | '' @ fmt_pad 1 ''S'' @ '' |'' @ crlf)"
  let ?head = "send_to_socket (dashes 67) (?h (send_to_socket (dashes 67) (send_to_socket (''Users statistic`s:'' @ crlf) [])))"
  have "users_print fmt_price s_id cu sock =
      Some (1, sock @ ?head @ map (\<lambda>u. take 8190 (user_line u)) us @ [take 8190 (dashes 67)])"
    using True assms by (simp add: users_print_def users_foreach_lines send_to_socket_def)
  moreover have "length ?head = 4" by (simp add: send_to_socket_def)
  ultimately show ?thesis using True by fastforce
next
  case False
  let ?head = "send_to_socket (dashes 69) (send_to_socket (''| '' @ fmt_pad 4 ''id_r'' @ '' | '' @ fmt_pad 4 ''S'' @ '' | '' @ fmt_pad 1 ''D'' @ '' | '' @
      fmt_pad 18 ''Net'' @ '' | '' @ fmt_pad 5 ''Mask'' @ '' | '' @ fmt_pad 10 ''Traffic'' @ '' | '' @
      fmt_pad 5 ''Price'' @ '' |'' @ crlf) (send_to_socket (dashes 69) []))"
  have "users_print fmt_price s_id cu sock =
      (case users_find cu (word_of_int s_id) of None \<Rightarrow> Some (0, sock)
       | Some i \<Rightarrow> Some (1, sock @ ?head @ map (rule_line fmt_price) (nu_id_rules (us ! i)) @ [take 8190 (dashes 69)]))"
    using False assms(1) by (simp add: users_print_def rules_fold send_to_socket_def user_at_def split: option.split)
  moreover have "length ?head = 3" by (simp add: send_to_socket_def)
  ultimately show ?thesis using False by fastforce
qed

lemma core_job_answers:
  assumes "core_job fmt_price argv cu sock = Some (r, sock')" and "r = 1"
  shows "strncmp (argv ! 0) ''show'' 4 = 0 \<and> strncmp (argv ! 1) ''user'' 4 = 0"
proof -
  have "strncmp (argv ! 1) ''user'' 4 = 0" if "strncmp (argv ! 1) ''users'' 5 = 0"
  proof -
    have "take 5 (cstr (argv ! 1)) = take 5 (cstr ''users'')" using that by (simp add: strncmp_eq_0)
    then have "take 4 (take 5 (cstr (argv ! 1))) = take 4 (take 5 (cstr ''users''))" by simp
    then show ?thesis by (simp add: strncmp_eq_0)
  qed
  with assms show ?thesis by (auto simp: core_job_def split: if_splits)
qed

text \<open>The help text announces a command that is not there.\<close>

lemma show_core_unknown: "core_job fmt_price [''show'', ''core''] cu sock = Some (0, sock)"
  by (simp add: core_job_def strncmp_eq_0 cstr_def NUL_def)

text \<open>A user without a terminator in the MAC array makes the command read beyond it.\<close>

lemma users_print_overread:
  "st_users cu = Some us \<Longrightarrow> u \<in> set us \<Longrightarrow> NUL \<notin> set (nu_mac u) \<Longrightarrow> users_print fmt_price 0 cu sock = None"
  by (auto simp: users_print_def users_foreach_lines)

section \<open>The periodic synchronisation\<close>

lemma every_minutes_length: "length (every_minutes (int n)) = length (show_nat n) + 10"
  by (simp add: every_minutes_def fmt_int_def)

lemma core_set_sched_registers:
  assumes "n < 10 ^ 9"
  shows "core_set_sched (int n) True cl = Some (1, cl\<lparr>cl_sched := True\<rparr>, [SchedReg ''core'' (every_minutes (int n))])"
  using length_show_nat [of n 9] assms by (simp add: core_set_sched_def sprintf_buf_def every_minutes_length)

text \<open>
  Period of the core. With a configured period of \<open>n > 0\<close> minutes, \<open>n < 10 ^ 9\<close>, connecting the core to the scheduler
  asks for one job whose registration succeeds, and the turn of the scheduler's manager that sees the job asleep starts
  it exactly in the minutes of the hour that \<open>n\<close> divides: for periods above 59 that is once an hour.
\<close>

theorem core_sync_due:
  assumes "0 < n" and "n < 10 ^ 9"
  shows "\<exists>str sc' node. core_set_sched (int n) True cl = Some (1, cl\<lparr>cl_sched := True\<rparr>, [SchedReg ''core'' str]) \<and>
           schedulers_register (True, True, True) ''core'' str func data (Some sc) = Some (1, Some sc') \<and>
           sched_list sc' = node # sched_list sc \<and> ns_status node = SCHEDULER_SLEEP \<and>
           (\<forall>localtime now. time_cmp localtime now node = Some (int n dvd tm_min (localtime now)))"
proof -
  let ?c = "\<lparr>c_min = EveryN n, c_hour = Every, c_mday = Every, c_mon = Every, c_wday = Every\<rparr>"
  have l: "length (every_minutes (int n)) < 50"
    using length_show_nat [of n 9] assms(2) by (simp add: every_minutes_length)
  have ok: "cron_ok ?c"
    using assms l by (simp add: cron_ok_def every_minutes_cron [symmetric])
  obtain sc' node where "schedulers_register (True, True, True) ''core'' (show_cron ?c) func data (Some sc) = Some (1, Some sc')"
      "sched_list sc' = node # sched_list sc" "ns_status node = SCHEDULER_SLEEP"
      "\<forall>localtime now. time_cmp localtime now node = Some (cron_matches ?c (localtime now))"
    using register_cron [OF ok, of "''core''" func data sc] by blast
  then show ?thesis
    using core_set_sched_registers [OF assms(2), of cl] by (simp add: every_minutes_cron cron_matches_def)
qed

theorem core_sync_due_witness:
  "\<exists>str sc' node. core_set_sched 5 True \<lparr>cl_store = None :: unit STORE_API option, cl_server = True, cl_sched = False\<rparr> =
       Some (1, \<lparr>cl_store = None, cl_server = True, cl_sched = True\<rparr>, [SchedReg ''core'' str]) \<and>
     schedulers_register (True, True, True) ''core'' str 1 0 (Some \<lparr>sched_list = [], sched_do_exit = 0\<rparr>) = Some (1, Some sc') \<and>
     sched_list sc' = [node] \<and> time_cmp (\<lambda>_. zero_tm\<lparr>tm_min := 10\<rparr>) 0 node = Some True"
proof -
  have "(0::nat) < 5" "(5::nat) < 10 ^ 9" by simp_all
  from core_sync_due [OF this, of "\<lparr>cl_store = None :: unit STORE_API option, cl_server = True, cl_sched = False\<rparr>" 1 0 "\<lparr>sched_list = [], sched_do_exit = 0\<rparr>"]
  show ?thesis by (auto simp: zero_tm_def)
qed

text \<open>Periods of ten digits overflow the array.\<close>

lemma core_set_sched_overflow: "core_set_sched 1000000000 data cl = None"
  by (simp add: core_set_sched_def sprintf_buf_def every_minutes_def fmt_int_def show_nat.simps)

end
