(* ===== verification/Loader.thy ===== *)
theory Loader
  imports Aggregation Server
begin

text \<open>
  The loaders of plug-ins (\<^verbatim>\<open>src/collectors.c\<close>, \<^verbatim>\<open>src/system.c\<close>): the walk
  through the plug-in directory, the list of modules found, and the operations that load and unload them. The two files
  are copies of each other but for the wanted type, the status a module starts with, the assignment of the status by
  \<^verbatim>\<open>load_all\<close> and the commands; the parameters \<open>wanted\<close>, \<open>status_of\<close> and \<open>mark\<close> stand for these
  differences.

  The dynamic linker is an argument: \<open>dlopen\<close> maps a path to the library behind it, of which only the exported symbols
  and the result of \<^verbatim>\<open>info\<close> matter. The functions of a plug-in are called through \<open>call_load\<close> and
  \<open>call_unload\<close> on the number of its library, the flag whether the argument is the interface or a null pointer, and the
  state \<open>'w\<close> of the rest of the program. \<open>dlclose_null\<close> says what \<^verbatim>\<open>dlclose(NULL)\<close> does:
  \<open>None\<close> crashes, \<open>Some e\<close> returns and leaves an error for the next \<^verbatim>\<open>dlerror\<close> iff \<open>e\<close>.

  The lemmas show which files end up in the list, which plug-in functions the life of the program calls and in which
  order, and when the displayed status tells the truth.
\<close>

section \<open>Plug-ins\<close>

definition IPSTAT_PLUGIN_COLLECTOR :: int where "IPSTAT_PLUGIN_COLLECTOR = 0"
definition IPSTAT_PLUGIN_STORE :: int where "IPSTAT_PLUGIN_STORE = 1"
definition IPSTAT_PLUGIN_SERVICE :: int where "IPSTAT_PLUGIN_SERVICE = 2"

record PLUGIN_INFO =
  pi_api_version :: "32 word"
  pi_type :: int
  pi_id :: string
  pi_name :: string
  pi_version :: string
  pi_author :: string

text \<open>A library: its number, its symbols, and what its function \<^verbatim>\<open>info\<close> returns.\<close>

record library =
  lib_id :: nat
  lib_symbols :: "string set"
  lib_info :: "PLUGIN_INFO option"

record COLLECTOR =
  pl_library :: nat
  pl_name :: string
  pl_info :: PLUGIN_INFO
  pl_status :: bool

type_synonym SYSTEM = COLLECTOR

type_synonym 'w plugin_call = "nat \<Rightarrow> bool \<Rightarrow> 'w \<Rightarrow> (gboolean \<times> 'w) option"

section \<open>Walking the directory\<close>

text \<open>An entry of the directory, and whether the node, the copy of the name and the list cell can be allocated.\<close>

record dirent =
  d_name :: string
  de_node_ok :: bool
  de_dup_ok :: bool
  de_cell_ok :: bool

definition plugin_name :: "string \<Rightarrow> bool" where
  "plugin_name name \<longleftrightarrow> name \<noteq> ''..'' \<and> name \<noteq> ''.'' \<and> take 10 name = ''libipstat_'' \<and> drop (length name - 3) name = ''.so''"

text \<open>
  The checks on an opened library, in order; a missing symbol or an error still pending from before discards it.
  \<open>None\<close>: the library is closed again.
\<close>

definition check_library :: "int \<Rightarrow> (string \<Rightarrow> bool) \<Rightarrow> string \<Rightarrow> bool \<Rightarrow> library \<Rightarrow> COLLECTOR option" where
  "check_library wanted status_of name pending lib =
     (if ''info'' \<notin> lib_symbols lib \<or> pending then None
      else case lib_info lib of None \<Rightarrow> None
      | Some info \<Rightarrow>
          if pi_type info \<noteq> wanted then None
          else if pi_api_version info < 1 then None
          else if ''load'' \<notin> lib_symbols lib then None
          else if ''unload'' \<notin> lib_symbols lib then None
          else Some \<lparr>pl_library = lib_id lib, pl_name = pi_name info, pl_info = info, pl_status = status_of name\<rparr>)"

text \<open>
  One turn of the loop on the pending error of the linker and the list of nodes. The path is built in an array of 200
  bytes. The pointer to the last three characters of a shorter name is computed but not used.
\<close>

definition scan_entry ::
  "(string \<Rightarrow> library option) \<Rightarrow> bool option \<Rightarrow> int \<Rightarrow> (string \<Rightarrow> bool) \<Rightarrow> string \<Rightarrow> dirent \<Rightarrow> bool \<times> COLLECTOR list \<Rightarrow>
   (bool \<times> COLLECTOR list) option" where
  "scan_entry dlopen dlclose_null wanted status_of dir dp s =
     (if \<not> de_dup_ok dp then None
      else if \<not> plugin_name (d_name dp) then Some s
      else do {
        path \<leftarrow> sprintf_buf 200 (dir @ ''/'' @ d_name dp);
        case dlopen path of
          None \<Rightarrow> (case dlclose_null of None \<Rightarrow> None | Some e \<Rightarrow> Some (e, snd s))
        | Some lib \<Rightarrow>
            (case check_library wanted status_of (d_name dp) (fst s) lib of
               None \<Rightarrow> Some (False, snd s)
             | Some node \<Rightarrow> Some (False, if de_cell_ok dp then node # snd s else []))
      })"

fun scan_dir ::
  "(string \<Rightarrow> library option) \<Rightarrow> bool option \<Rightarrow> int \<Rightarrow> (string \<Rightarrow> bool) \<Rightarrow> string \<Rightarrow> dirent list \<Rightarrow> bool \<times> COLLECTOR list \<Rightarrow>
   (gboolean \<times> COLLECTOR list) option" where
  "scan_dir dlopen dlclose_null wanted status_of dir [] s = Some (1, snd s)"
| "scan_dir dlopen dlclose_null wanted status_of dir (dp # dps) s =
     (if \<not> de_node_ok dp then Some (0, snd s)
      else do {
        s' \<leftarrow> scan_entry dlopen dlclose_null wanted status_of dir dp s;
        scan_dir dlopen dlclose_null wanted status_of dir dps s'
      })"

text \<open>\<open>listing\<close> is \<open>None\<close> when the directory cannot be opened.\<close>

definition scan_plugins ::
  "(string \<Rightarrow> library option) \<Rightarrow> bool option \<Rightarrow> int \<Rightarrow> (string \<Rightarrow> bool) \<Rightarrow> string \<Rightarrow> dirent list option \<Rightarrow> COLLECTOR list \<Rightarrow>
   (gboolean \<times> COLLECTOR list) option" where
  "scan_plugins dlopen dlclose_null wanted status_of dir listing mods =
     (case listing of None \<Rightarrow> Some (1, mods)
      | Some dps \<Rightarrow> scan_dir dlopen dlclose_null wanted status_of dir dps (False, mods))"

section \<open>Loading and unloading\<close>

text \<open>\<open>mark\<close>: whether a successful load sets the status.\<close>

fun load_list :: "'w plugin_call \<Rightarrow> bool \<Rightarrow> bool \<Rightarrow> COLLECTOR list \<Rightarrow> 'w \<Rightarrow> (COLLECTOR list \<times> 'w) option" where
  "load_list call_load mark api [] w = Some ([], w)"
| "load_list call_load mark api (c # cs) w = do {
     (r, w1) \<leftarrow> call_load (pl_library c) api w;
     (cs', w2) \<leftarrow> load_list call_load mark api cs w1;
     Some ((if r = 1 \<and> mark then c\<lparr>pl_status := True\<rparr> else c) # cs', w2)
   }"

fun unload_list :: "'w plugin_call \<Rightarrow> COLLECTOR list \<Rightarrow> 'w \<Rightarrow> (COLLECTOR list \<times> 'w) option" where
  "unload_list call_unload [] w = Some ([], w)"
| "unload_list call_unload (c # cs) w = do {
     (r, w1) \<leftarrow> call_unload (pl_library c) False w;
     (cs', w2) \<leftarrow> unload_list call_unload cs w1;
     Some ((if r = 1 then c\<lparr>pl_status := False\<rparr> else c) # cs', w2)
   }"

definition plugin_compare :: "COLLECTOR \<Rightarrow> string \<Rightarrow> int" where
  "plugin_compare c name = strncmp (pl_name c) name 50"

text \<open>Loading and unloading the first module of that name.\<close>

definition load_named :: "'w plugin_call \<Rightarrow> bool \<Rightarrow> string \<Rightarrow> COLLECTOR list \<Rightarrow> 'w \<Rightarrow> (gboolean \<times> COLLECTOR list \<times> 'w) option" where
  "load_named call_load api name cs w =
     (case find_index (\<lambda>c. plugin_compare c name = 0) cs of
        None \<Rightarrow> Some (0, cs, w)
      | Some i \<Rightarrow>
          if pl_status (cs ! i) then Some (0, cs, w)
          else do {
            (r, w1) \<leftarrow> call_load (pl_library (cs ! i)) api w;
            Some (if r = 1 then (1, cs[i := (cs ! i)\<lparr>pl_status := True\<rparr>], w1) else (0, cs, w1))
          })"

definition unload_named :: "'w plugin_call \<Rightarrow> bool \<Rightarrow> string \<Rightarrow> COLLECTOR list \<Rightarrow> 'w \<Rightarrow> (gboolean \<times> COLLECTOR list \<times> 'w) option" where
  "unload_named call_unload api name cs w =
     (case find_index (\<lambda>c. plugin_compare c name = 0) cs of
        None \<Rightarrow> Some (0, cs, w)
      | Some i \<Rightarrow>
          if \<not> pl_status (cs ! i) then Some (0, cs, w)
          else do {
            (r, w1) \<leftarrow> call_unload (pl_library (cs ! i)) api w;
            Some (if r = 1 then (1, cs[i := (cs ! i)\<lparr>pl_status := False\<rparr>], w1) else (0, cs, w1))
          })"

section \<open>The table of modules\<close>

definition plugin_line :: "COLLECTOR \<Rightarrow> string" where
  "plugin_line c =
     ''| '' @ fmt_pad 5 (pi_id (pl_info c)) @ '' | '' @ fmt_pad 18 (pi_name (pl_info c)) @ '' | '' @
     fmt_pad 10 (pi_version (pl_info c)) @ '' | '' @ fmt_pad 20 (pi_author (pl_info c)) @ '' | '' @
     fmt_pad 8 (if pl_status c then ''ON'' else ''OFF'') @ '' |'' @ crlf"

definition plugin_traverse :: "COLLECTOR \<Rightarrow> string list \<Rightarrow> string list" where
  "plugin_traverse c sock = send_to_socket (plugin_line c) sock"

text \<open>The titles of the two tables differ by a space behind the first column.\<close>

definition plugin_title :: "string \<Rightarrow> string" where
  "plugin_title gap = ''| '' @ fmt_pad 5 ''id'' @ gap @ '' | '' @ fmt_pad 18 ''Name'' @ '' | '' @ fmt_pad 10 ''Version'' @ '' | '' @
     fmt_pad 20 ''Author'' @ '' | '' @ fmt_pad 8 ''Status'' @ '' |'' @ crlf"

section \<open>What is found\<close>

text \<open>What a library must offer to be listed, and the node that stands for it.\<close>

definition usable :: "int \<Rightarrow> library \<Rightarrow> bool" where
  "usable wanted lib \<longleftrightarrow>
     {''info'', ''load'', ''unload''} \<subseteq> lib_symbols lib \<and>
     (case lib_info lib of None \<Rightarrow> False | Some info \<Rightarrow> pi_type info = wanted \<and> pi_api_version info \<noteq> 0)"

definition module_node :: "bool \<Rightarrow> library \<Rightarrow> COLLECTOR" where
  "module_node status lib =
     \<lparr>pl_library = lib_id lib, pl_name = pi_name (the (lib_info lib)), pl_info = the (lib_info lib), pl_status = status\<rparr>"

definition found :: "(string \<Rightarrow> library option) \<Rightarrow> int \<Rightarrow> (string \<Rightarrow> bool) \<Rightarrow> string \<Rightarrow> string \<Rightarrow> COLLECTOR option" where
  "found dlopen wanted status_of dir name =
     (if plugin_name name
      then case dlopen (dir @ ''/'' @ name) of None \<Rightarrow> None
        | Some lib \<Rightarrow> if usable wanted lib then Some (module_node (status_of name) lib) else None
      else None)"

lemma check_library_usable:
  "check_library wanted status_of name False lib = (if usable wanted lib then Some (module_node (status_of name) lib) else None)"
  by (simp add: check_library_def usable_def module_node_def word_less_1 split: option.split)

definition memory_ok :: "dirent \<Rightarrow> bool" where
  "memory_ok dp \<longleftrightarrow> de_node_ok dp \<and> de_dup_ok dp \<and> de_cell_ok dp"

text \<open>The paths fit, and no library fails to open unless closing a null handle is harmless.\<close>

definition paths_ok :: "(string \<Rightarrow> library option) \<Rightarrow> bool option \<Rightarrow> string \<Rightarrow> dirent list \<Rightarrow> bool" where
  "paths_ok dlopen dlclose_null dir dps \<longleftrightarrow>
     (\<forall>dp \<in> set dps. plugin_name (d_name dp) \<longrightarrow>
        length dir + length (d_name dp) < 199 \<and> (dlopen (dir @ ''/'' @ d_name dp) \<noteq> None \<or> dlclose_null = Some False))"

lemma scan_entry_found:
  assumes "memory_ok dp" and "paths_ok dlopen dlclose_null dir [dp]"
  shows "scan_entry dlopen dlclose_null wanted status_of dir dp (False, mods) =
           Some (False, (case found dlopen wanted status_of dir (d_name dp) of None \<Rightarrow> mods | Some c \<Rightarrow> c # mods))"
  using assms
  by (auto simp: scan_entry_def found_def check_library_usable memory_ok_def paths_ok_def sprintf_buf_def split: option.split)

lemma scan_dir_finds:
  assumes "\<forall>dp \<in> set dps. memory_ok dp" and "paths_ok dlopen dlclose_null dir dps"
  shows "scan_dir dlopen dlclose_null wanted status_of dir dps (False, mods) =
           Some (1, rev (List.map_filter (\<lambda>dp. found dlopen wanted status_of dir (d_name dp)) dps) @ mods)"
  using assms
proof (induction dps arbitrary: mods)
  case (Cons dp dps)
  have "scan_entry dlopen dlclose_null wanted status_of dir dp (False, mods) =
      Some (False, (case found dlopen wanted status_of dir (d_name dp) of None \<Rightarrow> mods | Some c \<Rightarrow> c # mods))"
    using Cons.prems by (intro scan_entry_found) (auto simp: paths_ok_def)
  moreover have "paths_ok dlopen dlclose_null dir dps" using Cons.prems(2) by (auto simp: paths_ok_def)
  ultimately show ?case
    using Cons by (auto simp: memory_ok_def List.map_filter_simps split: option.split)
qed (simp add: List.map_filter_simps)

lemma found_wanted:
  assumes "found dlopen wanted status_of dir name = Some c"
  shows "pi_type (pl_info c) = wanted" "pi_api_version (pl_info c) \<noteq> 0" "pl_status c = status_of name"
    "plugin_name name" "pl_name c = pi_name (pl_info c)"
  using assms by (auto simp: found_def usable_def module_node_def split: if_splits option.splits)

text \<open>
  A linker whose \<^verbatim>\<open>dlclose\<close> reports the null handle loses the next plug-in of the directory; one that
  does not check it ends the program.
\<close>

lemma failed_open_loses_next:
  assumes "plugin_name a" and "length dir + length a < 199" and "dlopen (dir @ ''/'' @ a) = None"
    and "plugin_name b" and "length dir + length b < 199" and "dlopen (dir @ ''/'' @ b) = Some lib"
    and "memory_ok \<lparr>d_name = a, de_node_ok = m1, de_dup_ok = m2, de_cell_ok = m3\<rparr>"
  shows "scan_dir dlopen (Some True) wanted status_of dir
           [\<lparr>d_name = a, de_node_ok = m1, de_dup_ok = m2, de_cell_ok = m3\<rparr>, \<lparr>d_name = b, de_node_ok = m1, de_dup_ok = m2, de_cell_ok = m3\<rparr>] (False, mods) =
         Some (1, mods)"
    and "scan_dir dlopen None wanted status_of dir [\<lparr>d_name = a, de_node_ok = m1, de_dup_ok = m2, de_cell_ok = m3\<rparr>] (False, mods) = None"
  using assms by (simp_all add: scan_entry_def sprintf_buf_def memory_ok_def check_library_def)

section \<open>Calls of the plug-ins\<close>

text \<open>The call functions with a record of the calls made.\<close>

datatype plugin_event = Loaded nat bool | Unloaded nat bool

definition recording :: "(nat \<Rightarrow> bool \<Rightarrow> plugin_event) \<Rightarrow> 'w plugin_call \<Rightarrow> ('w \<times> plugin_event list) plugin_call" where
  "recording ev call l api s = map_option (\<lambda>(r, w'). (r, w', snd s @ [ev l api])) (call l api (fst s))"

lemma recording_call:
  "call l api w = Some (r, w1) \<Longrightarrow> recording ev call l api (w, tr) = Some (r, w1, tr @ [ev l api])"
  by (simp add: recording_def)

definition total_call :: "'w plugin_call \<Rightarrow> bool" where
  "total_call call \<longleftrightarrow> (\<forall>l api w. call l api w \<noteq> None)"

lemma load_list_calls:
  assumes "total_call call_load"
  shows "\<exists>cs' w'. load_list (recording Loaded call_load) mark api cs (w, tr) = Some (cs', w', tr @ map (\<lambda>c. Loaded (pl_library c) api) cs) \<and>
           map pl_library cs' = map pl_library cs \<and> map pl_name cs' = map pl_name cs"
proof (induction cs arbitrary: w tr)
  case (Cons c cs)
  obtain r w1 where c: "call_load (pl_library c) api w = Some (r, w1)"
    using assms unfolding total_call_def by (metis not_Some_eq prod.exhaust)
  obtain cs' w' where "load_list (recording Loaded call_load) mark api cs (w1, tr @ [Loaded (pl_library c) api]) =
      Some (cs', w', (tr @ [Loaded (pl_library c) api]) @ map (\<lambda>c. Loaded (pl_library c) api) cs)"
      "map pl_library cs' = map pl_library cs" "map pl_name cs' = map pl_name cs"
    using Cons.IH by blast
  then show ?case using recording_call [of call_load, OF c, of Loaded tr] by fastforce
qed simp

lemma unload_list_calls:
  assumes "total_call call_unload"
  shows "\<exists>cs' w'. unload_list (recording Unloaded call_unload) cs (w, tr) = Some (cs', w', tr @ map (\<lambda>c. Unloaded (pl_library c) False) cs) \<and>
           map pl_library cs' = map pl_library cs"
proof (induction cs arbitrary: w tr)
  case (Cons c cs)
  obtain r w1 where c: "call_unload (pl_library c) False w = Some (r, w1)"
    using assms unfolding total_call_def by (metis not_Some_eq prod.exhaust)
  obtain cs' w' where "unload_list (recording Unloaded call_unload) cs (w1, tr @ [Unloaded (pl_library c) False]) =
      Some (cs', w', (tr @ [Unloaded (pl_library c) False]) @ map (\<lambda>c. Unloaded (pl_library c) False) cs)"
      "map pl_library cs' = map pl_library cs"
    using Cons.IH by blast
  then show ?case using recording_call [of call_unload, OF c, of Unloaded tr] by fastforce
qed simp

section \<open>When the status is the truth\<close>

text \<open>
  What a plug-in promises: while it does not run, a load with the interface starts it exactly when it answers 1;
  an unload stops it exactly when it answers 1; and neither touches any other plug-in. \<open>sane\<close> is the plug-ins' own
  invariant.
\<close>

locale plugin_host =
  fixes call_load call_unload :: "'w plugin_call" and running :: "'w \<Rightarrow> nat \<Rightarrow> bool" and sane :: "'w \<Rightarrow> bool"
  assumes load_starts: "sane w \<Longrightarrow> \<not> running w l \<Longrightarrow> call_load l True w = Some (r, w') \<Longrightarrow>
      sane w' \<and> (\<forall>k. running w' k \<longleftrightarrow> running w k \<or> k = l \<and> r = 1)"
    and unload_stops: "sane w \<Longrightarrow> call_unload l api w = Some (r, w') \<Longrightarrow>
      sane w' \<and> (\<forall>k. running w' k \<longleftrightarrow> running w k \<and> \<not> (k = l \<and> r = 1))"
begin

text \<open>The displayed status is the truth about the modules of the list, each of which is there once.\<close>

definition truthful :: "COLLECTOR list \<Rightarrow> 'w \<Rightarrow> bool" where
  "truthful cs w \<longleftrightarrow> sane w \<and> distinct (map pl_library cs) \<and> (\<forall>c \<in> set cs. pl_status c \<longleftrightarrow> running w (pl_library c))"

lemma load_list_truthful:
  assumes "load_list call_load True True cs w = Some (cs', w')"
    and "truthful cs w" and "\<forall>c \<in> set cs. \<not> pl_status c"
  shows "truthful cs' w' \<and> map pl_library cs' = map pl_library cs \<and>
         (\<forall>k. k \<notin> pl_library ` set cs \<longrightarrow> running w' k = running w k)"
  using assms
proof (induction cs arbitrary: w cs')
  case (Cons c cs)
  obtain r w1 cs1 where c: "call_load (pl_library c) True w = Some (r, w1)"
      "load_list call_load True True cs w1 = Some (cs1, w')" "cs' = (if r = 1 then c\<lparr>pl_status := True\<rparr> else c) # cs1"
    using Cons.prems(1) by (auto split: Option.bind_splits)
  have w1: "sane w1" "\<forall>k. running w1 k \<longleftrightarrow> running w k \<or> k = pl_library c \<and> r = 1"
    using load_starts [of w "pl_library c" r w1] c(1) Cons.prems(2,3) by (auto simp: truthful_def)
  have new: "pl_library c \<notin> pl_library ` set cs" using Cons.prems(2) by (simp add: truthful_def)
  have "pl_library d \<noteq> pl_library c" if "d \<in> set cs" for d using new that by (metis imageI)
  then have "truthful cs w1" using Cons.prems(2) w1 by (auto simp: truthful_def)
  then have IH: "truthful cs1 w'" "map pl_library cs1 = map pl_library cs" "\<forall>k. k \<notin> pl_library ` set cs \<longrightarrow> running w' k = running w1 k"
    using Cons.IH [OF c(2)] Cons.prems(3) by auto
  have lib: "pl_library ` set cs1 = pl_library ` set cs" using IH(2) by (metis set_map)
  have "running w' (pl_library c) \<longleftrightarrow> r = 1" using IH(3) new w1(2) Cons.prems(2,3) by (simp add: truthful_def)
  then show ?case using IH w1(2) new lib c(3) Cons.prems(3) by (auto simp: truthful_def)
qed (auto simp: truthful_def)

lemma unload_list_truthful:
  assumes "unload_list call_unload cs w = Some (cs', w')" and "truthful cs w"
  shows "truthful cs' w' \<and> map pl_library cs' = map pl_library cs \<and>
         (\<forall>k. k \<notin> pl_library ` set cs \<longrightarrow> running w' k = running w k)"
  using assms
proof (induction cs arbitrary: w cs')
  case (Cons c cs)
  obtain r w1 cs1 where c: "call_unload (pl_library c) False w = Some (r, w1)"
      "unload_list call_unload cs w1 = Some (cs1, w')" "cs' = (if r = 1 then c\<lparr>pl_status := False\<rparr> else c) # cs1"
    using Cons.prems(1) by (auto split: Option.bind_splits)
  have w1: "sane w1" "\<forall>k. running w1 k \<longleftrightarrow> running w k \<and> \<not> (k = pl_library c \<and> r = 1)"
    using unload_stops [of w "pl_library c" False r w1] c(1) Cons.prems(2) by (auto simp: truthful_def)
  have new: "pl_library c \<notin> pl_library ` set cs" using Cons.prems(2) by (simp add: truthful_def)
  have "pl_library d \<noteq> pl_library c" if "d \<in> set cs" for d using new that by (metis imageI)
  then have "truthful cs w1" using Cons.prems(2) w1 by (auto simp: truthful_def)
  then have IH: "truthful cs1 w'" "map pl_library cs1 = map pl_library cs" "\<forall>k. k \<notin> pl_library ` set cs \<longrightarrow> running w' k = running w1 k"
    using Cons.IH [OF c(2)] by auto
  have lib: "pl_library ` set cs1 = pl_library ` set cs" using IH(2) by (metis set_map)
  have "running w' (pl_library c) \<longleftrightarrow> pl_status c \<and> r \<noteq> 1" using IH(3) new w1(2) Cons.prems(2) by (auto simp: truthful_def)
  then show ?case using IH w1(2) new lib c(3) by (auto simp: truthful_def)
qed (auto simp: truthful_def)

lemma truthful_update:
  assumes "truthful cs w" and "i < length cs" and "sane w'"
    and "\<forall>k. running w' k \<longleftrightarrow> (if k = pl_library (cs ! i) then b else running w k)"
  shows "truthful (cs[i := (cs ! i)\<lparr>pl_status := b\<rparr>]) w'"
proof -
  have lib: "map pl_library (cs[i := (cs ! i)\<lparr>pl_status := b\<rparr>]) = map pl_library cs"
    using assms(2) by (simp add: map_update list_update_same_conv)
  have "pl_status (cs[i := (cs ! i)\<lparr>pl_status := b\<rparr>] ! j) \<longleftrightarrow> running w' (pl_library (cs[i := (cs ! i)\<lparr>pl_status := b\<rparr>] ! j))"
    if j: "j < length cs" for j
  proof (cases "j = i")
    case False
    then have "pl_library (cs ! j) \<noteq> pl_library (cs ! i)"
      using assms(1,2) j nth_eq_iff_index_eq [of "map pl_library cs" j i] by (simp add: truthful_def)
    then show ?thesis using False assms(1,4) j by (simp add: truthful_def)
  qed (use assms(2,4) in simp)
  then show ?thesis using assms(1,3) lib by (auto simp: truthful_def in_set_conv_nth)
qed

lemma load_named_truthful:
  assumes "load_named call_load True name cs w = Some (r, cs', w')" and "truthful cs w"
  shows "truthful cs' w' \<and> map pl_library cs' = map pl_library cs"
proof (cases "find_index (\<lambda>c. plugin_compare c name = 0) cs")
  case (Some i)
  then have i: "i < length cs" by (simp add: find_index_SomeD)
  show ?thesis
  proof (cases "pl_status (cs ! i)")
    case False
    then obtain q w1 where q: "call_load (pl_library (cs ! i)) True w = Some (q, w1)"
        "(r, cs', w') = (if q = 1 then (1, cs[i := (cs ! i)\<lparr>pl_status := True\<rparr>], w1) else (0, cs, w1))"
      using assms(1) Some by (auto simp: load_named_def split: Option.bind_splits)
    have stopped: "\<not> running w (pl_library (cs ! i))" using assms(2) False i by (simp add: truthful_def)
    have w1: "sane w1" "\<forall>k. running w1 k \<longleftrightarrow> running w k \<or> k = pl_library (cs ! i) \<and> q = 1"
      using load_starts [OF _ stopped q(1)] assms(2) by (auto simp: truthful_def)
    show ?thesis
    proof (cases "q = 1")
      case True
      have "truthful (cs[i := (cs ! i)\<lparr>pl_status := True\<rparr>]) w1"
        by (rule truthful_update [OF assms(2) i w1(1)]) (use w1(2) True in auto)
      then show ?thesis using q(2) True i by (simp add: map_update list_update_same_conv)
    next
      case no: False
      then have "truthful cs w1" using assms(2) w1 by (simp add: truthful_def)
      then show ?thesis using q(2) no by simp
    qed
  qed (use assms Some in \<open>auto simp: load_named_def\<close>)
qed (use assms in \<open>auto simp: load_named_def simp del: find_index_None_iff\<close>)

lemma unload_named_truthful:
  assumes "unload_named call_unload api name cs w = Some (r, cs', w')" and "truthful cs w"
  shows "truthful cs' w' \<and> map pl_library cs' = map pl_library cs"
proof (cases "find_index (\<lambda>c. plugin_compare c name = 0) cs")
  case (Some i)
  then have i: "i < length cs" by (simp add: find_index_SomeD)
  show ?thesis
  proof (cases "pl_status (cs ! i)")
    case True
    then obtain q w1 where q: "call_unload (pl_library (cs ! i)) api w = Some (q, w1)"
        "(r, cs', w') = (if q = 1 then (1, cs[i := (cs ! i)\<lparr>pl_status := False\<rparr>], w1) else (0, cs, w1))"
      using assms(1) Some by (auto simp: unload_named_def split: Option.bind_splits)
    have w1: "sane w1" "\<forall>k. running w1 k \<longleftrightarrow> running w k \<and> \<not> (k = pl_library (cs ! i) \<and> q = 1)"
      using unload_stops [OF _ q(1)] assms(2) by (auto simp: truthful_def)
    show ?thesis
    proof (cases "q = 1")
      case True
      have "truthful (cs[i := (cs ! i)\<lparr>pl_status := False\<rparr>]) w1"
        by (rule truthful_update [OF assms(2) i w1(1)]) (use w1(2) True in auto)
      then show ?thesis using q(2) True i by (simp add: map_update list_update_same_conv)
    next
      case no: False
      then have "truthful cs w1" using assms(2) w1 by (simp add: truthful_def)
      then show ?thesis using q(2) no by simp
    qed
  qed (use assms Some in \<open>auto simp: unload_named_def\<close>)
qed (use assms in \<open>auto simp: unload_named_def simp del: find_index_None_iff\<close>)

end

end
