(* ===== verification/Plugins.thy ===== *)
theory Plugins
  imports Loader
begin

text \<open>
  The two instances of the loader: collectors (\<^verbatim>\<open>src/collectors.c\<close>) and system modules
  (\<^verbatim>\<open>src/system.c\<close>), with their start, end and commands. The directory in the static variable
  \<^verbatim>\<open>dir\<close> is the argument \<open>dir\<close> after the parsing of the configuration; \<^verbatim>\<open>api\<close> tells
  whether the interface passed to the start is there, \<open>server\<close> whether it holds the control server.
\<close>

text \<open>The static pointer to the interface (only whether it is set) and the list of modules.\<close>

record plugins =
  pg_api :: bool
  pg_list :: "COLLECTOR list"

section \<open>Collectors\<close>

text \<open>The check for disabled files looks at the first five characters of a name that starts with \<^verbatim>\<open>libipstat_\<close>.\<close>

definition collector_status :: "string \<Rightarrow> bool" where
  "collector_status name \<longleftrightarrow> take 5 name \<noteq> ''.off.''"

definition col_init ::
  "(string \<Rightarrow> library option) \<Rightarrow> bool option \<Rightarrow> string \<Rightarrow> dirent list option \<Rightarrow> plugins \<Rightarrow> (gboolean \<times> plugins) option" where
  "col_init dlopen dlclose_null dir listing st = do {
     (res, cs) \<leftarrow> scan_plugins dlopen dlclose_null IPSTAT_PLUGIN_COLLECTOR collector_status dir listing (pg_list st);
     Some (res, st\<lparr>pg_list := cs\<rparr>)
   }"

definition col_free :: "plugins \<Rightarrow> gboolean \<times> plugins" where
  "col_free st = (1, st\<lparr>pg_list := []\<rparr>)"

text \<open>The interface is read before it is checked.\<close>

definition collectors_init ::
  "(string \<Rightarrow> library option) \<Rightarrow> bool option \<Rightarrow> string \<Rightarrow> dirent list option \<Rightarrow> bool \<Rightarrow> bool \<Rightarrow> plugins \<Rightarrow>
   (gboolean \<times> plugins \<times> registration list) option" where
  "collectors_init dlopen dlclose_null dir listing api server st =
     (if \<not> api then None
      else do {
        (res, st1) \<leftarrow> col_init dlopen dlclose_null dir listing (st\<lparr>pg_api := True\<rparr>);
        Some (res, st1, if server then [ServerReg ''collectors''] else [])
      })"

definition collectors_free :: "bool \<Rightarrow> plugins \<Rightarrow> gboolean \<times> plugins \<times> registration list" where
  "collectors_free server st =
     (let regs = (if pg_api st \<and> server then [ServerUnreg ''collectors''] else []);
          (res, st1) = col_free st
      in (res, st1\<lparr>pg_api := False\<rparr>, regs))"

definition collectors_load_all :: "'w plugin_call \<Rightarrow> plugins \<Rightarrow> 'w \<Rightarrow> (gboolean \<times> plugins \<times> 'w) option" where
  "collectors_load_all call_load st w = do {
     (cs, w1) \<leftarrow> load_list call_load False (pg_api st) (pg_list st) w;
     Some (1, st\<lparr>pg_list := cs\<rparr>, w1)
   }"

definition collectors_unload_all :: "'w plugin_call \<Rightarrow> plugins \<Rightarrow> 'w \<Rightarrow> (gboolean \<times> plugins \<times> 'w) option" where
  "collectors_unload_all call_unload st w = do {
     (cs, w1) \<leftarrow> unload_list call_unload (pg_list st) w;
     Some (1, st\<lparr>pg_list := cs\<rparr>, w1)
   }"

definition collectors_load :: "'w plugin_call \<Rightarrow> string \<Rightarrow> plugins \<Rightarrow> 'w \<Rightarrow> (gboolean \<times> plugins \<times> 'w) option" where
  "collectors_load call_load name st w = do {
     (res, cs, w1) \<leftarrow> load_named call_load (pg_api st) name (pg_list st) w;
     Some (res, st\<lparr>pg_list := cs\<rparr>, w1)
   }"

definition collectors_unload :: "'w plugin_call \<Rightarrow> string \<Rightarrow> plugins \<Rightarrow> 'w \<Rightarrow> (gboolean \<times> plugins \<times> 'w) option" where
  "collectors_unload call_unload name st w = do {
     (res, cs, w1) \<leftarrow> unload_named call_unload (pg_api st) name (pg_list st) w;
     Some (res, st\<lparr>pg_list := cs\<rparr>, w1)
   }"

definition collect_print :: "plugins \<Rightarrow> string list \<Rightarrow> gboolean \<times> string list" where
  "collect_print st sock =
     (1, send_to_socket (dashes 77) (fold plugin_traverse (pg_list st)
           (send_all [''List Collectors:'' @ crlf, dashes 78, plugin_title '' '', dashes 78] sock)))"

text \<open>The commands \<^verbatim>\<open>on\<close> and \<^verbatim>\<open>off\<close> answer and do nothing.\<close>

definition collect_job :: "string list \<Rightarrow> plugins \<Rightarrow> string list \<Rightarrow> gboolean \<times> string list" where
  "collect_job argv st sock =
     (if length argv = 1 \<and> strncmp (argv ! 0) ''help'' 4 = 0
      then (0, send_all [''*  - show collect    - Print list collectors  *'' @ crlf,
                         ''*  - on collect    - On Collector             *'' @ crlf,
                         ''*  - off collect   - Off Collector            *'' @ crlf] sock)
      else if length argv = 2 \<and> strncmp (argv ! 0) ''show'' 4 = 0 \<and> strncmp (argv ! 1) ''collect'' 6 = 0
      then (1, snd (collect_print st sock))
      else if length argv = 3 \<and> strncmp (argv ! 0) ''on'' 4 = 0 \<and> strncmp (argv ! 1) ''collect'' 6 = 0 then (1, sock)
      else if length argv = 3 \<and> strncmp (argv ! 0) ''off'' 6 = 0 \<and> strncmp (argv ! 1) ''collect'' 6 = 0 then (1, sock)
      else (0, sock))"

section \<open>System modules\<close>

definition sys_init ::
  "(string \<Rightarrow> library option) \<Rightarrow> bool option \<Rightarrow> string \<Rightarrow> dirent list option \<Rightarrow> plugins \<Rightarrow> (gboolean \<times> plugins) option" where
  "sys_init dlopen dlclose_null dir listing st = do {
     (res, cs) \<leftarrow> scan_plugins dlopen dlclose_null IPSTAT_PLUGIN_SERVICE (\<lambda>_. False) dir listing (pg_list st);
     Some (res, st\<lparr>pg_list := cs\<rparr>)
   }"

definition sys_free :: "plugins \<Rightarrow> gboolean \<times> plugins" where
  "sys_free st = (1, st\<lparr>pg_list := []\<rparr>)"

definition system_init ::
  "(string \<Rightarrow> library option) \<Rightarrow> bool option \<Rightarrow> string \<Rightarrow> dirent list option \<Rightarrow> bool \<Rightarrow> bool \<Rightarrow> plugins \<Rightarrow>
   (gboolean \<times> plugins \<times> registration list) option" where
  "system_init dlopen dlclose_null dir listing api server st =
     (if \<not> api then None
      else do {
        (res, st1) \<leftarrow> sys_init dlopen dlclose_null dir listing (st\<lparr>pg_api := True\<rparr>);
        Some (res, st1, if server then [ServerReg ''system''] else [])
      })"

definition system_free :: "bool \<Rightarrow> plugins \<Rightarrow> gboolean \<times> plugins \<times> registration list" where
  "system_free server st =
     (let regs = (if pg_api st \<and> server then [ServerUnreg ''system''] else []);
          (res, st1) = sys_free st
      in (res, st1\<lparr>pg_api := False\<rparr>, regs))"

definition system_load_all :: "'w plugin_call \<Rightarrow> plugins \<Rightarrow> 'w \<Rightarrow> (gboolean \<times> plugins \<times> 'w) option" where
  "system_load_all call_load st w = do {
     (cs, w1) \<leftarrow> load_list call_load True (pg_api st) (pg_list st) w;
     Some (1, st\<lparr>pg_list := cs\<rparr>, w1)
   }"

definition system_unload_all :: "'w plugin_call \<Rightarrow> plugins \<Rightarrow> 'w \<Rightarrow> (gboolean \<times> plugins \<times> 'w) option" where
  "system_unload_all call_unload st w = do {
     (cs, w1) \<leftarrow> unload_list call_unload (pg_list st) w;
     Some (1, st\<lparr>pg_list := cs\<rparr>, w1)
   }"

definition system_load :: "'w plugin_call \<Rightarrow> string \<Rightarrow> plugins \<Rightarrow> 'w \<Rightarrow> (gboolean \<times> plugins \<times> 'w) option" where
  "system_load call_load name st w = do {
     (res, cs, w1) \<leftarrow> load_named call_load (pg_api st) name (pg_list st) w;
     Some (res, st\<lparr>pg_list := cs\<rparr>, w1)
   }"

definition system_unload :: "'w plugin_call \<Rightarrow> string \<Rightarrow> plugins \<Rightarrow> 'w \<Rightarrow> (gboolean \<times> plugins \<times> 'w) option" where
  "system_unload call_unload name st w = do {
     (res, cs, w1) \<leftarrow> unload_named call_unload (pg_api st) name (pg_list st) w;
     Some (res, st\<lparr>pg_list := cs\<rparr>, w1)
   }"

definition system_print :: "plugins \<Rightarrow> string list \<Rightarrow> gboolean \<times> string list" where
  "system_print st sock =
     (1, send_to_socket (dashes 77) (fold plugin_traverse (pg_list st)
           (send_all [''List System Modules:'' @ crlf, dashes 77, plugin_title [], dashes 77] sock)))"

definition system_job :: "string list \<Rightarrow> plugins \<Rightarrow> string list \<Rightarrow> gboolean \<times> string list" where
  "system_job argv st sock =
     (if length argv = 1 \<and> strncmp (argv ! 0) ''help'' 4 = 0
      then (0, send_all [''*  - show system    - Show system modules     *'' @ crlf] sock)
      else if length argv = 2 \<and> strncmp (argv ! 0) ''show'' 4 = 0 \<and> strncmp (argv ! 1) ''system'' 6 = 0
      then (1, snd (system_print st sock))
      else (0, sock))"

section \<open>Which modules are found\<close>

lemma found_types:
  assumes "c \<in> set (List.map_filter (\<lambda>dp. found dlopen wanted status_of dir (d_name dp)) dps)"
  shows "pi_type (pl_info c) = wanted \<and> pi_api_version (pl_info c) \<noteq> 0 \<and> pl_name c = pi_name (pl_info c) \<and>
         (\<exists>dp \<in> set dps. plugin_name (d_name dp) \<and> pl_status c = status_of (d_name dp))"
proof -
  obtain dp where "dp \<in> set dps" "found dlopen wanted status_of dir (d_name dp) = Some c"
    using assms by (auto simp: map_filter_def)
  then show ?thesis using found_wanted by metis
qed

lemma collector_status_plugin: "plugin_name name \<Longrightarrow> collector_status name"
proof -
  assume "plugin_name name"
  then have "take 5 (take 10 name) = take 5 ''libipstat_''" by (simp add: plugin_name_def)
  then show "collector_status name" by (simp add: collector_status_def)
qed

text \<open>
  C26 (loading of plug-ins). When memory suffices, the paths fit and no library fails to open in a way that disturbs the linker,
  the two loaders find in a directory exactly the files named \<^verbatim>\<open>libipstat_*.so\<close> whose library has the wanted type, a
  version and the three functions, in reverse order of the directory. All collectors are shown as running before any is loaded,
  no system module is, and no module is in both lists.
\<close>

theorem plugins_found:
  assumes "\<forall>dp \<in> set dps. memory_ok dp" and "paths_ok dlopen dlclose_null dir dps"
  shows "\<exists>cs ss. col_init dlopen dlclose_null dir (Some dps) \<lparr>pg_api = True, pg_list = []\<rparr> = Some (1, \<lparr>pg_api = True, pg_list = cs\<rparr>) \<and>
           sys_init dlopen dlclose_null dir (Some dps) \<lparr>pg_api = True, pg_list = []\<rparr> = Some (1, \<lparr>pg_api = True, pg_list = ss\<rparr>) \<and>
           cs = rev (List.map_filter (\<lambda>dp. found dlopen IPSTAT_PLUGIN_COLLECTOR (\<lambda>_. True) dir (d_name dp)) dps) \<and>
           ss = rev (List.map_filter (\<lambda>dp. found dlopen IPSTAT_PLUGIN_SERVICE (\<lambda>_. False) dir (d_name dp)) dps) \<and>
           (\<forall>c \<in> set cs. pl_status c) \<and> (\<forall>s \<in> set ss. \<not> pl_status s) \<and> set cs \<inter> set ss = {}"
proof -
  let ?c = "List.map_filter (\<lambda>dp. found dlopen IPSTAT_PLUGIN_COLLECTOR collector_status dir (d_name dp)) dps"
  let ?c' = "List.map_filter (\<lambda>dp. found dlopen IPSTAT_PLUGIN_COLLECTOR (\<lambda>_. True) dir (d_name dp)) dps"
  let ?s = "List.map_filter (\<lambda>dp. found dlopen IPSTAT_PLUGIN_SERVICE (\<lambda>_. False) dir (d_name dp)) dps"
  have same: "found dlopen w collector_status dir n = found dlopen w (\<lambda>_. True) dir n" for w n
    by (simp add: found_def collector_status_plugin split: option.split)
  then have "?c = ?c'" by simp
  moreover have "\<forall>c \<in> set ?c'. pl_status c" "\<forall>c \<in> set ?c'. pi_type (pl_info c) = IPSTAT_PLUGIN_COLLECTOR"
      "\<forall>s \<in> set ?s. \<not> pl_status s" "\<forall>s \<in> set ?s. pi_type (pl_info s) = IPSTAT_PLUGIN_SERVICE"
    using found_types by blast+
  moreover from this have "set ?c' \<inter> set ?s = {}" by (auto simp: IPSTAT_PLUGIN_COLLECTOR_def IPSTAT_PLUGIN_SERVICE_def)
  ultimately show ?thesis
    using scan_dir_finds [OF assms] by (auto simp: col_init_def sys_init_def scan_plugins_def)
qed

text \<open>A directory with a collector, a system module and another file.\<close>

definition ex_info :: "int \<Rightarrow> string \<Rightarrow> PLUGIN_INFO" where
  "ex_info type name = \<lparr>pi_api_version = 1, pi_type = type, pi_id = ''401nti'', pi_name = name, pi_version = ''0.1'', pi_author = ''Kukuev Dmitry''\<rparr>"

definition ex_dlopen :: "string \<Rightarrow> library option" where
  "ex_dlopen path =
     (if path = ''lib/libipstat_system.so''
      then Some \<lparr>lib_id = 1, lib_symbols = {''info'', ''load'', ''unload''}, lib_info = Some (ex_info IPSTAT_PLUGIN_SERVICE ''system'')\<rparr>
      else if path = ''lib/libipstat_pcap.so''
      then Some \<lparr>lib_id = 2, lib_symbols = {''info'', ''load'', ''unload''}, lib_info = Some (ex_info IPSTAT_PLUGIN_COLLECTOR ''pcap'')\<rparr>
      else None)"

definition ex_entry :: "string \<Rightarrow> dirent" where
  "ex_entry name = \<lparr>d_name = name, de_node_ok = True, de_dup_ok = True, de_cell_ok = True\<rparr>"

definition ex_dir :: "dirent list" where
  "ex_dir = map ex_entry [''.'', ''..'', ''libipstat_system.so'', ''README'', ''libipstat_pcap.so'']"

lemma ex_dir_ok: "\<forall>dp \<in> set ex_dir. memory_ok dp" "paths_ok ex_dlopen None ''lib'' ex_dir"
  by (simp_all add: ex_dir_def ex_entry_def memory_ok_def paths_ok_def plugin_name_def ex_dlopen_def)

lemma ex_found:
  "List.map_filter (\<lambda>dp. found ex_dlopen w st ''lib'' (d_name dp)) ex_dir =
     (if w = IPSTAT_PLUGIN_SERVICE then [\<lparr>pl_library = 1, pl_name = ''system'', pl_info = ex_info IPSTAT_PLUGIN_SERVICE ''system'', pl_status = st ''libipstat_system.so''\<rparr>]
      else if w = IPSTAT_PLUGIN_COLLECTOR then [\<lparr>pl_library = 2, pl_name = ''pcap'', pl_info = ex_info IPSTAT_PLUGIN_COLLECTOR ''pcap'', pl_status = st ''libipstat_pcap.so''\<rparr>]
      else [])"
  by (simp add: ex_dir_def ex_entry_def List.map_filter_simps found_def plugin_name_def ex_dlopen_def usable_def module_node_def ex_info_def
        IPSTAT_PLUGIN_COLLECTOR_def IPSTAT_PLUGIN_SERVICE_def)

theorem plugins_found_witness:
  "\<exists>c s. col_init ex_dlopen None ''lib'' (Some ex_dir) \<lparr>pg_api = True, pg_list = []\<rparr> = Some (1, \<lparr>pg_api = True, pg_list = [c]\<rparr>) \<and>
     pl_name c = ''pcap'' \<and> pl_status c \<and>
     sys_init ex_dlopen None ''lib'' (Some ex_dir) \<lparr>pg_api = True, pg_list = []\<rparr> = Some (1, \<lparr>pg_api = True, pg_list = [s]\<rparr>) \<and>
     pl_name s = ''system'' \<and> \<not> pl_status s"
  using plugins_found [OF ex_dir_ok] by (simp add: ex_found IPSTAT_PLUGIN_COLLECTOR_def IPSTAT_PLUGIN_SERVICE_def)

section \<open>Collectors that failed\<close>

lemma load_list_unmarked: "load_list call_load False api cs w = Some (cs', w') \<Longrightarrow> cs' = cs"
  by (induction cs arbitrary: w cs') (auto split: Option.bind_splits)

text \<open>
  Collectors that fail. Whatever its loading function answers, a collector is shown as running after the start, and the
  operation that loads a collector by name does nothing at all until the collector has been unloaded.
\<close>

theorem collectors_load_inert:
  assumes "col_init dlopen dlclose_null dir listing \<lparr>pg_api = True, pg_list = []\<rparr> = Some (res, st)"
    and "collectors_load_all call_load st w = Some (1, st', w')"
  shows "st' = st \<and> (\<forall>c \<in> set (pg_list st'). pl_status c) \<and> (\<forall>call name v. collectors_load call name st' v = Some (0, st', v))"
proof -
  have step: "\<forall>c \<in> set (snd s'). pl_status c"
    if "scan_entry dlopen dlclose_null w collector_status dir dp s = Some s'" "\<forall>c \<in> set (snd s). pl_status c" for w dp s s'
    using that by (auto simp: scan_entry_def check_library_def collector_status_plugin split: if_splits Option.bind_splits option.splits)
  have "\<forall>c \<in> set cs. pl_status c"
    if "scan_dir dlopen dlclose_null w collector_status dir dps s = Some (r, cs)" "\<forall>c \<in> set (snd s). pl_status c" for w dps s r cs
    using that
  proof (induction dps arbitrary: s)
    case (Cons dp dps)
    then show ?case using step [of w dp s] by (auto split: if_splits Option.bind_splits)
  qed simp
  then have on: "\<forall>c \<in> set (pg_list st). pl_status c"
    using assms(1) by (force simp: col_init_def scan_plugins_def split: option.splits Option.bind_splits)
  have "pg_list st' = pg_list st" "pg_api st' = pg_api st"
    using assms(2) by (auto simp: collectors_load_all_def dest: load_list_unmarked split: Option.bind_splits)
  then have st: "st' = st" by simp
  have "collectors_load call name st v = Some (0, st, v)" for call :: "'b plugin_call" and name and v :: 'b
  proof (cases "find_index (\<lambda>c. plugin_compare c name = 0) (pg_list st)")
    case (Some i)
    then have "pl_status (pg_list st ! i)" using on find_index_SomeD [OF Some] by simp
    then show ?thesis using Some by (simp add: collectors_load_def load_named_def)
  qed (simp add: collectors_load_def load_named_def del: find_index_None_iff)
  then show ?thesis using st on by simp
qed

end
