(* ===== verification/System_Plugin.thy ===== *)
theory System_Plugin
  imports Plugins Tasks
begin

text \<open>
  The system module (\<^verbatim>\<open>ipstat_system/main.c\<close>): it registers the periodic jobs of
  \<^verbatim>\<open>src/tasks.c\<close> and catches up on missed ones. \<open>sched_perform\<close> carries out on a scheduler
  what a module asks for, so that the lemmas can speak about the jobs the scheduler then starts.

  The module keeps the contract \<open>plugin_host\<close> of the loader, which gives that the status shown for it is the truth.
\<close>

section \<open>The module\<close>

text \<open>The static pointer to the interface (only whether it is set) and the configured variable.\<close>

record system_module =
  sy_api :: bool
  sy_secondary :: int

definition system_info :: PLUGIN_INFO where
  "system_info = \<lparr>pi_api_version = 1, pi_type = IPSTAT_PLUGIN_SERVICE, pi_id = ''401nti'', pi_name = ''system'', pi_version = ''0.1'',
     pi_author = ''Kukuev Dmitry''\<rparr>"

text \<open>
  \<open>conf\<close> is the value the configuration gives to \<^verbatim>\<open>secondary_daemon\<close>, \<open>sched\<close> the presence of the
  scheduler; \<open>oks\<close> are the allocations of the three catch-up checks, \<open>clock\<close> the times they read.
\<close>

definition load_system ::
  "(nat \<Rightarrow> time_t) \<Rightarrow> bool \<times> bool \<times> bool \<Rightarrow> bool \<Rightarrow> int option \<Rightarrow> bool \<Rightarrow> 'w STORE_API option \<Rightarrow> system_module \<Rightarrow> 'w \<Rightarrow>
   (gboolean \<times> system_module \<times> registration list \<times> 'w) option" where
  "load_system clock oks data conf sched store st w =
     (if \<not> data then None
      else do {
        let st1 = st\<lparr>sy_api := True, sy_secondary := (case conf of None \<Rightarrow> sy_secondary st | Some v \<Rightarrow> v)\<rparr>;
        let regs = (if sy_secondary st1 = 0 \<and> sched
                    then [SchedReg ''check_limit'' ''*/1 * * * *'', SchedReg ''every_day'' ''0 0 * * *'',
                          SchedReg ''every_week'' ''0 0 * * 1'', SchedReg ''every_month'' ''0 0 1 * *''] else []);
        (_, w1) \<leftarrow> check_correct_day clock (fst oks) store w;
        (_, w2) \<leftarrow> check_correct_week clock (fst (snd oks)) store w1;
        (_, w3) \<leftarrow> check_correct_month clock (snd (snd oks)) store w2;
        Some (1, st1, regs, w3)
      })"

definition unload_system :: "bool \<Rightarrow> system_module \<Rightarrow> (gboolean \<times> system_module \<times> registration list) option" where
  "unload_system sched st =
     (if \<not> sy_api st then None
      else Some (1, st, if sy_secondary st = 0 \<and> sched
                        then [SchedUnreg ''every_month'', SchedUnreg ''every_week'', SchedUnreg ''every_day'', SchedUnreg ''check_limit''] else []))"

section \<open>Requests to the scheduler\<close>

text \<open>\<open>func\<close> gives the number of the function registered under a name; memory suffices.\<close>

fun sched_perform :: "(string \<Rightarrow> nat) \<Rightarrow> registration list \<Rightarrow> SCHEDULER option \<Rightarrow> SCHEDULER option option" where
  "sched_perform func [] st = Some st"
| "sched_perform func (SchedReg name crontab # rs) st = do {
     (_, st') \<leftarrow> schedulers_register (True, True, True) name crontab (func name) 0 st;
     sched_perform func rs st'
   }"
| "sched_perform func (SchedUnreg name # rs) st = sched_perform func rs (snd (schedulers_unregister name st))"
| "sched_perform func (_ # rs) st = sched_perform func rs st"

section \<open>The schedules\<close>

definition every_minute :: cron where
  "every_minute = \<lparr>c_min = EveryN 1, c_hour = Every, c_mday = Every, c_mon = Every, c_wday = Every\<rparr>"

definition mondays :: cron where
  "mondays = \<lparr>c_min = At 0, c_hour = At 0, c_mday = Every, c_mon = Every, c_wday = At 1\<rparr>"

definition firsts :: cron where
  "firsts = \<lparr>c_min = At 0, c_hour = At 0, c_mday = At 1, c_mon = Every, c_wday = Every\<rparr>"

lemma show_nat_1: "show_nat 1 = ''1''"
proof -
  have "digit_char 1 = CHR ''1''"
    using char_of_char [of "CHR ''1''", where 'a = nat] by (simp add: digit_char_def)
  then show ?thesis by (simp add: show_nat.simps)
qed

lemma system_crons:
  "show_cron every_minute = ''*/1 * * * *''" "show_cron daily = ''0 0 * * *''" "show_cron mondays = ''0 0 * * 1''"
  "show_cron firsts = ''0 0 1 * *''"
  "cron_ok every_minute" "cron_ok daily" "cron_ok mondays" "cron_ok firsts"
  using show_nat_1 by (simp_all add: cron_ok_def show_cron_def every_minute_def daily_def mondays_def firsts_def show_nat_0)

lemma system_crons_match:
  "cron_matches every_minute t" "cron_matches daily t \<longleftrightarrow> tm_min t = 0 \<and> tm_hour t = 0"
  "cron_matches mondays t \<longleftrightarrow> tm_min t = 0 \<and> tm_hour t = 0 \<and> tm_wday t = 1"
  "cron_matches firsts t \<longleftrightarrow> tm_min t = 0 \<and> tm_hour t = 0 \<and> tm_mday t = 1"
  by (simp_all add: cron_matches_def every_minute_def daily_def mondays_def firsts_def)

text \<open>A job of the scheduler under a name, with a function and a meaning.\<close>

definition job_for :: "string \<Rightarrow> nat \<Rightarrow> cron \<Rightarrow> NODE_SCHEDULER \<Rightarrow> bool" where
  "job_for name func c node \<longleftrightarrow>
     same_name name (ns_name node) \<and> ns_func node = func \<and> ns_status node = SCHEDULER_SLEEP \<and>
     (\<forall>localtime now. time_cmp localtime now node = Some (cron_matches c (localtime now)))"

lemma register_job:
  assumes "cron_ok c"
  shows "\<exists>node. schedulers_register (True, True, True) name (show_cron c) func 0 (Some sc) = Some (1, Some (sc\<lparr>sched_list := node # sched_list sc\<rparr>)) \<and>
           job_for name func c node"
proof -
  obtain sc' node where r: "schedulers_register (True, True, True) name (show_cron c) func 0 (Some sc) = Some (1, Some sc')"
      "sched_list sc' = node # sched_list sc" "ns_status node = SCHEDULER_SLEEP"
      "\<forall>localtime now. time_cmp localtime now node = Some (cron_matches c (localtime now))"
    using register_cron [OF assms] by blast
  obtain v d where "node = (new_node name (show_cron c) func 0)\<lparr>ns_vol := v, ns_vol_div := d\<rparr>"
    using register_shape [OF r(1)] r(2) by (auto simp: sched_jobs_def)
  then have "job_for name func c node"
    using r(3,4) name_buffer [of name] by (simp add: job_for_def new_node_def same_name_iff)
  moreover have "sc' = sc\<lparr>sched_list := node # sched_list sc\<rparr>"
    using r(1,2) by (auto simp: schedulers_register_def Let_def case_prod_beta bind_eq_Some_conv)
  ultimately show ?thesis using r(1) by blast
qed

definition system_names :: "string list" where
  "system_names = [''every_month'', ''every_week'', ''every_day'', ''check_limit'']"

definition system_regs :: "registration list" where
  "system_regs = [SchedReg ''check_limit'' ''*/1 * * * *'', SchedReg ''every_day'' ''0 0 * * *'',
     SchedReg ''every_week'' ''0 0 * * 1'', SchedReg ''every_month'' ''0 0 1 * *'']"

lemma same_system_name:
  "a \<in> set system_names \<Longrightarrow> b \<in> set system_names \<Longrightarrow> same_name a b \<longleftrightarrow> a = b"
  by (auto simp: system_names_def same_name_iff cstr_def NUL_def)

lemma same_name_trans: "same_name a x \<Longrightarrow> same_name b x \<longleftrightarrow> same_name b a"
  by (simp add: same_name_iff)

lemma perform_system_regs:
  "\<exists>m k d l. sched_perform func system_regs (Some sc) = Some (Some (sc\<lparr>sched_list := [m, k, d, l] @ sched_list sc\<rparr>)) \<and>
     job_for ''every_month'' (func ''every_month'') firsts m \<and> job_for ''every_week'' (func ''every_week'') mondays k \<and>
     job_for ''every_day'' (func ''every_day'') daily d \<and> job_for ''check_limit'' (func ''check_limit'') every_minute l"
proof -
  obtain l where l: "schedulers_register (True, True, True) ''check_limit'' (show_cron every_minute) (func ''check_limit'') 0 (Some sc) =
      Some (1, Some (sc\<lparr>sched_list := l # sched_list sc\<rparr>))" "job_for ''check_limit'' (func ''check_limit'') every_minute l"
    using register_job [OF system_crons(5)] by blast
  let ?s1 = "sc\<lparr>sched_list := l # sched_list sc\<rparr>"
  obtain d where d: "schedulers_register (True, True, True) ''every_day'' (show_cron daily) (func ''every_day'') 0 (Some ?s1) =
      Some (1, Some (?s1\<lparr>sched_list := d # sched_list ?s1\<rparr>))" "job_for ''every_day'' (func ''every_day'') daily d"
    using register_job [OF system_crons(6)] by blast
  let ?s2 = "?s1\<lparr>sched_list := d # sched_list ?s1\<rparr>"
  obtain k where k: "schedulers_register (True, True, True) ''every_week'' (show_cron mondays) (func ''every_week'') 0 (Some ?s2) =
      Some (1, Some (?s2\<lparr>sched_list := k # sched_list ?s2\<rparr>))" "job_for ''every_week'' (func ''every_week'') mondays k"
    using register_job [OF system_crons(7)] by blast
  let ?s3 = "?s2\<lparr>sched_list := k # sched_list ?s2\<rparr>"
  obtain m where m: "schedulers_register (True, True, True) ''every_month'' (show_cron firsts) (func ''every_month'') 0 (Some ?s3) =
      Some (1, Some (?s3\<lparr>sched_list := m # sched_list ?s3\<rparr>))" "job_for ''every_month'' (func ''every_month'') firsts m"
    using register_job [OF system_crons(8)] by blast
  have "sched_perform func system_regs (Some sc) = Some (Some (?s3\<lparr>sched_list := m # sched_list ?s3\<rparr>))"
    using l(1) d(1) k(1) m(1) by (simp add: system_regs_def system_crons)
  then show ?thesis using l(2) d(2) k(2) m(2) by auto
qed

lemma load_system_regs:
  assumes "load_system clock oks data conf True store st w = Some (r, st', regs, w')" and "sy_secondary st' = 0"
  shows "regs = system_regs" "r = 1" "sy_api st'"
  using assms by (auto simp: load_system_def system_regs_def Let_def split: Option.bind_splits if_splits)

text \<open>
  C18 (jobs of the system module). Once the system module has been loaded, is not configured as secondary and its requests
  have been carried out, its four jobs are in front of the scheduler's list. The turn of the manager starts the limit check
  every minute, the daily job at midnight, the weekly job at midnight of a Monday and the monthly job at midnight of the first day
  of a month, provided their threads can be created.
\<close>

theorem system_jobs_due:
  assumes "load_system clock oks True (Some 0) True store st w = Some (r, st', regs, w')"
    and "sched_do_exit sc = 0" and "\<forall>n \<in> set (sched_list sc). time_cmp localtime now n \<noteq> None" and "\<forall>j < 4. tc j"
  shows "\<exists>sc' js. sched_perform func regs (Some sc) = Some (Some sc') \<and> drop 4 (sched_list sc') = sched_list sc \<and>
           map ns_func (take 4 (sched_list sc')) = map func [''every_month'', ''every_week'', ''every_day'', ''check_limit''] \<and>
           thr_scheduler_tick localtime now tc sc' = Some js \<and> 3 \<in> set js \<and>
           (2 \<in> set js \<longleftrightarrow> tm_min (localtime now) = 0 \<and> tm_hour (localtime now) = 0) \<and>
           (1 \<in> set js \<longleftrightarrow> tm_min (localtime now) = 0 \<and> tm_hour (localtime now) = 0 \<and> tm_wday (localtime now) = 1) \<and>
           (0 \<in> set js \<longleftrightarrow> tm_min (localtime now) = 0 \<and> tm_hour (localtime now) = 0 \<and> tm_mday (localtime now) = 1)"
proof -
  have "sy_secondary st' = 0" using assms(1) by (auto simp: load_system_def Let_def split: Option.bind_splits if_splits)
  note regs = load_system_regs(1) [OF assms(1) this]
  obtain m k d l where p: "sched_perform func system_regs (Some sc) = Some (Some (sc\<lparr>sched_list := [m, k, d, l] @ sched_list sc\<rparr>))"
      and jobs: "job_for ''every_month'' (func ''every_month'') firsts m" "job_for ''every_week'' (func ''every_week'') mondays k"
        "job_for ''every_day'' (func ''every_day'') daily d" "job_for ''check_limit'' (func ''check_limit'') every_minute l"
    using perform_system_regs by blast
  let ?new = "[m, k, d, l]" and ?sc = "sc\<lparr>sched_list := [m, k, d, l] @ sched_list sc\<rparr>"
  have "\<forall>n \<in> set (sched_list ?sc). time_cmp localtime now n \<noteq> None" using assms(3) jobs by (auto simp: job_for_def)
  from tick_loop_starts [OF this, of tc 0]
  obtain js where js: "thr_scheduler_tick localtime now tc ?sc = Some js"
      "\<forall>j. j \<in> set js \<longleftrightarrow> j < length (?new @ sched_list sc) \<and> time_cmp localtime now ((?new @ sched_list sc) ! j) = Some True \<and>
         ns_status ((?new @ sched_list sc) ! j) = SCHEDULER_SLEEP \<and> tc j"
    using assms(2) by (auto simp: thr_scheduler_tick_def)
  have started: "j \<in> set js \<longleftrightarrow> time_cmp localtime now (?new ! j) = Some True \<and> ns_status (?new ! j) = SCHEDULER_SLEEP" if "j < 4" for j
    using js(2) that assms(4) by (simp add: nth_append del: append.simps)
  have due: "3 \<in> set js" "2 \<in> set js \<longleftrightarrow> cron_matches daily (localtime now)" "1 \<in> set js \<longleftrightarrow> cron_matches mondays (localtime now)"
      "0 \<in> set js \<longleftrightarrow> cron_matches firsts (localtime now)"
    using started [of 3] started [of 2] started [of 1] started [of 0] jobs
    by (simp_all add: job_for_def nth_Cons' system_crons_match(1))
  have "map ns_func ?new = map func [''every_month'', ''every_week'', ''every_day'', ''check_limit'']" using jobs by (simp add: job_for_def)
  then show ?thesis
    using p js(1) due by (intro exI [of _ ?sc] exI [of _ js]) (simp add: regs system_crons_match)
qed

text \<open>A database whose periodic jobs are up to date.\<close>

definition current_api :: "unit STORE_API" where
  "current_api = \<lparr>sql_open = (\<lambda>w. (Some 0, w)), sql_close = (\<lambda>_ w. w), sql_exec = (\<lambda>_ _ w. (True, w)),
     sql_query = (\<lambda>_ _ w. (Some [[''0'']], w)), sql_list_tables = (\<lambda>_ _ w. (None, w))\<rparr>"

definition ex_module :: system_module where
  "ex_module = \<lparr>sy_api = False, sy_secondary = 0\<rparr>"

lemma ex_load_system:
  "load_system (\<lambda>_. 0) (True, True, True) True (Some 0) True (Some current_api) ex_module () =
     Some (1, \<lparr>sy_api = True, sy_secondary = 0\<rparr>, system_regs, ())"
proof -
  have "atoi ''0'' = 0" using atoi_show_nat [of 0] by (simp add: show_nat_0)
  then show ?thesis
    by (simp add: load_system_def system_regs_def Let_def ex_module_def check_correct_day_def check_correct_week_def check_correct_month_def
          check_correct_def current_api_def col_def)
qed

theorem system_jobs_due_witness:
  "\<exists>sc' js. sched_perform (\<lambda>_. 7) system_regs (Some \<lparr>sched_list = [], sched_do_exit = 0\<rparr>) = Some (Some sc') \<and>
     thr_scheduler_tick (\<lambda>_. zero_tm\<lparr>tm_wday := 1, tm_mday := 2\<rparr>) 0 (\<lambda>_. True) sc' = Some js \<and> {1, 2, 3} \<subseteq> set js \<and> 0 \<notin> set js"
proof -
  have "\<forall>n \<in> set (sched_list \<lparr>sched_list = [], sched_do_exit = 0\<rparr>). time_cmp (\<lambda>_. zero_tm\<lparr>tm_wday := 1, tm_mday := 2\<rparr>) 0 n \<noteq> None"
    by simp
  from system_jobs_due [OF ex_load_system _ this, of "\<lambda>_. True" "\<lambda>_. 7"] show ?thesis by (fastforce simp: zero_tm_def)
qed

section \<open>The module under the loader\<close>

text \<open>What the plug-in works on: the scheduler, its own static variables and the database.\<close>

record 'w system_world =
  sw_sched :: "SCHEDULER option"
  sw_module :: system_module
  sw_db :: 'w

text \<open>The library with number 1 is the system module; there is no other.\<close>

definition host_load :: "(nat \<Rightarrow> time_t) \<Rightarrow> (string \<Rightarrow> nat) \<Rightarrow> 'w STORE_API option \<Rightarrow> 'w system_world plugin_call" where
  "host_load clock func store l api w =
     (if l \<noteq> 1 then Some (0, w)
      else do {
        (r, m, regs, db) \<leftarrow> load_system clock (True, True, True) api (Some 0) (sw_sched w \<noteq> None) store (sw_module w) (sw_db w);
        sc \<leftarrow> sched_perform func regs (sw_sched w);
        Some (r, \<lparr>sw_sched = sc, sw_module = m, sw_db = db\<rparr>)
      })"

definition host_unload :: "(string \<Rightarrow> nat) \<Rightarrow> 'w system_world plugin_call" where
  "host_unload func l api w =
     (if l \<noteq> 1 then Some (0, w)
      else do {
        (r, m, regs) \<leftarrow> unload_system (sw_sched w \<noteq> None) (sw_module w);
        sc \<leftarrow> sched_perform func regs (sw_sched w);
        Some (r, w\<lparr>sw_sched := sc, sw_module := m\<rparr>)
      })"

definition name_count :: "string \<Rightarrow> SCHEDULER option \<Rightarrow> nat" where
  "name_count n st = length (filter (\<lambda>x. same_name n (ns_name x)) (sched_jobs st))"

definition system_running :: "'w system_world \<Rightarrow> nat \<Rightarrow> bool" where
  "system_running w l \<longleftrightarrow> l = 1 \<and> (\<forall>n \<in> set system_names. name_count n (sw_sched w) \<noteq> 0)"

definition system_sane :: "'w system_world \<Rightarrow> bool" where
  "system_sane w \<longleftrightarrow> sw_sched w \<noteq> None \<and> sy_secondary (sw_module w) = 0 \<and>
     (\<exists>k \<le> 1. \<forall>n \<in> set system_names. name_count n (sw_sched w) = k)"

lemma name_count_unregister:
  assumes "n \<in> set system_names" and "m \<in> set system_names"
  shows "name_count n (snd (schedulers_unregister m st)) = name_count n st - (if n = m then 1 else 0)"
proof -
  have c: "length (filter (\<lambda>x. same_name n (ns_name x)) (remove_first (\<lambda>x. same_name m (ns_name x)) xs)) =
      length (filter (\<lambda>x. same_name n (ns_name x)) xs) - (if n = m then 1 else 0)" for xs
  proof (induction xs)
    case (Cons x xs)
    show ?case
    proof (cases "same_name m (ns_name x)")
      case True
      then show ?thesis using same_name_trans [OF True, of n] same_system_name [OF assms] by auto
    next
      case False
      then have "same_name n (ns_name x) \<Longrightarrow> n \<noteq> m" by auto
      then show ?thesis using False Cons by auto
    qed
  qed simp
  show ?thesis unfolding name_count_def sched_registry.unregister_jobs by (rule c)
qed

lemma name_count_jobs:
  assumes "n \<in> set system_names" and "m \<in> set system_names" and "job_for m f c x"
  shows "same_name n (ns_name x) \<longleftrightarrow> n = m"
  using assms same_name_trans [of m "ns_name x" n] same_system_name [OF assms(1,2)] by (simp add: job_for_def)

lemma system_names_perform:
  "sched_perform func (map SchedUnreg system_names) st = Some (foldl (\<lambda>s n. snd (schedulers_unregister n s)) st system_names)"
  by (simp add: system_names_def)

lemma name_count_unload:
  assumes "n \<in> set system_names"
  shows "name_count n (foldl (\<lambda>s m. snd (schedulers_unregister m s)) st system_names) = name_count n st - 1"
  using assms by (auto simp: system_names_def name_count_unregister)

lemma schedulers_unregister_Some: "schedulers_unregister n (Some sc) = (r, st) \<Longrightarrow> st \<noteq> None"
  by (auto simp: schedulers_unregister_def Let_def)

lemma host_load_starts:
  assumes "system_sane w" and "\<not> system_running w l" and "host_load clock func store l True w = Some (r, w')"
  shows "system_sane w' \<and> (\<forall>k. system_running w' k \<longleftrightarrow> system_running w k \<or> k = l \<and> r = 1)"
proof (cases "l = 1")
  case True
  obtain sc where sc: "sw_sched w = Some sc" using assms(1) by (auto simp: system_sane_def)
  obtain m regs db sc' where h: "load_system clock (True, True, True) True (Some 0) True store (sw_module w) (sw_db w) = Some (r, m, regs, db)"
      "sched_perform func regs (Some sc) = Some sc'" "w' = \<lparr>sw_sched = sc', sw_module = m, sw_db = db\<rparr>"
    using assms(3) True sc by (auto simp: host_load_def split: Option.bind_splits)
  have m: "sy_secondary m = 0" using h(1) by (auto simp: load_system_def Let_def split: Option.bind_splits)
  note regs = load_system_regs [OF h(1) m]
  obtain a b c d where p: "sched_perform func system_regs (Some sc) = Some (Some (sc\<lparr>sched_list := [a, b, c, d] @ sched_list sc\<rparr>))"
      and jobs: "job_for ''every_month'' (func ''every_month'') firsts a" "job_for ''every_week'' (func ''every_week'') mondays b"
        "job_for ''every_day'' (func ''every_day'') daily c" "job_for ''check_limit'' (func ''check_limit'') every_minute d"
    using perform_system_regs by blast
  have w': "sw_sched w' = Some (sc\<lparr>sched_list := [a, b, c, d] @ sched_list sc\<rparr>)" using h(2,3) p regs(1) by simp
  have names: "''every_month'' \<in> set system_names" "''every_week'' \<in> set system_names" "''every_day'' \<in> set system_names"
      "''check_limit'' \<in> set system_names"
    by (simp_all add: system_names_def)
  have one: "name_count n (sw_sched w') = Suc (name_count n (sw_sched w))" if n: "n \<in> set system_names" for n
    using n name_count_jobs [OF n names(1) jobs(1)] name_count_jobs [OF n names(2) jobs(2)] name_count_jobs [OF n names(3) jobs(3)]
      name_count_jobs [OF n names(4) jobs(4)]
    by (auto simp: name_count_def w' sc sched_jobs_def system_names_def)
  obtain k where k: "k \<le> 1" "\<forall>n \<in> set system_names. name_count n (sw_sched w) = k" using assms(1) by (auto simp: system_sane_def)
  have "k = 0" using assms(2) True k by (auto simp: system_running_def)
  then have n1: "\<forall>n \<in> set system_names. name_count n (sw_sched w') = 1" using one k(2) by simp
  then have "system_sane w'" using w' m h(3) by (auto simp: system_sane_def)
  moreover have "system_running w' j \<longleftrightarrow> j = 1" for j using n1 by (simp add: system_running_def)
  ultimately show ?thesis using True regs(2) by (auto simp: system_running_def)
qed (use assms in \<open>auto simp: host_load_def\<close>)

lemma host_unload_stops:
  assumes "system_sane w" and "host_unload func l api w = Some (r, w')"
  shows "system_sane w' \<and> (\<forall>k. system_running w' k \<longleftrightarrow> system_running w k \<and> \<not> (k = l \<and> r = 1))"
proof (cases "l = 1")
  case True
  obtain sc where sc: "sw_sched w = Some sc" using assms(1) by (auto simp: system_sane_def)
  let ?st = "foldl (\<lambda>s n. snd (schedulers_unregister n s)) (Some sc) system_names"
  have h: "r = 1" "w' = w\<lparr>sw_sched := ?st\<rparr>"
    using assms True sc
    by (auto simp: host_unload_def unload_system_def system_sane_def system_names_perform [unfolded system_names_def, simplified]
          system_names_def split: Option.bind_splits if_splits)
  have st: "?st \<noteq> None" by (simp add: system_names_def schedulers_unregister_def Let_def)
  obtain k where k: "k \<le> 1" "\<forall>n \<in> set system_names. name_count n (sw_sched w) = k" using assms(1) by (auto simp: system_sane_def)
  have zero: "\<forall>n \<in> set system_names. name_count n (sw_sched w') = 0"
    using name_count_unload [of _ "Some sc"] k h(2) sc by auto
  then have "system_sane w'" using st assms(1) h(2) by (auto simp: system_sane_def)
  moreover have "\<not> system_running w' j" for j using zero by (auto simp: system_running_def system_names_def)
  moreover have "system_running w j \<Longrightarrow> j = 1" for j by (simp add: system_running_def)
  ultimately show ?thesis using True h(1) by blast
qed (use assms in \<open>auto simp: host_unload_def\<close>)

interpretation system_host: plugin_host "host_load clock func store" "host_unload func" system_running system_sane
  for clock func store
  by unfold_locales (rule host_load_starts, assumption+, rule host_unload_stops, assumption+)

text \<open>The operations on the list of system modules, in any order after the initial loading.\<close>

datatype system_op = UnloadAll | LoadNamed string | UnloadNamed string

fun system_do ::
  "(nat \<Rightarrow> time_t) \<Rightarrow> (string \<Rightarrow> nat) \<Rightarrow> 'w STORE_API option \<Rightarrow> system_op list \<Rightarrow> plugins \<Rightarrow> 'w system_world \<Rightarrow> (plugins \<times> 'w system_world) option" where
  "system_do clock func store [] st w = Some (st, w)"
| "system_do clock func store (UnloadAll # ops) st w = do {
     (_, st1, w1) \<leftarrow> system_unload_all (host_unload func) st w; system_do clock func store ops st1 w1 }"
| "system_do clock func store (LoadNamed n # ops) st w = do {
     (_, st1, w1) \<leftarrow> system_load (host_load clock func store) n st w; system_do clock func store ops st1 w1 }"
| "system_do clock func store (UnloadNamed n # ops) st w = do {
     (_, st1, w1) \<leftarrow> system_unload (host_unload func) n st w; system_do clock func store ops st1 w1 }"

lemma system_do_truthful:
  assumes "system_do clock func store ops st w = Some (st', w')" and "pg_api st" and "system_host.truthful (pg_list st) w"
  shows "system_host.truthful (pg_list st') w'"
  using assms
proof (induction clock func store ops st w rule: system_do.induct)
  case (2 clock func store ops st w)
  then obtain cs w1 where u: "unload_list (host_unload func) (pg_list st) w = Some (cs, w1)"
      "system_do clock func store ops (st\<lparr>pg_list := cs\<rparr>) w1 = Some (st', w')"
    by (auto simp: system_unload_all_def split: Option.bind_splits)
  then show ?case
    using 2 system_host.unload_list_truthful [OF u(1) 2(4)] by (simp add: system_unload_all_def)
next
  case (3 clock func store n ops st w)
  then obtain r cs w1 where u: "load_named (host_load clock func store) True n (pg_list st) w = Some (r, cs, w1)"
      "system_do clock func store ops (st\<lparr>pg_list := cs\<rparr>) w1 = Some (st', w')"
    by (auto simp: system_load_def split: Option.bind_splits)
  then show ?case
    using 3 system_host.load_named_truthful [OF u(1) 3(4)] by (simp add: system_load_def)
next
  case (4 clock func store n ops st w)
  then obtain r cs w1 where u: "unload_named (host_unload func) True n (pg_list st) w = Some (r, cs, w1)"
      "system_do clock func store ops (st\<lparr>pg_list := cs\<rparr>) w1 = Some (st', w')"
    by (auto simp: system_unload_def split: Option.bind_splits)
  then show ?case
    using 4 system_host.unload_named_truthful [OF u(1) 4(4)] by (simp add: system_unload_def)
qed simp


text \<open>The system module alone, loaded and then unloaded by name.\<close>

definition ex_world :: "unit system_world" where
  "ex_world = \<lparr>sw_sched = Some \<lparr>sched_list = [], sched_do_exit = 0\<rparr>, sw_module = ex_module, sw_db = ()\<rparr>"

definition ex_system :: COLLECTOR where
  "ex_system = \<lparr>pl_library = 1, pl_name = ''system'', pl_info = ex_info IPSTAT_PLUGIN_SERVICE ''system'', pl_status = False\<rparr>"

lemma ex_sys_init: "sys_init ex_dlopen None ''lib'' (Some ex_dir) \<lparr>pg_api = True, pg_list = []\<rparr> = Some (1, \<lparr>pg_api = True, pg_list = [ex_system]\<rparr>)"
  using scan_dir_finds [OF ex_dir_ok] by (simp add: sys_init_def scan_plugins_def ex_found ex_system_def)

lemma ex_unload_all:
  assumes "sw_sched v \<noteq> None" and "sw_module v = \<lparr>sy_api = True, sy_secondary = 0\<rparr>"
  shows "\<exists>v'. unload_named (host_unload func) True ''system'' [ex_system\<lparr>pl_status := True\<rparr>] v = Some (1, [ex_system], v')"
proof -
  have "\<exists>v'. host_unload func 1 True v = Some (1, v')" using assms by (auto simp: host_unload_def unload_system_def)
  then show ?thesis by (auto simp: unload_named_def plugin_compare_def ex_system_def)
qed


end
