(* ===== verification/Store_Plugin.thy ===== *)
theory Store_Plugin
  imports Loader
begin

text \<open>
  The way to the database: the loading of the store plug-in (\<^verbatim>\<open>src/store.c\<close>) and the plug-in for MySQL
  (\<^verbatim>\<open>ipstat_mysql/main.c\<close>, \<^verbatim>\<open>include/mysql.h\<close>). The MySQL client library is the
  argument \<open>mysql\<close> of the operations: functions on numbered connections and results and on the state \<open>'w\<close> of library and
  server. What its manual promises is \<open>client_contract\<close>: after a statement that delivers rows a connection accepts
  nothing until all rows have been read or the result has been released.

  The lemmas show that the rows the programs' loops read are the answer of the server, that the connection is usable again
  afterwards, and what happens when a result is left half read. The record \<open>STORE_API\<close> of the theory
  \<open>Store\<close>, whose query delivers all rows at once, is the abstraction the other components use.
\<close>

section \<open>The client library\<close>

record 'w mysql_client =
  mysql_real_connect :: "string \<Rightarrow> string \<Rightarrow> string \<Rightarrow> string \<Rightarrow> 'w \<Rightarrow> nat option \<times> 'w"
  mysql_close :: "nat \<Rightarrow> 'w \<Rightarrow> 'w"
  mysql_query :: "nat \<Rightarrow> string \<Rightarrow> 'w \<Rightarrow> int \<times> 'w"
  mysql_use_result :: "nat \<Rightarrow> 'w \<Rightarrow> nat option \<times> 'w"
  mysql_list_tables :: "nat \<Rightarrow> string \<Rightarrow> 'w \<Rightarrow> nat option \<times> 'w"
  mysql_fetch_row :: "nat \<Rightarrow> 'w \<Rightarrow> string list option \<times> 'w"
  mysql_free_result :: "nat \<Rightarrow> 'w \<Rightarrow> 'w"
  mysql_num_fields :: "nat \<Rightarrow> 'w \<Rightarrow> int"
  mysql_errno :: "nat \<Rightarrow> 'w \<Rightarrow> int"

definition CR_SERVER_GONE_ERROR :: int where "CR_SERVER_GONE_ERROR = 2006"
definition CR_SERVER_LOST :: int where "CR_SERVER_LOST = 2013"
definition CR_COMMANDS_OUT_OF_SYNC :: int where "CR_COMMANDS_OUT_OF_SYNC = 2014"

section \<open>The plug-in\<close>

record MYSQL_SESSION =
  id_db :: nat
  sres :: "nat option"

definition mysql_info :: PLUGIN_INFO where
  "mysql_info = \<lparr>pi_api_version = 1, pi_type = IPSTAT_PLUGIN_STORE, pi_id = ''I401ml'', pi_name = ''mysql library'', pi_version = ''0.1'',
     pi_author = ''Kukuev Dmitry''\<rparr>"

definition my_open :: "'w mysql_client \<Rightarrow> bool \<Rightarrow> string \<Rightarrow> string \<Rightarrow> string \<Rightarrow> string \<Rightarrow> 'w \<Rightarrow> MYSQL_SESSION option \<times> 'w" where
  "my_open mysql mem host user pass db_name w =
     (if \<not> mem then (None, w)
      else case mysql_real_connect mysql host user pass db_name w of
        (None, w1) \<Rightarrow> (None, w1)
      | (Some c, w1) \<Rightarrow> (Some \<lparr>id_db = c, sres = None\<rparr>, w1))"

text \<open>Releasing a null result has no effect.\<close>

definition my_free :: "'w mysql_client \<Rightarrow> MYSQL_SESSION \<Rightarrow> 'w \<Rightarrow> gboolean \<times> MYSQL_SESSION \<times> 'w" where
  "my_free mysql sid w =
     (1, sid\<lparr>sres := None\<rparr>, case sres sid of None \<Rightarrow> w | Some h \<Rightarrow> mysql_free_result mysql h w)"

definition my_close :: "'w mysql_client \<Rightarrow> MYSQL_SESSION \<Rightarrow> 'w \<Rightarrow> gboolean \<times> 'w" where
  "my_close mysql sid w =
     (let w1 = (if sres sid \<noteq> None then snd (snd (my_free mysql sid w)) else w) in (1, mysql_close mysql (id_db sid) w1))"

definition my_check_error :: "'w mysql_client \<Rightarrow> MYSQL_SESSION \<Rightarrow> 'w \<Rightarrow> gboolean" where
  "my_check_error mysql sid w =
     (let e = mysql_errno mysql (id_db sid) w
      in if e = CR_SERVER_GONE_ERROR \<or> e = CR_SERVER_LOST \<or> e = -1 then 0 else if e = 0 then 1 else 0)"

definition my_exec :: "'w mysql_client \<Rightarrow> MYSQL_SESSION \<Rightarrow> string \<Rightarrow> 'w \<Rightarrow> gboolean \<times> 'w" where
  "my_exec mysql sid query w =
     (let (e, w1) = mysql_query mysql (id_db sid) query w in (if e \<noteq> 0 then my_check_error mysql sid w1 else 1, w1))"

text \<open>The result of the previous query is released only after the new one has been sent.\<close>

definition my_query :: "'w mysql_client \<Rightarrow> MYSQL_SESSION \<Rightarrow> string \<Rightarrow> 'w \<Rightarrow> gboolean \<times> MYSQL_SESSION \<times> 'w" where
  "my_query mysql sid query w =
     (let (e, w1) = mysql_query mysql (id_db sid) query w
      in if e \<noteq> 0 then (my_check_error mysql sid w1, sid, w1)
         else let (sid1, w2) = (if sres sid \<noteq> None then snd (my_free mysql sid w1) else (sid, w1));
                  (r, w3) = mysql_use_result mysql (id_db sid1) w2;
                  sid2 = sid1\<lparr>sres := r\<rparr>
              in (if r = None then my_check_error mysql sid2 w3 else 1, sid2, w3))"

text \<open>Without a result the library reads through the null pointer.\<close>

definition my_fetch_row :: "'w mysql_client \<Rightarrow> MYSQL_SESSION \<Rightarrow> 'w \<Rightarrow> (string list option \<times> 'w) option" where
  "my_fetch_row mysql sid w = (case sres sid of None \<Rightarrow> None | Some h \<Rightarrow> Some (mysql_fetch_row mysql h w))"

definition my_num_fields :: "'w mysql_client \<Rightarrow> MYSQL_SESSION \<Rightarrow> 'w \<Rightarrow> gboolean option" where
  "my_num_fields mysql sid w = map_option (\<lambda>h. mysql_num_fields mysql h w) (sres sid)"

definition my_list_tables :: "'w mysql_client \<Rightarrow> MYSQL_SESSION \<Rightarrow> string \<Rightarrow> 'w \<Rightarrow> gboolean \<times> MYSQL_SESSION \<times> 'w" where
  "my_list_tables mysql sid wild w =
     (let (sid1, w1) = (if sres sid \<noteq> None then snd (my_free mysql sid w) else (sid, w));
          (r, w2) = mysql_list_tables mysql (id_db sid1) wild w1;
          sid2 = sid1\<lparr>sres := r\<rparr>
      in (if r = None then my_check_error mysql sid2 w2 else 1, sid2, w2))"

section \<open>Loading the plug-in\<close>

definition STORE_SYMBOLS :: "string list" where
  "STORE_SYMBOLS = [''sql_open'', ''sql_close'', ''sql_exec'', ''sql_query'', ''sql_list_tables'', ''sql_free'', ''sql_fetch_row'',
     ''sql_num_fields'', ''sql_check_error'']"

text \<open>
  \<^verbatim>\<open>store_init\<close>: the number of the library when an interface is returned. Each symbol is looked up in turn and a
  missing one ends the loading.
\<close>

fun all_symbols :: "library \<Rightarrow> string list \<Rightarrow> bool" where
  "all_symbols lib [] \<longleftrightarrow> True"
| "all_symbols lib (s # ss) \<longleftrightarrow> (if s \<notin> lib_symbols lib then False else all_symbols lib ss)"

definition store_init :: "bool \<Rightarrow> (string \<Rightarrow> library option) \<Rightarrow> string \<Rightarrow> nat option" where
  "store_init mem dlopen store_plugin =
     (if \<not> mem then None
      else case dlopen store_plugin of None \<Rightarrow> None
      | Some lib \<Rightarrow>
          if ''info'' \<notin> lib_symbols lib then None
          else (case lib_info lib of None \<Rightarrow> None
          | Some info \<Rightarrow>
              if pi_type info \<noteq> IPSTAT_PLUGIN_STORE then None
              else if pi_api_version info < 1 then None
              else if \<not> all_symbols lib STORE_SYMBOLS then None
              else Some (lib_id lib)))"

text \<open>The login data of the configuration.\<close>

record store_conf =
  host_name :: string
  user_name :: string
  password :: string
  db_name :: string

definition sql_open_my :: "'w mysql_client \<Rightarrow> bool \<Rightarrow> store_conf \<Rightarrow> 'w \<Rightarrow> MYSQL_SESSION option \<times> 'w" where
  "sql_open_my mysql mem sc w = my_open mysql mem (cstr (host_name sc)) (cstr (user_name sc)) (cstr (password sc)) (cstr (db_name sc)) w"

text \<open>The interface is read before the check whether there is one.\<close>

definition store_free :: "'w STORE_API option \<Rightarrow> gboolean option" where
  "store_free api = (case api of None \<Rightarrow> None | Some _ \<Rightarrow> Some 1)"

lemma all_symbols_iff: "all_symbols lib ss \<longleftrightarrow> set ss \<subseteq> lib_symbols lib"
  by (induction ss) auto

lemma store_init_accepts:
  "store_init True dlopen path = Some l \<longleftrightarrow>
     (\<exists>lib info. dlopen path = Some lib \<and> lib_id lib = l \<and> lib_info lib = Some info \<and> pi_type info = IPSTAT_PLUGIN_STORE \<and>
        pi_api_version info \<noteq> 0 \<and> {''info''} \<union> set STORE_SYMBOLS \<subseteq> lib_symbols lib)"
  by (auto simp: store_init_def all_symbols_iff word_less_1 split: option.splits)

section \<open>The contract of the client library\<close>

text \<open>
  A connection accepts statements, has an answer waiting, or is delivering the rows of a result. \<open>answer\<close> is what the server has to
  say to a statement: rows, or none when the statement delivers no result.
\<close>

datatype conn = Ready | Answered "string list list" | Reading nat "string list list"

definition client_contract ::
  "'w mysql_client \<Rightarrow> ('w \<Rightarrow> nat \<Rightarrow> conn) \<Rightarrow> ('w \<Rightarrow> string \<Rightarrow> string list list option) \<Rightarrow> bool" where
  "client_contract mysql conn answer \<longleftrightarrow>
     (\<forall>w c q. conn w c = Ready \<longrightarrow> fst (mysql_query mysql c q w) = 0 \<longrightarrow>
        conn (snd (mysql_query mysql c q w)) c = (case answer w q of None \<Rightarrow> Ready | Some rows \<Rightarrow> Answered rows)) \<and>
     (\<forall>w c q. conn w c = Ready \<longrightarrow> fst (mysql_query mysql c q w) \<noteq> 0 \<longrightarrow>
        conn (snd (mysql_query mysql c q w)) c = Ready \<and> mysql_errno mysql c (snd (mysql_query mysql c q w)) \<noteq> 0) \<and>
     (\<forall>w c q. conn w c \<noteq> Ready \<longrightarrow>
        fst (mysql_query mysql c q w) \<noteq> 0 \<and> conn (snd (mysql_query mysql c q w)) c = conn w c \<and>
        mysql_errno mysql c (snd (mysql_query mysql c q w)) = CR_COMMANDS_OUT_OF_SYNC) \<and>
     (\<forall>w c rows. conn w c = Answered rows \<longrightarrow>
        (\<exists>h. fst (mysql_use_result mysql c w) = Some h \<and> conn (snd (mysql_use_result mysql c w)) c = Reading h rows)) \<and>
     (\<forall>w c h row rows. conn w c = Reading h (row # rows) \<longrightarrow>
        fst (mysql_fetch_row mysql h w) = Some row \<and> conn (snd (mysql_fetch_row mysql h w)) c = Reading h rows) \<and>
     (\<forall>w c h. conn w c = Reading h [] \<longrightarrow>
        fst (mysql_fetch_row mysql h w) = None \<and> conn (snd (mysql_fetch_row mysql h w)) c = Ready) \<and>
     (\<forall>w c h. conn (mysql_free_result mysql h w) c = (if \<exists>rows. conn w c = Reading h rows then Ready else conn w c)) \<and>
     (\<forall>w c wild. conn w c = Ready \<longrightarrow> conn (snd (mysql_list_tables mysql c wild w)) c = Ready)"

lemma contract_query:
  assumes "client_contract mysql conn answer" and "conn w c = Ready" and "mysql_query mysql c q w = (e, w1)"
  shows "e = 0 \<Longrightarrow> conn w1 c = (case answer w q of None \<Rightarrow> Ready | Some rows \<Rightarrow> Answered rows)"
    and "e \<noteq> 0 \<Longrightarrow> conn w1 c = Ready \<and> mysql_errno mysql c w1 \<noteq> 0"
  using assms unfolding client_contract_def by (metis fst_conv snd_conv)+

lemma contract_busy:
  assumes "client_contract mysql conn answer" and "conn w c \<noteq> Ready" and "mysql_query mysql c q w = (e, w1)"
  shows "e \<noteq> 0" "conn w1 c = conn w c" "mysql_errno mysql c w1 = CR_COMMANDS_OUT_OF_SYNC"
  using assms unfolding client_contract_def by (metis fst_conv snd_conv)+

lemma contract_use:
  assumes "client_contract mysql conn answer" and "conn w c = Answered rows"
  shows "\<exists>h w1. mysql_use_result mysql c w = (Some h, w1) \<and> conn w1 c = Reading h rows"
  using assms unfolding client_contract_def by (metis prod.collapse)

lemma contract_fetch:
  assumes "client_contract mysql conn answer"
  shows "conn w c = Reading h (row # rows) \<Longrightarrow> \<exists>w1. mysql_fetch_row mysql h w = (Some row, w1) \<and> conn w1 c = Reading h rows"
    and "conn w c = Reading h [] \<Longrightarrow> \<exists>w1. mysql_fetch_row mysql h w = (None, w1) \<and> conn w1 c = Ready"
  using assms unfolding client_contract_def by (metis prod.collapse)+

lemma contract_free:
  assumes "client_contract mysql conn answer"
  shows "conn (mysql_free_result mysql h w) c = (if \<exists>rows. conn w c = Reading h rows then Ready else conn w c)"
  using assms unfolding client_contract_def by blast

section \<open>Reading an answer\<close>

text \<open>The loop \<^verbatim>\<open>while ((row = store->fetch_row(sid)) != NULL)\<close> of the callers, with at most \<open>n\<close> calls.\<close>

fun fetch_loop :: "nat \<Rightarrow> 'w mysql_client \<Rightarrow> MYSQL_SESSION \<Rightarrow> 'w \<Rightarrow> (string list list \<times> 'w) option" where
  "fetch_loop 0 mysql sid w = None"
| "fetch_loop (Suc n) mysql sid w =
     (case my_fetch_row mysql sid w of
        None \<Rightarrow> None
      | Some (None, w1) \<Rightarrow> Some ([], w1)
      | Some (Some row, w1) \<Rightarrow> do { (rows, w2) \<leftarrow> fetch_loop n mysql sid w1; Some (row # rows, w2) })"

lemma fetch_loop_rows:
  assumes "client_contract mysql conn answer" and "conn w c = Reading h rows" and "sres sid = Some h"
  shows "\<exists>w2. fetch_loop (Suc (length rows)) mysql sid w = Some (rows, w2) \<and> conn w2 c = Ready"
  using assms(2)
proof (induction rows arbitrary: w)
  case Nil
  then show ?case using contract_fetch(2) [OF assms(1)] assms(3) by (fastforce simp: my_fetch_row_def)
next
  case (Cons row rows)
  obtain w1 where w1: "mysql_fetch_row mysql h w = (Some row, w1)" "conn w1 c = Reading h rows"
    using contract_fetch(1) [OF assms(1) Cons.prems] by blast
  obtain w2 where "fetch_loop (Suc (length rows)) mysql sid w1 = Some (rows, w2)" "conn w2 c = Ready"
    using Cons.IH [OF w1(2)] by blast
  then show ?case using w1(1) assms(3) by (simp add: my_fetch_row_def del: fetch_loop.simps(2)) (simp add: my_fetch_row_def)
qed

lemma my_query_answered:
  assumes cc: "client_contract mysql conn answer" and ready: "conn w (id_db sid) = Ready"
    and q: "fst (mysql_query mysql (id_db sid) q w) = 0" and a: "answer w q = Some rows"
  shows "\<exists>h w1. my_query mysql sid q w = (1, sid\<lparr>sres := Some h\<rparr>, w1) \<and> conn w1 (id_db sid) = Reading h rows"
proof -
  let ?c = "id_db sid"
  obtain w1 where m: "mysql_query mysql ?c q w = (0, w1)" using q by (metis prod.collapse)
  let ?w2 = "if sres sid \<noteq> None then snd (snd (my_free mysql sid w1)) else w1"
  have w1: "conn w1 ?c = Answered rows" using contract_query(1) [OF cc ready m] a by simp
  have "conn ?w2 ?c = Answered rows" using w1 contract_free [OF cc] by (auto simp: my_free_def split: option.split)
  from contract_use [OF cc this] obtain h w3 where u: "mysql_use_result mysql ?c ?w2 = (Some h, w3)" "conn w3 ?c = Reading h rows"
    by blast
  have "my_query mysql sid q w = (1, sid\<lparr>sres := Some h\<rparr>, w3)"
    using u(1) m by (cases "sres sid") (simp_all add: my_query_def Let_def my_free_def)
  then show ?thesis using u(2) by blast
qed

text \<open>
  C19 (rows of a query). On a connection that accepts statements, a query the server answers with rows succeeds; the loop of the
  callers then reads exactly these rows in their order and ends, after one call more than there are rows; the connection accepts
  statements again, also after the result has been released.
\<close>

theorem my_query_rows:
  assumes "client_contract mysql conn answer" and "conn w (id_db sid) = Ready"
    and "fst (mysql_query mysql (id_db sid) q w) = 0" and "answer w q = Some rows"
  shows "\<exists>sid1 w1 w2 sid3 w3. my_query mysql sid q w = (1, sid1, w1) \<and> fetch_loop (Suc (length rows)) mysql sid1 w1 = Some (rows, w2) \<and>
           conn w2 (id_db sid) = Ready \<and> my_free mysql sid1 w2 = (1, sid3, w3) \<and>
           sid3 = sid\<lparr>sres := None\<rparr> \<and> conn w3 (id_db sid) = Ready"
proof -
  obtain h w1 where q: "my_query mysql sid q w = (1, sid\<lparr>sres := Some h\<rparr>, w1)" "conn w1 (id_db sid) = Reading h rows"
    using my_query_answered [OF assms] by blast
  obtain w2 where l: "fetch_loop (Suc (length rows)) mysql (sid\<lparr>sres := Some h\<rparr>) w1 = Some (rows, w2)" "conn w2 (id_db sid) = Ready"
    using fetch_loop_rows [OF assms(1) q(2), of "sid\<lparr>sres := Some h\<rparr>"] by auto
  have "conn (mysql_free_result mysql h w2) (id_db sid) = Ready" using contract_free [OF assms(1)] l(2) by simp
  then show ?thesis using q(1) l by (simp add: my_free_def)
qed

text \<open>A client with one connection, whose server answers every \<^verbatim>\<open>select\<close> with the same two rows.\<close>

definition demo_rows :: "string list list" where "demo_rows = [[''7''], [''8'']]"

definition demo_client :: "(conn \<times> int) mysql_client" where
  "demo_client = \<lparr>
     mysql_real_connect = (\<lambda>_ _ _ _ w. (Some 0, w)),
     mysql_close = (\<lambda>_ w. w),
     mysql_query = (\<lambda>c q w. case fst w of
        Ready \<Rightarrow> if take 6 q = ''select'' then (0, Answered demo_rows, 0) else (0, Ready, 0)
      | _ \<Rightarrow> (1, fst w, CR_COMMANDS_OUT_OF_SYNC)),
     mysql_use_result = (\<lambda>c w. case fst w of Answered rows \<Rightarrow> (Some 0, Reading 0 rows, 0) | _ \<Rightarrow> (None, fst w, 0)),
     mysql_list_tables = (\<lambda>c wild w. case fst w of Ready \<Rightarrow> (Some 1, Ready, 0) | _ \<Rightarrow> (None, fst w, CR_COMMANDS_OUT_OF_SYNC)),
     mysql_fetch_row = (\<lambda>h w. case fst w of
        Reading g (row # rows) \<Rightarrow> if g = h then (Some row, Reading g rows, 0) else (None, w)
      | Reading g [] \<Rightarrow> if g = h then (None, Ready, 0) else (None, w)
      | _ \<Rightarrow> (None, w)),
     mysql_free_result = (\<lambda>h w. case fst w of Reading g rows \<Rightarrow> if g = h then (Ready, 0) else w | _ \<Rightarrow> w),
     mysql_num_fields = (\<lambda>_ _. 1),
     mysql_errno = (\<lambda>_ w. snd w)\<rparr>"

definition demo_answer :: "(conn \<times> int) \<Rightarrow> string \<Rightarrow> string list list option" where
  "demo_answer w q = (if take 6 q = ''select'' then Some demo_rows else None)"

lemma demo_contract: "client_contract demo_client (\<lambda>w _. fst w) demo_answer"
  by (auto simp: client_contract_def demo_client_def demo_answer_def CR_COMMANDS_OUT_OF_SYNC_def split: conn.split list.split)

theorem my_query_rows_witness:
  "\<exists>sid1 w1 w2. my_query demo_client \<lparr>id_db = 0, sres = None\<rparr> ''select a'' (Ready, 0) = (1, sid1, w1) \<and>
     fetch_loop 3 demo_client sid1 w1 = Some ([[''7''], [''8'']], w2) \<and> fst w2 = Ready"
  using my_query_rows [OF demo_contract, of "(Ready, 0)" "\<lparr>id_db = 0, sres = None\<rparr>" "''select a''" demo_rows]
  by (auto simp: demo_client_def demo_answer_def demo_rows_def numeral_3_eq_3)

text \<open>
  Half-read results. While rows of its result are unread, a session refuses every statement and every query, and keeps the
  result; listing the tables, which releases the result first, is possible, and so is everything once the result has been released.
\<close>

theorem my_session_busy:
  assumes cc: "client_contract mysql conn answer" and reading: "conn w (id_db sid) = Reading h rows" and s: "sres sid = Some h"
  shows "fst (my_exec mysql sid q w) = 0 \<and> conn (snd (my_exec mysql sid q w)) (id_db sid) = Reading h rows \<and>
         fst (my_query mysql sid q w) = 0 \<and> fst (snd (my_query mysql sid q w)) = sid \<and>
         conn (snd (snd (my_free mysql sid w))) (id_db sid) = Ready \<and>
         conn (snd (snd (my_list_tables mysql sid wild w))) (id_db sid) = Ready"
proof -
  obtain e w1 where q: "mysql_query mysql (id_db sid) q w = (e, w1)" by fastforce
  have busy: "conn w (id_db sid) \<noteq> Ready" using reading by simp
  note b = contract_busy [OF cc busy q]
  have err: "my_check_error mysql sid w1 = 0"
    using b(3) by (simp add: my_check_error_def CR_COMMANDS_OUT_OF_SYNC_def CR_SERVER_GONE_ERROR_def CR_SERVER_LOST_def)
  have free: "conn (mysql_free_result mysql h w) (id_db sid) = Ready" using contract_free [OF cc] reading by simp
  then have "conn (snd (mysql_list_tables mysql (id_db sid) wild (mysql_free_result mysql h w))) (id_db sid) = Ready"
    using cc unfolding client_contract_def by blast
  then show ?thesis
    using q b(1,2) err free s reading by (simp add: my_exec_def my_query_def my_free_def my_list_tables_def Let_def case_prod_beta)
qed

theorem my_session_busy_witness:
  "fst (my_exec demo_client \<lparr>id_db = 0, sres = Some 0\<rparr> ''update a'' (Reading 0 [[''8'']], 0)) = 0 \<and>
   fst (my_query demo_client \<lparr>id_db = 0, sres = Some 0\<rparr> ''select a'' (Reading 0 [[''8'']], 0)) = 0"
  using my_session_busy [OF demo_contract, where w = "(Reading 0 [[''8'']], 0)" and sid = "\<lparr>id_db = 0, sres = Some 0\<rparr>"] by simp

text \<open>A query without rows is reported as a success, and the next call to fetch a row reads through a null pointer.\<close>

lemma my_query_no_rows:
  "\<exists>sid1 w1. my_query demo_client \<lparr>id_db = 0, sres = None\<rparr> ''update a'' (Ready, 0) = (1, sid1, w1) \<and>
     my_fetch_row demo_client sid1 w1 = None"
  by (simp add: my_query_def demo_client_def my_check_error_def my_fetch_row_def CR_SERVER_GONE_ERROR_def CR_SERVER_LOST_def)

end
