(* ===== verification/Logging.thy ===== *)
theory Logging
  imports Sched
begin

text \<open>
  The log (\<^verbatim>\<open>src/log.c\<close>, \<^verbatim>\<open>include/log.h\<close>). The file is the list of the lines
  written; whether it can be opened is an argument of each call, and \<open>msg\<close> is the message \<^verbatim>\<open>vsnprintf\<close>
  formats. The mutex is part of the state: \<open>None\<close> is a call that waits for it forever, or a line that does not fit
  the buffer.

  The lemmas show that one call writes one line whatever the message contains, and what a failing open leads to.
\<close>

definition IP_DEBUG :: int where "IP_DEBUG = 7"
definition IP_INFO :: int where "IP_INFO = 6"
definition IP_NOTICE :: int where "IP_NOTICE = 5"
definition IP_WARNING :: int where "IP_WARNING = 4"
definition IP_ERR :: int where "IP_ERR = 3"
definition IP_CRIT :: int where "IP_CRIT = 2"
definition IP_ALERT :: int where "IP_ALERT = 1"

record log_state =
  lg_lines :: "string list"
  lg_locked :: bool

definition levels :: "(string \<times> int) list" where
  "levels = [('': Debug: '', IP_DEBUG), ('': Info: '', IP_INFO), ('': Notice: '', IP_NOTICE), ('': Warning: '', IP_WARNING),
     ('': Error: '', IP_ERR), ('': Critical: '', IP_CRIT), ('': Alert: '', IP_ALERT)]"

fun IPStat_int2str :: "(string \<times> int) list \<Rightarrow> int \<Rightarrow> string \<Rightarrow> string" where
  "IPStat_int2str [] number def = def"
| "IPStat_int2str ((name, n) # table) number def = (if n = number then name else IPStat_int2str table number def)"

text \<open>The loop that replaces control characters; characters are compared as \<^verbatim>\<open>unsigned char\<close>.\<close>

definition sanitize :: "char \<Rightarrow> char" where
  "sanitize c =
     (if c = CHR 0x0D \<or> c = CHR 0x0A then CHR '' ''
      else if char_code c < 32 \<or> 128 \<le> char_code c \<and> char_code c \<le> 160 then CHR ''?'' else c)"

text \<open>\<^verbatim>\<open>strftime\<close> with the format \<^verbatim>\<open>%Y-%m-%d.%H:%M:%S\<close>.\<close>

definition log_time :: "tm \<Rightarrow> string" where
  "log_time t = fmt_int (tm_year t + 1900) @ ''-'' @ fmt_02 (tm_mon t + 1) @ ''-'' @ fmt_02 (tm_mday t) @ ''.'' @
     fmt_02 (tm_hour t) @ '':'' @ fmt_02 (tm_min t) @ '':'' @ fmt_02 (tm_sec t)"

text \<open>
  The size passed to \<^verbatim>\<open>vsnprintf\<close> counts its terminator. The mutex is not released when the file cannot be
  opened.
\<close>

definition vlog :: "(time_t \<Rightarrow> tm) \<Rightarrow> time_t \<Rightarrow> bool \<Rightarrow> int \<Rightarrow> string \<Rightarrow> log_state \<Rightarrow> (gboolean \<times> log_state) option" where
  "vlog localtime now opens lvl msg st =
     (if lg_locked st then None
      else if \<not> opens then Some (0, st\<lparr>lg_locked := True\<rparr>)
      else let head = log_time (localtime now) @ IPStat_int2str levels lvl '': ''
           in if 8190 < length head then None
              else Some (1, st\<lparr>lg_lines := lg_lines st @
                     [map sanitize (head @ take (8192 - length head - 2) (cstr msg)) @ [CHR 0x0A]]\<rparr>))"

definition print_log :: "(time_t \<Rightarrow> tm) \<Rightarrow> time_t \<Rightarrow> bool \<Rightarrow> int \<Rightarrow> string \<Rightarrow> log_state \<Rightarrow> (gboolean \<times> log_state) option" where
  "print_log = vlog"

section \<open>Lines\<close>

lemma length_int2str: "length (IPStat_int2str levels lvl '': '') \<le> 12"
  by (simp add: levels_def)

lemma char_code_space: "char_code CHR '' '' = 32" "char_code CHR ''?'' = 63"
  by (simp_all add: char_code_def)

lemma char_code_newline: "char_code CHR 0x0A = 10"
  by (simp add: char_code_def)

lemma sanitize_printable: "32 \<le> char_code (sanitize c) \<and> \<not> (128 \<le> char_code (sanitize c) \<and> char_code (sanitize c) \<le> 160)"
  by (simp add: sanitize_def char_code_space)

lemma sanitize_idem: "sanitize (sanitize c) = sanitize c"
proof -
  have "sanitize c \<noteq> CHR 0x0D" "sanitize c \<noteq> CHR 0x0A"
    using sanitize_printable [of c] by (auto simp: char_code_def)
  then show ?thesis using sanitize_printable [of c] by (auto simp: sanitize_def [of "sanitize c"])
qed

text \<open>
  Log lines. While the mutex is free and the file can be opened, a call with any message writes exactly one line behind the
  others: it holds the time, the level and the message with its control characters replaced, it has no control character but
  the line feed at its end, and with its terminator it fits the buffer of 8192 bytes; a message is cut only when it does not fit.
\<close>

theorem print_log_line:
  assumes "\<not> lg_locked st" and "length (log_time (localtime now)) \<le> 100"
  shows "\<exists>line. print_log localtime now True lvl msg st = Some (1, st\<lparr>lg_lines := lg_lines st @ [line @ [CHR 0x0A]]\<rparr>) \<and>
           (\<forall>c \<in> set line. 32 \<le> char_code c \<and> c \<noteq> CHR 0x0A) \<and> length (line @ [CHR 0x0A]) < 8192 \<and>
           (length (cstr msg) \<le> 8000 \<longrightarrow>
              line = map sanitize (log_time (localtime now) @ IPStat_int2str levels lvl '': '' @ cstr msg))"
proof -
  let ?head = "log_time (localtime now) @ IPStat_int2str levels lvl '': ''"
  let ?line = "map sanitize (?head @ take (8192 - length ?head - 2) (cstr msg))"
  have h: "length ?head \<le> 112" using assms(2) length_int2str [of lvl] by simp
  have "print_log localtime now True lvl msg st = Some (1, st\<lparr>lg_lines := lg_lines st @ [?line @ [CHR 0x0A]]\<rparr>)"
    using assms(1) h by (simp add: print_log_def vlog_def Let_def)
  moreover have "32 \<le> char_code c \<and> c \<noteq> CHR 0x0A" if c: "c \<in> set ?line" for c
  proof -
    obtain d where "c = sanitize d" using c unfolding set_map by blast
    then have "32 \<le> char_code c" using sanitize_printable [of d] by simp
    moreover have "c = CHR 0x0A \<Longrightarrow> char_code c = 10" by (simp only: char_code_newline)
    ultimately show ?thesis by linarith
  qed
  moreover have "length (?line @ [CHR 0x0A]) < 8192" using h by simp
  moreover have "?line = map sanitize (log_time (localtime now) @ IPStat_int2str levels lvl '': '' @ cstr msg)"
    if "length (cstr msg) \<le> 8000"
    using that h by simp
  ultimately show ?thesis by blast
qed

definition ex_log :: log_state where "ex_log = \<lparr>lg_lines = [], lg_locked = False\<rparr>"

theorem print_log_line_witness:
  "\<exists>line. print_log (\<lambda>_. zero_tm) 0 True IP_ERR [CHR ''a'', CHR 0x0A, CHR ''b''] ex_log =
       Some (1, ex_log\<lparr>lg_lines := lg_lines ex_log @ [line @ [CHR 0x0A]]\<rparr>) \<and>
     (\<forall>c \<in> set line. 32 \<le> char_code c \<and> c \<noteq> CHR 0x0A)"
proof -
  have l: "length (log_time ((\<lambda>_. zero_tm) (0::time_t))) \<le> 100"
    using length_show_nat [of 1900 4] length_show_nat [of 0 1] length_show_nat [of 1 1]
    by (simp add: log_time_def zero_tm_def fmt_02_def fmt_int_def)
  have "\<not> lg_locked ex_log" by (simp add: ex_log_def)
  from print_log_line [OF this l, where lvl = IP_ERR and msg = "[CHR ''a'', CHR 0x0A, CHR ''b'']"] show ?thesis by blast
qed

text \<open>After one failure to open the file every later call blocks.\<close>

lemma print_log_blocks:
  assumes "print_log localtime now False lvl msg st = Some (r, st')"
  shows "print_log localtime' now' opens lvl' msg' st' = None"
  using assms by (auto simp: print_log_def vlog_def split: if_splits)

end
