(* ===== verification/Process.thy ===== *)
theory Process
  imports Prelude
begin

text \<open>
  The process helpers of \<^verbatim>\<open>src/misc.c\<close>: the file with the number of the daemon, the step into the background, the
  settings of the kernel, and the program run to its end by \<^verbatim>\<open>exec_prog\<close>. The array that receives the file is not initialised: \<open>junk\<close> is what it
  holds before, and \<open>None\<close> a number that is read beyond its end.
\<close>

section \<open>The pid file\<close>

text \<open>The content of the file, when it can be opened; ten bytes receive the digits and the terminator.\<close>

definition save_pid :: "bool \<Rightarrow> int \<Rightarrow> (gboolean \<times> string option) option" where
  "save_pid opens pid =
     (if 10 \<le> length (fmt_int pid) then None
      else Some (if opens then (1, Some (fmt_int pid)) else (0, None)))"

text \<open>\<^verbatim>\<open>atoi\<close> on an array that may lack a terminator.\<close>

definition atoi_array :: "string \<Rightarrow> int option" where
  "atoi_array buf =
     (let t = dropWhile isspace buf;
          u = (if chd t = CHR ''-'' \<or> chd t = CHR ''+'' then tl t else t)
      in if dropWhile isdigit u = [] then None else Some (atoi buf))"

definition restore_pid :: "string option \<Rightarrow> string \<Rightarrow> int option" where
  "restore_pid file_content junk =
     (case file_content of
        None \<Rightarrow> Some 0
      | Some s \<Rightarrow> let bytes = take 9 s in atoi_array (bytes @ drop (length bytes) junk))"

lemma atoi_array_digits:
  assumes "\<forall>d \<in> set ds. isdigit d" and "ds \<noteq> []"
  shows "rest \<noteq> [] \<Longrightarrow> \<not> isdigit (hd rest) \<Longrightarrow> atoi_array (ds @ rest) = Some (saturate 32 (digits_val 0 ds))"
    and "\<forall>c \<in> set rest. isdigit c \<Longrightarrow> atoi_array (ds @ rest) = None"
proof -
  obtain d ds' where ds: "ds = d # ds'" using assms(2) by (cases ds) auto
  then have d: "d \<noteq> CHR ''-''" "d \<noteq> CHR ''+''" "\<not> isspace d" using assms(1) digit_not_sign [of d] digit_not_space [of d] by auto
  { assume r: "rest \<noteq> []" "\<not> isdigit (hd rest)"
    have dw: "dropWhile isdigit (ds @ rest) = rest" using assms(1) r by (cases rest) (simp_all add: dropWhile_append2)
    have "digits_val 0 (ds @ rest) = digits_val 0 ds" using assms(1) r by (cases rest) (simp_all add: digits_val_append)
    moreover have "signed_val (ds @ rest) = digits_val 0 (ds @ rest)" by (rule signed_val_digits) (use assms in auto)
    moreover have "dropWhile isspace (ds @ rest) = ds @ rest" "chd (ds @ rest) = d" using d(3) by (simp_all add: ds)
    ultimately show "atoi_array (ds @ rest) = Some (saturate 32 (digits_val 0 ds))"
      using r(1) d(1,2) dw by (simp add: atoi_array_def atoi_def Let_def del: dropWhile_eq_Nil_conv) }
  { assume "\<forall>c \<in> set rest. isdigit c"
    then have "\<forall>c \<in> set (ds @ rest). isdigit c" using assms(1) by auto
    moreover have "dropWhile isspace (ds @ rest) = ds @ rest" "chd (ds @ rest) = d" using d(3) by (simp_all add: ds)
    ultimately show "atoi_array (ds @ rest) = None" using d(1,2) by (simp add: atoi_array_def Let_def) }
qed

text \<open>
  Pid file. The number a daemon saves is read back by the process that is to signal it when the byte behind the digits in the
  uninitialised array is no digit.
\<close>

theorem pid_file_roundtrip:
  assumes "pid < 10 ^ 9" and "length junk = 10" and "\<not> isdigit (junk ! length (show_nat pid))"
  shows "\<exists>file_content. save_pid True (int pid) = Some (1, Some file_content) \<and> restore_pid (Some file_content) junk = Some (int pid)"
proof -
  let ?s = "show_nat pid"
  have l: "length ?s \<le> 9" using length_show_nat [of pid 9] assms(1) by simp
  let ?rest = "drop (length ?s) junk"
  have ne: "?rest \<noteq> []" using l assms(2) by simp
  have hd: "\<not> isdigit (hd ?rest)" using assms(2,3) l by (simp add: hd_drop_conv_nth)
  have "atoi_array (?s @ ?rest) = Some (saturate 32 (int pid))"
    using atoi_array_digits(1) [OF _ _ ne hd, of ?s] show_nat_digits show_nat_not_Nil by (auto simp: digits_val_show_nat)
  moreover have "saturate 32 (int pid) = int pid" using assms(1) by (simp add: saturate_def)
  ultimately show ?thesis using l by (simp add: save_pid_def restore_pid_def fmt_int_def)
qed

theorem pid_file_roundtrip_witness:
  "\<exists>file_content. save_pid True 4711 = Some (1, Some file_content) \<and> restore_pid (Some file_content) (replicate 10 NUL) = Some 4711"
proof -
  have "length (show_nat 4711) \<le> 4" using length_show_nat [of 4711 4] by simp
  then have "\<not> isdigit (replicate 10 NUL ! length (show_nat 4711))" by (simp add: isdigit_def char_code_def NUL_def)
  from pid_file_roundtrip [OF _ _ this] show ?thesis by simp
qed

text \<open>Otherwise the signal goes to another process, or the number is read from beyond the array; without a file the number is 0.\<close>

lemma restore_pid_stale:
  "restore_pid (Some ''12'') (''xx34'' @ replicate 6 NUL) = Some 1234" "restore_pid (Some ''12'') (replicate 10 CHR ''7'') = None"
  "restore_pid None junk = Some 0"
proof -
  have d: "\<forall>d \<in> set ''1234''. isdigit d" "\<not> isdigit (hd (replicate 6 NUL))"
    by (simp_all add: isdigit_def char_code_def NUL_def)
  have "digits_val 0 ''1234'' = 1234" by (simp add: isdigit_def char_code_def)
  then show "restore_pid (Some ''12'') (''xx34'' @ replicate 6 NUL) = Some 1234"
    using atoi_array_digits(1) [OF d(1) _ _ d(2)] by (simp add: restore_pid_def saturate_def)
  have "\<forall>c \<in> set (replicate 8 CHR ''7''). isdigit c" "\<forall>d \<in> set ''12''. isdigit d" by (simp_all add: isdigit_def char_code_def)
  then show "restore_pid (Some ''12'') (replicate 10 CHR ''7'') = None"
    using atoi_array_digits(2) [of "''12''" "replicate 8 CHR ''7''"] by (simp add: restore_pid_def)
qed (simp add: restore_pid_def)

section \<open>Waiting for a program\<close>

text \<open>One return of \<^verbatim>\<open>waitpid\<close>: the child and its status, or an error that is or is not an interruption.\<close>

datatype wait_result = Exited int | WaitFailed bool

text \<open>
  The loop, with at most \<open>n\<close> turns. The test that is to end it after an error looks at the number of the child, which is positive
  here.
\<close>

fun exec_wait :: "nat \<Rightarrow> int \<Rightarrow> (nat \<Rightarrow> wait_result) \<Rightarrow> nat \<Rightarrow> int option" where
  "exec_wait 0 pid ret i = None"
| "exec_wait (Suc n) pid ret i =
     (case ret i of
        Exited st \<Rightarrow> Some st
      | WaitFailed True \<Rightarrow> exec_wait n pid ret (Suc i)
      | WaitFailed False \<Rightarrow> if pid < 0 then Some 0 else exec_wait n pid ret (Suc i))"

text \<open>Interruptions are waited out; any other error makes the loop run for ever.\<close>

lemma exec_wait_returns:
  assumes "ret (i + k) = Exited st" and "\<forall>j < k. ret (i + j) = WaitFailed True"
  shows "exec_wait (Suc k) pid ret i = Some st"
  using assms
proof (induction k arbitrary: i)
  case (Suc k)
  have "ret i = WaitFailed True" using Suc.prems(2) by force
  moreover have "exec_wait (Suc k) pid ret (Suc i) = Some st"
    using Suc.prems by (intro Suc.IH) (auto simp: less_Suc_eq_0_disj)
  ultimately show ?case by simp
qed simp

lemma exec_wait_diverges: "0 \<le> pid \<Longrightarrow> exec_wait n pid (\<lambda>_. WaitFailed False) i = None"
  by (induction n arbitrary: i) auto

text \<open>
  \<^verbatim>\<open>exec_prog\<close> on the result of \<^verbatim>\<open>fork\<close>: when no child can be made, the caller itself ends.
\<close>

datatype prog_result = ProcessExits int | Replaced | ProgReturns int "int list"

definition exec_prog :: "nat \<Rightarrow> int \<Rightarrow> bool \<Rightarrow> (nat \<Rightarrow> wait_result) \<Rightarrow> prog_result option" where
  "exec_prog n pid exec_ok ret =
     (if pid = -1 then Some (ProcessExits 1)
      else if pid = 0 then Some (if exec_ok then Replaced else ProcessExits 1)
      else map_option (\<lambda>st. ProgReturns st []) (exec_wait n pid ret 0))"

text \<open>
  \<^verbatim>\<open>run_prog\<close> does not wait; the list holds the descriptors it closes. A child that cannot execute the program returns
  into the code of the caller.
\<close>

definition run_prog :: "int \<Rightarrow> bool \<Rightarrow> int \<Rightarrow> int \<Rightarrow> prog_result" where
  "run_prog pid exec_ok stream_in stream_out =
     (let closed = (if stream_in \<noteq> 0 then [stream_in] else []) @ (if stream_out \<noteq> 1 then [stream_out] else [])
      in if pid = -1 then ProgReturns (-1) []
         else if pid = 0 then (if exec_ok then Replaced else ProgReturns 0 closed)
         else ProgReturns pid closed)"

lemma exec_prog_status:
  assumes "0 < pid" and "ret k = Exited st" and "\<forall>j < k. ret j = WaitFailed True"
  shows "exec_prog (Suc k) pid exec_ok ret = Some (ProgReturns st [])"
  using assms exec_wait_returns [of ret 0 k st pid] by (simp add: exec_prog_def)

section \<open>The step into the background\<close>

text \<open>What matters of a process: its directory, whether its standard streams are the null device, whether it leads a session.\<close>

record process =
  pr_dir :: string
  pr_null :: bool
  pr_leader :: bool

datatype fork_result = ForkFailed | ForkParent | ForkChild

datatype daemon_result = Returns int process | ParentExits

definition daemon :: "fork_result \<Rightarrow> bool \<Rightarrow> bool \<Rightarrow> bool \<Rightarrow> int \<Rightarrow> int \<Rightarrow> process \<Rightarrow> daemon_result" where
  "daemon fork_res setsid_ok chdir_ok null_ok nochdir noclose p =
     (case fork_res of
        ForkFailed \<Rightarrow> Returns (-1) p
      | ForkParent \<Rightarrow> ParentExits
      | ForkChild \<Rightarrow>
          if \<not> setsid_ok then Returns (-1) p
          else let p1 = p\<lparr>pr_leader := True\<rparr>;
                   p2 = (if nochdir = 0 \<and> chdir_ok then p1\<lparr>pr_dir := ''/''\<rparr> else p1);
                   p3 = (if noclose = 0 \<and> null_ok then p2\<lparr>pr_null := True\<rparr> else p2)
               in Returns 0 p3)"

text \<open>
  The call of the main program succeeds only with the root as its directory, where it then looks for a configuration
  file given by a relative path.
\<close>

lemma daemon_background:
  assumes "daemon fork_res setsid_ok True True 0 0 p = Returns 0 p'"
  shows "fork_res = ForkChild \<and> pr_dir p' = ''/'' \<and> pr_null p' \<and> pr_leader p'"
  using assms by (auto simp: daemon_def Let_def split: fork_result.splits if_splits)

text \<open>The files of the kernel that can be opened, with what is written.\<close>

definition set_env :: "(string \<Rightarrow> bool) \<Rightarrow> (string \<times> string) list" where
  "set_env opens = filter (\<lambda>(f, _). opens f)
     [(''/proc/sys/net/core/rmem_max'', ''1048576''), (''/proc/sys/net/core/rmem_default'', ''1048576''),
      (''/proc/sys/net/core/wmem_max'', ''1048576''), (''/proc/sys/net/core/wmem_default'', ''1048576'')]"

section \<open>Memory\<close>

text \<open>
  The wrappers of \<^verbatim>\<open>src/gfunc.c\<close> on the blocks allocated: \<open>a\<close> is what \<^verbatim>\<open>malloc\<close> returns, 0 without memory. Releasing
  what is not allocated is undefined.
\<close>

definition g_malloc0 :: "nat \<Rightarrow> addr \<Rightarrow> (addr \<rightharpoonup> string) \<Rightarrow> addr \<times> (addr \<rightharpoonup> string)" where
  "g_malloc0 sz a blocks = (if sz = 0 then (0, blocks) else if a = 0 then (0, blocks) else (a, blocks(a \<mapsto> replicate sz NUL)))"

definition g_free :: "addr \<Rightarrow> (addr \<rightharpoonup> string) \<Rightarrow> (addr \<rightharpoonup> string) option" where
  "g_free p blocks = (if p = 0 then Some blocks else if blocks p = None then None else Some (blocks(p := None)))"

lemma g_malloc0_free:
  assumes "blocks a = None" and "g_malloc0 sz a blocks = (p, blocks1)"
  shows "g_free p blocks1 = Some blocks \<and> (p \<noteq> 0 \<longrightarrow> blocks1 p = Some (replicate sz NUL))"
  using assms by (auto simp: g_malloc0_def g_free_def fun_upd_idem split: if_splits)

end
