(* ===== verification/Daemon.thy ===== *)
theory Daemon
  imports Plugins Process
begin

text \<open>
  The life of the program (\<^verbatim>\<open>src/main.c\<close>): command line, signals, the order in which the modules are started,
  connected, loaded, unloaded and released. A step of \<^verbatim>\<open>main\<close> is a value of \<open>main_step\<close>, carried out by the
  argument \<open>perform\<close> on the state \<open>'w\<close> of the program; it answers whether it succeeded, and \<open>None\<close> is undefined
  behaviour. \<open>startup\<close> marks the steps whose failure ends the program. A list of lists of signals stands for what arrives in each
  of the sleeps of the main loop.

  The lemmas show in which order what happens, and, with the loaders of the theory \<open>Plugins\<close> as the steps that concern
  plug-ins, which plug-in functions a run of the program calls. Detaching from the terminal, limits of the kernel and messages are not
  modelled.
\<close>

section \<open>The command line\<close>

definition SIGHUP :: int where "SIGHUP = 1"
definition SIGINT :: int where "SIGINT = 2"
definition SIGQUIT :: int where "SIGQUIT = 3"
definition SIGUSR2 :: int where "SIGUSR2 = 12"
definition SIGTERM :: int where "SIGTERM = 15"
definition FILENAME_MAX :: nat where "FILENAME_MAX = 4096"

text \<open>What the options ask for: a run with its settings, a signal to the running daemon, or the help text.\<close>

datatype command = Run bool string string | Signal int string | Help

fun parse_options :: "(char \<times> string) list \<Rightarrow> bool \<Rightarrow> string \<Rightarrow> string \<Rightarrow> command" where
  "parse_options [] flag_daemon conf_file pid_file = Run flag_daemon conf_file pid_file"
| "parse_options ((op, optarg) # opts) flag_daemon conf_file pid_file =
     (if op = CHR ''t'' then parse_options opts False conf_file pid_file
      else if op = CHR ''C'' then parse_options opts flag_daemon (take (FILENAME_MAX - 1) (cstr optarg)) pid_file
      else if op = CHR ''d'' then parse_options opts True conf_file pid_file
      else if op = CHR ''p'' then parse_options opts flag_daemon conf_file (take (FILENAME_MAX - 1) (cstr optarg))
      else if op = CHR ''s'' then Signal SIGTERM pid_file
      else if op = CHR ''r'' then Signal SIGHUP pid_file
      else if op = CHR ''h'' then Help
      else parse_options opts flag_daemon conf_file pid_file)"

definition main_options :: "(char \<times> string) list \<Rightarrow> command" where
  "main_options opts = parse_options opts True ''/opt/IPStat/etc/IPStat.cfg'' ''/opt/IPStat/run/IPStat.pid''"

text \<open>The process that gets the signal, and the signal.\<close>

definition action_to_daemon :: "(string \<Rightarrow> string option) \<Rightarrow> string \<Rightarrow> int \<Rightarrow> string \<Rightarrow> (int \<times> int) option" where
  "action_to_daemon file_system junk sig pid_file = map_option (\<lambda>pid. (pid, sig)) (restore_pid (file_system pid_file) junk)"

section \<open>Signals\<close>

definition sig_fatal :: "int \<Rightarrow> int \<Rightarrow> int" where
  "sig_fatal sig do_exit =
     (if sig = SIGTERM \<or> sig = SIGQUIT \<or> sig = SIGINT \<or> sig = SIGUSR2 then 1
      else if sig = SIGHUP then 2
      else 0)"

text \<open>The signals \<^verbatim>\<open>main\<close> installs the handler for; the default action of the others does not reach it.\<close>

definition handled :: "int \<Rightarrow> bool" where
  "handled sig \<longleftrightarrow> sig = SIGHUP \<or> sig = SIGUSR2 \<or> sig = SIGINT \<or> sig = SIGTERM \<or> sig = SIGQUIT"

text \<open>The main loop: \<open>None\<close> while it still sleeps after the last period.\<close>

fun main_loop :: "int list list \<Rightarrow> int \<Rightarrow> int option" where
  "main_loop periods do_exit =
     (if do_exit \<noteq> 0 then Some do_exit
      else case periods of [] \<Rightarrow> None
      | sigs # rest \<Rightarrow> main_loop rest (fold sig_fatal (filter handled sigs) do_exit))"

section \<open>The steps\<close>

datatype main_step =
  ConfInit | ConfParse | LogInit | SetEnv | SetSignals | SavePid
| StoreInit | ServerInit | SchedulerInit | SchedSetServer | CheckCoreTables
| CoreInit | CoreSetStore | CoreSetServer | CoreSetSched | CoreSync
| SystemInit | CollectorsInit | SystemLoadAll | CollectorsLoadAll
| CollectorsUnloadAll | SystemUnloadAll | CollectorsFree | SystemFree | CoreFree
| SchedulerFree | ServerFree | StoreFree | LogFree | ConfFree | UnlinkPid

type_synonym 'w perform = "main_step \<Rightarrow> 'w \<Rightarrow> (bool \<times> 'w) option"

text \<open>The steps up to the main loop; the flag marks those whose failure ends the program.\<close>

definition startup :: "(main_step \<times> bool) list" where
  "startup =
     [(ConfInit, True), (ConfParse, False), (LogInit, True), (SetEnv, False), (SetSignals, False), (SavePid, False),
      (StoreInit, True), (ServerInit, True), (SchedulerInit, True), (SchedSetServer, False), (CheckCoreTables, False),
      (CoreInit, True), (CoreSetStore, False), (CoreSetServer, False), (CoreSetSched, False), (CoreSync, False),
      (SystemInit, True), (CollectorsInit, True), (SystemLoadAll, False), (CollectorsLoadAll, False)]"

definition shutdown :: "main_step list" where
  "shutdown =
     [CollectorsUnloadAll, SystemUnloadAll, CollectorsFree, SystemFree, CoreFree, SchedulerFree, ServerFree, StoreFree,
      LogFree, ConfFree, UnlinkPid]"

fun run_startup :: "'w perform \<Rightarrow> (main_step \<times> bool) list \<Rightarrow> 'w \<Rightarrow> (bool \<times> 'w) option" where
  "run_startup perform [] w = Some (True, w)"
| "run_startup perform ((step, required) # steps) w = do {
     (ok, w1) \<leftarrow> perform step w;
     if required \<and> \<not> ok then Some (False, w1) else run_startup perform steps w1
   }"

fun run_shutdown :: "'w perform \<Rightarrow> main_step list \<Rightarrow> 'w \<Rightarrow> 'w option" where
  "run_shutdown perform [] w = Some w"
| "run_shutdown perform (step # steps) w = do { (_, w1) \<leftarrow> perform step w; run_shutdown perform steps w1 }"

text \<open>The program has ended with an exit code, or it sleeps.\<close>

datatype 'w main_result = Ended int 'w | Sleeping 'w

definition main_run :: "'w perform \<Rightarrow> int list list \<Rightarrow> 'w \<Rightarrow> 'w main_result option" where
  "main_run perform periods w = do {
     (ok, w1) \<leftarrow> run_startup perform startup w;
     if \<not> ok then Some (Ended 1 w1)
     else case main_loop periods 0 of
       None \<Rightarrow> Some (Sleeping w1)
     | Some _ \<Rightarrow> do { w2 \<leftarrow> run_shutdown perform shutdown w1; Some (Ended 0 w2) }
   }"

text \<open>
  \<^verbatim>\<open>main\<close> on the number of arguments, the options, the user, and whether the lock file can be opened and locked: the
  exit code and the process signalled, or the run.
\<close>

datatype 'w main_outcome = Exits int | Signals int int | Runs "'w main_result"

definition main_prog ::
  "nat \<Rightarrow> (char \<times> string) list \<Rightarrow> (string \<Rightarrow> string option) \<Rightarrow> string \<Rightarrow> nat \<Rightarrow> bool \<Rightarrow> bool \<Rightarrow> (string \<Rightarrow> 'w perform) \<Rightarrow>
   int list list \<Rightarrow> 'w \<Rightarrow> 'w main_outcome option" where
  "main_prog argc opts file_system junk uid opens locks perform periods w =
     (if argc \<le> 1 then Some (Exits 0)
      else case main_options opts of
        Signal sig pid_file \<Rightarrow> map_option (\<lambda>(pid, s). Signals pid s) (action_to_daemon file_system junk sig pid_file)
      | Help \<Rightarrow> Some (Exits 0)
      | Run flag_daemon conf_file pid_file \<Rightarrow>
          if uid \<noteq> 0 then Some (Exits 1)
          else if \<not> opens then Some (Exits 1)
          else if \<not> locks then Some (Exits 1)
          else map_option Runs (main_run (perform conf_file) periods w))"

section \<open>Order of the steps\<close>

text \<open>A performer that also records its steps.\<close>

definition tracing :: "'w perform \<Rightarrow> ('w \<times> main_step list) perform" where
  "tracing perform step s = map_option (\<lambda>(ok, w'). (ok, w', snd s @ [step])) (perform step (fst s))"

definition total_perform :: "'w perform \<Rightarrow> bool" where
  "total_perform perform \<longleftrightarrow> (\<forall>step w. perform step w \<noteq> None)"

lemma total_performE:
  assumes "total_perform perform"
  obtains ok w1 where "perform step w = Some (ok, w1)"
  using assms unfolding total_perform_def by (metis not_Some_eq prod.exhaust)

lemma tracing_step: "perform step w = Some (ok, w1) \<Longrightarrow> tracing perform step (w, tr) = Some (ok, w1, tr @ [step])"
  by (simp add: tracing_def)

lemma run_startup_traces:
  assumes "total_perform perform"
  shows "\<exists>ok w' done rest. run_startup (tracing perform) steps (w, tr) = Some (ok, w', tr @ map fst done) \<and> steps = done @ rest \<and>
           (if ok then rest = [] else done \<noteq> [] \<and> snd (last done))"
proof (induction steps arbitrary: w tr)
  case (Cons s steps)
  obtain step required where s: "s = (step, required)" by fastforce
  obtain ok w1 where p: "perform step w = Some (ok, w1)" using total_performE [OF assms] .
  note t = tracing_step [of perform, OF p]
  show ?case
  proof (cases "required \<and> \<not> ok")
    case True
    then show ?thesis
      using t by (intro exI [of _ False] exI [of _ w1] exI [of _ "[s]"] exI [of _ steps]) (simp add: s)
  next
    case False
    obtain ok' w' dn rest where ih: "run_startup (tracing perform) steps (w1, tr @ [step]) = Some (ok', w', (tr @ [step]) @ map fst dn)"
        "steps = dn @ rest" "if ok' then rest = [] else dn \<noteq> [] \<and> snd (last dn)"
      using Cons.IH by blast
    then show ?thesis
      using t False by (intro exI [of _ ok'] exI [of _ w'] exI [of _ "s # dn"] exI [of _ rest]) (auto simp: s)
  qed
qed (rule exI [of _ True], simp)

lemma run_shutdown_traces:
  assumes "total_perform perform"
  shows "\<exists>w'. run_shutdown (tracing perform) steps (w, tr) = Some (w', tr @ steps)"
proof (induction steps arbitrary: w tr)
  case (Cons step steps)
  obtain ok w1 where p: "perform step w = Some (ok, w1)" using total_performE [OF assms] .
  obtain w' where "run_shutdown (tracing perform) steps (w1, tr @ [step]) = Some (w', (tr @ [step]) @ steps)" using Cons.IH by blast
  then show ?case using tracing_step [of perform, OF p] by simp
qed simp

text \<open>Every installed signal ends the main loop, the one that is to reload the tables too.\<close>

lemma fold_sig_fatal: "fold sig_fatal (filter handled sigs) d = (if filter handled sigs = [] then d else sig_fatal (last (filter handled sigs)) 0)"
  by (induction sigs rule: rev_induct) (simp_all add: sig_fatal_def)

lemma handled_ends: "handled sig \<Longrightarrow> sig_fatal sig d \<noteq> 0"
  by (auto simp: handled_def sig_fatal_def)

lemma main_loop_ends: "main_loop periods 0 \<noteq> None \<longleftrightarrow> (\<exists>sigs \<in> set periods. \<exists>sig \<in> set sigs. handled sig)"
proof (induction periods)
  case (Cons sigs rest)
  show ?case
  proof (cases "filter handled sigs = []")
    case True
    then show ?thesis using Cons by (auto simp: filter_empty_conv)
  next
    case False
    then have "last (filter handled sigs) \<in> set (filter handled sigs)" by (rule last_in_set)
    then have "handled (last (filter handled sigs))" "\<exists>sig \<in> set sigs. handled sig" by auto
    then show ?thesis using False handled_ends by (simp add: fold_sig_fatal)
  qed
qed simp

text \<open>The module a step starts or releases.\<close>

datatype module = MConf | MLog | MStore | MServer | MScheduler | MCore | MSystem | MCollectors

fun starts :: "main_step \<Rightarrow> module option" where
  "starts ConfInit = Some MConf" | "starts LogInit = Some MLog" | "starts StoreInit = Some MStore" | "starts ServerInit = Some MServer"
| "starts SchedulerInit = Some MScheduler" | "starts CoreInit = Some MCore" | "starts SystemInit = Some MSystem"
| "starts CollectorsInit = Some MCollectors" | "starts _ = None"

fun releases :: "main_step \<Rightarrow> module option" where
  "releases ConfFree = Some MConf" | "releases LogFree = Some MLog" | "releases StoreFree = Some MStore" | "releases ServerFree = Some MServer"
| "releases SchedulerFree = Some MScheduler" | "releases CoreFree = Some MCore" | "releases SystemFree = Some MSystem"
| "releases CollectorsFree = Some MCollectors" | "releases _ = None"

lemma releases_startup: "step \<in> fst ` set startup \<Longrightarrow> releases step = None"
  by (auto simp: startup_def)

lemma map_filter_none: "\<forall>x \<in> set xs. f x = None \<Longrightarrow> List.map_filter f xs = []"
  by (induction xs) (simp_all add: List.map_filter_simps)



section \<open>Plug-ins in the life of the program\<close>

text \<open>The two loaders, and the plug-ins with the record of the calls they get.\<close>

record 'w plugin_world =
  pw_system :: plugins
  pw_collectors :: plugins
  pw_plugins :: "'w \<times> plugin_event list"

text \<open>The steps that concern plug-ins, carried out by the loaders; the others succeed.\<close>

definition plugin_steps ::
  "(string \<Rightarrow> library option) \<Rightarrow> bool option \<Rightarrow> string \<Rightarrow> dirent list option \<Rightarrow> 'w plugin_call \<Rightarrow> 'w plugin_call \<Rightarrow> 'w plugin_world perform" where
  "plugin_steps dlopen dlclose_null dir listing call_load call_unload step pw =
     (case step of
        SystemInit \<Rightarrow> do {
          (r, st, _) \<leftarrow> system_init dlopen dlclose_null dir listing True True (pw_system pw);
          Some (r \<noteq> 0, pw\<lparr>pw_system := st\<rparr>) }
      | CollectorsInit \<Rightarrow> do {
          (r, st, _) \<leftarrow> collectors_init dlopen dlclose_null dir listing True True (pw_collectors pw);
          Some (r \<noteq> 0, pw\<lparr>pw_collectors := st\<rparr>) }
      | SystemLoadAll \<Rightarrow> do {
          (_, st, v) \<leftarrow> system_load_all (recording Loaded call_load) (pw_system pw) (pw_plugins pw);
          Some (True, pw\<lparr>pw_system := st, pw_plugins := v\<rparr>) }
      | CollectorsLoadAll \<Rightarrow> do {
          (_, st, v) \<leftarrow> collectors_load_all (recording Loaded call_load) (pw_collectors pw) (pw_plugins pw);
          Some (True, pw\<lparr>pw_collectors := st, pw_plugins := v\<rparr>) }
      | CollectorsUnloadAll \<Rightarrow> do {
          (_, st, v) \<leftarrow> collectors_unload_all (recording Unloaded call_unload) (pw_collectors pw) (pw_plugins pw);
          Some (True, pw\<lparr>pw_collectors := st, pw_plugins := v\<rparr>) }
      | SystemUnloadAll \<Rightarrow> do {
          (_, st, v) \<leftarrow> system_unload_all (recording Unloaded call_unload) (pw_system pw) (pw_plugins pw);
          Some (True, pw\<lparr>pw_system := st, pw_plugins := v\<rparr>) }
      | CollectorsFree \<Rightarrow> (case collectors_free True (pw_collectors pw) of (_, st, _) \<Rightarrow> Some (True, pw\<lparr>pw_collectors := st\<rparr>))
      | SystemFree \<Rightarrow> (case system_free True (pw_system pw) of (_, st, _) \<Rightarrow> Some (True, pw\<lparr>pw_system := st\<rparr>))
      | _ \<Rightarrow> Some (True, pw))"


lemma plugin_steps_other:
  assumes "step \<notin> {SystemInit, CollectorsInit, SystemLoadAll, CollectorsLoadAll, CollectorsUnloadAll, SystemUnloadAll, CollectorsFree, SystemFree}"
  shows "plugin_steps dlopen dlclose_null dir listing call_load call_unload step pw = Some (True, pw)"
  using assms by (cases step) (simp_all add: plugin_steps_def)

lemma plugin_steps_load:
  assumes "total_call call_load"
  shows "\<exists>cs' w'. plugin_steps dlopen dlclose_null dir listing call_load call_unload SystemLoadAll
           \<lparr>pw_system = \<lparr>pg_api = True, pg_list = ss\<rparr>, pw_collectors = c, pw_plugins = (w, tr)\<rparr> =
           Some (True, \<lparr>pw_system = \<lparr>pg_api = True, pg_list = cs'\<rparr>, pw_collectors = c, pw_plugins = (w', tr @ map (\<lambda>c. Loaded (pl_library c) True) ss)\<rparr>) \<and>
           map pl_library cs' = map pl_library ss"
    and "\<exists>cs' w'. plugin_steps dlopen dlclose_null dir listing call_load call_unload CollectorsLoadAll
           \<lparr>pw_system = s, pw_collectors = \<lparr>pg_api = True, pg_list = cs\<rparr>, pw_plugins = (w, tr)\<rparr> =
           Some (True, \<lparr>pw_system = s, pw_collectors = \<lparr>pg_api = True, pg_list = cs'\<rparr>, pw_plugins = (w', tr @ map (\<lambda>c. Loaded (pl_library c) True) cs)\<rparr>) \<and>
           map pl_library cs' = map pl_library cs"
proof -
  obtain cs' w' where "load_list (recording Loaded call_load) True True ss (w, tr) = Some (cs', w', tr @ map (\<lambda>c. Loaded (pl_library c) True) ss)"
      "map pl_library cs' = map pl_library ss"
    using load_list_calls [OF assms] by blast
  then show "\<exists>cs' w'. plugin_steps dlopen dlclose_null dir listing call_load call_unload SystemLoadAll
           \<lparr>pw_system = \<lparr>pg_api = True, pg_list = ss\<rparr>, pw_collectors = c, pw_plugins = (w, tr)\<rparr> =
           Some (True, \<lparr>pw_system = \<lparr>pg_api = True, pg_list = cs'\<rparr>, pw_collectors = c, pw_plugins = (w', tr @ map (\<lambda>c. Loaded (pl_library c) True) ss)\<rparr>) \<and>
           map pl_library cs' = map pl_library ss"
    by (intro exI [of _ cs'] exI [of _ w']) (simp add: plugin_steps_def system_load_all_def)
next
  obtain cs' w' where "load_list (recording Loaded call_load) False True cs (w, tr) = Some (cs', w', tr @ map (\<lambda>c. Loaded (pl_library c) True) cs)"
      "map pl_library cs' = map pl_library cs"
    using load_list_calls [OF assms] by blast
  then show "\<exists>cs' w'. plugin_steps dlopen dlclose_null dir listing call_load call_unload CollectorsLoadAll
           \<lparr>pw_system = s, pw_collectors = \<lparr>pg_api = True, pg_list = cs\<rparr>, pw_plugins = (w, tr)\<rparr> =
           Some (True, \<lparr>pw_system = s, pw_collectors = \<lparr>pg_api = True, pg_list = cs'\<rparr>, pw_plugins = (w', tr @ map (\<lambda>c. Loaded (pl_library c) True) cs)\<rparr>) \<and>
           map pl_library cs' = map pl_library cs"
    by (intro exI [of _ cs'] exI [of _ w']) (simp add: plugin_steps_def collectors_load_all_def)
qed

lemma plugin_steps_unload:
  assumes "total_call call_unload"
  shows "\<exists>cs' w'. plugin_steps dlopen dlclose_null dir listing call_load call_unload SystemUnloadAll
           \<lparr>pw_system = \<lparr>pg_api = True, pg_list = ss\<rparr>, pw_collectors = c, pw_plugins = (w, tr)\<rparr> =
           Some (True, \<lparr>pw_system = \<lparr>pg_api = True, pg_list = cs'\<rparr>, pw_collectors = c, pw_plugins = (w', tr @ map (\<lambda>c. Unloaded (pl_library c) False) ss)\<rparr>)"
    and "\<exists>cs' w'. plugin_steps dlopen dlclose_null dir listing call_load call_unload CollectorsUnloadAll
           \<lparr>pw_system = s, pw_collectors = \<lparr>pg_api = True, pg_list = cs\<rparr>, pw_plugins = (w, tr)\<rparr> =
           Some (True, \<lparr>pw_system = s, pw_collectors = \<lparr>pg_api = True, pg_list = cs'\<rparr>, pw_plugins = (w', tr @ map (\<lambda>c. Unloaded (pl_library c) False) cs)\<rparr>)"
proof -
  obtain cs' w' where "unload_list (recording Unloaded call_unload) ss (w, tr) = Some (cs', w', tr @ map (\<lambda>c. Unloaded (pl_library c) False) ss)"
    using unload_list_calls [OF assms] by blast
  then show "\<exists>cs' w'. plugin_steps dlopen dlclose_null dir listing call_load call_unload SystemUnloadAll
           \<lparr>pw_system = \<lparr>pg_api = True, pg_list = ss\<rparr>, pw_collectors = c, pw_plugins = (w, tr)\<rparr> =
           Some (True, \<lparr>pw_system = \<lparr>pg_api = True, pg_list = cs'\<rparr>, pw_collectors = c, pw_plugins = (w', tr @ map (\<lambda>c. Unloaded (pl_library c) False) ss)\<rparr>)"
    by (intro exI [of _ cs'] exI [of _ w']) (simp add: plugin_steps_def system_unload_all_def)
next
  obtain cs' w' where "unload_list (recording Unloaded call_unload) cs (w, tr) = Some (cs', w', tr @ map (\<lambda>c. Unloaded (pl_library c) False) cs)"
    using unload_list_calls [OF assms] by blast
  then show "\<exists>cs' w'. plugin_steps dlopen dlclose_null dir listing call_load call_unload CollectorsUnloadAll
           \<lparr>pw_system = s, pw_collectors = \<lparr>pg_api = True, pg_list = cs\<rparr>, pw_plugins = (w, tr)\<rparr> =
           Some (True, \<lparr>pw_system = s, pw_collectors = \<lparr>pg_api = True, pg_list = cs'\<rparr>, pw_plugins = (w', tr @ map (\<lambda>c. Unloaded (pl_library c) False) cs)\<rparr>)"
    by (intro exI [of _ cs'] exI [of _ w']) (simp add: plugin_steps_def collectors_unload_all_def)
qed

lemma map_library: "map pl_library xs = map pl_library ys \<Longrightarrow> map (\<lambda>c. f (pl_library c)) xs = map (\<lambda>c. f (pl_library c)) ys"
  by (drule arg_cong [of _ _ "map f"]) (simp add: comp_def)

definition no_plugins :: "'w \<Rightarrow> 'w plugin_world" where
  "no_plugins w = \<lparr>pw_system = \<lparr>pg_api = False, pg_list = []\<rparr>, pw_collectors = \<lparr>pg_api = False, pg_list = []\<rparr>, pw_plugins = (w, [])\<rparr>"

text \<open>
  C15 (plug-ins in a run). Run the program with the two loaders on a directory as above, on plug-ins that return from their functions,
  until a handled signal arrives: it ends with code 0. Every plug-in found has been called exactly twice, whatever it answered: the
  system modules and then the collectors are loaded with the interface, each group in reverse order of the directory, and the
  collectors and then the system modules are unloaded with a null pointer; nothing stays in the lists.
\<close>

theorem main_plugin_calls:
  assumes "\<forall>dp \<in> set dps. memory_ok dp" and "paths_ok dlopen dlclose_null dir dps"
    and "total_call call_load" and "total_call call_unload" and "\<exists>sigs \<in> set periods. \<exists>sig \<in> set sigs. handled sig"
    and "ss = rev (List.map_filter (\<lambda>dp. found dlopen IPSTAT_PLUGIN_SERVICE (\<lambda>_. False) dir (d_name dp)) dps)"
    and "cs = rev (List.map_filter (\<lambda>dp. found dlopen IPSTAT_PLUGIN_COLLECTOR collector_status dir (d_name dp)) dps)"
  shows "\<exists>w'. main_run (plugin_steps dlopen dlclose_null dir (Some dps) call_load call_unload) periods (no_plugins w) =
           Some (Ended 0 \<lparr>pw_system = \<lparr>pg_api = False, pg_list = []\<rparr>, pw_collectors = \<lparr>pg_api = False, pg_list = []\<rparr>,
             pw_plugins = (w', map (\<lambda>c. Loaded (pl_library c) True) (ss @ cs) @ map (\<lambda>c. Unloaded (pl_library c) False) (cs @ ss))\<rparr>)"
proof -
  let ?p = "plugin_steps dlopen dlclose_null dir (Some dps) call_load call_unload"
  let ?S = "\<lambda>l. \<lparr>pg_api = True, pg_list = l\<rparr>" and ?none = "\<lparr>pg_api = False, pg_list = []\<rparr>"
  note other = plugin_steps_other [of _ dlopen dlclose_null dir "Some dps" call_load call_unload]
  have i1: "?p SystemInit \<lparr>pw_system = ?none, pw_collectors = c, pw_plugins = v\<rparr> = Some (True, \<lparr>pw_system = ?S ss, pw_collectors = c, pw_plugins = v\<rparr>)" for c v
    using scan_dir_finds [OF assms(1,2)] assms(6) by (simp add: plugin_steps_def system_init_def sys_init_def scan_plugins_def)
  have i2: "?p CollectorsInit \<lparr>pw_system = s, pw_collectors = ?none, pw_plugins = v\<rparr> = Some (True, \<lparr>pw_system = s, pw_collectors = ?S cs, pw_plugins = v\<rparr>)" for s v
    using scan_dir_finds [OF assms(1,2)] assms(7) by (simp add: plugin_steps_def collectors_init_def col_init_def scan_plugins_def)
  obtain ss1 w1 where l1: "?p SystemLoadAll \<lparr>pw_system = ?S ss, pw_collectors = ?S cs, pw_plugins = (w, [])\<rparr> =
      Some (True, \<lparr>pw_system = ?S ss1, pw_collectors = ?S cs, pw_plugins = (w1, [] @ map (\<lambda>c. Loaded (pl_library c) True) ss)\<rparr>)"
      "map pl_library ss1 = map pl_library ss"
    using plugin_steps_load(1) [OF assms(3)] by blast
  let ?l = "[] @ map (\<lambda>c. Loaded (pl_library c) True) ss"
  obtain cs1 w2 where l2: "?p CollectorsLoadAll \<lparr>pw_system = ?S ss1, pw_collectors = ?S cs, pw_plugins = (w1, ?l)\<rparr> =
      Some (True, \<lparr>pw_system = ?S ss1, pw_collectors = ?S cs1, pw_plugins = (w2, ?l @ map (\<lambda>c. Loaded (pl_library c) True) cs)\<rparr>)"
      "map pl_library cs1 = map pl_library cs"
    using plugin_steps_load(2) [OF assms(3)] by blast
  let ?ll = "?l @ map (\<lambda>c. Loaded (pl_library c) True) cs"
  obtain cs2 w3 where u1: "?p CollectorsUnloadAll \<lparr>pw_system = ?S ss1, pw_collectors = ?S cs1, pw_plugins = (w2, ?ll)\<rparr> =
      Some (True, \<lparr>pw_system = ?S ss1, pw_collectors = ?S cs2, pw_plugins = (w3, ?ll @ map (\<lambda>c. Unloaded (pl_library c) False) cs1)\<rparr>)"
    using plugin_steps_unload(2) [OF assms(4)] by blast
  let ?u = "?ll @ map (\<lambda>c. Unloaded (pl_library c) False) cs1"
  obtain ss2 w4 where u2: "?p SystemUnloadAll \<lparr>pw_system = ?S ss1, pw_collectors = ?S cs2, pw_plugins = (w3, ?u)\<rparr> =
      Some (True, \<lparr>pw_system = ?S ss2, pw_collectors = ?S cs2, pw_plugins = (w4, ?u @ map (\<lambda>c. Unloaded (pl_library c) False) ss1)\<rparr>)"
    using plugin_steps_unload(1) [OF assms(4)] by blast
  have f: "?p CollectorsFree \<lparr>pw_system = s, pw_collectors = ?S c, pw_plugins = v\<rparr> = Some (True, \<lparr>pw_system = s, pw_collectors = ?none, pw_plugins = v\<rparr>)"
      "?p SystemFree \<lparr>pw_system = ?S c, pw_collectors = s, pw_plugins = v\<rparr> = Some (True, \<lparr>pw_system = ?none, pw_collectors = s, pw_plugins = v\<rparr>)" for s c v
    by (simp_all add: plugin_steps_def collectors_free_def system_free_def col_free_def sys_free_def Let_def)
  have libs: "map (\<lambda>c. Unloaded (pl_library c) False) cs1 = map (\<lambda>c. Unloaded (pl_library c) False) cs"
      "map (\<lambda>c. Unloaded (pl_library c) False) ss1 = map (\<lambda>c. Unloaded (pl_library c) False) ss"
    using map_library [OF l1(2), of "\<lambda>l. Unloaded l False"] map_library [OF l2(2), of "\<lambda>l. Unloaded l False"] by simp_all
  have "run_startup ?p startup (no_plugins w) =
      Some (True, \<lparr>pw_system = ?S ss1, pw_collectors = ?S cs1, pw_plugins = (w2, ?ll)\<rparr>)"
    by (simp add: startup_def no_plugins_def other i1 i2 l1(1) [simplified] l2(1) [simplified])
  moreover have "run_shutdown ?p shutdown \<lparr>pw_system = ?S ss1, pw_collectors = ?S cs1, pw_plugins = (w2, ?ll)\<rparr> =
      Some \<lparr>pw_system = ?none, pw_collectors = ?none, pw_plugins = (w4, ?u @ map (\<lambda>c. Unloaded (pl_library c) False) ss1)\<rparr>"
    by (simp add: shutdown_def other f u1 [simplified] u2 [simplified])
  moreover obtain d where "main_loop periods 0 = Some d" using main_loop_ends [of periods] assms(5) by blast
  ultimately show ?thesis by (intro exI [of _ w4]) (simp add: main_run_def libs)
qed

theorem main_plugin_calls_witness:
  "\<exists>pw. main_run (plugin_steps ex_dlopen None ''lib'' (Some ex_dir) (\<lambda>_ _ w. Some (0, w)) (\<lambda>_ _ w. Some (1, w))) [[], [SIGHUP]] (no_plugins ()) =
     Some (Ended 0 pw) \<and> snd (pw_plugins pw) = [Loaded 1 True, Loaded 2 True, Unloaded 2 False, Unloaded 1 False]"
proof -
  have t: "total_call (\<lambda>_ _ w :: unit. Some (0, w))" "total_call (\<lambda>_ _ w :: unit. Some (1, w))" by (simp_all add: total_call_def)
  have h: "\<exists>sigs \<in> set [[], [SIGHUP]]. \<exists>sig \<in> set sigs. handled sig" by (simp add: handled_def)
  from main_plugin_calls [OF ex_dir_ok t h refl refl, of "()"]
  show ?thesis by (auto simp: ex_found IPSTAT_PLUGIN_SERVICE_def IPSTAT_PLUGIN_COLLECTOR_def)
qed

text \<open>The option that is to make the daemon reload its tables sends the signal that ends it.\<close>

lemma reload_ends: "main_options [(CHR ''r'', [])] = Signal SIGHUP ''/opt/IPStat/run/IPStat.pid''" "main_loop [[SIGHUP]] 0 = Some 2"
  by (simp_all add: main_options_def handled_def sig_fatal_def SIGHUP_def SIGTERM_def SIGQUIT_def SIGINT_def SIGUSR2_def)

text \<open>Without a pid file the signal goes to process 0: the group of the caller.\<close>

lemma stop_without_daemon: "action_to_daemon (\<lambda>_. None) junk SIGTERM pid_file = Some (0, SIGTERM)"
  by (simp add: action_to_daemon_def restore_pid_def)

end
