(* ===== verification/Listeners.thy ===== *)
theory Listeners
  imports Threads Pppd_Collector
begin

text \<open>
  The three threads that accept connections and hand them to a pool of workers: \<^verbatim>\<open>thr_server\<close>
  (\<^verbatim>\<open>src/server.c\<close>), \<^verbatim>\<open>thr_auth_squid\<close> (\<^verbatim>\<open>ipstat_collect_squid/main.c\<close>) and
  \<^verbatim>\<open>thr_pppd\<close> (\<^verbatim>\<open>ipstat_collect_pppd/main.c\<close>), with \<^verbatim>\<open>IPStat_pool_free\<close>
  (\<^verbatim>\<open>src/threads.c\<close>) and the loading of the pppd collector.

  The system calls that prepare the socket are arguments. What then happens is a list of events: a connection with the structure
  allocated for it (0: no memory), an error of \<^verbatim>\<open>accept\<close>, a step of a worker of the pool, or that another thread sets
  \<^verbatim>\<open>do_exit\<close>. The loops differ in what they do on an error and without memory, and in whether they look at
  \<^verbatim>\<open>do_exit\<close>. The state of a loop is the pool, the requests it has accepted and the requests taken by workers.

  The lemmas show that every event list is a run of the pool, so that its theorems apply, and when a listener ends.
\<close>

section \<open>Releasing a pool\<close>

text \<open>The threads are detached: joining one is undefined.\<close>

definition IPStat_pool_free :: "THREAD_POOL \<Rightarrow> unit option" where
  "IPStat_pool_free pool = (if tp_handles (pool\<lparr>tp_handles := map cancel (tp_handles pool)\<rparr>) = [] then Some () else None)"

section \<open>The accept loops\<close>

text \<open>The allocation of a larger queue, the creation of a thread and the time come with a connection.\<close>

datatype accept_event =
  Connect request bool bool time_t
| AcceptError bool
| Worker nat
| SetExit

datatype listener_action = Retest | Again | ExitProcess | Fault

datatype listener_end = Waiting | Ended | ProcessExit

record listener =
  on_error :: "bool \<Rightarrow> listener_action"
  on_null :: listener_action
  tests_exit :: bool

type_synonym listener_state = "THREAD_POOL \<times> request list \<times> request list"

text \<open>The loop while it waits in \<^verbatim>\<open>accept\<close>; the flag is the current value of \<^verbatim>\<open>do_exit\<close>.\<close>

fun accept_loop :: "listener \<Rightarrow> bool \<Rightarrow> accept_event list \<Rightarrow> listener_state \<Rightarrow> (listener_end \<times> listener_state) option" where
  "accept_loop l do_exit [] s = Some (Waiting, s)"
| "accept_loop l do_exit (SetExit # es) s = accept_loop l True es s"
| "accept_loop l do_exit (Worker i # es) (pool, acc, tak) =
     (if i < length (tp_handles pool)
      then case IPStat_request_handler i (tp_handles pool ! i) pool of (pool', taken) \<Rightarrow> accept_loop l do_exit es (pool', acc, tak @ taken)
      else accept_loop l do_exit es (pool, acc, tak))"
| "accept_loop l do_exit (AcceptError interrupted # es) s =
     (case on_error l interrupted of
        Again \<Rightarrow> accept_loop l do_exit es s
      | Retest \<Rightarrow> if tests_exit l \<and> do_exit then Some (Ended, s) else accept_loop l do_exit es s
      | ExitProcess \<Rightarrow> Some (ProcessExit, s)
      | Fault \<Rightarrow> None)"
| "accept_loop l do_exit (Connect cli mem tc now # es) (pool, acc, tak) =
     (if cli = 0 then (if on_null l = ExitProcess then Some (ProcessExit, pool, acc, tak) else None)
      else do {
        (stored, pool') \<leftarrow> IPStat_pool_addrequest mem tc now cli pool;
        let s' = (pool', if stored then acc @ [cli] else acc, tak);
        if tests_exit l \<and> do_exit then Some (Ended, s') else accept_loop l do_exit es s'
      })"

text \<open>\<^verbatim>\<open>while (do_exit == 0)\<close> before the first turn.\<close>

definition listen_loop :: "listener \<Rightarrow> bool \<Rightarrow> accept_event list \<Rightarrow> THREAD_POOL \<Rightarrow> (listener_end \<times> listener_state) option" where
  "listen_loop l do_exit es pool =
     (if tests_exit l \<and> do_exit then Some (Ended, pool, [], []) else accept_loop l do_exit es (pool, [], []))"

text \<open>
  The squid listener goes on after any error; the pppd listener waits again without looking at \<^verbatim>\<open>do_exit\<close> unless it was
  interrupted; both clear the structure before they check that it was allocated. The server ends the program.
\<close>

definition squid_listener :: listener where
  "squid_listener = \<lparr>on_error = (\<lambda>_. Retest), on_null = Fault, tests_exit = True\<rparr>"

definition pppd_listener :: listener where
  "pppd_listener = \<lparr>on_error = (\<lambda>interrupted. if interrupted then Retest else Again), on_null = Fault, tests_exit = True\<rparr>"

definition server_listener :: listener where
  "server_listener = \<lparr>on_error = (\<lambda>_. ExitProcess), on_null = ExitProcess, tests_exit = False\<rparr>"

section \<open>The threads\<close>

text \<open>The results of \<^verbatim>\<open>IPStat_pool_init\<close>'s allocations and of the system calls in their order.\<close>

record socket_env =
  pool_mem :: "bool \<times> bool \<times> bool"
  pool_sem :: bool
  pool_thread :: bool
  pool_now :: time_t
  socket_ok :: bool
  bind_ok :: bool
  chmod_ok :: bool
  listen_ok :: bool

definition listener_pool :: "int \<Rightarrow> int \<Rightarrow> INIT_POOL" where
  "listener_pool threads max_servers =
     \<lparr>ip_start_threads = threads, ip_max_threads = max_servers, ip_min_spare_threads = 3, ip_max_spare_threads = 5,
      ip_max_requests_per_thread = 0, ip_cleanup_delay = 30\<rparr>"

text \<open>The end of the thread, with the state of the pool when there is one.\<close>

definition thr_auth_squid :: "socket_env \<Rightarrow> int \<Rightarrow> bool \<Rightarrow> accept_event list \<Rightarrow> (listener_end \<times> listener_state option) option" where
  "thr_auth_squid env max_servers do_exit es = do {
     p \<leftarrow> IPStat_pool_init (pool_mem env) (pool_sem env) (pool_thread env) (pool_now env) (Some (listener_pool 2 max_servers));
     case p of
       None \<Rightarrow> Some (Ended, None)
     | Some pool \<Rightarrow>
         if \<not> socket_ok env \<or> \<not> bind_ok env \<or> \<not> chmod_ok env \<or> \<not> listen_ok env then Some (Ended, Some (pool, [], []))
         else do { (e, s) \<leftarrow> listen_loop squid_listener do_exit es pool; Some (e, Some s) }
   }"

text \<open>Without a colon in the configuration the socket is local; on the network a failing \<^verbatim>\<open>bind\<close> ends the program.\<close>

definition thr_pppd :: "socket_env \<Rightarrow> int \<Rightarrow> string \<Rightarrow> bool \<Rightarrow> accept_event list \<Rightarrow> (listener_end \<times> listener_state option) option" where
  "thr_pppd env max_servers pppd_connect do_exit es = do {
     p \<leftarrow> IPStat_pool_init (pool_mem env) (pool_sem env) (pool_thread env) (pool_now env) (Some (listener_pool 2 max_servers));
     case p of
       None \<Rightarrow> Some (Ended, None)
     | Some pool \<Rightarrow> do {
         (path, host, port) \<leftarrow> parse_socket pppd_connect;
         if path \<noteq> [] then
           (if \<not> socket_ok env \<or> \<not> bind_ok env \<or> \<not> chmod_ok env \<or> \<not> listen_ok env then Some (Ended, Some (pool, [], []))
            else do { (e, s) \<leftarrow> listen_loop pppd_listener do_exit es pool; Some (e, Some s) })
         else if \<not> socket_ok env then Some (Ended, Some (pool, [], []))
         else if \<not> bind_ok env then Some (ProcessExit, Some (pool, [], []))
         else if \<not> listen_ok env then Some (Ended, Some (pool, [], []))
         else do { (e, s) \<leftarrow> listen_loop pppd_listener do_exit es pool; Some (e, Some s) }
       }
   }"

text \<open>The only way to the label \<^verbatim>\<open>l_end\<close> is a failing \<^verbatim>\<open>socket\<close>.\<close>

definition thr_server :: "socket_env \<Rightarrow> int \<Rightarrow> accept_event list \<Rightarrow> (listener_end \<times> listener_state option) option" where
  "thr_server env max_clients es = do {
     p \<leftarrow> IPStat_pool_init (pool_mem env) (pool_sem env) (pool_thread env) (pool_now env) (Some (listener_pool 1 max_clients));
     case p of
       None \<Rightarrow> Some (Ended, None)
     | Some pool \<Rightarrow>
         if \<not> socket_ok env then do { _ \<leftarrow> IPStat_pool_free pool; Some (Ended, None) }
         else if \<not> bind_ok env \<or> \<not> listen_ok env then Some (ProcessExit, Some (pool, [], []))
         else do { (e, s) \<leftarrow> listen_loop server_listener False es pool; Some (e, Some s) }
   }"

section \<open>Loading the pppd collector\<close>

text \<open>The static pointer to the interface (only whether it is set), \<^verbatim>\<open>do_exit\<close>, and whether the thread has been created.\<close>

record pppd_module =
  pm_api :: bool
  pm_exit :: bool
  pm_thread :: bool

definition load_pppd :: "bool \<Rightarrow> bool \<Rightarrow> bool \<Rightarrow> bool \<Rightarrow> pppd_module \<Rightarrow> (gboolean \<times> pppd_module) option" where
  "load_pppd data attr_ok stack_ok thread_ok st =
     (if \<not> data then None
      else let st1 = st\<lparr>pm_api := True\<rparr>
           in if \<not> attr_ok \<or> \<not> stack_ok then Some (0, st1)
              else if \<not> thread_ok then Some (0, st1\<lparr>pm_exit := False\<rparr>)
              else Some (1, st1\<lparr>pm_exit := False, pm_thread := True\<rparr>))"

text \<open>Cancelling and joining a thread that was never created is undefined.\<close>

definition unload_pppd :: "pppd_module \<Rightarrow> (gboolean \<times> pppd_module) option" where
  "unload_pppd st = (if \<not> pm_api st \<or> \<not> pm_thread st then None else Some (1, st\<lparr>pm_exit := True, pm_thread := False\<rparr>))"

text \<open>The loader unloads every collector when the program ends, also those whose loading failed.\<close>

lemma failed_pppd_unloads:
  "load_pppd True attr_ok stack_ok False \<lparr>pm_api = False, pm_exit = False, pm_thread = False\<rparr> = Some (r, st) \<Longrightarrow> unload_pppd st = None"
  by (auto simp: load_pppd_def unload_pppd_def Let_def split: if_splits)

section \<open>Every listener runs its pool\<close>

lemma accept_loop_runs:
  assumes "accept_loop l do_exit es (pool, acc, tak) = Some (e, pool', acc', tak')" and "pool_run pool0 pool acc tak"
  shows "pool_run pool0 pool' acc' tak'"
  using assms
proof (induction l do_exit es "(pool, acc, tak)" arbitrary: pool acc tak rule: accept_loop.induct)
  case (3 l do_exit i es pool acc tak)
  then show ?case by (auto split: if_splits prod.splits intro: pool_run.work)
next
  case (4 l do_exit interrupted es pool acc tak)
  then show ?case by (auto split: listener_action.splits if_splits)
next
  case (5 l do_exit cli mem tc now es pool acc tak)
  show ?case
  proof (cases "cli = 0")
    case False
    then obtain stored p1 where a: "IPStat_pool_addrequest mem tc now cli pool = Some (stored, p1)"
        "(if tests_exit l \<and> do_exit then Some (Ended, p1, if stored then acc @ [cli] else acc, tak)
          else accept_loop l do_exit es (p1, if stored then acc @ [cli] else acc, tak)) = Some (e, pool', acc', tak')"
      using "5.prems"(1) by (auto simp: bind_eq_Some_conv Let_def)
    have run: "pool_run pool0 p1 (if stored then acc @ [cli] else acc) tak"
      by (rule pool_run.add [OF "5.prems"(2) _ a(1)]) (use False in simp)
    show ?thesis
    proof (cases "tests_exit l \<and> do_exit")
      case True
      then show ?thesis using a(2) run by auto
    next
      case stay: False
      show ?thesis
        by (rule "5.hyps" [OF False a(1) refl refl stay _ run]) (use a(2) stay in simp)
    qed
  qed (use "5.prems" in \<open>auto split: if_splits\<close>)
qed auto

text \<open>A loop that has seen \<^verbatim>\<open>do_exit\<close> set serves at most one more connection.\<close>

lemma accept_loop_exit:
  assumes "tests_exit l" and "accept_loop l True es (pool, acc, tak) = Some (e, pool', acc', tak')"
  shows "\<exists>cs. acc' = acc @ cs \<and> length cs \<le> 1"
  using assms(2)
proof (induction es arbitrary: pool acc tak)
  case (Cons ev es)
  then show ?case
    using assms(1)
    by (cases ev) (auto simp: Let_def bind_eq_Some_conv split: if_splits prod.splits listener_action.splits)
qed simp

lemma listen_loop_runs: "listen_loop l d es p0 = Some (e, pool, acc, tak) \<Longrightarrow> pool_run p0 pool acc tak"
  using accept_loop_runs [OF _ pool_run.start] by (auto simp: listen_loop_def intro: pool_run.start split: if_splits)

lemma threads_run:
  "thr_auth_squid env n do_exit es = Some (e, Some (pool, acc, tak)) \<Longrightarrow>
     \<exists>k p0. IPStat_pool_init (pool_mem env) (pool_sem env) (pool_thread env) (pool_now env) (Some (listener_pool k n)) = Some (Some p0) \<and>
       pool_run p0 pool acc tak"
  "thr_pppd env n conf do_exit es = Some (e, Some (pool, acc, tak)) \<Longrightarrow>
     \<exists>k p0. IPStat_pool_init (pool_mem env) (pool_sem env) (pool_thread env) (pool_now env) (Some (listener_pool k n)) = Some (Some p0) \<and>
       pool_run p0 pool acc tak"
  "thr_server env n es = Some (e, Some (pool, acc, tak)) \<Longrightarrow>
     \<exists>k p0. IPStat_pool_init (pool_mem env) (pool_sem env) (pool_thread env) (pool_now env) (Some (listener_pool k n)) = Some (Some p0) \<and>
       pool_run p0 pool acc tak"
  unfolding thr_auth_squid_def thr_pppd_def thr_server_def
  by (force intro: pool_run.start dest: listen_loop_runs split: Option.bind_splits option.splits if_splits)+


text \<open>A console server that gets one connection before \<^verbatim>\<open>accept\<close> fails.\<close>

definition ex_env :: socket_env where
  "ex_env = \<lparr>pool_mem = (True, True, True), pool_sem = True, pool_thread = True, pool_now = 0, socket_ok = True, bind_ok = True,
     chmod_ok = True, listen_ok = True\<rparr>"

definition server_pool :: THREAD_POOL where
  "server_pool = the (the (IPStat_pool_init (True, True, True) True True 0 (Some (listener_pool 1 10))))"

lemma server_pool_init: "IPStat_pool_init (True, True, True) True True 0 (Some (listener_pool 1 10)) = Some (Some server_pool)"
  unfolding server_pool_def by (simp add: IPStat_pool_init_def Let_def IPStat_spawn_thread_def listener_pool_def)

lemma server_pool_add: "\<exists>p. IPStat_pool_addrequest True True 0 7 server_pool = Some (True, p)"
proof -
  have p: "pool_inv server_pool" "contents server_pool = []" using pool_init_inv [OF server_pool_init] by auto
  have "active_threads server_pool = 0" "total_threads server_pool = 1" "queue_size server_pool = 256"
    unfolding server_pool_def by (simp_all add: IPStat_pool_init_def Let_def IPStat_spawn_thread_def listener_pool_def)
  moreover have "num_entries server_pool = 0" using p(2) by (metis length_contents list.size(3))
  ultimately show ?thesis
    using enqueue_stores [of server_pool True 7] p(1) by (auto simp: IPStat_pool_addrequest_def pool_inv_def Let_def)
qed


text \<open>When the socket cannot be created, the console server joins the detached threads of its pool.\<close>

lemma thr_server_no_socket: "thr_server (ex_env\<lparr>socket_ok := False\<rparr>) 10 es = None"
proof -
  have "tp_handles server_pool \<noteq> []"
    unfolding server_pool_def by (simp add: IPStat_pool_init_def Let_def IPStat_spawn_thread_def listener_pool_def)
  then show ?thesis by (simp add: thr_server_def ex_env_def server_pool_init IPStat_pool_free_def)
qed

text \<open>
  The pppd listener that meets a persistent error of \<^verbatim>\<open>accept\<close> does not see that it is to stop; the squid listener does.
\<close>

lemma pppd_ignores_exit: "accept_loop pppd_listener True (replicate n (AcceptError False)) s = Some (Waiting, s)"
  by (induction n) (simp_all add: pppd_listener_def)

lemma squid_sees_exit: "accept_loop squid_listener True (AcceptError False # es) s = Some (Ended, s)"
  by (simp add: squid_listener_def)

end
