(* ===== verification/Squid_Helper.thy ===== *)
theory Squid_Helper
  imports Squid_Collector
begin

text \<open>
  The program the proxy starts to ask about its requests (\<^verbatim>\<open>redirector/main.c\<close>): it copies each line of its
  standard input to the socket of the squid collector and one line of the answer to its standard output. \<open>serve\<close> stands for the
  other end of the socket and returns what a connection yields; \<open>None\<close> is undefined behaviour of the daemon.

  The lemmas join it with the redirector thread of the theory \<open>Squid_Collector\<close>: what the proxy reads for its requests is the decision
  of rules and policies, as long as the daemon answers.
\<close>

section \<open>Reading lines\<close>

abbreviation LF :: char where "LF \<equiv> CHR 0x0A"

text \<open>\<^verbatim>\<open>fgets\<close> with a buffer of \<open>n\<close> bytes on the rest of a stream; nothing at its end.\<close>

definition fgets :: "nat \<Rightarrow> string \<Rightarrow> string \<times> string" where
  "fgets n s =
     (let body = takeWhile (\<lambda>c. c \<noteq> LF) s;
          line = take (n - 1) (if length body < length s then body @ [LF] else body)
      in (line, drop (length line) s))"

definition MAX_LEN_BUFFER :: nat where "MAX_LEN_BUFFER = 2048"

lemma fgets_rest: "s \<noteq> [] \<Longrightarrow> length (snd (fgets MAX_LEN_BUFFER s)) < length s"
  by (cases s) (auto simp: fgets_def MAX_LEN_BUFFER_def Let_def)

lemma fgets_whole_line:
  assumes "LF \<notin> set body" and "Suc (length body) < n"
  shows "fgets n (body @ [LF] @ rest) = (body @ [LF], rest)"
proof -
  have "takeWhile (\<lambda>c. c \<noteq> LF) (body @ LF # rest) = body"
    using assms(1) by (subst takeWhile_append2) auto
  then show ?thesis using assms(2) by (simp add: fgets_def Let_def)
qed

section \<open>The socket\<close>

text \<open>The name of the socket goes into an uninitialised structure, 50 characters at most.\<close>

definition open_squid_socket :: "string \<Rightarrow> string \<Rightarrow> string" where
  "open_squid_socket path junk = cstr (strncpy junk path 50)"

lemma open_squid_socket_short: "length (cstr path) < 50 \<Longrightarrow> length junk = 108 \<Longrightarrow> open_squid_socket path junk = cstr path"
  using cstr_strncpy [of path 50 junk] by (simp add: open_squid_socket_def)

section \<open>The loop\<close>

text \<open>A connection cannot be made, is closed without an answer, or yields an answer.\<close>

datatype connection = NoSocket | NoAnswer | Answer string

text \<open>
  What is printed for the line in the buffer; without an answer the buffer still holds the request. \<open>None\<close>: the program ends.
\<close>

definition helper_print :: "string \<Rightarrow> connection \<Rightarrow> string option" where
  "helper_print buffer c =
     (case c of
        NoSocket \<Rightarrow> None
      | NoAnswer \<Rightarrow> Some (cstr buffer)
      | Answer t \<Rightarrow> (case fgets (MAX_LEN_BUFFER - 1) t of (line, _) \<Rightarrow> Some (if line = [] then cstr buffer else cstr line)))"

text \<open>The variable \<^verbatim>\<open>do_exit\<close> is never set: the loop ends with the input or without a connection.\<close>

function redirect_loop :: "(string \<Rightarrow> 'w \<Rightarrow> (connection \<times> 'w) option) \<Rightarrow> string \<Rightarrow> 'w \<Rightarrow> (string list \<times> 'w) option" where
  "redirect_loop serve s w =
     (if s = [] then Some ([], w)
      else do {
        let (buffer, rest) = fgets MAX_LEN_BUFFER s;
        (c, w1) \<leftarrow> serve (cstr buffer) w;
        case helper_print buffer c of
          None \<Rightarrow> Some ([], w1)
        | Some out \<Rightarrow> do { (outs, w2) \<leftarrow> redirect_loop serve rest w1; Some (out # outs, w2) }
      })"
  by pat_completeness auto

termination
  by (relation "measure (\<lambda>(_, s, _). length s)") (auto, metis fgets_rest snd_conv)

declare redirect_loop.simps [simp del]

text \<open>The exit code and the lines printed.\<close>

definition redirector_main ::
  "bool \<Rightarrow> bool \<Rightarrow> (string \<Rightarrow> 'w \<Rightarrow> (connection \<times> 'w) option) \<Rightarrow> string \<Rightarrow> 'w \<Rightarrow> (int \<times> string list \<times> 'w) option" where
  "redirector_main conf_ok mem serve stdin w =
     (if \<not> conf_ok \<or> \<not> mem then Some (1, [], w)
      else do { (outs, w1) \<leftarrow> redirect_loop serve stdin w; Some (1, outs, w1) })"

text \<open>When the daemon does not answer, every request is printed as it came: the proxy takes that for permission.\<close>

lemma redirect_fails_open:
  assumes "LF \<notin> set body" and "NUL \<notin> set body" and "length body < 2000" and "serve (body @ [LF]) w = Some (NoAnswer, w1)"
  shows "redirect_loop serve (body @ [LF]) w = Some ([body @ [LF]], w1)"
proof -
  have c: "cstr (body @ [LF]) = body @ [LF]" by (rule cstr_ident) (use assms(2) in \<open>simp add: NUL_def\<close>)
  have "fgets MAX_LEN_BUFFER (body @ [LF]) = (body @ [LF], [])"
    using fgets_whole_line [OF assms(1), of MAX_LEN_BUFFER "[]"] assms(3) by (simp add: MAX_LEN_BUFFER_def)
  then show ?thesis using assms(4) c by (simp add: redirect_loop.simps [of serve] helper_print_def)
qed

section \<open>Together with the daemon\<close>

text \<open>A request that arrives in one piece at the redirector thread, whose calls succeed.\<close>

definition daemon_serve ::
  "'w hook_call \<Rightarrow> regex_lib \<Rightarrow> string \<Rightarrow> SQUID_INFO \<Rightarrow> SQUID_DATA_INFO \<Rightarrow> string \<Rightarrow> 'w squid_collector \<Rightarrow> (connection \<times> 'w squid_collector) option" where
  "daemon_serve call re deny_url info data msg st =
     (case thr_squid_clientredirector call re deny_url
             \<lparr>rq_buffer_ok = True, rq_recv = Some msg, rq_shutdown_ok = True, rq_dup_ok = True, rq_host_ok = True, rq_send_ok = True\<rparr> info data st of
        None \<Rightarrow> None
      | Some (_, out, st') \<Rightarrow> Some (if out = [] then NoAnswer else Answer (concat out), st'))"

definition request_line :: "string \<Rightarrow> bool" where
  "request_line line \<longleftrightarrow>
     (\<exists>body. line = body @ [LF] \<and> LF \<notin> set body \<and> NUL \<notin> set body \<and> length body < 2000) \<and> 2 \<le> length (tokens '' '' line)"

definition line_permitted :: "regex_lib \<Rightarrow> url_policy \<Rightarrow> NODE_USER list \<Rightarrow> string \<Rightarrow> bool" where
  "line_permitted re up us line =
     squid_permitted re up us (snd (hostbyip True (takeWhile (\<lambda>c. c \<noteq> CHR ''/'') (tokens '' '' line ! 1)) 0)) (tokens '' '' line ! 0)"

lemma two_tokens: "2 \<le> length ts \<Longrightarrow> ts = ts ! 0 # ts ! 1 # drop 2 ts"
  by (cases ts; cases "tl ts") (auto simp: numeral_2_eq_2)

lemma helper_line:
  assumes core: "st_users (sc_core st) = Some us" "extern_auth (sc_core st) = []" "extern_autz (sc_core st) = []" "hooks_keep call"
    and pats: "patterns_compiled (sc_url st)" and line: "request_line line"
    and deny: "LF \<notin> set deny_url" "NUL \<notin> set deny_url" "length deny_url < 2000"
  shows "\<exists>st'. daemon_serve call re deny_url info data line st =
             Some (Answer (if line_permitted re (sc_url st) us line then line else deny_url @ [LF]), st') \<and>
           total_auth_query st' = total_auth_query st + 1 \<and> sc_core st' = sc_core st \<and> sc_url st' = sc_url st"
proof -
  obtain body where b: "line = body @ [LF]" "LF \<notin> set body" "NUL \<notin> set body" "length body < 2000"
    using line by (auto simp: request_line_def)
  have c: "cstr line = line" "cstr deny_url = deny_url" using b(1,3) deny(2) by (auto intro!: cstr_ident simp: NUL_def)
  have l: "length (cstr line) < 2048" using b(1,4) c by simp
  have t: "tokens '' '' (cstr line) = tokens '' '' line ! 0 # tokens '' '' line ! 1 # drop 2 (tokens '' '' line)"
    using two_tokens [of "tokens '' '' line"] line c by (simp add: request_line_def)
  obtain st' passed where r: "thr_squid_clientredirector call re deny_url
       \<lparr>rq_buffer_ok = True, rq_recv = Some line, rq_shutdown_ok = True, rq_dup_ok = True, rq_host_ok = True, rq_send_ok = True\<rparr> info data st =
       Some (1, [if passed then cstr line else cstr deny_url @ [CHR 0x0A]], st')"
      "passed = line_permitted re (sc_url st) us line" "total_auth_query st' = total_auth_query st + 1" "sc_core st' = sc_core st" "sc_url st' = sc_url st"
    using redirector_decides [OF core(1,2,4) pats l t, of re deny_url info data] core(3) by (auto simp: line_permitted_def Let_def)
  have "(if passed then line else deny_url @ [LF]) \<noteq> []" using b(1) by simp
  then show ?thesis using r c by (simp add: daemon_serve_def)
qed

lemma helper_print_line:
  assumes "LF \<notin> set body" and "NUL \<notin> set body" and "length body < 2000"
  shows "helper_print buffer (Answer (body @ [LF])) = Some (body @ [LF])"
proof -
  have "cstr (body @ [LF]) = body @ [LF]" by (rule cstr_ident) (use assms(2) in \<open>simp add: NUL_def\<close>)
  moreover have "fgets (MAX_LEN_BUFFER - 1) (body @ [LF]) = (body @ [LF], [])"
    using fgets_whole_line [OF assms(1), of "MAX_LEN_BUFFER - 1" "[]"] assms(3) by (simp add: MAX_LEN_BUFFER_def)
  ultimately show ?thesis by (simp add: helper_print_def)
qed



end
