(* ===== verification/Inventory.thy ===== *)
theory Inventory
  imports Conf Store_Plugin System_Plugin Daemon
begin

text \<open>
  The inventory of the program: the tables of configuration variables of its modules (the arrays \<^verbatim>\<open>module_config\<close>), with
  the sizes of the character arrays behind them, and what the functions \<^verbatim>\<open>info\<close> of the nine plug-ins return. Every module
  reads the one configuration file with its own table into its own static variables, here numbered from 0 in each table; the list
  of sizes gives the declared length of each array (0 for a number).

  The lemmas show which strings the configuration can leave without a terminator, which keys collide, and that the loaders sort
  the installed plug-ins as intended.
\<close>

section \<open>Tables of variables\<close>

definition str_var :: "string \<Rightarrow> nat \<Rightarrow> addr \<Rightarrow> string \<Rightarrow> CONF_PARSER" where
  "str_var name sz vol def = \<lparr>cp_name = name, cp_type = CF_TYPE_STRING, cp_size = sz, cp_vol = vol, cp_defvol = def\<rparr>"

definition int_var :: "string \<Rightarrow> addr \<Rightarrow> string \<Rightarrow> CONF_PARSER" where
  "int_var name vol def = \<lparr>cp_name = name, cp_type = CF_TYPE_INT, cp_size = 0, cp_vol = vol, cp_defvol = def\<rparr>"

definition log_variables :: "CONF_PARSER list" where
  "log_variables = [str_var ''log_file'' FILENAME_MAX 0 ''/opt/IPStat/log/IPStat.log'']"

text \<open>The start of the log reads the name of its file; it returns whether there is an interface.\<close>

definition log_init :: "bool \<Rightarrow> (string \<Rightarrow> string option) \<Rightarrow> CONF_API option \<Rightarrow> cf_memory \<Rightarrow> bool \<times> cf_memory" where
  "log_init mem files conf m =
     (if \<not> mem then (False, m)
      else (True, case conf of None \<Rightarrow> m | Some _ \<Rightarrow> snd (conf_parse files conf log_variables m)))"

definition log_free :: gboolean where "log_free = 1"

definition server_variables :: "CONF_PARSER list" where
  "server_variables = [str_var ''term_port'' 10 0 ''556'', int_var ''max_console_clients'' 1 ''5'', int_var ''debug_console'' 2 ''0'']"

definition store_variables :: "CONF_PARSER list" where
  "store_variables = [str_var ''store_plugin'' FILENAME_MAX 0 ''/opt/IPStat/lib/libipstat_mysql.so'', str_var ''name_server'' 200 1 ''127.0.0.1'',
     str_var ''name_user'' 200 2 ''root'', str_var ''password'' 200 3 [], str_var ''db_name'' 200 4 ''IPStat'']"

definition core_variables :: "CONF_PARSER list" where
  "core_variables = [int_var ''core_sync_timeout'' 0 ''1'']"

definition collectors_variables :: "CONF_PARSER list" where
  "collectors_variables = [str_var ''plugin_dir'' FILENAME_MAX 0 ''/opt/IPStat/lib'']"

definition system_variables :: "CONF_PARSER list" where
  "system_variables = [str_var ''plugin_dir'' FILENAME_MAX 0 ''/opt/IPStat/lib'']"

definition ip_variables :: "CONF_PARSER list" where
  "ip_variables = [int_var ''ip_aggregation_timeout'' 0 ''1'']"

definition time_variables :: "CONF_PARSER list" where
  "time_variables = [int_var ''time_aggregation_timeout'' 0 ''1'', int_var ''time_group_timeout'' 1 ''30'']"

definition squid_variables :: "CONF_PARSER list" where
  "squid_variables = [int_var ''squid_aggregation_timeout'' 0 ''1'']"

definition url_policy_variables :: "CONF_PARSER list" where
  "url_policy_variables = [int_var ''sync_url_policy_timeout'' 0 ''1'']"

definition netfilter_variables :: "CONF_PARSER list" where
  "netfilter_variables = [int_var ''collect_netfilter_size_buffer'' 0 ''2024'']"

definition pcap_variables :: "CONF_PARSER list" where
  "pcap_variables = [int_var ''collect_pcap_size_buffer'' 0 ''2024'', str_var ''collect_pcap_lookup_dev'' 19 1 ''eth0'']"

definition pppd_variables :: "CONF_PARSER list" where
  "pppd_variables = [str_var ''collect_pppd_socket'' (FILENAME_MAX - 1) 0 ''/opt/IPStat/tmp/ipstat_pppd.socket'', int_var ''collect_pppd_max_servers'' 1 ''10'']"

definition squid_collector_variables :: "CONF_PARSER list" where
  "squid_collector_variables = [str_var ''collect_squid_socket'' FILENAME_MAX 0 ''/opt/IPStat/tmp/ipstat_squid.socket'',
     str_var ''collect_squid_copy'' FILENAME_MAX 1 [], int_var ''collect_squid_max_servers'' 2 ''10'',
     str_var ''collect_squid_redirect_socket'' FILENAME_MAX 3 ''/opt/IPStat/tmp/ipstat_redirect.socket'',
     str_var ''collect_squid_deny_url'' 200 4 ''http://localhost/warning/'']"

definition system_plugin_variables :: "CONF_PARSER list" where
  "system_plugin_variables = [int_var ''secondary_daemon'' 0 ''0'']"

definition time_policy_variables :: "CONF_PARSER list" where
  "time_policy_variables = [int_var ''sync_time_policy_timeout'' 0 ''1'']"

definition group_limit_variables :: "CONF_PARSER list" where
  "group_limit_variables = [int_var ''sync_group_limit_timeout'' 0 ''1'', int_var ''secondary_daemon'' 1 ''0'']"

definition users_group_limit_variables :: "CONF_PARSER list" where
  "users_group_limit_variables = [int_var ''sync_group_limit_timeout'' 0 ''1'', int_var ''secondary_daemon'' 1 ''0'']"

definition redirector_variables :: "CONF_PARSER list" where
  "redirector_variables = [str_var ''collect_squid_redirect_socket'' (FILENAME_MAX - 1) 0 ''/opt/IPStat/tmp/ipstat_redirect.socket'']"

lemmas variables_defs = main_variables_def log_variables_def server_variables_def store_variables_def core_variables_def collectors_variables_def
  system_variables_def ip_variables_def time_variables_def squid_variables_def url_policy_variables_def netfilter_variables_def pcap_variables_def
  pppd_variables_def squid_collector_variables_def system_plugin_variables_def time_policy_variables_def group_limit_variables_def
  users_group_limit_variables_def redirector_variables_def

text \<open>Each table with the lengths of the arrays.\<close>

definition tables :: "(CONF_PARSER list \<times> nat list) list" where
  "tables =
     [(main_variables, [0]), (log_variables, [FILENAME_MAX]), (server_variables, [10, 0, 0]), (store_variables, [FILENAME_MAX, 200, 200, 200, 200]),
      (core_variables, [0]), (collectors_variables, [FILENAME_MAX]), (system_variables, [FILENAME_MAX]), (ip_variables, [0]),
      (time_variables, [0, 0]), (squid_variables, [0]), (url_policy_variables, [0]), (netfilter_variables, [0]), (pcap_variables, [0, 20]),
      (pppd_variables, [FILENAME_MAX, 0]), (squid_collector_variables, [FILENAME_MAX, FILENAME_MAX, 0, FILENAME_MAX, 201]),
      (system_plugin_variables, [0]), (time_policy_variables, [0]), (group_limit_variables, [0, 0]), (users_group_limit_variables, [0, 0]),
      (redirector_variables, [FILENAME_MAX])]"

definition room_of :: "nat list \<Rightarrow> addr \<Rightarrow> nat" where
  "room_of sizes a = (if a < length sizes then sizes ! a else 0)"

text \<open>Static variables before the configuration is read.\<close>

definition static_memory :: "CONF_PARSER list \<Rightarrow> (addr \<Rightarrow> nat) \<Rightarrow> cf_memory" where
  "static_memory vs room a =
     (if (\<exists>v \<in> set vs. cp_vol v = a \<and> cp_type v = CF_TYPE_STRING) then VString (replicate (room a) NUL) else VInt 0)"

section \<open>Terminators\<close>

text \<open>The strings whose declared size is the whole array and shorter than a line of the file.\<close>

definition UNTERMINATED :: "string list" where
  "UNTERMINATED = [''term_port'', ''name_server'', ''name_user'', ''password'', ''db_name'']"

text \<open>An array whose last byte is out of reach of \<^verbatim>\<open>strncpy\<close>, or that is longer than any line.\<close>

definition safe_array :: "nat \<Rightarrow> CONF_PARSER \<Rightarrow> bool" where
  "safe_array len v \<longleftrightarrow> cp_size v < len \<or> 1024 \<le> cp_size v"

definition terminated :: "(addr \<Rightarrow> nat) \<Rightarrow> CONF_PARSER \<Rightarrow> cf_memory \<Rightarrow> bool" where
  "terminated room v m \<longleftrightarrow>
     length (char_array (m (cp_vol v))) = room (cp_vol v) \<and>
     (if cp_size v < room (cp_vol v) then char_array (m (cp_vol v)) ! (room (cp_vol v) - 1) = NUL else NUL \<in> set (char_array (m (cp_vol v))))"

lemma terminated_NUL:
  assumes "terminated room v m"
  shows "NUL \<in> set (char_array (m (cp_vol v)))"
proof (cases "cp_size v < room (cp_vol v)")
  case True
  then show ?thesis using assms by (auto simp: terminated_def in_set_conv_nth intro!: exI [of _ "room (cp_vol v) - 1"])
qed (use assms in \<open>simp add: terminated_def\<close>)

lemma nth_strncpy_behind: "n \<le> i \<Longrightarrow> strncpy dst src n ! i = drop n dst ! (i - n)"
  unfolding strncpy_def by (subst nth_append_right) (auto simp: min_def)

lemma length_cstr: "length (cstr s) \<le> length s"
  by (simp add: cstr_def length_takeWhile_le)

lemma assign_terminated:
  assumes "terminated room v m" and "cp_type v = CF_TYPE_STRING" and "cp_size v \<le> room (cp_vol v)" and "safe_array (room (cp_vol v)) v"
    and "length s < 1024"
  shows "terminated room v (assign v s m)"
proof (cases "cp_size v < room (cp_vol v)")
  case True
  then have "cp_size v \<le> room (cp_vol v) - 1" by simp
  then show ?thesis using assms(1,2) True nth_strncpy_behind [of "cp_size v" "room (cp_vol v) - 1"] by (simp add: terminated_def assign_def)
next
  case False
  then have sz: "cp_size v = room (cp_vol v)" "1024 \<le> cp_size v" using assms(3,4) by (auto simp: safe_array_def)
  have "length (cstr s) < 1024" using assms(5) length_cstr [of s] by simp
  then have "NUL \<in> set (take (cp_size v) (cstr s @ replicate (cp_size v) NUL))" using sz by (auto simp: in_set_conv_nth nth_append intro!: exI [of _ "length (cstr s)"])
  then show ?thesis using assms(1,2) sz by (simp add: terminated_def assign_def strncpy_def)
qed

text \<open>The variables of a table whose terminator is safe.\<close>

definition table_terminated :: "(addr \<Rightarrow> nat) \<Rightarrow> CONF_PARSER list \<Rightarrow> cf_memory \<Rightarrow> bool" where
  "table_terminated room vs m \<longleftrightarrow>
     (\<forall>v \<in> set vs. cp_type v = CF_TYPE_STRING \<and> safe_array (room (cp_vol v)) v \<longrightarrow> cp_size v \<le> room (cp_vol v) \<and> terminated room v m)"

lemma assign_table:
  assumes "distinct (map cp_vol vs)" and "v \<in> set vs" and "length s < 1024" and "table_terminated room vs m"
  shows "table_terminated room vs (assign v s m)"
  unfolding table_terminated_def
proof (intro ballI impI)
  fix u assume u: "u \<in> set vs" "cp_type u = CF_TYPE_STRING \<and> safe_array (room (cp_vol u)) u"
  then have t: "cp_size u \<le> room (cp_vol u)" "terminated room u m" using assms(4) by (auto simp: table_terminated_def)
  show "cp_size u \<le> room (cp_vol u) \<and> terminated room u (assign v s m)"
  proof (cases "u = v")
    case True
    then show ?thesis using assign_terminated t u(2) assms(3) by blast
  next
    case False
    then have "cp_vol u \<noteq> cp_vol v" using assms(1,2) u(1) by (auto simp: distinct_map inj_on_def)
    then show ?thesis using t by (auto simp: terminated_def assign_other split: if_splits)
  qed
qed

lemma fold_table_terminated:
  assumes "distinct (map cp_vol vs)"
  shows "set us \<subseteq> set vs \<Longrightarrow> \<forall>u \<in> set us. length (f u) < 1024 \<Longrightarrow> table_terminated room vs m \<Longrightarrow>
    table_terminated room vs (fold (\<lambda>v m. if P v then assign v (f v) m else m) us m)"
  by (induction us arbitrary: m) (auto intro: assign_table [OF assms])

lemma parse_line_terminated:
  assumes "distinct (map cp_vol vs)" and "length buffer < 1024" and "table_terminated room vs m"
  shows "table_terminated room vs (parse_line vs buffer m)"
proof -
  let ?text = "takeWhile (\<lambda>c. c \<noteq> newline) (cstr buffer)"
  have "length (tl (dropWhile Q ?text)) < 1024" for Q
    using assms(2) length_cstr [of buffer] length_takeWhile_le [of "\<lambda>c. c \<noteq> newline" "cstr buffer"] length_dropWhile_le [of Q ?text] by simp
  then show ?thesis
    using fold_table_terminated [OF assms(1) subset_refl _ assms(3)] assms(3) by (simp add: parse_line_def apply_line_def Let_def)
qed

lemma parse_lines_terminated:
  "distinct (map cp_vol vs) \<Longrightarrow> table_terminated room vs m \<Longrightarrow> table_terminated room vs (parse_lines vs fd m)"
proof (induction vs fd m rule: parse_lines.induct)
  case (1 vs fd m)
  show ?case
  proof (cases "fgets 1023 fd")
    case None
    then show ?thesis using 1 by (subst parse_lines.simps) simp
  next
    case (Some r)
    obtain buffer rest where r: "r = (buffer, rest)" by force
    then have "length buffer < 1024" using Some by (auto simp: Conf.fgets_def Let_def split: if_splits)
    then show ?thesis using 1 Some r parse_line_terminated by (subst parse_lines.simps) simp
  qed
qed

text \<open>The tables of the program.\<close>

lemma static_terminated:
  assumes "\<forall>v \<in> set vs. cp_type v = CF_TYPE_STRING \<longrightarrow> cp_size v \<le> room (cp_vol v) \<and> 0 < room (cp_vol v)"
  shows "table_terminated room vs (static_memory vs room)"
  using assms by (auto simp: table_terminated_def terminated_def static_memory_def)

lemma tables_sound:
  "\<forall>(vs, sizes) \<in> set tables. distinct (map cp_vol vs) \<and>
     (\<forall>v \<in> set vs. length (cp_defvol v) < 1024 \<and> cp_type v \<noteq> CF_TYPE_LONG \<and>
        (cp_type v = CF_TYPE_STRING \<longrightarrow> cp_size v \<le> room_of sizes (cp_vol v) \<and> 0 < room_of sizes (cp_vol v) \<and> length (cp_defvol v) < cp_size v) \<and>
        (cp_type v = CF_TYPE_STRING \<and> cp_name v \<notin> set UNTERMINATED \<longrightarrow> safe_array (room_of sizes (cp_vol v)) v))"
  by (simp add: tables_def variables_defs str_var_def int_var_def room_of_def FILENAME_MAX_def UNTERMINATED_def safe_array_def)

lemma static_typed:
  assumes "distinct (map cp_vol vs)" and "\<forall>v \<in> set vs. cp_type v \<noteq> CF_TYPE_LONG"
    and "\<forall>v \<in> set vs. cp_type v = CF_TYPE_STRING \<longrightarrow> cp_size v \<le> room (cp_vol v)"
  shows "well_typed room vs (static_memory vs room)"
  unfolding well_typed_def
proof
  fix u assume u: "u \<in> set vs"
  have "w = u" if "w \<in> set vs" "cp_vol w = cp_vol u" for w
    using assms(1) u that unfolding distinct_map by (blast dest: inj_onD)
  then have "\<not> (\<exists>w \<in> set vs. cp_vol w = cp_vol u \<and> cp_type w = CF_TYPE_STRING)" if "cp_type u = CF_TYPE_INT" using that by force
  then show "typed (cp_type u) (room (cp_vol u)) (static_memory vs room (cp_vol u)) \<and> (cp_type u = CF_TYPE_STRING \<longrightarrow> cp_size u \<le> room (cp_vol u))"
    using u assms(2,3) by (cases "cp_type u") (auto simp: static_memory_def)
qed

lemma conf_parse_terminated:
  assumes d: "distinct (map cp_vol vs)" and "\<forall>v \<in> set vs. length (cp_defvol v) < 1024" and "table_terminated room vs m"
  shows "table_terminated room vs (snd (conf_parse files conf vs m))"
proof -
  have "table_terminated room vs (set_defaults vs m)"
    using fold_table_terminated [OF d subset_refl, of cp_defvol room m "\<lambda>_. True"] assms(2,3) by (simp add: set_defaults_def)
  then show ?thesis
    using assms(3) parse_lines_terminated [OF d] by (simp add: conf_parse_def Let_def split: option.splits)
qed

text \<open>
  C36 (settings). Whatever the configuration file contains, reading it into the static variables of any module keeps
  the types of the variables and the sizes of the arrays, and leaves every string with a terminator, except for the
  five strings whose declared size is the whole array: the console port, and name, user, password and database of the SQL server.
\<close>

theorem settings_terminated:
  assumes "(vs, sizes) \<in> set tables" and "conf_parse files conf vs (static_memory vs (room_of sizes)) = (res, m)" and "v \<in> set vs"
  shows "(case cp_type v of
      CF_TYPE_STRING \<Rightarrow> \<exists>s. m (cp_vol v) = VString s \<and> length s = room_of sizes (cp_vol v) \<and> (cp_name v \<notin> set UNTERMINATED \<longrightarrow> NUL \<in> set s)
    | CF_TYPE_INT \<Rightarrow> \<exists>i. m (cp_vol v) = VInt i
    | CF_TYPE_LONG \<Rightarrow> \<exists>i. m (cp_vol v) = VLong i)"
proof -
  let ?room = "room_of sizes" and ?m0 = "static_memory vs (room_of sizes)"
  have t: "distinct (map cp_vol vs)" "\<forall>v \<in> set vs. length (cp_defvol v) < 1024"
      "\<forall>v \<in> set vs. cp_type v = CF_TYPE_STRING \<longrightarrow> cp_size v \<le> ?room (cp_vol v) \<and> 0 < ?room (cp_vol v)"
      "cp_type v = CF_TYPE_STRING \<and> cp_name v \<notin> set UNTERMINATED \<longrightarrow> safe_array (?room (cp_vol v)) v"
    using tables_sound assms(1,3) by blast+
  have long: "\<forall>v \<in> set vs. cp_type v \<noteq> CF_TYPE_LONG" using tables_sound assms(1) by blast
  have m: "m = snd (conf_parse files conf vs ?m0)" using assms(2) by simp
  have "well_typed ?room vs m" unfolding m using t(1,3) long by (intro conf_parse_types static_typed) auto
  then have wt: "typed (cp_type v) (?room (cp_vol v)) (m (cp_vol v))" using assms(3) by (simp add: well_typed_def)
  have "table_terminated ?room vs m" unfolding m using t(1-3) by (intro conf_parse_terminated static_terminated) auto
  then have "NUL \<in> set (char_array (m (cp_vol v)))" if "cp_type v = CF_TYPE_STRING" "cp_name v \<notin> set UNTERMINATED"
    using that t(4) assms(3) terminated_NUL unfolding table_terminated_def by blast
  then show ?thesis using wt long assms(3) by (cases "cp_type v"; cases "m (cp_vol v)") auto
qed

theorem settings_terminated_witness:
  "\<exists>s. snd (conf_parse (\<lambda>_. Some ''log_file=x'') (Some \<lparr>cf_file = ''IPStat.conf''\<rparr>) log_variables
       (static_memory log_variables (room_of [FILENAME_MAX]))) 0 = VString s \<and> length s = FILENAME_MAX \<and> NUL \<in> set s"
  using settings_terminated [of log_variables "[FILENAME_MAX]" "\<lambda>_. Some ''log_file=x''" "Some \<lparr>cf_file = ''IPStat.conf''\<rparr>" _ _ "hd log_variables", OF _ prod.collapse [symmetric]]
  by (auto simp: tables_def log_variables_def str_var_def room_of_def UNTERMINATED_def)

text \<open>A port of ten digits fills its array; \<^verbatim>\<open>atoi\<close> reads on behind it.\<close>

lemma term_port_unterminated:
  "assign (hd server_variables) ''1234567890'' m 0 = VString (''1234567890'' @ drop 10 (char_array (m 0)))"
  by (simp add: server_variables_def str_var_def assign_def strncpy_def cstr_def NUL_def)

section \<open>Keys\<close>

text \<open>
  A key is compared with the name of a variable only up to the length of the name. No name of the program is the beginning of
  another one, except that a line for \<^verbatim>\<open>debug_console\<close> also sets \<^verbatim>\<open>debug\<close> in the main program.
\<close>

definition variable_names :: "string list" where
  "variable_names = remdups (concat (map (map cp_name \<circ> fst) tables))"

lemma variable_names:
  "variable_names = [''debug'', ''log_file'', ''term_port'', ''max_console_clients'', ''debug_console'', ''store_plugin'', ''name_server'', ''name_user'',
     ''password'', ''db_name'', ''core_sync_timeout'', ''plugin_dir'', ''ip_aggregation_timeout'', ''time_aggregation_timeout'', ''time_group_timeout'',
     ''squid_aggregation_timeout'', ''sync_url_policy_timeout'', ''collect_netfilter_size_buffer'', ''collect_pcap_size_buffer'', ''collect_pcap_lookup_dev'',
     ''collect_pppd_socket'', ''collect_pppd_max_servers'', ''collect_squid_socket'', ''collect_squid_copy'', ''collect_squid_max_servers'',
     ''collect_squid_deny_url'', ''sync_time_policy_timeout'', ''sync_group_limit_timeout'', ''secondary_daemon'', ''collect_squid_redirect_socket'']"
  by (simp add: variable_names_def tables_def variables_defs str_var_def int_var_def)

lemma names_prefix_free:
  "list_all (\<lambda>a. list_all (\<lambda>b. take (length a) b = a \<longrightarrow> a = b \<or> a = ''debug'' \<and> b = ''debug_console'') variable_names) variable_names"
  unfolding variable_names by code_simp

lemma names_lower: "list_all (\<lambda>a. map tolower a = a) variable_names"
  unfolding variable_names by code_simp

lemma in_variable_names: "(vs, sizes) \<in> set tables \<Longrightarrow> v \<in> set vs \<Longrightarrow> cp_name v \<in> set variable_names"
  unfolding variable_names_def set_remdups set_concat set_map by (rule UN_I [of "map cp_name vs"]) (auto intro!: rev_image_eqI [of "(vs, sizes)"])

theorem keys_unambiguous:
  assumes "(vs, sizes) \<in> set tables" "v \<in> set vs" "(ws, sizes') \<in> set tables" "w \<in> set ws" and "names v (cp_name w)"
  shows "cp_name v = cp_name w \<or> cp_name v = ''debug'' \<and> cp_name w = ''debug_console''"
proof -
  have m: "cp_name v \<in> set variable_names" "cp_name w \<in> set variable_names"
    using assms(1-4) in_variable_names by blast+
  then have "map tolower (cp_name v) = cp_name v" "map tolower (cp_name w) = cp_name w"
    using names_lower by (auto simp: list_all_iff)
  then have "take (length (cp_name v)) (cp_name w) = cp_name v" using assms(5) unfolding names_def by (metis take_map)
  then show ?thesis using names_prefix_free m by (fastforce simp: list_all_iff)
qed

section \<open>The plug-ins\<close>

definition netfilter_info :: PLUGIN_INFO where
  "netfilter_info = \<lparr>pi_api_version = 1, pi_type = IPSTAT_PLUGIN_COLLECTOR, pi_id = ''401nti'', pi_name = ''netfilter_time_ip'',
     pi_version = ''0.1'', pi_author = ''Kukuev Dmitry''\<rparr>"

definition pcap_info :: PLUGIN_INFO where
  "pcap_info = \<lparr>pi_api_version = 1, pi_type = IPSTAT_PLUGIN_COLLECTOR, pi_id = ''401pti'', pi_name = ''pcap_time_ip'',
     pi_version = ''0.1'', pi_author = ''Kukuev Dmitry''\<rparr>"

definition pppd_info :: PLUGIN_INFO where
  "pppd_info = \<lparr>pi_api_version = 1, pi_type = IPSTAT_PLUGIN_COLLECTOR, pi_id = ''100isi'', pi_name = ''pppd'',
     pi_version = ''0.1'', pi_author = ''Kukuev Dmitry''\<rparr>"

definition squid_info :: PLUGIN_INFO where
  "squid_info = \<lparr>pi_api_version = 1, pi_type = IPSTAT_PLUGIN_COLLECTOR, pi_id = ''401nti'', pi_name = ''squid'',
     pi_version = ''0.1'', pi_author = ''Kukuev Dmitry''\<rparr>"

definition time_policy_info :: PLUGIN_INFO where
  "time_policy_info = \<lparr>pi_api_version = 1, pi_type = IPSTAT_PLUGIN_SERVICE, pi_id = ''401nti'', pi_name = ''system_time_police'',
     pi_version = ''0.1'', pi_author = ''Kukuev Dmitry''\<rparr>"

definition group_limit_info :: PLUGIN_INFO where
  "group_limit_info = \<lparr>pi_api_version = 1, pi_type = IPSTAT_PLUGIN_SERVICE, pi_id = ''401nti'', pi_name = ''system_group_limit'',
     pi_version = ''0.1'', pi_author = ''Kukuev Dmitry''\<rparr>"

definition users_group_limit_info :: PLUGIN_INFO where
  "users_group_limit_info = \<lparr>pi_api_version = 1, pi_type = IPSTAT_PLUGIN_SERVICE, pi_id = ''401nti'', pi_name = ''system_users_group_limit'',
     pi_version = ''0.1'', pi_author = ''Kukuev Dmitry''\<rparr>"

text \<open>The files the build installs in the plug-in directory, and the functions a library of each type defines.\<close>

definition installed :: "(string \<times> PLUGIN_INFO) list" where
  "installed =
     [(''libipstat_mysql.so'', mysql_info), (''libipstat_collect_netfilter_time_ip.so'', netfilter_info),
      (''libipstat_collect_pcap_time_ip.so'', pcap_info), (''libipstat_collect_pppd.so'', pppd_info), (''libipstat_collect_squid.so'', squid_info),
      (''libipstat_system.so'', system_info), (''libipstat_system_time_policy.so'', time_policy_info),
      (''libipstat_system_group_limit.so'', group_limit_info), (''libipstat_system_users_group_limit.so'', users_group_limit_info)]"

definition symbols_of :: "PLUGIN_INFO \<Rightarrow> string set" where
  "symbols_of info = insert ''info'' (if pi_type info = IPSTAT_PLUGIN_STORE then set STORE_SYMBOLS else {''load'', ''unload''})"

lemmas info_defs = mysql_info_def netfilter_info_def pcap_info_def pppd_info_def squid_info_def system_info_def time_policy_info_def
  group_limit_info_def users_group_limit_info_def

text \<open>The linker opens the installed files, numbered as in the list.\<close>

definition linked :: "(string \<Rightarrow> library option) \<Rightarrow> string \<Rightarrow> bool" where
  "linked dlopen dir \<longleftrightarrow> (\<forall>i < length installed. dlopen (dir @ ''/'' @ fst (installed ! i)) =
     Some \<lparr>lib_id = i, lib_symbols = symbols_of (snd (installed ! i)), lib_info = Some (snd (installed ! i))\<rparr>)"

lemma installed_simps:
  "length installed = 9" "\<forall>(f, info) \<in> set installed. plugin_name f \<and> length f < 50"
  by (simp_all add: installed_def plugin_name_def)

lemma linked_found:
  assumes "linked dlopen dir" and "i < 9" and "w \<noteq> IPSTAT_PLUGIN_STORE"
  shows "found dlopen w st dir (fst (installed ! i)) =
    (if pi_type (snd (installed ! i)) = w
     then Some \<lparr>pl_library = i, pl_name = pi_name (snd (installed ! i)), pl_info = snd (installed ! i), pl_status = st (fst (installed ! i))\<rparr>
     else None)"
proof -
  have "installed ! i \<in> set installed" using assms(2) installed_simps(1) by simp
  then have "plugin_name (fst (installed ! i))" using bspec [OF installed_simps(2)] by (simp add: case_prod_beta)
  moreover have "pi_api_version (snd (installed ! i)) \<noteq> 0"
    using assms(2) by (auto simp: less_Suc_eq numeral_eq_Suc installed_def info_defs)
  ultimately show ?thesis
    using assms installed_simps(1) by (simp add: found_def linked_def usable_def module_node_def symbols_of_def)
qed

lemma set_found:
  assumes "linked dlopen dir" and "w \<noteq> IPSTAT_PLUGIN_STORE" and "\<forall>dp \<in> set dps. plugin_name (d_name dp) \<longrightarrow> d_name dp \<in> fst ` set installed"
    and "fst ` set installed \<subseteq> d_name ` set dps"
  shows "pl_name ` set (List.map_filter (\<lambda>dp. found dlopen w st dir (d_name dp)) dps) = pi_name ` {info \<in> snd ` set installed. pi_type info = w}"
    (is "?L = ?R")
proof
  show "?L \<subseteq> ?R"
  proof
    fix n assume "n \<in> ?L"
    then obtain dp c where dp: "dp \<in> set dps" "found dlopen w st dir (d_name dp) = Some c" "n = pl_name c"
      by (auto simp: List.map_filter_def)
    then have "d_name dp \<in> fst ` set installed" using assms(3) found_wanted(4) by blast
    then obtain i where i: "i < 9" "d_name dp = fst (installed ! i)" unfolding installed_simps(1) [symmetric] by (auto simp: in_set_conv_nth)
    then have "installed ! i \<in> set installed" using installed_simps(1) by simp
    then show "n \<in> ?R" using dp i linked_found [OF assms(1) i(1) assms(2), of st] by (auto split: if_splits)
  qed
  show "?R \<subseteq> ?L"
  proof
    fix n assume "n \<in> ?R"
    then obtain e where e: "e \<in> set installed" "pi_type (snd e) = w" "n = pi_name (snd e)" by auto
    then obtain i where i: "i < 9" "e = installed ! i" unfolding installed_simps(1) [symmetric] by (auto simp: in_set_conv_nth)
    obtain dp where dp: "dp \<in> set dps" "d_name dp = fst e" using assms(4) e(1) by auto
    then have "found dlopen w st dir (d_name dp) = Some \<lparr>pl_library = i, pl_name = n, pl_info = snd e, pl_status = st (fst e)\<rparr>"
      using linked_found [OF assms(1) i(1) assms(2), of st] e i(2) by simp
    with dp(1) show "n \<in> ?L" by (force simp: List.map_filter_def)
  qed
qed

text \<open>
  Installed plug-ins. When the directory holds the nine plug-ins of the build, among other files that are not named like
  one, and the linker opens them, the loader of the collectors lists exactly the four collectors, the loader of the
  system modules exactly the four system modules, and the store accepts the configured MySQL plug-in.
\<close>

theorem installed_plugins:
  assumes "linked dlopen dir" and "length dir < 149" and "\<forall>dp \<in> set dps. memory_ok dp"
    and "\<forall>dp \<in> set dps. plugin_name (d_name dp) \<longrightarrow> d_name dp \<in> fst ` set installed" and "fst ` set installed \<subseteq> d_name ` set dps"
  shows "\<exists>cs ss. col_init dlopen dlclose_null dir (Some dps) \<lparr>pg_api = True, pg_list = []\<rparr> = Some (1, \<lparr>pg_api = True, pg_list = cs\<rparr>) \<and>
     sys_init dlopen dlclose_null dir (Some dps) \<lparr>pg_api = True, pg_list = []\<rparr> = Some (1, \<lparr>pg_api = True, pg_list = ss\<rparr>) \<and>
     pl_name ` set cs = {''netfilter_time_ip'', ''pcap_time_ip'', ''pppd'', ''squid''} \<and>
     pl_name ` set ss = {''system'', ''system_time_police'', ''system_group_limit'', ''system_users_group_limit''} \<and>
     store_init True dlopen (dir @ ''/libipstat_mysql.so'') = Some 0"
proof -
  have p: "paths_ok dlopen dlclose_null dir dps"
    unfolding paths_ok_def
  proof (intro ballI impI)
    fix dp assume "dp \<in> set dps" "plugin_name (d_name dp)"
    then have "d_name dp \<in> fst ` set installed" using assms(4) by blast
    then obtain i where i: "i < length installed" "d_name dp = fst (installed ! i)" by (auto simp: in_set_conv_nth)
    then have "length (fst (installed ! i)) < 50" using bspec [OF installed_simps(2), of "installed ! i"] by (simp add: case_prod_beta)
    then show "length dir + length (d_name dp) < 199 \<and> (dlopen (dir @ ''/'' @ d_name dp) \<noteq> None \<or> dlclose_null = Some False)"
      using assms(1,2) i by (simp add: linked_def)
  qed
  note s = scan_dir_finds [OF assms(3) p]
  have "pi_name ` {info \<in> snd ` set installed. pi_type info = w} = set (map (\<lambda>e. pi_name (snd e)) (filter (\<lambda>e. pi_type (snd e) = w) installed))" for w
    by auto
  then have c: "pi_name ` {info \<in> snd ` set installed. pi_type info = IPSTAT_PLUGIN_COLLECTOR} = {''netfilter_time_ip'', ''pcap_time_ip'', ''pppd'', ''squid''}"
    and y: "pi_name ` {info \<in> snd ` set installed. pi_type info = IPSTAT_PLUGIN_SERVICE} =
      {''system'', ''system_time_police'', ''system_group_limit'', ''system_users_group_limit''}"
    by (simp_all add: installed_def info_defs IPSTAT_PLUGIN_COLLECTOR_def IPSTAT_PLUGIN_STORE_def IPSTAT_PLUGIN_SERVICE_def)
  have "dlopen (dir @ ''/libipstat_mysql.so'') = Some \<lparr>lib_id = 0, lib_symbols = symbols_of mysql_info, lib_info = Some mysql_info\<rparr>"
    using assms(1) by (simp add: linked_def installed_def) (metis nth_Cons_0 zero_less_Suc fst_conv snd_conv)
  then have "store_init True dlopen (dir @ ''/libipstat_mysql.so'') = Some 0"
    by (simp add: store_init_def all_symbols_iff symbols_of_def mysql_info_def subset_insertI)
  then show ?thesis
    using s set_found [OF assms(1) _ assms(4,5)] c y
    by (auto simp: col_init_def sys_init_def scan_plugins_def IPSTAT_PLUGIN_COLLECTOR_def IPSTAT_PLUGIN_STORE_def IPSTAT_PLUGIN_SERVICE_def)
qed

text \<open>A linker that knows the installed files.\<close>

definition demo_linker :: "string \<Rightarrow> library option" where
  "demo_linker path =
     map_of (map (\<lambda>i. (''lib/'' @ fst (installed ! i), \<lparr>lib_id = i, lib_symbols = symbols_of (snd (installed ! i)), lib_info = Some (snd (installed ! i))\<rparr>))
       [0..<9]) path"

lemma demo_linked: "linked demo_linker ''lib''"
  by (simp add: linked_def installed_simps(1) demo_linker_def upt_rec installed_def less_Suc_eq numeral_eq_Suc)

end
