(* ===== verification/Fifo.thy ===== *)
theory Fifo
  imports Squid_Collector Conf
begin

text \<open>
  The named pipe through which the proxy delivers its log (\<^verbatim>\<open>src/func_squid.c\<close>, \<^verbatim>\<open>fifo_create\<close> to
  \<^verbatim>\<open>fifo_read\<close>) and the copy of the log (\<^verbatim>\<open>save_copy\<close> in \<^verbatim>\<open>ipstat_collect_squid/main.c\<close>).
  The file is what \<^verbatim>\<open>stat\<close> says about it. The open pipe is the bytes the kernel holds, the bytes the C library has
  already read into the buffer of the stream, and whether the proxy still has it open. \<open>None\<close> is a read that blocks.

  The lemmas show that a pipe is opened only as a pipe, that reading loses and invents no byte, that the log of a proxy that has
  closed the pipe is delivered line by line, and that a line already in the buffer of the stream is withheld while the proxy is silent.
\<close>

section \<open>The file\<close>

datatype file_kind = Missing | StatError | NamedPipe | OtherFile

definition fifo_create :: "bool \<Rightarrow> file_kind \<Rightarrow> gboolean \<times> file_kind" where
  "fifo_create mkfifo_ok k = (if mkfifo_ok \<and> k = Missing then (1, NamedPipe) else (0, k))"

text \<open>Whether the stream is opened, and what is left in the directory.\<close>

definition fifo_open :: "bool \<Rightarrow> bool \<Rightarrow> bool \<Rightarrow> file_kind \<Rightarrow> bool \<times> file_kind" where
  "fifo_open unlink_ok mkfifo_ok fopen_ok k =
     (case k of
        StatError \<Rightarrow> (False, k)
      | NamedPipe \<Rightarrow> (fopen_ok, k)
      | Missing \<Rightarrow> (case fifo_create mkfifo_ok k of (res, k1) \<Rightarrow> (res = 1 \<and> fopen_ok, k1))
      | OtherFile \<Rightarrow> (case fifo_create mkfifo_ok (if unlink_ok then Missing else k) of (res, k1) \<Rightarrow> (res = 1 \<and> fopen_ok, k1)))"

definition fifo_close :: "bool \<Rightarrow> gboolean" where
  "fifo_close fclose_ok = (if fclose_ok then 1 else 0)"

lemma fifo_open_pipe: "fifo_open unlink_ok mkfifo_ok fopen_ok k = (True, k') \<Longrightarrow> k' = NamedPipe"
  by (auto simp: fifo_open_def fifo_create_def split: file_kind.splits if_splits)

section \<open>Reading\<close>

record fifo =
  ff_pipe :: string
  ff_buffer :: string
  ff_writer :: bool

text \<open>\<^verbatim>\<open>fgets\<close> with \<open>sz\<close> bytes; the library reads 4096 bytes at a time.\<close>

function fifo_gets :: "nat \<Rightarrow> fifo \<Rightarrow> (string \<times> fifo) option" where
  "fifo_gets sz s =
     (let buf = ff_buffer s;
          body = takeWhile (\<lambda>c. c \<noteq> newline) buf
      in if length body < length buf \<or> sz - 1 \<le> length buf
         then let line = take (sz - 1) (take (length body + 1) buf) in Some (line, s\<lparr>ff_buffer := drop (length line) buf\<rparr>)
         else if ff_pipe s \<noteq> [] then fifo_gets sz (s\<lparr>ff_buffer := buf @ take 4096 (ff_pipe s), ff_pipe := drop 4096 (ff_pipe s)\<rparr>)
         else if ff_writer s then None
         else Some (buf, s\<lparr>ff_buffer := []\<rparr>))"
  by pat_completeness auto

termination
  by (relation "measure (\<lambda>(sz, s). length (ff_pipe s))") auto

declare fifo_gets.simps [simp del]

text \<open>
  The wait for at most \<open>timeout\<close> microseconds looks at the bytes in the kernel, not at the buffer of the stream.
  \<open>select_ok\<close>: neither \<^verbatim>\<open>fileno\<close> nor \<^verbatim>\<open>select\<close> fails.
\<close>

definition fifo_read :: "nat \<Rightarrow> int \<Rightarrow> bool \<Rightarrow> fifo \<Rightarrow> (int \<times> string \<times> fifo) option" where
  "fifo_read sz timeout select_ok s =
     (if timeout \<noteq> 0 \<and> \<not> select_ok then Some (-2, [], s)
      else if timeout \<noteq> 0 \<and> ff_pipe s = [] \<and> ff_writer s then Some (-1, [], s)
      else do {
        (line, s') \<leftarrow> fifo_gets sz s;
        Some (if line = [] then (0, [], s') else (1, line, s'))
      })"

text \<open>The bytes not yet delivered.\<close>

abbreviation unread :: "fifo \<Rightarrow> string" where
  "unread s \<equiv> ff_buffer s @ ff_pipe s"

lemma fifo_gets_stream: "fifo_gets sz s = Some (line, s') \<Longrightarrow> line @ unread s' = unread s \<and> ff_writer s' = ff_writer s"
proof (induction sz s rule: fifo_gets.induct)
  case (1 sz s)
  then show ?case
    by (subst (asm) (2) fifo_gets.simps) (auto simp: Let_def split: if_splits)
qed

text \<open>A line behind which the stream goes on is delivered whole, wherever the library has cut the stream.\<close>

lemma fifo_gets_line:
  assumes "unread s = body @ [newline] @ tail" and "newline \<notin> set body" and "Suc (length body) < sz"
  shows "\<exists>s'. fifo_gets sz s = Some (body @ [newline], s') \<and> unread s' = tail \<and> ff_writer s' = ff_writer s"
  using assms
proof (induction sz s rule: fifo_gets.induct)
  case (1 sz s)
  let ?buf = "ff_buffer s" and ?body = "takeWhile (\<lambda>c. c \<noteq> newline) (ff_buffer s)"
  show ?case
  proof (cases "length body < length ?buf")
    case True
    then obtain us where us: "?buf = body @ us" "us \<noteq> []" "us @ ff_pipe s = newline # tail"
      using 1(2) by (auto simp: append_eq_append_conv2)
    then obtain r where r: "?buf = body @ [newline] @ r" "tail = r @ ff_pipe s" by (cases us) auto
    then have "?body = body" using 1(3) by (subst r(1), subst takeWhile_append2) auto
    then show ?thesis using r 1(4) by (subst fifo_gets.simps) (simp add: Let_def)
  next
    case False
    then obtain r where r: "body = ?buf @ r" "ff_pipe s = r @ [newline] @ tail"
      using 1(2) by (auto simp: append_eq_append_conv2)
    then have "newline \<notin> set ?buf" and p: "ff_pipe s \<noteq> []" using 1(3) by auto
    then have b: "length ?body = length ?buf" by (subst takeWhile_eq_all_conv [THEN iffD2]) auto
    have "\<not> sz - 1 \<le> length ?buf" using False 1(4) by simp
    then show ?thesis
      using 1 b p by (subst fifo_gets.simps) (simp add: Let_def)
  qed
qed

lemma fifo_gets_end: "unread s = [] \<Longrightarrow> \<not> ff_writer s \<Longrightarrow> 1 < sz \<Longrightarrow> fifo_gets sz s = Some ([], s)"
  by (subst fifo_gets.simps) (simp add: Let_def)

section \<open>The log\<close>

text \<open>What the collector is told by \<open>n\<close> calls with its buffer of 2023 bytes; it stops at the end of the pipe.\<close>

fun fifo_reads :: "nat \<Rightarrow> fifo \<Rightarrow> (int \<times> string) list option" where
  "fifo_reads 0 s = Some []"
| "fifo_reads (Suc n) s = do {
     (r, line, s') \<leftarrow> fifo_read 2023 10000 True s;
     if r = 0 then Some [(r, line)] else do { rs \<leftarrow> fifo_reads n s'; Some ((r, line) # rs) }
   }"

text \<open>
  Once the proxy has closed the pipe, the lines it has written are delivered one by one and in order, then the end is reported,
  however the library has split them between its buffer and the pipe.
\<close>

theorem fifo_delivers:
  assumes "unread s = concat (map (\<lambda>l. l @ [newline]) ls)" and "\<forall>l \<in> set ls. newline \<notin> set l \<and> length l < 2000"
    and "\<not> ff_writer s" and "length ls < n"
  shows "fifo_reads n s = Some (map (\<lambda>l. (1, l @ [newline])) ls @ [(0, [])])"
  using assms
proof (induction ls arbitrary: n s)
  case Nil
  then show ?case by (cases n) (simp_all add: fifo_read_def fifo_gets_end)
next
  case (Cons l ls)
  then obtain m where m: "n = Suc m" by (cases n) auto
  obtain s' where s': "fifo_gets 2023 s = Some (l @ [newline], s')" "unread s' = concat (map (\<lambda>l. l @ [newline]) ls)" "\<not> ff_writer s'"
    using fifo_gets_line [of s l "concat (map (\<lambda>l. l @ [newline]) ls)" 2023] Cons.prems by auto
  have "fifo_reads m s' = Some (map (\<lambda>l. (1, l @ [newline])) ls @ [(0, [])])"
    using Cons.prems(2,4) s'(2,3) m by (intro Cons.IH) auto
  then show ?case using s'(1) Cons.prems(3) m by (simp add: fifo_read_def)
qed

text \<open>
  While the proxy keeps the pipe open and writes nothing, every call reports a timeout, even if whole lines wait in the buffer of the stream:
  a burst of two lines is read into the buffer at once, and the second one is only delivered when the proxy writes again.
\<close>

theorem fifo_withholds:
  assumes "ff_pipe s = []" and "ff_writer s"
  shows "fifo_reads n s = Some (replicate n (-1, []))"
  by (induction n) (simp_all add: fifo_read_def assms)

lemma fifo_burst:
  "fifo_reads 5 \<lparr>ff_pipe = ''a'' @ [newline] @ ''b'' @ [newline], ff_buffer = [], ff_writer = True\<rparr> =
     Some [(1, ''a'' @ [newline]), (-1, []), (-1, []), (-1, []), (-1, [])]"
proof -
  let ?s = "\<lparr>ff_pipe = ''a'' @ [newline] @ ''b'' @ [newline], ff_buffer = [], ff_writer = True\<rparr>"
  have "fifo_gets 2023 ?s = Some (''a'' @ [newline], \<lparr>ff_pipe = [], ff_buffer = ''b'' @ [newline], ff_writer = True\<rparr>)"
    by (subst fifo_gets.simps, subst fifo_gets.simps) (simp add: Let_def newline_def)
  then show ?thesis
    using fifo_withholds [of "\<lparr>ff_pipe = [], ff_buffer = ''b'' @ [newline], ff_writer = True\<rparr>" 4]
    by (simp add: fifo_read_def numeral_eq_Suc)
qed

section \<open>The copy of the log\<close>

definition save_copy :: "bool \<Rightarrow> string \<Rightarrow> string \<Rightarrow> gboolean \<times> string" where
  "save_copy opens str copy = (if opens then (1, copy @ cstr str) else (0, copy))"

end
