(* ===== verification/Enforcement.thy ===== *)
theory Enforcement
  imports Packet_Collectors Group_Limit Users_Group_Limit
begin

text \<open>
  The modules of traffic limits at work: their hooks registered with the core, under the packet collectors. Each packet goes through
  authentication, the rules of the user, the authorization hook of the module, the accounting of the core and the accounting hook.

  The locale \<open>quota\<close> extends the contract of the two hooks by the numbers under which the core calls them. Its lemmas show, for
  any sequence of packets, that a limit is exceeded by less than one packet and that nothing is accounted to a limit once it
  is reached. Both modules interpret it.
\<close>

section \<open>The group of a packet\<close>

text \<open>Authorization by a rule stores the traffic group of one of the rules of the user.\<close>

lemma autz_traffic_rules_group:
  "autz_traffic_rules a port proto flag pd rs = Some (flag', pd') \<Longrightarrow>
     flag' = flag \<and> pd' = pd \<or> pd_id_traffic_group pd' \<in> nr_id_group ` set rs"
proof (induction rs arbitrary: flag pd)
  case (Cons r rs)
  then show ?case
    by (force simp: Let_def split: Option.bind_splits if_splits)
qed simp

lemma autz_builtin_group:
  assumes us: "st_users cu = Some us" and b: "autz_builtin SERVICE_TRAFFIC (APacket p) (RPacket pd) cu = Some (1, RPacket pd')"
  shows "\<exists>u \<in> set us. nu_id u = pd_id_user pd \<and> pd_id_traffic_group pd' \<in> nr_id_group ` set (nu_id_rules u)"
proof -
  obtain i where i: "find_index (\<lambda>u. nu_id u = pd_id_user pd) us = Some i"
    using us b by (auto simp: autz_builtin_def users_find_Some split: option.splits simp del: find_index_None_iff)
  obtain a port where ap: "peer p (pd_direct pd) = (a, port)" by force
  have at: "user_at cu i = us ! i" using us by (simp add: user_at_def)
  have "autz_traffic_rules a port (pi_proto p) 0 pd (nu_id_rules (us ! i)) = Some (1, pd')"
    using b i us ap by (auto simp: autz_builtin_def users_find_Some at Let_def split: if_splits)
  then have "pd_id_traffic_group pd' \<in> nr_id_group ` set (nu_id_rules (us ! i))"
    using autz_traffic_rules_group by fastforce
  then show ?thesis using find_index_SomeD [OF i] by (intro bexI [of _ "us ! i"]) auto
qed

text \<open>The rules of a user all belong to one traffic group.\<close>

definition only_group :: "NODE_USER list \<Rightarrow> IP_id \<Rightarrow> IP_id \<Rightarrow> bool" where
  "only_group us uid g \<longleftrightarrow> (\<forall>u \<in> set us. nu_id u = uid \<longrightarrow> (\<forall>r \<in> set (nu_id_rules u). nr_id_group r = g))"

lemma only_group_uncounted: "only_group (map uncounted us) uid g = only_group us uid g"
  by (simp add: only_group_def uncounted_rule_def)

lemma only_group_kept: "map uncounted us' = map uncounted us \<Longrightarrow> only_group us' = only_group us"
  using only_group_uncounted [of us] only_group_uncounted [of us'] by (simp add: fun_eq_iff)

section \<open>A limit under a packet\<close>

text \<open>What packets of at most \<open>M\<close> bytes may do to a limit that is not unlimited.\<close>

definition held_to :: "nat \<Rightarrow> 'a NODE_LIMIT_scheme \<Rightarrow> 'a NODE_LIMIT_scheme \<Rightarrow> bool" where
  "held_to M n n' \<longleftrightarrow> nl_limitation n' = nl_limitation n \<and> nl_onblocked n' = nl_onblocked n \<and>
     (nl_traffic n' = nl_traffic n \<or>
      limit_active n \<noteq> 0 \<and> unat (nl_traffic n) \<le> unat (nl_traffic n') \<and> unat (nl_traffic n') < unat (nl_limitation n) + M)"

lemma held_to_trans: "held_to M n n1 \<Longrightarrow> held_to M n1 n2 \<Longrightarrow> held_to M n n2"
  by (auto simp: held_to_def limit_active_def split: if_splits)

section \<open>The contract of the hooks under the core\<close>

locale quota = limit_hooks autz acct kn kp
  for autz :: "PACKET_DATA_INFO \<Rightarrow> 'a NODE_LIMIT_scheme list \<Rightarrow> gboolean" and acct kn and kp :: "PACKET_DATA_INFO \<Rightarrow> 'k" +
  fixes call :: "'a NODE_LIMIT_scheme list hook_call" and f_autz f_acct :: nat
  assumes call_autz: "call f_autz SERVICE_TRAFFIC d (RPacket p) l = (autz p l, RPacket p, l)"
    and call_acct: "call f_acct SERVICE_TRAFFIC d (RPacket p) l = (1, RPacket p, acct p l)"
    and keep: "hooks_keep call"
begin

lemma autz_active: "autz p l = 1 \<Longrightarrow> find (\<lambda>n. kn n = kp p) l = Some n \<Longrightarrow> limit_active n \<noteq> 0"
  by (cases "find_index (\<lambda>n. kn n = kp p) l")
    (auto simp: autz limit_autz_def find_index_find simp del: find_index_None_iff split: if_splits)

text \<open>Whatever rule of the user applies, his packets are subject to the limit under a key.\<close>

definition always :: "NODE_USER list \<Rightarrow> IP_id \<Rightarrow> 'k \<Rightarrow> bool" where
  "always us uid k \<longleftrightarrow>
     (\<forall>u \<in> set us. nu_id u = uid \<longrightarrow> (\<forall>pd. pd_id_user pd = uid \<and> pd_id_traffic_group pd \<in> nr_id_group ` set (nu_id_rules u) \<longrightarrow> kp pd = k))"

lemma always_uncounted: "always (map uncounted us) uid k = always us uid k"
  by (simp add: always_def uncounted_rule_def image_comp)

lemma always_kept: "map uncounted us' = map uncounted us \<Longrightarrow> always us' uid k = always us uid k"
  using always_uncounted by metis

text \<open>One packet: the module sees exactly the packets that pass, and with the structure on which it decided.\<close>

lemma account_packet_hooks:
  assumes inv: "collector_inv pc" and e: "env_ok env"
    and reg: "extern_autz (pc_core pc) = [f_autz]" "extern_acct (pc_core pc) = [f_acct]"
    and r: "account_packet call env p len pd pc = Some (passed, pd', pc')"
  shows "extern_acct (pc_core pc') = [f_acct] \<and>
    (if passed then autz pd' (pc_hooks pc) = 1 \<and> pc_hooks pc' = acct pd' (pc_hooks pc) \<and> pd_len pd' = len \<and>
        (\<exists>u \<in> set (collector_users pc). map_option snd (attributed (collector_users pc) p) = Some (nu_id u) \<and>
           pd_id_user pd' = nu_id u \<and> pd_id_traffic_group pd' \<in> nr_id_group ` set (nu_id_rules u))
     else pc_hooks pc' = pc_hooks pc)"
proof -
  obtain us where us: "st_users (pc_core pc) = Some us" "\<forall>u \<in> set us. masks_ok (nu_id_rules u)" "extern_auth (pc_core pc) = []"
    using inv by (auto simp: collector_inv_def)
  have cu: "collector_users pc = us" using us(1) by (simp add: collector_users_def)
  obtain pd1 where a1: "users_auth call SERVICE_TRAFFIC (APacket p) 1 (RPacket pd) (pc_core pc) (pc_hooks pc) =
        Some (if attributed us p = None then 0 else 1, RPacket pd1, pc_hooks pc)"
      "\<forall>d uid. attributed us p = Some (d, uid) \<longrightarrow> pd_direct pd1 = d \<and> pd_id_user pd1 = uid"
    using users_auth_attributed [OF us(1,3), of call p pd "pc_hooks pc"] by (elim exE conjE)
  let ?pd = "pd1\<lparr>pd_len := len\<rparr>"
  obtain pd2 where b: "autz_builtin SERVICE_TRAFFIC (APacket p) (RPacket ?pd) (pc_core pc) = Some (if autz_allowed us p ?pd then 1 else 0, RPacket pd2)"
      "pd_direct pd2 = pd_direct ?pd" "pd_id_user pd2 = pd_id_user ?pd" "pd_len pd2 = len"
    using autz_builtin_traffic [OF us(1)] us(2) by fastforce
  have a2: "users_autz call SERVICE_TRAFFIC (APacket p) 1 (RPacket ?pd) (pc_core pc) (pc_hooks pc) =
      Some (if autz_allowed us p ?pd then autz pd2 (pc_hooks pc) else 0, RPacket pd2, pc_hooks pc)"
    using us(1) b(1) reg(1) by (simp add: users_autz_def call_autz)
  show ?thesis
  proof (cases "attributed us p \<noteq> None \<and> autz_allowed us p ?pd \<and> autz pd2 (pc_hooks pc) = 1")
    case False
    then obtain pd3 where "account_packet call env p len pd pc = Some (False, pd3, pc)"
      using a1(1) a2 by (cases "attributed us p") (auto simp: account_packet_def)
    then show ?thesis using r reg(2) by simp
  next
    case True
    then obtain d uid where at: "attributed us p = Some (d, uid)" by auto
    then have k: "pd_id_user pd2 = uid" using a1(2) b(3) by simp
    have al: "autz_allowed us p pd2" using True autz_allowed_cong [OF b(2,3)] by simp
    then obtain i where i: "find_index (\<lambda>u. nu_id u = pd_id_user pd2) us = Some i" "i < length us" using allowed_index by blast
    let ?us = "us[i := charge_user (covers_packet p (pd_direct pd2)) (pd_len pd2) (us ! i)]"
    have a3: "users_acct call SERVICE_TRAFFIC (APacket p) 1 (RPacket pd2) (pc_core pc) (pc_hooks pc) =
        Some (1, RPacket pd2, (pc_core pc)\<lparr>st_users := Some ?us\<rparr>, acct pd2 (pc_hooks pc))"
      using us i acct_builtin_charges [OF us(1) i(1)] reg by (simp add: users_acct_def call_acct)
    obtain u where u: "u \<in> set us" "nu_id u = uid" "pd_id_traffic_group pd2 \<in> nr_id_group ` set (nu_id_rules u)"
      using autz_builtin_group [OF us(1), of p ?pd pd2] b(1,3) True k by auto
    have "pd' = pd2 \<and> passed \<and> extern_acct (pc_core pc') = [f_acct] \<and> pc_hooks pc' = acct pd2 (pc_hooks pc)"
      using r a1(1) a2 a3 True reg(2) by (auto simp: account_packet_def split: Option.bind_splits)
    then show ?thesis using True u k b(4) at cu by auto
  qed
qed

lemma acct_held_to:
  assumes n: "find (\<lambda>n. kn n = k) l = Some n" and a: "autz p l = 1" and u: "nl_limitation n \<noteq> -1"
    and m: "unat (pd_len p) \<le> M" "unat (nl_limitation n) + M < 2 ^ 64"
  shows "\<exists>n'. find (\<lambda>n. kn n = k) (acct p l) = Some n' \<and> held_to M n n'"
proof (cases "pd_not_sum p = 0 \<and> kp p = k")
  case True
  then have act: "limit_active n \<noteq> 0" using autz_active [OF a] n by simp
  then have t: "unat (nl_traffic n) < unat (nl_limitation n)" using u by (auto simp: limit_active_def word_le_nat_alt split: if_splits)
  have "unat (nl_traffic (limit_add (pd_len p) n)) = unat (nl_traffic n) + unat (pd_len p)"
    using t m limit_adds [of n "[p]"] by simp
  then have "held_to M n (limit_add (pd_len p) n)" using t m(1) act by (auto simp: held_to_def limit_add_def)
  then show ?thesis using True n by (simp add: acct_find)
next
  case False
  then show ?thesis using n by (auto simp: acct_find held_to_def)
qed

text \<open>A sequence of packets.\<close>

lemma account_all_limit:
  assumes inv: "collector_inv pc" and e: "\<forall>pk \<in> set ps. env_ok (snd (snd pk)) \<and> unat (fst (snd pk)) \<le> M"
    and reg: "extern_autz (pc_core pc) = [f_autz]" "extern_acct (pc_core pc) = [f_acct]"
    and n: "find (\<lambda>n. kn n = k) (pc_hooks pc) = Some n" "nl_limitation n \<noteq> -1" "unat (nl_limitation n) + M < 2 ^ 64"
    and r: "account_all call ps pd pc = Some (oks, pd', pc')"
  shows "(\<exists>n'. find (\<lambda>n. kn n = k) (pc_hooks pc') = Some n' \<and> held_to M n n') \<and>
    (limit_active n = 0 \<and> always (collector_users pc) uid k \<longrightarrow>
       (\<forall>(pk, ok) \<in> set (zip ps oks). ok \<longrightarrow> map_option snd (attributed (collector_users pc) (fst pk)) \<noteq> Some uid))"
  using assms
proof (induction ps arbitrary: pd pc oks n)
  case Nil
  then show ?case by (auto simp: held_to_def)
next
  case (Cons x ps)
  obtain p len env where x: "x = (p, len, env)" by (rule prod_cases3)
  obtain ok pd1 pc1 oks1 where 1: "account_packet call env p len pd pc = Some (ok, pd1, pc1)"
      and 2: "account_all call ps pd1 pc1 = Some (oks1, pd', pc')" "oks = ok # oks1"
    using Cons.prems(8) by (auto simp: x split: Option.bind_splits)
  have e: "env_ok env" "unat len \<le> M" using Cons.prems(2) x by auto
  obtain ok' pd1' pc1' where "account_packet call env p len pd pc = Some (ok', pd1', pc1')" "collector_inv pc1'"
      "extern_autz (pc_core pc1') = extern_autz (pc_core pc)"
      "if ok' then packet_booked env p len pc pc1' else pc_core pc1' = pc_core pc \<and> pc_time pc1' = pc_time pc \<and> pc_ip pc1' = pc_ip pc"
    using account_packet_step [OF Cons.prems(1) keep e(1), of p len pd] by (elim exE conjE)
  then have s: "collector_inv pc1" "extern_autz (pc_core pc1) = [f_autz]"
      "map uncounted (collector_users pc1) = map uncounted (collector_users pc)"
    using 1 Cons.prems(3) uncounted_charge_table by (auto simp: packet_booked_def collector_users_def split: if_splits)
  note h = account_packet_hooks [OF Cons.prems(1) e(1) Cons.prems(3,4) 1]
  obtain n1 where n1: "find (\<lambda>n. kn n = k) (pc_hooks pc1) = Some n1" "held_to M n n1"
  proof (cases ok)
    case True
    then show ?thesis using h acct_held_to [OF Cons.prems(5) _ Cons.prems(6), of pd1 M] e(2) Cons.prems(7) that by auto
  next
    case False
    then show ?thesis using h Cons.prems(5) that [of n] by (simp add: held_to_def)
  qed
  have same: "always (collector_users pc1) uid k = always (collector_users pc) uid k" "attributed (collector_users pc1) = attributed (collector_users pc)"
    using always_kept [OF s(3)] policy_kept(1) [OF s(3)] by simp_all
  have first: "map_option snd (attributed (collector_users pc) p) \<noteq> Some uid"
    if "limit_active n = 0" "always (collector_users pc) uid k" ok
  proof
    assume "map_option snd (attributed (collector_users pc) p) = Some uid"
    then have "kp pd1 = k" using h that(2,3) by (auto simp: always_def)
    then show False using autz_active [of pd1 "pc_hooks pc" n] h that(1,3) Cons.prems(5) by simp
  qed
  have u: "nl_limitation n1 = nl_limitation n" "limit_active n = 0 \<Longrightarrow> limit_active n1 = 0"
    using n1(2) by (auto simp: held_to_def limit_active_def split: if_splits)
  have "\<forall>pk \<in> set ps. env_ok (snd (snd pk)) \<and> unat (fst (snd pk)) \<le> M" using Cons.prems(2) by simp
  from Cons.IH [OF s(1) this s(2) _ n1(1) _ _ 2(1)] obtain n2 where n2: "find (\<lambda>n. kn n = k) (pc_hooks pc') = Some n2" "held_to M n1 n2"
      and later: "limit_active n1 = 0 \<and> always (collector_users pc) uid k \<longrightarrow>
        (\<forall>(pk, ok) \<in> set (zip ps oks1). ok \<longrightarrow> map_option snd (attributed (collector_users pc) (fst pk)) \<noteq> Some uid)"
    using h Cons.prems(6,7) unfolding same u(1) by blast
  have "held_to M n n2" using held_to_trans n1(2) n2(2) by blast
  moreover have "\<forall>(pk, ok) \<in> set (zip (x # ps) oks). ok \<longrightarrow> map_option snd (attributed (collector_users pc) (fst pk)) \<noteq> Some uid"
    if "limit_active n = 0" "always (collector_users pc) uid k"
    using first [OF that] later u(2) that unfolding 2(2) x by fastforce
  ultimately show ?case using n2(1) by blast
qed

end

section \<open>The two modules under the core\<close>

text \<open>The numbers the modules are registered under, one for each of their functions.\<close>

definition MY_AUTZ :: nat where "MY_AUTZ = 1"
definition MY_ACCT :: nat where "MY_ACCT = 2"

text \<open>
  What the core calls; the functions read the structure as the one that belongs to the service, so the other cases do not
  arise under the core.
\<close>

definition gl_call :: "NODE_GROUP_LIMIT list hook_call" where
  "gl_call f service data ret l =
     (if f = MY_AUTZ then (case gl_my_autz service ret l of None \<Rightarrow> (0, ret, l) | Some res \<Rightarrow> (res, ret, l))
      else if f = MY_ACCT then (case gl_my_acct service ret l of None \<Rightarrow> (0, ret, l) | Some (res, l') \<Rightarrow> (res, ret, l'))
      else (0, ret, l))"

definition ugl_call :: "NODE_LIMIT list hook_call" where
  "ugl_call f service data ret l =
     (if f = MY_AUTZ then (case ugl_my_autz service ret l of None \<Rightarrow> (0, ret, l) | Some res \<Rightarrow> (res, ret, l))
      else if f = MY_ACCT then (case ugl_my_acct service ret l of None \<Rightarrow> (0, ret, l) | Some (res, l') \<Rightarrow> (res, ret, l'))
      else (0, ret, l))"

interpretation gl_quota: quota gl_autz_packet gl_acct_packet "\<lambda>n. (gl_id_user n, nl_id_group n)" "\<lambda>p. (pd_id_user p, pd_id_traffic_group p)"
    gl_call MY_AUTZ MY_ACCT
  by unfold_locales
    (auto simp: gl_call_def gl_autz_packet_def gl_acct_packet_def gl_my_autz_def gl_my_acct_def MY_AUTZ_def MY_ACCT_def hooks_keep_def split: option.splits)

interpretation ugl_quota: quota ugl_autz_packet ugl_acct_packet nl_id_group pd_id_group_user ugl_call MY_AUTZ MY_ACCT
  by unfold_locales
    (auto simp: ugl_call_def ugl_autz_packet_def ugl_acct_packet_def ugl_my_autz_def ugl_my_acct_def MY_AUTZ_def MY_ACCT_def hooks_keep_def split: option.splits)

lemma only_group_always: "only_group us uid g \<Longrightarrow> gl_quota.always us uid (uid, g)"
  by (auto simp: only_group_def gl_quota.always_def)

section \<open>Properties\<close>

lemma length_account_all: "account_all call ps pd pc = Some (oks, pd', pc') \<Longrightarrow> length oks = length ps"
  by (induction ps arbitrary: pd pc oks) (auto split: Option.bind_splits)

text \<open>
  C4 (limits on packets). Let the netfilter thread run with the module of group limits registered, on packets of at most \<open>M\<close> bytes.
  Whatever packets arrive, the counter of the limit of a user for a traffic group ends where it was or below the limit plus one
  packet. If all rules of the user belong to the group and the limit is blocked or already reached, every packet of the user
  is refused: none of them is accounted anywhere, and each is answered first with \<open>NF_DROP\<close>.
\<close>

theorem netfilter_quota:
  assumes "verdict_queue lib sent" and "\<forall>e \<in> set es. readable_event e" and "collector_inv (iq_collector st)"
    and "extern_autz (pc_core (iq_collector st)) = [MY_AUTZ]" and "extern_acct (pc_core (iq_collector st)) = [MY_ACCT]"
    and "\<forall>pk \<in> set (ipq_packets es). unat (fst (snd (snd pk))) \<le> M"
    and "find (\<lambda>n. (gl_id_user n, nl_id_group n) = (uid, g)) (pc_hooks (iq_collector st)) = Some n"
    and "nl_limitation n \<noteq> -1" and "unat (nl_limitation n) + M < 2 ^ 64"
  shows "\<exists>oks st' n'. thr_ipq_loop gl_call lib es st = Some st' \<and> length oks = length (ipq_packets es) \<and>
     sent (iq_queue st') = sent (iq_queue st) @ concat (map2 verdict_pair (map fst (ipq_packets es)) oks) \<and>
     books (map fst (filter snd (zip (map snd (ipq_packets es)) oks))) (iq_collector st) (iq_collector st') \<and>
     find (\<lambda>n. (gl_id_user n, nl_id_group n) = (uid, g)) (pc_hooks (iq_collector st')) = Some n' \<and> nl_limitation n' = nl_limitation n \<and>
     (nl_traffic n' = nl_traffic n \<or> unat (nl_traffic n') < unat (nl_limitation n) + M) \<and>
     ((nl_onblocked n \<noteq> 0 \<or> nl_limitation n \<le> nl_traffic n) \<and> only_group (collector_users (iq_collector st)) uid g \<longrightarrow>
        (\<forall>(pk, ok) \<in> set (zip (map snd (ipq_packets es)) oks).
           map_option snd (attributed (collector_users (iq_collector st)) (fst pk)) = Some uid \<longrightarrow> \<not> ok))"
proof -
  let ?ps = "map snd (ipq_packets es)" and ?pc = "iq_collector st"
  have e: "\<forall>pk \<in> set ?ps. env_ok (snd (snd pk))"
    using assms(2) by (induction es rule: ipq_packets.induct) (auto split: option.splits)
  then have e': "\<forall>pk \<in> set ?ps. env_ok (snd (snd pk)) \<and> unat (fst (snd pk)) \<le> M" using assms(6) by auto
  obtain oks pd' pc' where r: "account_all gl_call ?ps (iq_data st) ?pc = Some (oks, pd', pc')"
      and b: "books (map fst (filter snd (zip ?ps oks))) ?pc pc'"
    using account_all_books [OF assms(3) gl_quota.keep e] by blast
  obtain st' where s: "thr_ipq_loop gl_call lib es st = Some st'" "iq_collector st' = pc'"
      "sent (iq_queue st') = sent (iq_queue st) @ concat (map2 verdict_pair (map fst (ipq_packets es)) oks)"
    using thr_ipq_loop_account [OF assms(1,2) r] by blast
  note q = gl_quota.account_all_limit [OF assms(3) e' assms(4,5,7-9) r, of uid]
  then obtain n' where n': "find (\<lambda>n. (gl_id_user n, nl_id_group n) = (uid, g)) (pc_hooks pc') = Some n'" "held_to M n n'" by blast
  have "limit_active n = 0" if "nl_onblocked n \<noteq> 0 \<or> nl_limitation n \<le> nl_traffic n" using that assms(8) by (simp add: limit_active_def)
  then have "\<forall>(pk, ok) \<in> set (zip ?ps oks). map_option snd (attributed (collector_users ?pc) (fst pk)) = Some uid \<longrightarrow> \<not> ok"
    if "nl_onblocked n \<noteq> 0 \<or> nl_limitation n \<le> nl_traffic n" "only_group (collector_users ?pc) uid g"
    using q that only_group_always [OF that(2)] by fastforce
  then show ?thesis using s b n' length_account_all [OF r] by (intro exI [of _ oks] exI [of _ st'] exI [of _ n']) (auto simp: held_to_def)
qed

definition ex_quota :: "NODE_GROUP_LIMIT list packet_collector" where
  "ex_quota = \<lparr>pc_core = ex_core\<lparr>extern_autz := [MY_AUTZ], extern_acct := [MY_ACCT]\<rparr>, pc_time = empty_time, pc_ip = empty_ip,
     pc_hooks = [ex_group_limit\<lparr>nl_traffic := 100\<rparr>]\<rparr>"

theorem netfilter_quota_witness:
  "\<exists>st'. thr_ipq_loop gl_call ex_ipq [IPQM_PACKET 1 (ex_msg [10, 0, 0, 7]) Packet_Collectors.ex_env]
       \<lparr>iq_collector = ex_quota, iq_data = ex_pd, iq_queue = []\<rparr> = Some st' \<and> iq_queue st' = [(1, NF_DROP), (1, NF_ACCEPT)]"
proof -
  let ?es = "[IPQM_PACKET 1 (ex_msg [10, 0, 0, 7]) Packet_Collectors.ex_env]"
  let ?st = "\<lparr>iq_collector = ex_quota, iq_data = ex_pd, iq_queue = []\<rparr>" and ?n = "ex_group_limit\<lparr>nl_traffic := 100\<rparr>"
  have 1: "verdict_queue ex_ipq (\<lambda>q. q)" by (simp add: verdict_queue_def ex_ipq_def)
  have 2: "\<forall>e \<in> set ?es. readable_event e" by (simp add: ex_msg_packet env_ok_def Packet_Collectors.ex_env_def)
  have 3: "collector_inv (iq_collector ?st)" "extern_autz (pc_core (iq_collector ?st)) = [MY_AUTZ]" "extern_acct (pc_core (iq_collector ?st)) = [MY_ACCT]"
    using empty_ip_inv ex_masks empty_time_inv(1) by (auto simp: collector_inv_def ex_quota_def ex_core_def empty_ip_def)
  have 4: "\<forall>pk \<in> set (ipq_packets ?es). unat (fst (snd (snd pk))) \<le> 1500" by (simp add: ex_msg_packet)
  have 5: "find (\<lambda>n. (gl_id_user n, nl_id_group n) = (7, 3)) (pc_hooks (iq_collector ?st)) = Some ?n" "nl_limitation ?n \<noteq> -1"
      "unat (nl_limitation ?n) + 1500 < 2 ^ 64" by (simp_all add: ex_quota_def ex_group_limit_def)
  have u: "collector_users ex_quota = ex_users" by (simp add: collector_users_def ex_quota_def ex_core_def)
  moreover have "only_group ex_users 7 3" by (simp add: only_group_def ex_users_def zero_user_def ex_rule_def)
  moreover have "nl_limitation ?n \<le> nl_traffic ?n" by (simp add: ex_group_limit_def)
  ultimately show ?thesis
    using netfilter_quota [OF 1 2 3 4 5] ex_attributed(1)
    by (auto simp: ex_msg_packet length_Suc_conv verdict_pair_def)
qed

end
