(* ===== verification/Spec2Isabelle.thy ===== *)
theory Spec2Isabelle
  imports Glist Core_Sync Func_Ip Func_Time Func_Squid Threads Sched Server Conf Url_Policy Time_Policy Group_Limit Users_Group_Limit
    Packet_Collectors Squid_Collector Pppd_Collector Core_Control System_Plugin Store_Plugin Logging Daemon Listeners Squid_Helper
    Inventory Fifo Enforcement
begin

text \<open>
  A verification of IPStat 4.03.3, a daemon that attributes network packets and proxy requests to the users of a local
  network, decides whether to let them through, counts their traffic and books it in an SQL database.

  \<^bold>\<open>The program.\<close> The core (\<^verbatim>\<open>src/core_users.c\<close>) keeps the table of users with their
  rules and answers three questions for a collector: whose packet is it (authentication), may it pass (authorization), and
  what does it cost (accounting). Plug-ins add hooks to each question: the limits for groups of traffic and of users, and the
  time policies. The accounting modules \<^verbatim>\<open>src/func_ip.c\<close>, \<^verbatim>\<open>src/func_time.c\<close> and
  \<^verbatim>\<open>src/func_squid.c\<close> aggregate what has passed, in balanced trees (\<^verbatim>\<open>src/gtree.c\<close>) or
  lists (\<^verbatim>\<open>src/glist.c\<close>). A scheduler (\<^verbatim>\<open>src/sched.c\<close>) runs the periodic jobs: the export
  of the counters, the synchronisation of users, limits and policies with the tables, the daily, weekly and monthly
  turnover (\<^verbatim>\<open>src/tasks.c\<close>). A control server (\<^verbatim>\<open>src/server.c\<close>) offers commands over a
  connection, on a thread pool (\<^verbatim>\<open>src/threads.c\<close>). All of them reach the database through
  \<^verbatim>\<open>STORE_API\<close> and read their settings through \<^verbatim>\<open>src/conf.c\<close>.

  \<^bold>\<open>Conventions.\<close> A machine integer is a word of its width on the i386 ABI; a fixed-size array is a string
  of that length, stale bytes included. \<open>None\<close> as the result of an operation is undefined behaviour of the C
  code (null or freed pointer, access out of range, division by zero), or the exit or deadlock the theory names. The results of
  \<^verbatim>\<open>malloc\<close> and of thread creation, the clock, \<^verbatim>\<open>localtime\<close> and \<^verbatim>\<open>mktime\<close>, regular
  expressions and floating point conversions are arguments. The database is a record of functions over a world type; SQL
  statements are the texts the code builds, and what SQL promises about them is a named predicate, with a small database that
  satisfies it for the witnesses. Function pointers are numbers, called through an argument. Log messages, mutexes and the release of
  memory are left out, except where the property is about them.

  \<^bold>\<open>Theories.\<close>
  \<^item> \<open>Prelude\<close>: types of \<^verbatim>\<open>include/types.h\<close>, the C library functions the sources use, lemmas
    on the first list element with a property, the locale \<open>comparator\<close> for comparison functions.
  \<^item> \<open>Glist\<close> (\<^verbatim>\<open>src/glist.c\<close>): cells in a heap, pointers as addresses. Sorting is a stable sorted
    permutation done in place; find and remove unlink the first match; the deep copy copies; \<^verbatim>\<open>g_list_free\<close> reads freed memory. The
    locale \<open>pointer_list\<close> is its contract on lists of data; the other theories use plain lists.
  \<^item> \<open>Gtree\<close> (\<^verbatim>\<open>src/gtree.c\<close>): AVL trees. Insertion keeps order and balance and is a map update (the locale
    \<open>ordered_map\<close>); traversals visit every entry once; the height is logarithmic.
  \<^item> \<open>Inet\<close> (\<^verbatim>\<open>src/inet.c\<close>): addresses, masks, ports, reading a packet.
  \<^item> \<open>Store\<close> (\<^verbatim>\<open>include/store.h\<close>) and \<open>Misc\<close> (\<^verbatim>\<open>src/misc.c\<close>): the database
    interface, tokens and arguments, time stamps. \<open>Tables\<close>: creating the tables at start-up. \<open>Tasks\<close>
    (\<^verbatim>\<open>src/tasks.c\<close>): the transactional jobs are all or nothing and end after four attempts; the limit
    check activates exactly the users and rules within their limits.
  \<^item> \<open>Core_Users\<close> and \<open>Core_Sync\<close> (\<^verbatim>\<open>src/core_users.c\<close>): the three decisions, user table,
    loading, export. Booked plus pending traffic is conserved; synchronisation keeps the table consistent for every answer
    of the database.
  \<^item> \<open>Aggregation\<close>: what the accounting modules share (output, registrations, bounded retry of an export, the
    contract of a table of counters, the locale \<open>row_export\<close>). \<open>Func_Ip\<close>, \<open>Func_Time\<close>,
    \<open>Func_Squid\<close>: grouping, ledger and log.
  \<^item> \<open>Threads\<close> (\<^verbatim>\<open>src/threads.c\<close>): the pool as a step relation over requests, clean-ups and worker
    steps, with invariants over all interleavings; the ring buffer meets the contract \<open>bounded_fifo\<close>.
  \<^item> \<open>Registry\<close>: the locale \<open>name_registry\<close> of jobs with names, interpreted by \<open>Sched\<close>
    (\<^verbatim>\<open>src/sched.c\<close>: crontab lines, one turn of the manager) and \<open>Server\<close>
    (\<^verbatim>\<open>src/server.c\<close>: dispatch of commands, and exactly which input is undefined).
  \<^item> \<open>Conf\<close> (\<^verbatim>\<open>src/conf.c\<close>): the last matching line wins, types are kept.
  \<^item> \<open>Mirror\<close>: the code shared by the nine lists that copy a table, with the locales \<open>mirror_laws\<close> and
    \<open>mirror_digest\<close>; the loop over the rows computes the reference \<open>mirrored\<close>. Instances:
    \<open>Url_Policy\<close> (\<^verbatim>\<open>src/ipstat_url_policy.c\<close>), \<open>Time_Policy\<close>
    (\<^verbatim>\<open>ipstat_system_time_policy/main.c\<close>), \<open>Group_Limit\<close> and \<open>Users_Group_Limit\<close>
    (\<^verbatim>\<open>ipstat_system_group_limit/main.c\<close>, \<^verbatim>\<open>ipstat_system_users_group_limit/main.c\<close>) on
    \<open>Traffic_Limits\<close>, whose locales \<open>limit_mirror\<close> and \<open>limit_hooks\<close> both interpret.

  \<^item> \<open>Packet_Collectors\<close> (\<^verbatim>\<open>ipstat_collect_netfilter_time_ip/main.c\<close>,
    \<^verbatim>\<open>ipstat_collect_pcap_time_ip/main.c\<close>): a packet through core and aggregations. Over any sequence of packets the
    three books (user table, time, flows) agree with the packets that were accepted, and only permitted ones are; both
    collectors read the same packet from the same bytes. \<open>Squid_Collector\<close>
    (\<^verbatim>\<open>ipstat_collect_squid/main.c\<close>): the same for the log of the proxy and the answers of the redirector, with the
    policies on URLs. \<open>Pppd_Collector\<close> (\<^verbatim>\<open>ipstat_collect_pppd/main.c\<close>) on \<open>Libxml\<close>
    (\<^verbatim>\<open>src/libxml.c\<close>): messages are read back as written; which requests are answered with what, and which fault.
  \<^item> \<open>Enforcement\<close>: the modules of traffic limits registered with the core under the packet collectors. The locale
    \<open>quota\<close>, interpreted by both modules, shows that no sequence of packets passes a limit by more than one packet.
  \<^item> \<open>Fifo\<close> (\<^verbatim>\<open>src/func_squid.c\<close>): the named pipe of the proxy log with the read-ahead of the C library: what is delivered,
    and what is withheld. \<open>Squid_Helper\<close> (\<^verbatim>\<open>redirector/main.c\<close>): the program between the proxy and the redirector
    thread; what the proxy reads is the decision of rules and policies.
  \<^item> \<open>Listeners\<close>: the threads that accept connections (\<^verbatim>\<open>thr_server\<close>, \<^verbatim>\<open>thr_auth_squid\<close>,
    \<^verbatim>\<open>thr_pppd\<close>) over any sequence of connections, errors and steps of the workers; every such sequence is a run of the pool.
  \<^item> \<open>Core_Control\<close> (\<^verbatim>\<open>src/core_users.c\<close>, \<^verbatim>\<open>src/core.c\<close>): commands, links and period of the core.
    \<open>Logging\<close> (\<^verbatim>\<open>src/log.c\<close>): one call, one line. \<open>Process\<close> (\<^verbatim>\<open>src/misc.c\<close>): pid file, step into
    the background, waiting for a program.
  \<^item> \<open>Loader\<close> and its two instances in \<open>Plugins\<close> (\<^verbatim>\<open>src/collectors.c\<close>,
    \<^verbatim>\<open>src/system.c\<close>): which files of the plug-in directory are found, which functions are called; the locale
    \<open>plugin_host\<close> says when the displayed status is true. \<open>System_Plugin\<close> (\<^verbatim>\<open>ipstat_system/main.c\<close>) interprets it.
    \<open>Store_Plugin\<close> (\<^verbatim>\<open>ipstat_mysql/main.c\<close>, \<^verbatim>\<open>src/store.c\<close>): the store interface on the MySQL client
    library, with the contract \<open>client_contract\<close> of the latter.
  \<^item> \<open>Daemon\<close> (\<^verbatim>\<open>src/main.c\<close>): command line, signals, start and end of the modules in their order, and the life of all
    plug-ins in a run. \<open>Inventory\<close>: the tables of settings and the descriptions of all modules; which settings stay C strings, which
    keys collide, and that the installed plug-ins are sorted as intended.

  \<^bold>\<open>Bounds.\<close> Every loop of the model is structural or has a termination proof, so no fuel is needed; only the
  pointer loops of \<open>Glist\<close> are partial functions, where \<open>None\<close> also stands for the endless walk around a
  cyclic list, and they are proved to return on proper lists. Retries are the ones of the code: four attempts of a
  transaction, \<^verbatim>\<open>n_repeat\<close> repetitions of an export. A job reads the clock once, unless the theory says otherwise.

  \<^bold>\<open>Not modelled.\<close> The dynamic linker, the MySQL client library, the libraries pcap, ipq and regex and the system
  calls are arguments: the model takes what they deliver. Allocations show up as arguments that say which of them succeed; only
  \<open>Glist\<close> and the wrappers of \<^verbatim>\<open>src/gfunc.c\<close> in \<open>Process\<close> work on a map of blocks.
  Mutual exclusion is taken for granted where the code takes a lock; the threads meet in the pool of \<open>Threads\<close>, the
  queue of the log and the ledger of \<open>Func_Time\<close>, where any order of their steps is covered. The hooks of the time
  policies are verified alone, not under the collectors as \<open>Enforcement\<close> does it for the limits.
\<close>

end
